(* ===== verification/Prelude.thy ===== *)
theory Prelude
  imports Main "HOL-Library.Word" "HOL-Library.AList"
begin

text \<open>
  Shared material of the development: machine integers at their C widths, the character
  classes of \<^verbatim>\<open><ctype.h>\<close> in the C locale, decimal and hexadecimal conversions as
  \<^verbatim>\<open>printf\<close> and \<^verbatim>\<open>strtoumax\<close> do them, and generic lemmas on lists.

  C strings are values of type \<^typ>\<open>string\<close> without the terminating NUL. A plain
  \<^verbatim>\<open>char\<close> is an 8-bit value; bytes from 128 on belong to no character class (the
  C locale) and are left alone by case conversion.
\<close>

unbundle bit_operations_syntax

named_theorems ctype_simps \<open>definitions of the character classes\<close>
named_theorems frame_simps \<open>fields an operation leaves unchanged\<close>

section \<open>Machine integers\<close>

type_synonym byte = "8 word"
type_synonym u32 = "32 word"
type_synonym u64 = "64 word"

text \<open>The value of an \<^verbatim>\<open>int\<close> (32 bits) and of a \<^verbatim>\<open>short\<close> (16 bits) after conversion.\<close>

definition to_int32 :: "int \<Rightarrow> int" where
  "to_int32 x = signed_take_bit 31 x"

definition to_int16 :: "int \<Rightarrow> int" where
  "to_int16 x = signed_take_bit 15 x"

definition to_int64 :: "int \<Rightarrow> int" where
  "to_int64 x = signed_take_bit 63 x"

lemma to_int64_id: "- (2 ^ 63) \<le> x \<Longrightarrow> x < 2 ^ 63 \<Longrightarrow> to_int64 x = x"
  unfolding to_int64_def by (rule signed_take_bit_int_eq_self) simp_all

lemma to_int32_id: "- (2 ^ 31) \<le> x \<Longrightarrow> x < 2 ^ 31 \<Longrightarrow> to_int32 x = x"
  unfolding to_int32_def by (rule signed_take_bit_int_eq_self) simp_all

lemma to_int16_id: "- (2 ^ 15) \<le> x \<Longrightarrow> x < 2 ^ 15 \<Longrightarrow> to_int16 x = x"
  unfolding to_int16_def by (rule signed_take_bit_int_eq_self) simp_all

section \<open>Characters\<close>

text \<open>The byte value of a character, as a natural number below 256.\<close>

abbreviation ord :: "char \<Rightarrow> nat" where
  "ord c \<equiv> of_char c"

text \<open>A plain (signed) \<^verbatim>\<open>char\<close> widened to \<^verbatim>\<open>int\<close>.\<close>

definition char_int :: "char \<Rightarrow> int" where
  "char_int c = sint (of_char c :: byte)"

abbreviation NUL_char :: char where
  "NUL_char \<equiv> CHR 0x00"

definition isdigit :: "char \<Rightarrow> bool" where
  "isdigit c \<longleftrightarrow> 48 \<le> ord c \<and> ord c \<le> 57"

definition isupper :: "char \<Rightarrow> bool" where
  "isupper c \<longleftrightarrow> 65 \<le> ord c \<and> ord c \<le> 90"

definition islower :: "char \<Rightarrow> bool" where
  "islower c \<longleftrightarrow> 97 \<le> ord c \<and> ord c \<le> 122"

definition isalpha :: "char \<Rightarrow> bool" where
  "isalpha c \<longleftrightarrow> isupper c \<or> islower c"

definition isalnum :: "char \<Rightarrow> bool" where
  "isalnum c \<longleftrightarrow> isalpha c \<or> isdigit c"

definition isxdigit :: "char \<Rightarrow> bool" where
  "isxdigit c \<longleftrightarrow> isdigit c \<or> (65 \<le> ord c \<and> ord c \<le> 70) \<or> (97 \<le> ord c \<and> ord c \<le> 102)"

definition isspace :: "char \<Rightarrow> bool" where
  "isspace c \<longleftrightarrow> (9 \<le> ord c \<and> ord c \<le> 13) \<or> ord c = 32"

definition iscntrl :: "char \<Rightarrow> bool" where
  "iscntrl c \<longleftrightarrow> ord c < 32 \<or> ord c = 127"

definition tolower :: "char \<Rightarrow> char" where
  "tolower c = (if isupper c then char_of (ord c + 32) else c)"

definition toupper :: "char \<Rightarrow> char" where
  "toupper c = (if islower c then char_of (ord c - 32) else c)"

lemmas char_class_defs [ctype_simps] =
  isdigit_def isupper_def islower_def isalpha_def isalnum_def isxdigit_def
  isspace_def iscntrl_def

lemma isdigit_isalnum [simp]: "isdigit c \<Longrightarrow> isalnum c"
  by (simp add: isalnum_def)

lemma isalpha_not_digit: "isalpha c \<Longrightarrow> \<not> isdigit c"
  by (auto simp: ctype_simps)

lemma tolower_tolower [simp]: "tolower (tolower c) = tolower c"
  by (auto simp: tolower_def isupper_def)

lemma tolower_toupper [simp]: "tolower (toupper c) = tolower c"
  by (auto simp: tolower_def toupper_def isupper_def islower_def)

lemma toupper_tolower [simp]: "toupper (tolower c) = toupper c"
  by (auto simp: tolower_def toupper_def isupper_def islower_def)

lemma toupper_eq_iff: "toupper a = toupper b \<longleftrightarrow> tolower a = tolower b"
  by (metis tolower_toupper toupper_tolower)

lemma toupper_toupper [simp]: "toupper (toupper c) = toupper c"
  by (auto simp: toupper_def islower_def)

lemma tolower_eq_0 [simp]: "ord (tolower c) = 0 \<longleftrightarrow> ord c = 0"
  by (auto simp: tolower_def isupper_def)

section \<open>Lists\<close>

lemma takeWhile_append_stop:
  "\<forall>x\<in>set xs. P x \<Longrightarrow> ys = [] \<or> \<not> P (hd ys) \<Longrightarrow> takeWhile P (xs @ ys) = xs"
  by (cases ys) auto

lemma dropWhile_append_stop:
  "\<forall>x\<in>set xs. P x \<Longrightarrow> ys = [] \<or> \<not> P (hd ys) \<Longrightarrow> dropWhile P (xs @ ys) = ys"
  by (cases ys) auto

lemma foldl_step_invariant:
  "(\<And>s x. I s \<Longrightarrow> x \<in> set xs \<Longrightarrow> I (f s x)) \<Longrightarrow> I s \<Longrightarrow> I (foldl f s xs)"
  by (induction xs arbitrary: s) auto

section \<open>Decimal and hexadecimal numerals\<close>

text \<open>\<^verbatim>\<open>%u\<close> of \<^verbatim>\<open>printf\<close>: the decimal digits, most significant first.\<close>

fun dec_of_nat :: "nat \<Rightarrow> string" where
  "dec_of_nat n =
     (if n < 10 then [char_of (48 + n)] else dec_of_nat (n div 10) @ [char_of (48 + n mod 10)])"

declare dec_of_nat.simps [simp del]

definition dec_of_int :: "int \<Rightarrow> string" where
  "dec_of_int i = (if i < 0 then CHR ''-'' # dec_of_nat (nat (- i)) else dec_of_nat (nat i))"

definition digit_val :: "char \<Rightarrow> nat" where
  "digit_val c = ord c - 48"

text \<open>The value of a run of digits, accumulated from the left as \<^verbatim>\<open>atoi\<close> does.\<close>

definition dec_value :: "string \<Rightarrow> nat" where
  "dec_value ds = foldl (\<lambda>n c. n * 10 + digit_val c) 0 ds"

lemma isdigit_char_of: "n < 10 \<Longrightarrow> isdigit (char_of (48 + n :: nat))"
  by (simp add: isdigit_def)

lemma dec_of_nat_digits: "c \<in> set (dec_of_nat n) \<Longrightarrow> isdigit c"
proof (induction n rule: dec_of_nat.induct)
  case (1 n)
  then show ?case
    by (subst (asm) (2) dec_of_nat.simps) (auto simp: isdigit_char_of split: if_splits)
qed

lemma dec_of_nat_not_Nil [simp]: "dec_of_nat n \<noteq> []"
  by (subst dec_of_nat.simps) simp

lemma dec_value_dec_of_nat [simp]: "dec_value (dec_of_nat n) = n"
proof (induction n rule: dec_of_nat.induct)
  case (1 n)
  then show ?case
    by (subst dec_of_nat.simps) (simp add: dec_value_def digit_val_def)
qed

text \<open>A hexadecimal digit, lower case, and the value of one (either case).\<close>

definition hex_digit :: "nat \<Rightarrow> char" where
  "hex_digit n = (if n < 10 then char_of (48 + n) else char_of (87 + n))"

definition xdigit_val :: "char \<Rightarrow> nat" where
  "xdigit_val c = (if isdigit c then ord c - 48 else ord (tolower c) - 97 + 10)"

lemma isxdigit_hex_digit [simp]: "n < 16 \<Longrightarrow> isxdigit (hex_digit n)"
  by (auto simp: isxdigit_def isdigit_def hex_digit_def)

lemma xdigit_val_hex_digit [simp]: "n < 16 \<Longrightarrow> xdigit_val (hex_digit n) = n"
  by (auto simp: xdigit_val_def hex_digit_def isdigit_def tolower_def isupper_def)

text \<open>\<^verbatim>\<open>%x\<close> with a minimal width and zero padding.\<close>

fun hex_of_nat :: "nat \<Rightarrow> string" where
  "hex_of_nat n =
     (if n < 16 then [hex_digit n] else hex_of_nat (n div 16) @ [hex_digit (n mod 16)])"

declare hex_of_nat.simps [simp del]

definition hex_pad :: "nat \<Rightarrow> nat \<Rightarrow> string" where
  "hex_pad w n = replicate (w - length (hex_of_nat n)) CHR ''0'' @ hex_of_nat n"

definition hex_value :: "string \<Rightarrow> nat" where
  "hex_value ds = foldl (\<lambda>n c. n * 16 + xdigit_val c) 0 ds"

lemma hex_value_hex_of_nat [simp]: "hex_value (hex_of_nat n) = n"
proof (induction n rule: hex_of_nat.induct)
  case (1 n)
  then show ?case
    by (subst hex_of_nat.simps) (simp add: hex_value_def)
qed

lemma hex_value_zeros: "hex_value (replicate k CHR ''0'' @ ds) = hex_value ds"
  by (induction k) (simp_all add: hex_value_def xdigit_val_def isdigit_def)

lemma hex_value_hex_pad [simp]: "hex_value (hex_pad w n) = n"
  by (simp add: hex_pad_def hex_value_zeros)

lemma hex_of_nat_length_le: "n < 16 ^ Suc w \<Longrightarrow> length (hex_of_nat n) \<le> Suc w"
proof (induction w arbitrary: n)
  case 0
  then show ?case by (subst hex_of_nat.simps) simp
next
  case (Suc w)
  then have "n div 16 < 16 ^ Suc w"
    by (simp add: less_mult_imp_div_less)
  with Suc.IH show ?case
    by (subst hex_of_nat.simps) auto
qed

lemma hex_of_nat_length_gt: "16 ^ Suc w \<le> n \<Longrightarrow> Suc w < length (hex_of_nat n)"
proof (induction w arbitrary: n)
  case 0
  then show ?case
    by (subst hex_of_nat.simps) (simp add: hex_of_nat.simps [of "n div 16"])
next
  case (Suc w)
  then have "16 ^ Suc w \<le> n div 16"
    by (simp add: less_eq_div_iff_mult_less_eq mult.commute)
  moreover have "\<not> n < 16"
    using Suc.prems by (meson le_trans not_le one_le_numeral one_le_power power_increasing
        self_le_power zero_less_Suc)
  ultimately show ?case using Suc.IH [of "n div 16"] by (subst hex_of_nat.simps) simp
qed

lemma length_hex_pad: "n < 16 ^ Suc w \<Longrightarrow> length (hex_pad (Suc w) n) = Suc w"
  using hex_of_nat_length_le [of n w] by (simp add: hex_pad_def)

lemma hex_pad_inj: "hex_pad w m = hex_pad w n \<longleftrightarrow> m = n"
  by (metis hex_value_hex_pad)

text \<open>\<^verbatim>\<open>strtoumax (s, NULL, 10)\<close>: 64 bits, saturating; a minus sign negates modulo \<open>2 ^ 64\<close>.\<close>

definition strtoumax :: "string \<Rightarrow> nat" where
  "strtoumax s =
     (let s1 = dropWhile isspace s;
          neg = (s1 \<noteq> [] \<and> hd s1 = CHR ''-'');
          s2 = (if s1 \<noteq> [] \<and> (hd s1 = CHR ''-'' \<or> hd s1 = CHR ''+'') then tl s1 else s1);
          v = dec_value (takeWhile isdigit s2)
      in if v > 2 ^ 64 - 1 then 2 ^ 64 - 1 else if neg then (2 ^ 64 - v) mod 2 ^ 64 else v)"

text \<open>\<^verbatim>\<open>atol\<close> (as \<^verbatim>\<open>strtol\<close>): 64 bits, saturating at both ends.\<close>

definition atol :: "string \<Rightarrow> int" where
  "atol s =
     (let s1 = dropWhile isspace s;
          neg = (s1 \<noteq> [] \<and> hd s1 = CHR ''-'');
          s2 = (if s1 \<noteq> [] \<and> (hd s1 = CHR ''-'' \<or> hd s1 = CHR ''+'') then tl s1 else s1);
          v = int (dec_value (takeWhile isdigit s2))
      in if neg then (if v > 2 ^ 63 then - (2 ^ 63) else - v)
         else if v > 2 ^ 63 - 1 then 2 ^ 63 - 1 else v)"

text \<open>\<^verbatim>\<open>atoi\<close>: the value of \<^verbatim>\<open>strtol\<close> converted to \<^verbatim>\<open>int\<close>.\<close>

definition atoi :: "string \<Rightarrow> int" where
  "atoi s = to_int32 (atol s)"

lemma dec_of_nat_Cons: "\<exists>c cs. dec_of_nat n = c # cs \<and> isdigit c"
  using dec_of_nat_not_Nil [of n] dec_of_nat_digits [of _ n] by (cases "dec_of_nat n") auto

lemma isdigit_not_special:
  "isdigit c \<Longrightarrow> \<not> isspace c" "isdigit c \<Longrightarrow> c \<noteq> CHR ''-''" "isdigit c \<Longrightarrow> c \<noteq> CHR ''+''"
  by (auto simp: ctype_simps)

lemma takeWhile_dec_of_nat: "ys = [] \<or> \<not> isdigit (hd ys) \<Longrightarrow> takeWhile isdigit (dec_of_nat n @ ys) = dec_of_nat n"
  by (rule takeWhile_append_stop) (auto dest: dec_of_nat_digits)

lemma strtoumax_dec_of_nat:
  assumes "n < 2 ^ 64" and "ys = [] \<or> \<not> isdigit (hd ys)"
  shows "strtoumax (dec_of_nat n @ ys) = n"
proof -
  let ?s = "dec_of_nat n @ ys"
  obtain c cs where c: "dec_of_nat n = c # cs" "isdigit c" using dec_of_nat_Cons by blast
  then have d: "dropWhile isspace ?s = ?s"
    and h: "hd ?s \<noteq> CHR ''-''" "hd ?s \<noteq> CHR ''+''"
    by (auto simp: isdigit_not_special)
  have t: "dec_value (takeWhile isdigit ?s) = n"
    by (simp only: takeWhile_dec_of_nat [OF assms(2)] dec_value_dec_of_nat)
  have "\<not> n > 2 ^ 64 - 1" using assms(1) by simp
  then show ?thesis unfolding strtoumax_def Let_def d by (simp only: h t simp_thms if_False)
qed

lemma atol_dec: "n < 2 ^ 63 \<Longrightarrow> atol (dec_of_nat n) = int n"
proof -
  assume n: "n < 2 ^ 63"
  obtain c cs where c: "dec_of_nat n = c # cs" "isdigit c" using dec_of_nat_Cons by blast
  then have d: "dropWhile isspace (dec_of_nat n) = dec_of_nat n"
    and h: "hd (dec_of_nat n) \<noteq> CHR ''-''" "hd (dec_of_nat n) \<noteq> CHR ''+''"
    by (auto simp: isdigit_not_special)
  have t: "dec_value (takeWhile isdigit (dec_of_nat n)) = n"
    using takeWhile_dec_of_nat [of "[]" n] by (simp only: append_Nil2 dec_value_dec_of_nat simp_thms)
  have "\<not> int n > 2 ^ 63 - 1" using n by simp
  then show ?thesis unfolding atol_def Let_def d by (simp only: h t simp_thms if_False)
qed

lemma atol_dec_minus: "n \<le> 2 ^ 63 \<Longrightarrow> atol (CHR ''-'' # dec_of_nat n) = - int n"
proof -
  assume n: "n \<le> 2 ^ 63"
  have d: "dropWhile isspace (CHR ''-'' # dec_of_nat n) = CHR ''-'' # dec_of_nat n"
    by (simp add: isspace_def)
  have t: "dec_value (takeWhile isdigit (dec_of_nat n)) = n"
    using takeWhile_dec_of_nat [of "[]" n] by (simp only: append_Nil2 dec_value_dec_of_nat simp_thms)
  have "\<not> int n > 2 ^ 63" using n by simp
  then show ?thesis unfolding atol_def Let_def d
    by (simp only: list.sel t simp_thms if_True if_False list.simps)
qed

lemma atoi_dec: "- (2 ^ 31) \<le> i \<Longrightarrow> i < 2 ^ 31 \<Longrightarrow> atoi (dec_of_int i) = i"
  using atol_dec [of "nat i"] atol_dec_minus [of "nat (- i)"] by (simp add: atoi_def dec_of_int_def to_int32_id)

text \<open>\<^verbatim>\<open>MAXPATHLEN\<close> as glibc defines it.\<close>

abbreviation MAXPATHLEN :: nat where "MAXPATHLEN \<equiv> 4096"

end
