(* ===== verification/Crypt.thy ===== *)
theory Crypt
  imports Prelude
begin

text \<open>
  Traffic encryption, \<^verbatim>\<open>crypt.c\<close> and \<^verbatim>\<open>crypt.h\<close>: the PKZIP stream cipher. The three keys
  are \<^verbatim>\<open>unsigned long\<close>, so their width depends on the platform; every definition is
  polymorphic in the word length and the platform theorem relates 64 and 32 bits. The
  interface the protocol relies on is the locale \<open>stream_cipher\<close>: frames are encrypted one
  by one while the peer decrypts whatever pieces the socket delivers.
\<close>

section \<open>The interface of a stream cipher\<close>

text \<open>Running a chunk transformer over the pieces of a stream, threading its state.\<close>

fun stream_run :: "('k \<Rightarrow> 'b list \<Rightarrow> 'b list \<times> 'k) \<Rightarrow> 'k \<Rightarrow> 'b list list \<Rightarrow> 'b list \<times> 'k" where
  "stream_run f k [] = ([], k)"
| "stream_run f k (c # cs) =
     (let (out, k') = f k c; (rest, k'') = stream_run f k' cs in (out @ rest, k''))"

locale chunked =
  fixes f :: "'k \<Rightarrow> 'b list \<Rightarrow> 'b list \<times> 'k"
  assumes f_Nil: "f k [] = ([], k)"
    and f_append: "f k (xs @ ys) =
      (let (out, k') = f k xs; (rest, k'') = f k' ys in (out @ rest, k''))"
begin

lemma stream_run_concat: "stream_run f k cs = f k (concat cs)"
  by (induction cs arbitrary: k) (simp_all add: f_Nil f_append)

end

locale stream_cipher = enc: chunked enc + dec: chunked dec
  for enc :: "'k \<Rightarrow> 'b list \<Rightarrow> 'b list \<times> 'k" and dec :: "'k \<Rightarrow> 'b list \<Rightarrow> 'b list \<times> 'k" +
  assumes dec_enc: "dec k (fst (enc k xs)) = (xs, snd (enc k xs))"
begin

lemma dec_stream_enc:
  assumes "concat pieces = fst (stream_run enc k frames)"
  shows "stream_run dec k pieces = (concat frames, snd (stream_run enc k frames))"
  using assms by (simp add: enc.stream_run_concat dec.stream_run_concat dec_enc)

end

section \<open>The cipher\<close>

definition crc_32_tab :: "int list" where
  "crc_32_tab =
    [0x00000000, 0x77073096, 0xee0e612c, 0x990951ba, 0x076dc419,
     0x706af48f, 0xe963a535, 0x9e6495a3, 0x0edb8832, 0x79dcb8a4,
     0xe0d5e91e, 0x97d2d988, 0x09b64c2b, 0x7eb17cbd, 0xe7b82d07,
     0x90bf1d91, 0x1db71064, 0x6ab020f2, 0xf3b97148, 0x84be41de,
     0x1adad47d, 0x6ddde4eb, 0xf4d4b551, 0x83d385c7, 0x136c9856,
     0x646ba8c0, 0xfd62f97a, 0x8a65c9ec, 0x14015c4f, 0x63066cd9,
     0xfa0f3d63, 0x8d080df5, 0x3b6e20c8, 0x4c69105e, 0xd56041e4,
     0xa2677172, 0x3c03e4d1, 0x4b04d447, 0xd20d85fd, 0xa50ab56b,
     0x35b5a8fa, 0x42b2986c, 0xdbbbc9d6, 0xacbcf940, 0x32d86ce3,
     0x45df5c75, 0xdcd60dcf, 0xabd13d59, 0x26d930ac, 0x51de003a,
     0xc8d75180, 0xbfd06116, 0x21b4f4b5, 0x56b3c423, 0xcfba9599,
     0xb8bda50f, 0x2802b89e, 0x5f058808, 0xc60cd9b2, 0xb10be924,
     0x2f6f7c87, 0x58684c11, 0xc1611dab, 0xb6662d3d, 0x76dc4190,
     0x01db7106, 0x98d220bc, 0xefd5102a, 0x71b18589, 0x06b6b51f,
     0x9fbfe4a5, 0xe8b8d433, 0x7807c9a2, 0x0f00f934, 0x9609a88e,
     0xe10e9818, 0x7f6a0dbb, 0x086d3d2d, 0x91646c97, 0xe6635c01,
     0x6b6b51f4, 0x1c6c6162, 0x856530d8, 0xf262004e, 0x6c0695ed,
     0x1b01a57b, 0x8208f4c1, 0xf50fc457, 0x65b0d9c6, 0x12b7e950,
     0x8bbeb8ea, 0xfcb9887c, 0x62dd1ddf, 0x15da2d49, 0x8cd37cf3,
     0xfbd44c65, 0x4db26158, 0x3ab551ce, 0xa3bc0074, 0xd4bb30e2,
     0x4adfa541, 0x3dd895d7, 0xa4d1c46d, 0xd3d6f4fb, 0x4369e96a,
     0x346ed9fc, 0xad678846, 0xda60b8d0, 0x44042d73, 0x33031de5,
     0xaa0a4c5f, 0xdd0d7cc9, 0x5005713c, 0x270241aa, 0xbe0b1010,
     0xc90c2086, 0x5768b525, 0x206f85b3, 0xb966d409, 0xce61e49f,
     0x5edef90e, 0x29d9c998, 0xb0d09822, 0xc7d7a8b4, 0x59b33d17,
     0x2eb40d81, 0xb7bd5c3b, 0xc0ba6cad, 0xedb88320, 0x9abfb3b6,
     0x03b6e20c, 0x74b1d29a, 0xead54739, 0x9dd277af, 0x04db2615,
     0x73dc1683, 0xe3630b12, 0x94643b84, 0x0d6d6a3e, 0x7a6a5aa8,
     0xe40ecf0b, 0x9309ff9d, 0x0a00ae27, 0x7d079eb1, 0xf00f9344,
     0x8708a3d2, 0x1e01f268, 0x6906c2fe, 0xf762575d, 0x806567cb,
     0x196c3671, 0x6e6b06e7, 0xfed41b76, 0x89d32be0, 0x10da7a5a,
     0x67dd4acc, 0xf9b9df6f, 0x8ebeeff9, 0x17b7be43, 0x60b08ed5,
     0xd6d6a3e8, 0xa1d1937e, 0x38d8c2c4, 0x4fdff252, 0xd1bb67f1,
     0xa6bc5767, 0x3fb506dd, 0x48b2364b, 0xd80d2bda, 0xaf0a1b4c,
     0x36034af6, 0x41047a60, 0xdf60efc3, 0xa867df55, 0x316e8eef,
     0x4669be79, 0xcb61b38c, 0xbc66831a, 0x256fd2a0, 0x5268e236,
     0xcc0c7795, 0xbb0b4703, 0x220216b9, 0x5505262f, 0xc5ba3bbe,
     0xb2bd0b28, 0x2bb45a92, 0x5cb36a04, 0xc2d7ffa7, 0xb5d0cf31,
     0x2cd99e8b, 0x5bdeae1d, 0x9b64c2b0, 0xec63f226, 0x756aa39c,
     0x026d930a, 0x9c0906a9, 0xeb0e363f, 0x72076785, 0x05005713,
     0x95bf4a82, 0xe2b87a14, 0x7bb12bae, 0x0cb61b38, 0x92d28e9b,
     0xe5d5be0d, 0x7cdcefb7, 0x0bdbdf21, 0x86d3d2d4, 0xf1d4e242,
     0x68ddb3f8, 0x1fda836e, 0x81be16cd, 0xf6b9265b, 0x6fb077e1,
     0x18b74777, 0x88085ae6, 0xff0f6a70, 0x66063bca, 0x11010b5c,
     0x8f659eff, 0xf862ae69, 0x616bffd3, 0x166ccf45, 0xa00ae278,
     0xd70dd2ee, 0x4e048354, 0x3903b3c2, 0xa7672661, 0xd06016f7,
     0x4969474d, 0x3e6e77db, 0xaed16a4a, 0xd9d65adc, 0x40df0b66,
     0x37d83bf0, 0xa9bcae53, 0xdebb9ec5, 0x47b2cf7f, 0x30b5ffe9,
     0xbdbdf21c, 0xcabac28a, 0x53b39330, 0x24b4a3a6, 0xbad03605,
     0xcdd70693, 0x54de5729, 0x23d967bf, 0xb3667a2e, 0xc4614ab8,
     0x5d681b02, 0x2a6f2b94, 0xb40bbe37, 0xc30c8ea1, 0x5a05df1b,
     0x2d02ef8d]"

record 'w keys =
  k0 :: 'w
  k1 :: 'w
  k2 :: 'w

text \<open>The macro \<^verbatim>\<open>CRC32(c, b)\<close>; the index is masked to a byte.\<close>

definition CRC32 :: "'a::len word \<Rightarrow> int \<Rightarrow> 'a word" where
  "CRC32 c b =
     word_of_int (crc_32_tab ! nat ((to_int32 (uint c) XOR b) AND 255)) XOR drop_bit 8 c"

definition update_keys :: "'a::len word keys \<Rightarrow> int \<Rightarrow> 'a word keys" where
  "update_keys ks c =
     (let a0 = CRC32 (k0 ks) c;
          a1 = (k1 ks + (a0 AND 255)) * 134775813 + 1;
          keyshift = to_int32 (uint (drop_bit 24 a1))
      in \<lparr>k0 = a0, k1 = a1, k2 = CRC32 (k2 ks) keyshift\<rparr>)"

definition init_keys :: "string \<Rightarrow> 'a::len word keys" where
  "init_keys passwd =
     foldl (\<lambda>ks c. update_keys ks (char_int c))
       \<lparr>k0 = 305419896, k1 = 591751049, k2 = 878082192\<rparr> passwd"

definition decrypt_byte :: "'a::len word keys \<Rightarrow> byte" where
  "decrypt_byte ks =
     (let temp = (ucast (k2 ks) AND 65535) OR 2 :: u32
      in ucast (drop_bit 8 (temp * (temp XOR 1)) AND 255))"

fun decrypt_buf :: "'a::len word keys \<Rightarrow> byte list \<Rightarrow> byte list \<times> 'a word keys" where
  "decrypt_buf ks [] = ([], ks)"
| "decrypt_buf ks (b # bs) =
     (let b' = b XOR decrypt_byte ks;
          (rest, ks') = decrypt_buf (update_keys ks (sint b')) bs
      in (b' # rest, ks'))"

fun encrypt_buf :: "'a::len word keys \<Rightarrow> byte list \<Rightarrow> byte list \<times> 'a word keys" where
  "encrypt_buf ks [] = ([], ks)"
| "encrypt_buf ks (b # bs) =
     (let t = decrypt_byte ks;
          (rest, ks') = encrypt_buf (update_keys ks (sint b)) bs
      in ((b XOR t) # rest, ks'))"

section \<open>Encryption and decryption\<close>

lemma xor_byte_cancel [simp]: "(b XOR t) XOR t = (b :: byte)"
  by (simp add: xor.assoc)

lemma decrypt_encrypt:
  "decrypt_buf ks (fst (encrypt_buf ks bs)) = (bs, snd (encrypt_buf ks bs))"
  by (induction bs arbitrary: ks) (simp_all add: Let_def split_def)

lemma encrypt_decrypt:
  "encrypt_buf ks (fst (decrypt_buf ks bs)) = (bs, snd (decrypt_buf ks bs))"
  by (induction bs arbitrary: ks) (simp_all add: Let_def split_def)

lemma encrypt_buf_append:
  "encrypt_buf ks (xs @ ys) =
     (let (out, ks') = encrypt_buf ks xs; (rest, ks'') = encrypt_buf ks' ys in (out @ rest, ks''))"
  by (induction xs arbitrary: ks) (simp_all add: Let_def split: prod.splits)

lemma decrypt_buf_append:
  "decrypt_buf ks (xs @ ys) =
     (let (out, ks') = decrypt_buf ks xs; (rest, ks'') = decrypt_buf ks' ys in (out @ rest, ks''))"
  by (induction xs arbitrary: ks) (simp_all add: Let_def split: prod.splits)

lemma encrypt_buf_length: "length (fst (encrypt_buf ks bs)) = length bs"
  by (induction bs arbitrary: ks) (simp_all add: Let_def split_def)

lemma decrypt_buf_length: "length (fst (decrypt_buf ks bs)) = length bs"
  by (induction bs arbitrary: ks) (simp_all add: Let_def split_def)

interpretation pk: stream_cipher
  "encrypt_buf :: 'a::len word keys \<Rightarrow> byte list \<Rightarrow> byte list \<times> 'a word keys" decrypt_buf
  by unfold_locales (simp_all add: encrypt_buf_append decrypt_buf_append decrypt_encrypt)

section \<open>Platform independence\<close>

lemma crc_32_tab_range: "list_all (\<lambda>x. 0 \<le> x \<and> x < 2 ^ 32) crc_32_tab"
  by (simp add: crc_32_tab_def)

lemma length_crc_32_tab: "length crc_32_tab = 256"
  by (simp add: crc_32_tab_def)

text \<open>
  The keys of a platform with 64-bit \<^verbatim>\<open>unsigned long\<close> against one with 32 bits: the two
  CRC registers stay below \<open>2 ^ 32\<close>, the multiplicative one agrees modulo \<open>2 ^ 32\<close>.
\<close>

definition same_keys :: "u64 keys \<Rightarrow> u32 keys \<Rightarrow> bool" where
  "same_keys a b \<longleftrightarrow>
     uint (k0 a) = uint (k0 b) \<and> uint (k1 a) mod 2 ^ 32 = uint (k1 b) \<and> uint (k2 a) = uint (k2 b)"

lemma and_255_take_bit: "x AND 255 = take_bit 8 (x :: int)"
proof -
  have "(255 :: int) = mask 8" by (simp add: mask_eq_exp_minus_1)
  then show ?thesis by (simp only: take_bit_eq_mask)
qed

lemma crc_index: "nat ((to_int32 x XOR b) AND 255) = nat (take_bit 8 x XOR take_bit 8 b)"
  by (simp add: and_255_take_bit to_int32_def take_bit_signed_take_bit)

lemma crc_index_range: "nat ((to_int32 x XOR b) AND 255) < length crc_32_tab"
proof -
  have "take_bit 8 (to_int32 x XOR b) < 2 ^ 8" by (rule take_bit_int_less_exp)
  then show ?thesis by (simp add: and_255_take_bit length_crc_32_tab nat_less_iff)
qed

lemma crc_entry:
  assumes "i < length crc_32_tab"
  shows "0 \<le> crc_32_tab ! i" and "crc_32_tab ! i < 2 ^ 32"
  using crc_32_tab_range assms by (auto simp: list_all_length)

lemma crc_entry_take_bit:
  assumes "i < length crc_32_tab" and "32 \<le> n"
  shows "take_bit n (crc_32_tab ! i) = crc_32_tab ! i"
proof -
  have "(2::int) ^ 32 \<le> 2 ^ n" using assms(2) by (rule power_increasing) simp
  with crc_entry [OF assms(1)] show ?thesis
    by (intro take_bit_int_eq_self) auto
qed

lemma take_bit_uint [simp]: "take_bit LENGTH('a) (uint (w :: 'a::len word)) = uint w"
  by (rule take_bit_int_eq_self) (simp_all add: uint_bounded)

lemma keyshift_byte:
  "take_bit 8 (uint (drop_bit 24 (w :: 'a::len word))) = drop_bit 24 (take_bit 32 (uint w))"
  by (simp add: unsigned_drop_bit_eq take_bit_drop_bit)

lemma uint_CRC32:
  fixes c :: "'a::len word"
  assumes "32 \<le> LENGTH('a)"
  shows "uint (CRC32 c b) =
    crc_32_tab ! nat (take_bit 8 (uint c) XOR take_bit 8 b) XOR drop_bit 8 (uint c)"
proof -
  let ?i = "nat ((to_int32 (uint c) XOR b) AND 255)"
  have "uint (word_of_int (crc_32_tab ! ?i) :: 'a word) = crc_32_tab ! ?i"
    using crc_entry_take_bit [OF crc_index_range assms]
    by (simp only: uint_word_of_int take_bit_eq_mod)
  then show ?thesis
    by (simp add: CRC32_def unsigned_xor_eq crc_index unsigned_drop_bit_eq)
qed

lemma CRC32_platform:
  assumes "uint (a :: u64) = uint (b :: u32)" and "take_bit 8 x = take_bit 8 y"
  shows "uint (CRC32 a x) = uint (CRC32 b y)"
  using assms by (simp add: uint_CRC32)

lemma update_keys_platform:
  assumes "same_keys a b"
  shows "same_keys (update_keys a c) (update_keys b c)"
proof -
  define a1 where "a1 = (k1 a + (CRC32 (k0 a) c AND 255)) * 134775813 + 1"
  define b1 where "b1 = (k1 b + (CRC32 (k0 b) c AND 255)) * 134775813 + 1"
  have k0: "uint (CRC32 (k0 a) c) = uint (CRC32 (k0 b) c)"
    using assms by (simp add: same_keys_def CRC32_platform)
  then have low: "uint (CRC32 (k0 a) c AND 255) = uint (CRC32 (k0 b) c AND 255)"
    by (simp add: unsigned_and_eq)
  have k1: "uint a1 mod 2 ^ 32 = uint b1"
  proof -
    let ?X = "\<lambda>x. (x + uint (CRC32 (k0 b) c AND 255)) * 134775813 + 1"
    have "uint a1 = ?X (uint (k1 a)) mod 2 ^ 64"
      unfolding a1_def by (simp add: uint_word_ariths low mod_simps)
    then have "uint a1 mod 2 ^ 32 = ?X (uint (k1 a)) mod 2 ^ 32"
      by (simp add: mod_mod_cancel)
    also have "\<dots> = ?X (uint (k1 a) mod 2 ^ 32) mod 2 ^ 32"
      by (intro mod_add_cong mod_mult_cong) simp_all
    also have "\<dots> = uint b1"
      unfolding b1_def using assms by (simp add: same_keys_def uint_word_ariths mod_simps)
    finally show ?thesis .
  qed
  then have "take_bit 32 (uint a1) = take_bit 32 (uint b1)"
    by (simp add: take_bit_eq_mod flip: k1)
  then have "take_bit 8 (uint (drop_bit 24 a1)) = take_bit 8 (uint (drop_bit 24 b1))"
    by (simp only: keyshift_byte)
  then have "take_bit 8 (to_int32 (uint (drop_bit 24 a1))) = take_bit 8 (to_int32 (uint (drop_bit 24 b1)))"
    by (simp add: to_int32_def take_bit_signed_take_bit)
  then have "uint (CRC32 (k2 a) (to_int32 (uint (drop_bit 24 a1)))) =
      uint (CRC32 (k2 b) (to_int32 (uint (drop_bit 24 b1))))"
    using assms by (simp add: same_keys_def CRC32_platform)
  with k0 k1 show ?thesis
    by (simp add: same_keys_def update_keys_def Let_def a1_def b1_def)
qed

lemma init_keys_platform: "same_keys (init_keys pw) (init_keys pw)"
proof -
  have "same_keys (foldl (\<lambda>ks c. update_keys ks (char_int c)) a pw)
      (foldl (\<lambda>ks c. update_keys ks (char_int c)) b pw)" if "same_keys a b" for a b
    using that by (induction pw arbitrary: a b) (simp_all add: update_keys_platform)
  then show ?thesis unfolding init_keys_def by (simp add: same_keys_def)
qed

lemma decrypt_byte_platform:
  assumes "same_keys a b"
  shows "decrypt_byte a = decrypt_byte b"
proof -
  have "ucast (k2 a) = (ucast (k2 b) :: u32)"
    using assms take_bit_uint [of "k2 b"]
    by (simp add: same_keys_def unsigned_ucast_eq word_uint_eq_iff)
  then show ?thesis by (simp add: decrypt_byte_def)
qed

lemma encrypt_buf_platform:
  "same_keys a b \<Longrightarrow> fst (encrypt_buf a bs) = fst (encrypt_buf b bs)
     \<and> same_keys (snd (encrypt_buf a bs)) (snd (encrypt_buf b bs))"
  by (induction bs arbitrary: a b)
    (simp_all add: Let_def split_def decrypt_byte_platform update_keys_platform)

section \<open>Properties\<close>

text \<open>
  C36: whatever frames one side encrypts with \<^verbatim>\<open>encrypt_buf\<close>, one after the other, the
  other side recovers them with \<^verbatim>\<open>decrypt_buf\<close> from the received bytes cut into any pieces,
  starting from equal keys, and both ends finish with equal keys.
\<close>

theorem crypt_stream_roundtrip:
  fixes ks :: "'a::len word keys"
  assumes "concat pieces = fst (stream_run encrypt_buf ks frames)"
  shows "stream_run decrypt_buf ks pieces = (concat frames, snd (stream_run encrypt_buf ks frames))"
  using assms by (rule pk.dec_stream_enc)

theorem crypt_stream_roundtrip_witness:
  "stream_run decrypt_buf (init_keys ''pw'' :: u32 keys)
     [take 1 (fst (stream_run encrypt_buf (init_keys ''pw'' :: u32 keys) [[1, 2], [3]])),
      drop 1 (fst (stream_run encrypt_buf (init_keys ''pw'' :: u32 keys) [[1, 2], [3]]))]
   = ([1, 2, 3], snd (stream_run encrypt_buf (init_keys ''pw'' :: u32 keys) [[1, 2], [3]]))"
  by (subst crypt_stream_roundtrip [where frames = "[[1, 2], [3]]"]) simp_all

text \<open>
  a host whose \<^verbatim>\<open>unsigned long\<close> has 64 bits and one where it has 32 produce the
  same ciphertext for every password and every plaintext, so the two interoperate.
\<close>

theorem crypt_platform_independent:
  "fst (encrypt_buf (init_keys pw :: u64 keys) bs) = fst (encrypt_buf (init_keys pw :: u32 keys) bs)"
  using encrypt_buf_platform [OF init_keys_platform] by blast

end
