(* ===== verification/Strings.thy ===== *)
theory Strings
  imports Prelude
begin

text \<open>
  String utilities of \<^verbatim>\<open>tools.c\<close>: case conversion and comparison, bounded copies, quoting of
  file names for the wire and back, the wiping of unsafe characters, argument splitting,
  the case-insensitive replacement used for flow-file rules, path helpers and the
  addresses in FTS packet headers.
\<close>

section \<open>Case and comparison\<close>

definition strlower :: "string \<Rightarrow> string" where
  "strlower s = map tolower s"

definition strupper :: "string \<Rightarrow> string" where
  "strupper s = map toupper s"

text \<open>The comparison reads the terminating NUL of the shorter string as \<open>0\<close>.\<close>

fun o_stricmp :: "string \<Rightarrow> string \<Rightarrow> int" where
  "o_stricmp [] [] = 0"
| "o_stricmp [] (d # ds) = - char_int (tolower d)"
| "o_stricmp (c # cs) [] = char_int (tolower c)"
| "o_stricmp (c # cs) (d # ds) =
     (if tolower c \<noteq> tolower d then char_int (tolower c) - char_int (tolower d)
      else o_stricmp cs ds)"

fun o_strnicmp :: "string \<Rightarrow> string \<Rightarrow> nat \<Rightarrow> int" where
  "o_strnicmp s t 0 = 0"
| "o_strnicmp [] [] (Suc n) = 0"
| "o_strnicmp [] (d # ds) (Suc n) = - char_int (tolower d)"
| "o_strnicmp (c # cs) [] (Suc n) = char_int (tolower c)"
| "o_strnicmp (c # cs) (d # ds) (Suc n) =
     (if tolower c \<noteq> tolower d then char_int (tolower c) - char_int (tolower d)
      else o_strnicmp cs ds n)"

text \<open>\<^verbatim>\<open>strcmp\<close> of the C library is only ever compared with \<open>0\<close>, apart from sorting.\<close>

fun strcmp :: "string \<Rightarrow> string \<Rightarrow> int" where
  "strcmp [] [] = 0"
| "strcmp [] (d # ds) = -1"
| "strcmp (c # cs) [] = 1"
| "strcmp (c # cs) (d # ds) = (if ord c < ord d then -1 else if ord d < ord c then 1 else strcmp cs ds)"

section \<open>Bounded copies\<close>

definition strnzcpy :: "string \<Rightarrow> nat \<Rightarrow> string" where
  "strnzcpy src len = take (len - 1) src"

definition strnzcat :: "string \<Rightarrow> string \<Rightarrow> nat \<Rightarrow> string" where
  "strnzcat dst src len =
     (if len \<le> length dst then dst else dst @ strnzcpy src (len - length dst))"

section \<open>Quoting\<close>

text \<open>The flags \<^verbatim>\<open>SQ_CNTRL\<close> and \<^verbatim>\<open>SQ_SPACE\<close>.\<close>

record sq_flags =
  SQ_CNTRL :: bool
  SQ_SPACE :: bool

definition quote_char :: "char \<Rightarrow> string" where
  "quote_char c = [CHR 0x5C, CHR ''x''] @ hex_pad 2 (ord c)"

fun strquote :: "string \<Rightarrow> sq_flags \<Rightarrow> string" where
  "strquote [] flags = []"
| "strquote (c # s) flags =
     (if (SQ_CNTRL flags \<and> iscntrl c) \<or> (SQ_SPACE flags \<and> isspace c) \<or> c = CHR 0x5C
      then quote_char c @ strquote s flags
      else c # strquote s flags)"

definition XD2 :: "char \<Rightarrow> char \<Rightarrow> char" where
  "XD2 h l = char_of (xdigit_val h * 16 + xdigit_val l)"

text \<open>The decoding loop; the result may hold a NUL, at which a C reader stops.\<close>

fun dequote :: "string \<Rightarrow> string" where
  "dequote (a # b # c # d # s) =
     (if a = CHR 0x5C \<and> b = CHR ''x'' \<and> isxdigit c \<and> isxdigit d then XD2 c d # dequote s
      else if a = CHR 0x5C \<and> isxdigit b \<and> isxdigit c then XD2 b c # dequote (d # s)
      else a # dequote (b # c # d # s))"
| "dequote [a, b, c] =
     (if a = CHR 0x5C \<and> isxdigit b \<and> isxdigit c then [XD2 b c] else [a, b, c])"
| "dequote s = s"

definition strdequote :: "string \<Rightarrow> string" where
  "strdequote s = takeWhile (\<lambda>c. c \<noteq> NUL_char) (dequote s)"

definition strwipe :: "string \<Rightarrow> string" where
  "strwipe s = map (\<lambda>c. if iscntrl c \<or> c = CHR 0x5C \<or> c = CHR ''/'' \<or> c = CHR '':'' then CHR ''_'' else c) s"

section \<open>Arguments of a command\<close>

text \<open>
  \<^verbatim>\<open>parse_args\<close>: the first \<open>n\<close> words and the rest of the line after the separator;
  \<open>None\<close> for the NULL result.
\<close>

fun parse_args :: "nat \<Rightarrow> string \<Rightarrow> (string list \<times> string) option" where
  "parse_args 0 src = Some ([], src)"
| "parse_args (Suc n) src =
     (let s = dropWhile isspace src in
      if s = [] then None
      else (case parse_args n (tl (dropWhile (\<lambda>c. \<not> isspace c) s)) of
              None \<Rightarrow> None
            | Some (ws, rest) \<Rightarrow> Some (takeWhile (\<lambda>c. \<not> isspace c) s # ws, rest)))"

section \<open>Case-insensitive replacement\<close>

text \<open>
  The loop of \<^verbatim>\<open>ed\<close> on the buffer \<open>r\<close>: \<open>i\<close> is the candidate's start and \<open>j\<close> the number of
  characters of \<open>a\<close> matched so far (the source's index is \<open>i + j\<close>).
\<close>

function ed_loop :: "string \<Rightarrow> string \<Rightarrow> string \<Rightarrow> nat \<Rightarrow> nat \<Rightarrow> string" where
  "ed_loop a b r i j =
     (if a = [] \<or> j \<ge> length a \<or> i + j \<ge> length r then r
      else if tolower (r ! (i + j)) \<noteq> tolower (a ! j) then ed_loop a b r (Suc i) 0
      else if Suc j < length a then ed_loop a b r i (Suc j)
      else ed_loop a b (take i r @ b @ drop (i + length a) r) (i + length b) 0)"
  by pat_completeness auto
termination
  by (relation "measures [\<lambda>(a, b, r, i, j). length r - i, \<lambda>(a, b, r, i, j). length a - j]") auto

declare ed_loop.simps [simp del]

definition ed :: "string \<Rightarrow> string \<Rightarrow> string \<Rightarrow> string" where
  "ed s a b = (if a = [] then s else ed_loop a b s 0 0)"

section \<open>File names\<close>

text \<open>The index of the last separator, if any.\<close>

fun last_index :: "(char \<Rightarrow> bool) \<Rightarrow> string \<Rightarrow> nat option" where
  "last_index P [] = None"
| "last_index P (c # s) =
     (case last_index P s of Some i \<Rightarrow> Some (Suc i) | None \<Rightarrow> if P c then Some 0 else None)"

definition last_slash :: "string \<Rightarrow> nat option" where
  "last_slash s = last_index (\<lambda>c. c = CHR ''/'' \<or> c = CHR 0x5C) s"

text \<open>\<^verbatim>\<open>strrchr\<close>; a NULL pointer is the least one in the \<^verbatim>\<open>max\<close> of the source.\<close>

definition strrchr :: "string \<Rightarrow> char \<Rightarrow> nat option" where
  "strrchr s c = last_index (\<lambda>d. d = c) s"

definition extract_filename :: "string \<Rightarrow> string" where
  "extract_filename s =
     (case (last_slash s, strrchr s CHR '':'') of
        (None, None) \<Rightarrow> s
      | (Some i, None) \<Rightarrow> drop (Suc i) s
      | (None, Some j) \<Rightarrow> drop (Suc j) s
      | (Some i, Some j) \<Rightarrow> drop (Suc (max i j)) s)"

datatype inbcasetype = INB_SAVE | INB_UPPER | INB_LOWER | INB_MIXED

fun mixed_tail :: "char \<Rightarrow> string \<Rightarrow> string" where
  "mixed_tail prev [] = []"
| "mixed_tail prev (c # s) =
     (let c' = (if isalnum prev then tolower c else toupper c) in c' # mixed_tail c' s)"

fun makeinboundcase :: "string \<Rightarrow> inbcasetype \<Rightarrow> string" where
  "makeinboundcase s INB_UPPER = strupper s"
| "makeinboundcase s INB_LOWER = strlower s"
| "makeinboundcase (c # s) INB_MIXED = toupper c # mixed_tail (toupper c) s"
| "makeinboundcase [] INB_MIXED = []"
| "makeinboundcase s INB_SAVE = s"

section \<open>Numbers\<close>

text \<open>\<^verbatim>\<open>safe_atol\<close>: the value; \<open>(long)\<close> of the saturated unsigned conversion.\<close>

definition safe_atol :: "string \<Rightarrow> int" where
  "safe_atol s = (if s \<noteq> [] \<and> hd s = CHR ''-'' then atol s else to_int64 (int (strtoumax s)))"

section \<open>Packet headers\<close>

record pkt_addr =
  oz :: int
  onet :: int
  onode :: int
  op :: int
  dz :: int
  dnet :: int
  dnode :: int
  dp :: int

definition GET_BYTE2 :: "byte list \<Rightarrow> nat \<Rightarrow> int" where
  "GET_BYTE2 raw x = uint (raw ! x) + uint (raw ! Suc x) * 256"

definition SET_BYTE2 :: "byte list \<Rightarrow> nat \<Rightarrow> int \<Rightarrow> byte list" where
  "SET_BYTE2 raw x v = raw[x := word_of_int v, Suc x := word_of_int (v div 256)]"

definition pkt_unknown :: pkt_addr where
  "pkt_unknown = \<lparr>oz = -1, onet = -1, onode = -1, op = -1, dz = -1, dnet = -1, dnode = -1, dp = -1\<rparr>"

text \<open>\<^verbatim>\<open>pkt_getaddr\<close>: the result code and the eight \<^verbatim>\<open>short\<close>s (all pointers given).\<close>

definition pkt_getaddr :: "byte list \<Rightarrow> bool \<times> pkt_addr" where
  "pkt_getaddr raw =
     (if GET_BYTE2 raw 18 \<noteq> 2 then (False, pkt_unknown)
      else
        let g = (\<lambda>x. to_int16 (GET_BYTE2 raw x));
            a = pkt_unknown\<lparr>onode := g 0, onet := g 20, dnode := g 2, dnet := g 22\<rparr>
        in (True,
          if raw ! 24 = 0x29 \<or> raw ! 24 = 0x35 then a\<lparr>oz := g 34, dz := g 36\<rparr>
          else if raw ! 44 AND 1 \<noteq> 0 then
            let a2 = a\<lparr>oz := g 46, op := g 50, dz := g 48, dp := g 52\<rparr>
            in if raw ! 44 = raw ! 41 \<and> raw ! 45 = raw ! 40
                  \<and> GET_BYTE2 raw 50 \<noteq> 0 \<and> onet a2 = -1
               then a2\<lparr>onet := g 38\<rparr> else a2
          else a))"

definition set_if :: "int \<Rightarrow> nat \<Rightarrow> byte list \<Rightarrow> byte list" where
  "set_if v x raw = (if v \<ge> 0 then SET_BYTE2 raw x v else raw)"

definition pkt_setaddr :: "byte list \<Rightarrow> pkt_addr \<Rightarrow> bool \<times> byte list" where
  "pkt_setaddr raw a =
     (if GET_BYTE2 raw 18 \<noteq> 2 then (False, raw)
      else
        let r = set_if (dnet a) 22 (set_if (dnode a) 2 (set_if (onet a) 20 (set_if (onode a) 0 raw)))
        in (True,
          if r ! 24 = 0x29 \<or> r ! 24 = 0x35 then set_if (dz a) 36 (set_if (oz a) 34 r)
          else if r ! 44 AND 1 \<noteq> 0 then
            let r2 = set_if (dp a) 52 (set_if (dz a) 48 (set_if (op a) 50 (set_if (oz a) 46 r)))
            in if r2 ! 44 = r2 ! 41 \<and> r2 ! 45 = r2 ! 40 \<and> GET_BYTE2 r2 50 \<noteq> 0
               then r2[38 := r2 ! 20, 39 := r2 ! 21, 20 := 255, 21 := 255]
               else r2
          else r))"

section \<open>Lemmas\<close>

subsection \<open>Comparison\<close>

lemma of_char_byte_eq [simp]: "(of_char c :: byte) = of_char d \<longleftrightarrow> c = d"
proof -
  have "(of_char c :: byte) = of_char d \<longleftrightarrow> (of_nat (ord c) :: byte) = of_nat (ord d)"
    by (simp only: of_nat_of_char)
  also have "\<dots> \<longleftrightarrow> c = d"
    by (simp add: word_of_nat_eq_iff take_bit_eq_mod)
  finally show ?thesis .
qed

lemma char_int_inj [simp]: "char_int c = char_int d \<longleftrightarrow> c = d"
  unfolding char_int_def by (metis of_char_byte_eq signed_word_eqI)

lemma char_int_0 [simp]: "char_int NUL_char = 0"
  by (simp add: char_int_def)

lemma char_int_eq_0 [simp]: "char_int c = 0 \<longleftrightarrow> c = NUL_char"
  using char_int_inj [of c NUL_char] by simp

lemma ord_eq_0 [simp]: "ord c = 0 \<longleftrightarrow> c = NUL_char"
  using of_char_eq_iff [of c NUL_char, where 'a = nat] by simp

lemma tolower_eq_NUL [simp]: "tolower c = NUL_char \<longleftrightarrow> c = NUL_char"
  by (simp flip: ord_eq_0 del: ord_eq_0)

definition nul_free :: "string \<Rightarrow> bool" where
  "nul_free s \<longleftrightarrow> NUL_char \<notin> set s"

lemma nul_free_simps [simp]:
  "nul_free []" "nul_free (c # s) \<longleftrightarrow> c \<noteq> NUL_char \<and> nul_free s"
  "nul_free (s @ t) \<longleftrightarrow> nul_free s \<and> nul_free t"
  by (auto simp: nul_free_def)

lemma o_stricmp_eq_0: "nul_free s \<Longrightarrow> nul_free t \<Longrightarrow> o_stricmp s t = 0 \<longleftrightarrow> strlower s = strlower t"
  by (induction s t rule: o_stricmp.induct) (auto simp: strlower_def)

lemma o_stricmp_refl [simp]: "o_stricmp s s = 0"
  by (induction s) auto

lemma strcmp_eq_0 [simp]: "strcmp s t = 0 \<longleftrightarrow> s = t"
  by (induction s t rule: strcmp.induct) auto

subsection \<open>Quoting\<close>

lemma hex_pad_2: "n < 256 \<Longrightarrow> hex_pad 2 n = [hex_digit (n div 16), hex_digit (n mod 16)]"
proof -
  assume n: "n < 256"
  show ?thesis
  proof (cases "n < 16")
    case True
    then show ?thesis
      by (simp add: hex_pad_def hex_of_nat.simps [of n] hex_digit_def char_of_def bit_0)
  next
    case False
    with n have "n div 16 < 16" by simp
    with False show ?thesis
      by (simp add: hex_pad_def hex_of_nat.simps [of n] hex_of_nat.simps [of "n div 16"])
  qed
qed

lemma XD2_hex: "XD2 (hex_digit (ord c div 16)) (hex_digit (ord c mod 16)) = c"
proof -
  have "ord c div 16 < 16" by (simp add: less_mult_imp_div_less)
  then show ?thesis by (simp add: XD2_def)
qed

lemma quote_char_eq:
  "quote_char c = [CHR 0x5C, CHR ''x'', hex_digit (ord c div 16), hex_digit (ord c mod 16)]"
  by (simp add: quote_char_def hex_pad_2)

lemma dequote_quote_char: "dequote (quote_char c @ s) = c # dequote s"
proof -
  have "ord c div 16 < 16" by (simp add: less_mult_imp_div_less)
  then show ?thesis by (simp add: quote_char_eq XD2_hex)
qed

lemma dequote_plain: "a \<noteq> CHR 0x5C \<Longrightarrow> dequote (a # s) = a # dequote s"
  by (cases "a # s" rule: dequote.cases) auto

lemma dequote_strquote: "dequote (strquote s f) = s"
  by (induction s f rule: strquote.induct) (auto simp: dequote_quote_char dequote_plain)

lemma strdequote_strquote: "nul_free s \<Longrightarrow> strdequote (strquote s f) = s"
  by (auto simp: strdequote_def dequote_strquote nul_free_def takeWhile_eq_all_conv)

lemma nul_free_strdequote [simp]: "nul_free (strdequote s)"
  by (auto simp: strdequote_def nul_free_def dest: set_takeWhileD)

lemma isxdigit_not_space: "isxdigit c \<Longrightarrow> \<not> isspace c"
  by (auto simp: ctype_simps)

lemma strquote_id:
  "\<forall>c\<in>set s. \<not> (SQ_CNTRL f \<and> iscntrl c) \<and> \<not> (SQ_SPACE f \<and> isspace c) \<and> c \<noteq> CHR 0x5C \<Longrightarrow> strquote s f = s"
  by (induction s f rule: strquote.induct) auto

lemma strquote_no_space:
  "SQ_SPACE f \<Longrightarrow> c \<in> set (strquote s f) \<Longrightarrow> \<not> isspace c"
proof (induction s f rule: strquote.induct)
  case (2 d s f)
  have "ord d div 16 < 16" by (simp add: less_mult_imp_div_less)
  then have "\<not> isspace c" if "c \<in> set (quote_char d)"
    using that isxdigit_not_space [OF isxdigit_hex_digit] by (auto simp: quote_char_eq) (simp add: isspace_def)+
  with 2 show ?case by (auto split: if_splits)
qed simp

subsection \<open>Wiping\<close>

lemma strwipe_safe:
  "c \<in> set (strwipe s) \<Longrightarrow> \<not> iscntrl c \<and> c \<noteq> CHR ''/'' \<and> c \<noteq> CHR 0x5C \<and> c \<noteq> CHR '':''"
  by (auto simp: strwipe_def iscntrl_def)

lemma length_strwipe [simp]: "length (strwipe s) = length s"
  by (simp add: strwipe_def)

lemma last_index_None: "last_index P s = None \<longleftrightarrow> (\<forall>c\<in>set s. \<not> P c)"
  by (induction s) (auto split: option.splits)

lemma last_index_Some:
  "last_index P s = Some i \<Longrightarrow> i < length s \<and> P (s ! i) \<and> (\<forall>j. i < j \<and> j < length s \<longrightarrow> \<not> P (s ! j))"
proof (induction s arbitrary: i)
  case (Cons c s)
  show ?case
  proof (cases "last_index P s")
    case None
    with Cons.prems show ?thesis
      by (auto simp: last_index_None nth_Cons' split: if_splits)
  next
    case (Some k)
    with Cons.prems have "i = Suc k" by simp
    with Cons.IH [OF Some] show ?thesis by (auto simp: nth_Cons' less_Suc_eq_0_disj)
  qed
qed simp

lemma drop_last_index: "last_index P s = Some i \<Longrightarrow> c \<in> set (drop (Suc i) s) \<Longrightarrow> \<not> P c"
  by (auto simp: set_conv_nth dest!: last_index_Some)

lemma extract_filename_no_separator:
  "c \<in> set (extract_filename s) \<Longrightarrow> c \<noteq> CHR ''/'' \<and> c \<noteq> CHR 0x5C \<and> c \<noteq> CHR '':''"
proof -
  let ?P = "\<lambda>c. c = CHR ''/'' \<or> c = CHR 0x5C"
  assume c: "c \<in> set (extract_filename s)"
  have "\<not> ?P c"
    if "last_index ?P s = Some i" "i \<le> k" "c \<in> set (drop (Suc k) s)" for i k
    using that drop_last_index [OF that(1)] set_drop_subset_set_drop [of "Suc i" "Suc k" s] by auto
  moreover have "c \<noteq> CHR '':''"
    if "last_index (\<lambda>d. d = CHR '':'') s = Some i" "i \<le> k" "c \<in> set (drop (Suc k) s)" for i k
    using that drop_last_index [OF that(1)] set_drop_subset_set_drop [of "Suc i" "Suc k" s] by auto
  ultimately show ?thesis
    using c by (fastforce simp: extract_filename_def last_slash_def strrchr_def last_index_None
      dest: in_set_dropD split: option.splits)
qed

subsection \<open>Case styles\<close>

lemma mixed_tail_lower: "strlower (mixed_tail p s) = strlower s"
  by (induction p s rule: mixed_tail.induct) (auto simp: strlower_def Let_def)

lemma makeinboundcase_lower: "strlower (makeinboundcase s c) = strlower s"
  by (cases "(s, c)" rule: makeinboundcase.cases)
    (auto simp: strlower_def strupper_def mixed_tail_lower [unfolded strlower_def])

subsection \<open>Replacement\<close>

definition ci_prefix :: "string \<Rightarrow> string \<Rightarrow> bool" where
  "ci_prefix a s \<longleftrightarrow> length a \<le> length s \<and> strlower (take (length a) s) = strlower a"

text \<open>The specification of \<^verbatim>\<open>ed\<close>: replace the leftmost occurrence, continue behind it.\<close>

function replace_all :: "string \<Rightarrow> string \<Rightarrow> string \<Rightarrow> string" where
  "replace_all a b s =
     (if a = [] \<or> s = [] then s
      else if ci_prefix a s then b @ replace_all a b (drop (length a) s)
      else hd s # replace_all a b (tl s))"
  by pat_completeness auto
termination
  by (relation "measure (\<lambda>(a, b, s). length s)") auto

declare replace_all.simps [simp del]

lemma replace_all_short: "length s < length a \<Longrightarrow> replace_all a b s = s"
proof (induction s)
  case (Cons c s)
  then show ?case by (subst replace_all.simps) (auto simp: ci_prefix_def)
qed (simp add: replace_all.simps)

lemma ci_prefix_nth:
  "ci_prefix a s \<longleftrightarrow> length a \<le> length s \<and> (\<forall>k < length a. tolower (s ! k) = tolower (a ! k))"
  by (auto simp: ci_prefix_def strlower_def list_eq_iff_nth_eq)

lemma ed_loop_replace:
  "a \<noteq> [] \<Longrightarrow> j < length a \<Longrightarrow> i \<le> length r \<Longrightarrow> i + j \<le> length r \<Longrightarrow>
   \<forall>k < j. tolower (r ! (i + k)) = tolower (a ! k) \<Longrightarrow>
   ed_loop a b r i j = take i r @ replace_all a b (drop i r)"
proof (induction a b r i j rule: ed_loop.induct)
  case (1 a b r i j)
  note prems = "1.prems"
  show ?case
  proof (cases "i + j \<ge> length r")
    case True
    with prems show ?thesis
      by (simp add: ed_loop.simps [of a b r i j] replace_all_short)
  next
    case False
    then have ij: "i + j < length r" by simp
    then have split: "drop i r = r ! i # drop (Suc i) r" "take (Suc i) r = take i r @ [r ! i]"
      by (simp_all add: Cons_nth_drop_Suc take_Suc_conv_app_nth)
    show ?thesis
    proof (cases "tolower (r ! (i + j)) = tolower (a ! j)")
      case mismatch: False
      then have "\<not> ci_prefix a (drop i r)"
        using prems ij by (auto simp: ci_prefix_nth)
      then have "replace_all a b (drop i r) = r ! i # replace_all a b (drop (Suc i) r)"
        using prems(1) split by (subst replace_all.simps) simp
      moreover have "ed_loop a b r (Suc i) 0 = take (Suc i) r @ replace_all a b (drop (Suc i) r)"
        using "1.IH"(1) mismatch prems ij by simp
      ultimately show ?thesis
        using mismatch prems ij split by (simp add: ed_loop.simps [of a b r i j])
    next
      case match: True
      then have upto: "\<forall>k < Suc j. tolower (r ! (i + k)) = tolower (a ! k)"
        using prems(5) by (auto simp: less_Suc_eq)
      show ?thesis
      proof (cases "Suc j < length a")
        case True
        with "1.IH"(2) match prems ij upto show ?thesis
          by (simp add: ed_loop.simps [of a b r i j])
      next
        case False
        with prems have len: "length a = Suc j" by simp
        with upto ij have pre: "ci_prefix a (drop i r)" by (auto simp: ci_prefix_nth)
        have "replace_all a b (drop i r) = b @ replace_all a b (drop (i + length a) r)"
          using pre prems(1) ij by (subst replace_all.simps) (simp add: add.commute)
        moreover have "ed_loop a b r i j =
            ed_loop a b (take i r @ b @ drop (i + length a) r) (i + length b) 0"
          using match prems ij False by (simp add: ed_loop.simps [of a b r i j])
        ultimately show ?thesis
          using "1.IH"(3) match prems ij False by simp
      qed
    qed
  qed
qed

lemma ed_replace: "ed s a b = replace_all a b s"
  using ed_loop_replace [of a 0 0 s b]
  by (cases "a = []") (auto simp: ed_def replace_all.simps [of "[]"])

subsection \<open>Arguments\<close>

lemma parse_args_word:
  assumes "w \<noteq> []" and "\<forall>c\<in>set w. \<not> isspace c" and "isspace sp"
  shows "parse_args (Suc n) (w @ sp # s) = map_option (\<lambda>(ws, r). (w # ws, r)) (parse_args n s)"
proof -
  have "dropWhile isspace (w @ sp # s) = w @ sp # s"
    using assms(1,2) by (cases w) auto
  moreover have "takeWhile (\<lambda>c. \<not> isspace c) (w @ sp # s) = w"
    using assms(2,3) by (simp add: takeWhile_append_stop)
  moreover have "dropWhile (\<lambda>c. \<not> isspace c) (w @ sp # s) = sp # s"
    using assms(2,3) by (simp add: dropWhile_append_stop)
  ultimately show ?thesis
    using assms(1) by (auto simp: Let_def split: option.splits)
qed

lemma parse_args_last_word:
  assumes "w \<noteq> []" and "\<forall>c\<in>set w. \<not> isspace c"
  shows "parse_args (Suc 0) w = Some ([w], [])"
proof -
  have "dropWhile isspace w = w" using assms by (cases w) auto
  moreover have "takeWhile (\<lambda>c. \<not> isspace c) w = w"
    using assms(2) by (simp add: takeWhile_eq_all_conv)
  moreover have "dropWhile (\<lambda>c. \<not> isspace c) w = []"
    using assms(2) by (simp add: dropWhile_eq_Nil_conv)
  then have "tl (dropWhile (\<lambda>c. \<not> isspace c) w) = []" by (simp only: list.sel)
  ultimately show ?thesis using assms(1) by (simp add: Let_def)
qed

lemma parse_args_words:
  "parse_args n s = Some (ws, r) \<Longrightarrow>
   length ws = n \<and> (\<forall>w\<in>set ws. w \<noteq> [] \<and> (\<forall>c\<in>set w. \<not> isspace c))"
proof (induction n s arbitrary: ws r rule: parse_args.induct)
  case (2 n src)
  let ?s = "dropWhile isspace src"
  from "2.prems" obtain ws' where s: "?s \<noteq> []"
    and ws': "parse_args n (tl (dropWhile (\<lambda>c. \<not> isspace c) ?s)) = Some (ws', r)"
    and ws: "ws = takeWhile (\<lambda>c. \<not> isspace c) ?s # ws'"
    by (auto simp: Let_def split: if_splits option.splits)
  have "\<not> isspace (hd ?s)" using s by (rule hd_dropWhile)
  then have "takeWhile (\<lambda>c. \<not> isspace c) ?s \<noteq> []" using s by (cases ?s) auto
  with "2.IH" [OF refl s ws'] ws show ?case by (auto dest: set_takeWhileD)
qed simp

subsection \<open>Packet headers\<close>

lemma length_SET_BYTE2 [simp]: "length (SET_BYTE2 raw x v) = length raw"
  by (simp add: SET_BYTE2_def)

lemma nth_SET_BYTE2 [simp]: "y \<noteq> x \<Longrightarrow> y \<noteq> Suc x \<Longrightarrow> SET_BYTE2 raw x v ! y = raw ! y"
  by (simp add: SET_BYTE2_def)

lemma uint_byte_of_int: "uint (word_of_int v :: byte) = v mod 256"
  by (simp add: uint_word_of_int)

lemma GET_SET_BYTE2 [simp]:
  "Suc x < length raw \<Longrightarrow> 0 \<le> v \<Longrightarrow> v < 65536 \<Longrightarrow> GET_BYTE2 (SET_BYTE2 raw x v) x = v"
  by (simp add: GET_BYTE2_def SET_BYTE2_def uint_byte_of_int)

lemma length_set_if [simp]: "length (set_if v x raw) = length raw"
  by (simp add: set_if_def)

lemma nth_set_if [simp]: "y \<noteq> x \<Longrightarrow> y \<noteq> Suc x \<Longrightarrow> set_if v x raw ! y = raw ! y"
  by (simp add: set_if_def)

lemma GET_set_if [simp]:
  "Suc x < length raw \<Longrightarrow> 0 \<le> v \<Longrightarrow> v < 65536 \<Longrightarrow> GET_BYTE2 (set_if v x raw) x = v"
  "y \<noteq> x \<Longrightarrow> y \<noteq> Suc x \<Longrightarrow> Suc y \<noteq> x \<Longrightarrow> GET_BYTE2 (set_if v x raw) y = GET_BYTE2 raw y"
  by (simp_all add: set_if_def) (simp add: GET_BYTE2_def)

lemma set_if_neg [simp]: "v < 0 \<Longrightarrow> set_if v x raw = raw"
  by (simp add: set_if_def)

definition readdress :: "byte list \<Rightarrow> int \<Rightarrow> int \<Rightarrow> int \<Rightarrow> int \<Rightarrow> byte list" where
  "readdress raw z net node p =
     snd (pkt_setaddr raw (pkt_unknown\<lparr>dz := z, dnet := net, dnode := node, dp := p\<rparr>))"

lemma to_int16_short [simp]: "0 \<le> v \<Longrightarrow> v < 32768 \<Longrightarrow> to_int16 v = v"
  by (rule to_int16_id) simp_all

section \<open>Properties\<close>

text \<open>
  a file name quoted by \<^verbatim>\<open>strquote\<close> for the wire, with any flags, is restored by
  \<^verbatim>\<open>strdequote\<close>, and with \<^verbatim>\<open>SQ_SPACE\<close> the quoted form holds no space, so it stays one word.
\<close>

theorem quote_roundtrip:
  assumes "nul_free s"
  shows "strdequote (strquote s f) = s \<and> (SQ_SPACE f \<longrightarrow> (\<forall>c\<in>set (strquote s f). \<not> isspace c))"
  using assms strquote_no_space [of f _ s] by (simp add: strdequote_strquote)

theorem quote_roundtrip_witness:
  "strdequote (strquote ''a b'' \<lparr>SQ_CNTRL = True, SQ_SPACE = True\<rparr>) = ''a b''"
  by (rule quote_roundtrip [THEN conjunct1]) simp

text \<open>
  the scan of \<^verbatim>\<open>ed\<close>, which backs up after a failed partial match and edits the buffer
  in place, replaces exactly the leftmost non-overlapping occurrences of \<open>a\<close>, ignoring case.
\<close>

theorem ed_correct: "ed s a b = replace_all a b s"
  by (rule ed_replace)

text \<open>
  after \<^verbatim>\<open>pkt_setaddr\<close> has replaced the destination of a type-2 packet header (the
  others unset, as \<^verbatim>\<open>send_block\<close> calls it), \<^verbatim>\<open>pkt_getaddr\<close> reads back the new destination and
  the old origin zone, node and point; the header keeps its length.
\<close>

theorem pkt_readdress:
  assumes "58 \<le> length raw" and "GET_BYTE2 raw 18 = 2"
    and "raw ! 24 \<noteq> 0x29" and "raw ! 24 \<noteq> 0x35" and "raw ! 44 AND 1 \<noteq> 0"
    and "0 \<le> z" "z < 32768" "0 \<le> net" "net < 32768" "0 \<le> node" "node < 32768" "0 \<le> p" "p < 32768"
  shows "dz (snd (pkt_getaddr (readdress raw z net node p))) = z \<and>
    dnet (snd (pkt_getaddr (readdress raw z net node p))) = net \<and>
    dnode (snd (pkt_getaddr (readdress raw z net node p))) = node \<and>
    dp (snd (pkt_getaddr (readdress raw z net node p))) = p \<and>
    oz (snd (pkt_getaddr (readdress raw z net node p))) = oz (snd (pkt_getaddr raw)) \<and>
    onode (snd (pkt_getaddr (readdress raw z net node p))) = onode (snd (pkt_getaddr raw)) \<and>
    op (snd (pkt_getaddr (readdress raw z net node p))) = op (snd (pkt_getaddr raw)) \<and>
    length (readdress raw z net node p) = length raw"
proof -
  define r where "r = set_if p 52 (set_if z 48 (set_if net 22 (set_if node 2 raw)))"
  define r' where "r' = readdress raw z net node p"
  have len: "length r = length raw" by (simp add: r_def)
  have r': "r' = r \<or> r' = r[38 := r ! 20, 39 := r ! 21, 20 := 255, 21 := 255]"
    using assms by (auto simp: r'_def r_def readdress_def pkt_setaddr_def pkt_unknown_def Let_def)
  have keep: "r' ! y = r ! y" if "y \<noteq> 38" "y \<noteq> 39" "y \<noteq> 20" "y \<noteq> 21" for y
    using r' that by auto
  have g: "GET_BYTE2 r' y = GET_BYTE2 r y"
    if "y \<noteq> 38" "y \<noteq> 39" "y \<noteq> 20" "y \<noteq> 21" "Suc y \<noteq> 38" "Suc y \<noteq> 20" for y
    using that by (simp add: GET_BYTE2_def keep)
  have dest: "GET_BYTE2 r 48 = z" "GET_BYTE2 r 22 = net" "GET_BYTE2 r 2 = node" "GET_BYTE2 r 52 = p"
    using assms by (simp_all add: r_def)
  have orig: "GET_BYTE2 r 46 = GET_BYTE2 raw 46" "GET_BYTE2 r 0 = GET_BYTE2 raw 0"
    "GET_BYTE2 r 50 = GET_BYTE2 raw 50" "GET_BYTE2 r 18 = GET_BYTE2 raw 18"
    "r ! 24 = raw ! 24" "r ! 44 = raw ! 44"
    by (simp_all add: r_def)
  have "length r' = length raw" using r' len by auto
  then show ?thesis
    unfolding r'_def [symmetric] using assms
    by (simp add: pkt_getaddr_def Let_def g keep dest orig pkt_unknown_def)
qed

definition pkt_example :: "byte list" where
  "pkt_example = (replicate 58 0)[18 := 2, 44 := 1, 41 := 1, 20 := 255, 21 := 255, 38 := 7, 50 := 5]"

theorem pkt_readdress_witness:
  "dz (snd (pkt_getaddr (readdress pkt_example 2 5020 79 1))) = 2 \<and>
   dnet (snd (pkt_getaddr (readdress pkt_example 2 5020 79 1))) = 5020"
proof -
  have h: "58 \<le> length pkt_example" "GET_BYTE2 pkt_example 18 = 2" "pkt_example ! 24 \<noteq> 0x29"
    "pkt_example ! 24 \<noteq> 0x35" "pkt_example ! 44 AND 1 \<noteq> 0"
    by code_simp+
  show ?thesis using pkt_readdress [OF h, of 2 5020 79 1] by simp
qed

text \<open>
  a type-2+ packet from a point carries net \<open>-1\<close> and the real net in the auxiliary
  field; \<^verbatim>\<open>pkt_setaddr\<close> copies the \<open>-1\<close> over that field, so after the destination is replaced
  the origin net, read correctly before, reads as unknown.
\<close>

theorem pkt_setaddr_loses_auxnet:
  "onet (snd (pkt_getaddr pkt_example)) = 7 \<and>
   onet (snd (pkt_getaddr (readdress pkt_example 2 5020 79 1))) = -1"
  by code_simp

end
