(* ===== verification/Pmatch.thy ===== *)
theory Pmatch
  imports Strings
begin

text \<open>
  Wildcard matching, \<^verbatim>\<open>pmatch.c\<close>, and the file-name tests of \<^verbatim>\<open>tools.c\<close> built on it. A C
  pointer into a string is the list of the characters from there on, \<open>[]\<close> standing for the
  terminating NUL; the result \<open>None\<close> says that the code reads beyond that NUL.
\<close>

section \<open>The matcher\<close>

abbreviation CTLESC :: char where
  "CTLESC \<equiv> CHR 0x5C"

text \<open>The search for the closing bracket: found, not found, or a read out of bounds.\<close>

fun class_end :: "string \<Rightarrow> bool option" where
  "class_end [] = Some False"
| "class_end (c # r) =
     (if c = CTLESC then
        (case r of
           [] \<Rightarrow> None
         | d # r' \<Rightarrow> if r' \<noteq> [] \<and> hd r' = CHR '']'' then Some True else class_end r')
      else if r \<noteq> [] \<and> hd r = CHR '']'' then Some True else class_end r)"

text \<open>One element of a bracket expression: a character or a range, and what follows it.\<close>

fun class_item :: "int \<Rightarrow> char \<Rightarrow> string \<Rightarrow> (bool \<times> string) option" where
  "class_item chr c (m # d # p) =
     (if m = CHR ''-'' \<and> d \<noteq> CHR '']'' then
        (if d = CTLESC then
           (case p of [] \<Rightarrow> None | e # p' \<Rightarrow> Some (char_int c \<le> chr \<and> chr \<le> char_int e, p'))
         else Some (char_int c \<le> chr \<and> chr \<le> char_int d, p))
      else Some (chr = char_int c, m # d # p))"
| "class_item chr c [m] = (if m = CHR ''-'' then None else Some (chr = char_int c, [m]))"
| "class_item chr c [] = Some (chr = char_int c, [])"

text \<open>The \<^verbatim>\<open>do ... while\<close> loop over the elements; the list starts at the next element.\<close>

function class_loop :: "int \<Rightarrow> string \<Rightarrow> bool \<Rightarrow> (bool \<times> string) option" where
  "class_loop chr p found =
     (case p of
        [] \<Rightarrow> None
      | c # p1 \<Rightarrow>
          (case (if c = CTLESC then (case p1 of [] \<Rightarrow> None | d # p2 \<Rightarrow> Some (d, p2)) else Some (c, p1)) of
             None \<Rightarrow> None
           | Some (c', p') \<Rightarrow>
               (case class_item chr c' p' of
                  None \<Rightarrow> None
                | Some (hit, []) \<Rightarrow> None
                | Some (hit, e # rest) \<Rightarrow>
                    if e = CHR '']'' then Some (found \<or> hit, rest)
                    else if length (e # rest) < length p then class_loop chr (e # rest) (found \<or> hit)
                    else None)))"
  by pat_completeness auto
termination
  by (relation "measure (\<lambda>(chr, p, found). length p)") auto

declare class_loop.simps [simp del]

text \<open>The scan after a star for a literal character, and the attempts at every suffix.\<close>

fun star_skip :: "bool \<Rightarrow> char option \<Rightarrow> string \<Rightarrow> string option" where
  "star_skip ncase None q = Some []"
| "star_skip ncase (Some c) [] = None"
| "star_skip ncase (Some c) (d # q) =
     (if d = c \<or> (ncase \<and> toupper d = toupper c) then Some (d # q) else star_skip ncase (Some c) q)"

fun star_loop :: "(string \<Rightarrow> bool option) \<Rightarrow> string \<Rightarrow> bool option" where
  "star_loop f [] = f []"
| "star_loop f (d # q) =
     (case f (d # q) of Some False \<Rightarrow> star_loop f q | r \<Rightarrow> r)"

definition special :: "char \<Rightarrow> bool" where
  "special c \<longleftrightarrow> c = CTLESC \<or> c = CHR ''?'' \<or> c = CHR ''*'' \<or> c = CHR ''[''"

function xpmatch :: "bool \<Rightarrow> string \<Rightarrow> string \<Rightarrow> bool option" where
  "xpmatch ncase [] q = Some (q = [])"
| "xpmatch ncase (c # p) q =
     (if c = CTLESC then
        (case (p, q) of
           (d # p', e # q') \<Rightarrow> if e = d then xpmatch ncase p' q' else Some False
         | ([], []) \<Rightarrow> None
         | _ \<Rightarrow> Some False)
      else if c = CHR ''?'' then
        (case q of [] \<Rightarrow> Some False | e # q' \<Rightarrow> xpmatch ncase p q')
      else if c = CHR ''*'' then
        (if p \<noteq> [] \<and> special (hd p) then star_loop (\<lambda>q'. xpmatch ncase p q') q
         else (case star_skip ncase (if p = [] then None else Some (hd p)) q of
                 None \<Rightarrow> Some False
               | Some q1 \<Rightarrow> star_loop (\<lambda>q'. xpmatch ncase p q') q1))
      else if c = CHR ''['' then
        (case class_end (if p \<noteq> [] \<and> hd p = CHR ''!'' then tl p else p) of
           None \<Rightarrow> None
         | Some False \<Rightarrow>
             (case q of
                [] \<Rightarrow> Some False
              | e # q' \<Rightarrow> if (if ncase then toupper e = toupper c else e = c)
                          then xpmatch ncase p q' else Some False)
         | Some True \<Rightarrow>
             let inv = (p \<noteq> [] \<and> hd p = CHR ''!'') in
             (case class_loop (if q = [] then 0 else char_int (hd q)) (if inv then tl p else p) False of
                None \<Rightarrow> None
              | Some (found, p') \<Rightarrow>
                  if found = inv then Some False
                  else (case q of
                          [] \<Rightarrow> None
                        | e # q' \<Rightarrow> if length p' < length (c # p) then xpmatch ncase p' q' else None)))
      else
        (case q of
           [] \<Rightarrow> Some False
         | e # q' \<Rightarrow> if (if ncase then toupper e = toupper c else e = c)
                     then xpmatch ncase p q' else Some False))"
  by pat_completeness auto
termination
  by (relation "measure (\<lambda>(ncase, p, q). length p)") auto

declare xpmatch.simps(2) [simp del]

text \<open>The callers test the result as a truth value.\<close>

definition pmatch_ncase :: "string \<Rightarrow> string \<Rightarrow> bool" where
  "pmatch_ncase pattern s = (xpmatch True pattern s = Some True)"

definition ispkt :: "string \<Rightarrow> bool" where
  "ispkt s = pmatch_ncase ''*.pkt'' s"

definition isreq :: "string \<Rightarrow> bool" where
  "isreq s = pmatch_ncase ''*.req'' s"

definition istic :: "string \<Rightarrow> bool" where
  "istic s = pmatch_ncase ''*.?ic'' s"

definition isarcmail :: "string \<Rightarrow> bool" where
  "isarcmail s \<longleftrightarrow>
     pmatch_ncase ''*.su?'' s \<or> pmatch_ncase ''*.mo?'' s \<or> pmatch_ncase ''*.tu?'' s \<or>
     pmatch_ncase ''*.we?'' s \<or> pmatch_ncase ''*.th?'' s \<or> pmatch_ncase ''*.fr?'' s \<or>
     pmatch_ncase ''*.sa?'' s"

section \<open>Specification for patterns without brackets\<close>

text \<open>
  Matching as a relation: a star matches any run of characters, a question mark one, an
  escaped character itself exactly, any other character itself up to case.
\<close>

definition char_match :: "bool \<Rightarrow> char \<Rightarrow> char \<Rightarrow> bool" where
  "char_match ncase c e \<longleftrightarrow> (if ncase then toupper e = toupper c else e = c)"

inductive glob :: "bool \<Rightarrow> string \<Rightarrow> string \<Rightarrow> bool" for ncase where
  glob_end: "glob ncase [] []"
| glob_esc: "glob ncase p q \<Longrightarrow> glob ncase (CTLESC # d # p) (d # q)"
| glob_any: "glob ncase p q \<Longrightarrow> glob ncase (CHR ''?'' # p) (e # q)"
| glob_star_stop: "glob ncase p q \<Longrightarrow> glob ncase (CHR ''*'' # p) q"
| glob_star_step: "glob ncase (CHR ''*'' # p) q \<Longrightarrow> glob ncase (CHR ''*'' # p) (e # q)"
| glob_char: "\<not> special c \<Longrightarrow> char_match ncase c e \<Longrightarrow> glob ncase p q \<Longrightarrow> glob ncase (c # p) (e # q)"

inductive_cases glob_Nil [elim!]: "glob ncase [] q"
inductive_cases glob_Cons: "glob ncase (c # p) q"

text \<open>The patterns covered: no bracket expression, no escape at the very end.\<close>

fun plain :: "string \<Rightarrow> bool" where
  "plain [] = True"
| "plain (c # p) =
     (if c = CTLESC then (case p of [] \<Rightarrow> False | d # p' \<Rightarrow> plain p')
      else c \<noteq> CHR ''['' \<and> plain p)"

lemma glob_star_iff: "glob ncase (CHR ''*'' # p) q \<longleftrightarrow> (\<exists>us vs. q = us @ vs \<and> glob ncase p vs)"
proof
  have "x = CHR ''*'' # p \<Longrightarrow> \<exists>us vs. q = us @ vs \<and> glob ncase p vs" if "glob ncase x q" for x
    using that
  proof (induction rule: glob.induct)
    case (glob_star_stop p' q)
    then have "q = [] @ q \<and> glob ncase p q" by simp
    then show ?case by blast
  next
    case (glob_star_step p' q e)
    then obtain us vs where "q = us @ vs" "glob ncase p vs" by blast
    then have "e # q = (e # us) @ vs \<and> glob ncase p vs" by simp
    then show ?case by blast
  qed (simp_all add: special_def)
  then show "glob ncase (CHR ''*'' # p) q \<Longrightarrow> \<exists>us vs. q = us @ vs \<and> glob ncase p vs" by blast
next
  assume "\<exists>us vs. q = us @ vs \<and> glob ncase p vs"
  then obtain us vs where "q = us @ vs" "glob ncase p vs" by blast
  then show "glob ncase (CHR ''*'' # p) q"
    by (induction us arbitrary: q) (auto intro: glob.intros)
qed

lemma glob_char_iff:
  "\<not> special c \<Longrightarrow> glob ncase (c # p) q \<longleftrightarrow> (\<exists>e q'. q = e # q' \<and> char_match ncase c e \<and> glob ncase p q')"
  by (auto intro: glob.intros elim: glob_Cons simp: special_def)

lemma glob_any_iff: "glob ncase (CHR ''?'' # p) q \<longleftrightarrow> (\<exists>e q'. q = e # q' \<and> glob ncase p q')"
  by (auto intro: glob.intros elim: glob_Cons simp: special_def)

lemma glob_esc_iff: "glob ncase (CTLESC # d # p) q \<longleftrightarrow> (\<exists>q'. q = d # q' \<and> glob ncase p q')"
  by (auto intro: glob.intros elim: glob_Cons simp: special_def)

lemma star_loop_exists:
  "(\<And>q. f q = Some (P q)) \<Longrightarrow> star_loop f q = Some (\<exists>us vs. q = us @ vs \<and> P vs)"
proof (induction q)
  case (Cons d q)
  have "(\<exists>us vs. d # q = us @ vs \<and> P vs) \<longleftrightarrow> P (d # q) \<or> (\<exists>us vs. q = us @ vs \<and> P vs)"
    by (metis append_Cons append_Nil append_eq_Cons_conv)
  with Cons show ?case by (auto split: bool.splits)
qed simp

lemma star_skip_sound:
  assumes "\<And>e q'. P (e # q') \<Longrightarrow> char_match ncase c e" and "\<not> P []"
  shows "(case star_skip ncase (Some c) q of None \<Rightarrow> False | Some q1 \<Rightarrow> \<exists>us vs. q1 = us @ vs \<and> P vs)
    \<longleftrightarrow> (\<exists>us vs. q = us @ vs \<and> P vs)"
proof (induction q)
  case Nil
  then show ?case using assms(2) by simp
next
  case (Cons d q)
  show ?case
  proof (cases "d = c \<or> ncase \<and> toupper d = toupper c")
    case False
    with assms(1) [of d q] have "\<not> P (d # q)" by (auto simp: char_match_def split: if_splits)
    then have "(\<exists>us vs. d # q = us @ vs \<and> P vs) \<longleftrightarrow> (\<exists>us vs. q = us @ vs \<and> P vs)"
      by (metis append_Cons append_Nil append_eq_Cons_conv)
    with False Cons.IH show ?thesis by simp
  qed simp
qed

lemma xpmatch_star:
  assumes "\<And>q. xpmatch ncase p q = Some (glob ncase p q)"
  shows "xpmatch ncase (CHR ''*'' # p) q = Some (glob ncase (CHR ''*'' # p) q)"
proof (cases p)
  case Nil
  then show ?thesis
    by (auto simp: xpmatch.simps(2) glob_star_iff intro: glob.intros)
next
  case (Cons c p')
  note loop = star_loop_exists [of "xpmatch ncase p" "glob ncase p", OF assms]
  show ?thesis
  proof (cases "special c")
    case True
    with Cons loop show ?thesis by (simp add: xpmatch.simps(2) [of ncase "CHR ''*''"] glob_star_iff)
  next
    case False
    have "(case star_skip ncase (Some c) q of None \<Rightarrow> False
        | Some q1 \<Rightarrow> \<exists>us vs. q1 = us @ vs \<and> glob ncase p vs) \<longleftrightarrow> (\<exists>us vs. q = us @ vs \<and> glob ncase p vs)"
      using False Cons by (intro star_skip_sound) (auto simp: glob_char_iff)
    with False Cons loop show ?thesis
      by (auto simp: xpmatch.simps(2) [of ncase "CHR ''*''"] glob_star_iff split: option.splits)
  qed
qed

lemma xpmatch_glob: "plain p \<Longrightarrow> xpmatch ncase p q = Some (glob ncase p q)"
proof (induction p arbitrary: q rule: plain.induct)
  case 1
  then show ?case by (auto intro: glob.intros)
next
  case (2 c p)
  consider "c = CTLESC" | "c = CHR ''?''" | "c = CHR ''*''" | "\<not> special c"
    using "2.prems" by (auto simp: special_def split: if_splits)
  then show ?case
  proof cases
    case 1
    with 2 show ?thesis
      by (auto simp: xpmatch.simps(2) glob_esc_iff split: list.splits)
  next
    case 2
    then show ?thesis using "2.prems" "2.IH"(2)
      by (auto simp: xpmatch.simps(2) glob_any_iff split: list.splits)
  next
    case 3
    then show ?thesis using "2.prems" "2.IH"(2) xpmatch_star by auto
  next
    case 4
    then show ?thesis using "2.prems" "2.IH"(2)
      by (auto simp: xpmatch.simps(2) glob_char_iff special_def char_match_def split: list.splits)
  qed
qed

lemma glob_literal:
  "\<forall>c\<in>set w. \<not> special c \<Longrightarrow> glob True w q \<longleftrightarrow> strlower q = strlower w"
proof (induction w arbitrary: q)
  case Nil
  then show ?case by (auto simp: strlower_def intro: glob.intros)
next
  case (Cons c w)
  then show ?case
    by (cases q) (auto simp: glob_char_iff char_match_def strlower_def toupper_eq_iff)
qed

lemma pmatch_suffix:
  assumes "\<forall>c\<in>set w. \<not> special c"
  shows "pmatch_ncase (CHR ''*'' # w) s \<longleftrightarrow> (\<exists>body ext. s = body @ ext \<and> strlower ext = strlower w)"
proof -
  have "plain w" using assms by (induction w) (auto simp: special_def)
  then have "plain (CHR ''*'' # w)" by simp
  then show ?thesis
    using assms by (simp add: pmatch_ncase_def xpmatch_glob glob_star_iff glob_literal)
qed

section \<open>Properties\<close>

text \<open>
  C40: on a pattern without brackets whose last character is not a bare escape, the
  matcher with its first-character shortcut behind a star never reads out of bounds and
  decides exactly the relation \<open>glob\<close>.
\<close>

theorem pmatch_correct:
  assumes "plain p"
  shows "xpmatch ncase p q = Some (glob ncase p q)"
  using assms by (rule xpmatch_glob)

theorem pmatch_correct_witness:
  "xpmatch True ''*.t?c'' ''File.TIC'' = Some (glob True ''*.t?c'' ''File.TIC'')"
  by (rule pmatch_correct) simp

text \<open>
  \<^verbatim>\<open>ispkt\<close> holds exactly of the names that end in \<^verbatim>\<open>.pkt\<close>, in any letter case.
\<close>

theorem ispkt_iff: "ispkt s \<longleftrightarrow> (\<exists>body ext. s = body @ ext \<and> strlower ext = ''.pkt'')"
proof -
  have "strlower ''.pkt'' = ''.pkt''" by code_simp
  moreover have "pmatch_ncase (CHR ''*'' # ''.pkt'') s \<longleftrightarrow>
      (\<exists>body ext. s = body @ ext \<and> strlower ext = strlower ''.pkt'')"
    by (rule pmatch_suffix) (simp add: special_def)
  ultimately show ?thesis by (simp add: ispkt_def)
qed

text \<open>
  a negated bracket expression at the end of the string, and an escape that ends the
  pattern, make the matcher step over the terminating NUL of its argument.
\<close>

theorem xpmatch_out_of_bounds:
  "xpmatch ncase ''[!a]'' [] = None \<and> xpmatch ncase [CTLESC] [] = None"
  by (simp add: xpmatch.simps(2) class_loop.simps char_int_def)

end
