(* ===== verification/Ftnaddr.thy ===== *)
theory Ftnaddr
  imports Pmatch
begin

text \<open>
  FTN addresses and domains, \<^verbatim>\<open>ftnaddr.c\<close>, \<^verbatim>\<open>ftnaddr.h\<close> and \<^verbatim>\<open>ftndom.c\<close>: the tokenizer and
  parser of \<^verbatim>\<open>zone:net/node.point@domain\<close>, printing, expansion from the main address,
  comparison, and the names derived from an address: outbound file names and DNS names.
\<close>

section \<open>Data\<close>

abbreviation MAX_DOMAIN :: nat where "MAX_DOMAIN \<equiv> 32"
abbreviation BINKD_FQDNLEN :: nat where "BINKD_FQDNLEN \<equiv> 1025"

text \<open>\<^verbatim>\<open>struct _FTN_ADDR\<close>; \<open>-1\<close> is an unknown part.\<close>

record FTN_ADDR =
  fa_domain :: string
  fa_z :: int
  fa_net :: int
  fa_node :: int
  fa_p :: int

text \<open>
  \<^verbatim>\<open>struct _FTN_DOMAIN\<close>; the list of domains is the chain of \<^verbatim>\<open>next\<close> pointers, an alias holds
  the domain it stands for.
\<close>

datatype FTN_DOMAIN =
  Domain (dom_name: string) (dom_path: string) (dom_dir: string) (dom_z: int)
    (idomain: "string option") (alias4: "FTN_DOMAIN option")

definition FA_ZERO :: FTN_ADDR where
  "FA_ZERO = \<lparr>fa_domain = [], fa_z = -1, fa_net = -1, fa_node = -1, fa_p = -1\<rparr>"

definition FA_ISNULL :: "FTN_ADDR \<Rightarrow> bool" where
  "FA_ISNULL fa \<longleftrightarrow> fa_domain fa = [] \<and> fa_z fa = -1 \<and> fa_net fa = -1 \<and> fa_node fa = -1 \<and> fa_p fa = -1"

definition is4D :: "FTN_ADDR \<Rightarrow> bool" where
  "is4D fa \<longleftrightarrow> fa_z fa \<noteq> -1 \<and> fa_node fa \<noteq> -1 \<and> fa_net fa \<noteq> -1 \<and> fa_p fa \<noteq> -1"

definition is5D :: "FTN_ADDR \<Rightarrow> bool" where
  "is5D fa \<longleftrightarrow> is4D fa \<and> fa_domain fa \<noteq> []"

section \<open>Domains\<close>

fun get_domain_info :: "string \<Rightarrow> FTN_DOMAIN list \<Rightarrow> FTN_DOMAIN option" where
  "get_domain_info dn [] = None"
| "get_domain_info dn (d # ds) = (if o_stricmp (dom_name d) dn = 0 then Some d else get_domain_info dn ds)"

text \<open>The name of the domain a zone belongs to; the list of domains is never empty there.\<close>

definition get_matched_domain :: "int \<Rightarrow> FTN_ADDR list \<Rightarrow> FTN_DOMAIN list \<Rightarrow> string" where
  "get_matched_domain zone pAddr doms =
     (case find (\<lambda>d. alias4 d = None \<and> dom_z d = zone) doms of
        Some d \<Rightarrow> dom_name d
      | None \<Rightarrow>
          (case find (\<lambda>a. zone = fa_z a) pAddr of
             Some a \<Rightarrow> fa_domain a
           | None \<Rightarrow> (case pAddr of a # _ \<Rightarrow> fa_domain a
                      | [] \<Rightarrow> (case doms of d # _ \<Rightarrow> dom_name d | [] \<Rightarrow> []))))"

definition resolve_domain :: "string \<Rightarrow> FTN_DOMAIN list \<Rightarrow> string" where
  "resolve_domain w doms =
     (case get_domain_info w doms of
        Some d \<Rightarrow> (case alias4 d of Some a \<Rightarrow> dom_name a | None \<Rightarrow> dom_name d)
      | None \<Rightarrow> w)"

section \<open>Parsing\<close>

record TOKEN =
  tok_c :: "char option"
  tok_n :: int
  tok_s :: string

datatype token_kind = T_NULL | T_SEP | T_NUM | T_WORD

definition token_type :: "TOKEN \<Rightarrow> token_kind" where
  "token_type t =
     (if tok_s t \<noteq> [] then T_WORD
      else if tok_c t \<noteq> None then T_SEP
      else if tok_n t = -1 then T_NULL else T_NUM)"

definition separator :: "char \<Rightarrow> bool" where
  "separator c \<longleftrightarrow> c \<in> set '':/.@''"

definition domain_char :: "char \<Rightarrow> bool" where
  "domain_char c \<longleftrightarrow> c = CHR ''.'' \<or> c = CHR ''-'' \<or> c = CHR ''_'' \<or> isalnum c"

text \<open>The accumulator of a number is an \<^verbatim>\<open>int\<close>.\<close>

definition num_step :: "int \<Rightarrow> char \<Rightarrow> int" where
  "num_step n c = to_int32 (n * 10 + int (ord c) - 48)"

text \<open>\<^verbatim>\<open>gettoken\<close>: \<open>None\<close> is the return value \<open>-1\<close>; at the end of the string the null token.\<close>

fun gettoken :: "string \<Rightarrow> (TOKEN \<times> string) option" where
  "gettoken [] = Some (\<lparr>tok_c = None, tok_n = -1, tok_s = []\<rparr>, [])"
| "gettoken (c # s) =
     (if separator c then Some (\<lparr>tok_c = Some c, tok_n = 0, tok_s = []\<rparr>, s)
      else if isdigit c then
        Some (\<lparr>tok_c = None, tok_n = foldl num_step 0 (takeWhile isdigit (c # s)), tok_s = []\<rparr>,
              dropWhile isdigit (c # s))
      else if isalpha c then
        (let w = take MAX_DOMAIN (takeWhile domain_char (c # s))
         in Some (\<lparr>tok_c = None, tok_n = 0, tok_s = w\<rparr>, drop (length w) (c # s)))
      else None)"

abbreviation TOKENS :: nat where "TOKENS \<equiv> 10"

fun gettokens :: "nat \<Rightarrow> string \<Rightarrow> TOKEN list option" where
  "gettokens 0 s = Some []"
| "gettokens (Suc k) s =
     (case gettoken s of
        None \<Rightarrow> None
      | Some (t, s') \<Rightarrow> map_option (\<lambda>ts. t # ts) (gettokens k s'))"

definition is_sep :: "TOKEN list \<Rightarrow> nat \<Rightarrow> char \<Rightarrow> bool" where
  "is_sep ts i c \<longleftrightarrow> tok_c (ts ! i) = Some c"

definition is_num :: "TOKEN list \<Rightarrow> nat \<Rightarrow> bool" where
  "is_num ts i \<longleftrightarrow> token_type (ts ! i) = T_NUM"

text \<open>The zone, the net and an optional slash: the address so far and the next token.\<close>

definition parse_zone_net :: "TOKEN list \<Rightarrow> FTN_ADDR \<times> nat" where
  "parse_zone_net ts =
     (let (z, i1) = (if is_num ts 0 \<and> is_sep ts 1 CHR '':'' then (tok_n (ts ! 0), 2) else (-1, 0));
          (net, i2) = (if is_num ts i1 \<and> is_sep ts (Suc i1) CHR ''/'' then (tok_n (ts ! i1), Suc i1)
                       else (-1, i1));
          i3 = (if is_sep ts i2 CHR ''/'' then Suc i2 else i2)
      in (FA_ZERO\<lparr>fa_z := z, fa_net := net\<rparr>, i3))"

definition parse_node_point :: "TOKEN list \<Rightarrow> FTN_ADDR \<times> nat \<Rightarrow> (FTN_ADDR \<times> nat) option" where
  "parse_node_point ts s =
     (let (fa, i) = s in
      if \<not> is_num ts i \<and> \<not> is_sep ts i CHR ''.'' then None
      else
        let (fa1, i1) = (if is_num ts i then (fa\<lparr>fa_node := tok_n (ts ! i)\<rparr>, Suc i) else (fa, i))
        in if is_sep ts i1 CHR ''.'' then
             (if is_num ts (Suc i1) then Some (fa1\<lparr>fa_p := tok_n (ts ! Suc i1)\<rparr>, i1 + 2) else None)
           else Some (fa1, i1))"

definition parse_domain :: "TOKEN list \<Rightarrow> FTN_DOMAIN list \<Rightarrow> FTN_ADDR \<times> nat \<Rightarrow> (FTN_ADDR \<times> nat) option" where
  "parse_domain ts doms s =
     (let (fa, i) = s in
      if is_sep ts i CHR ''@'' then
        (if token_type (ts ! Suc i) \<noteq> T_WORD then None
         else Some (fa\<lparr>fa_domain := resolve_domain (tok_s (ts ! Suc i)) doms\<rparr>, i + 2))
      else Some (fa, i))"

definition parse_finish :: "TOKEN list \<Rightarrow> FTN_ADDR \<times> nat \<Rightarrow> FTN_ADDR option" where
  "parse_finish ts s =
     (let (fa, i) = s in
      if token_type (ts ! i) \<noteq> T_NULL \<or>
         (fa_node fa = -1 \<and> fa_p fa = -1) \<or>
         (fa_domain fa \<noteq> [] \<and> fa_z fa = -1) \<or>
         (fa_z fa \<noteq> -1 \<and> fa_net fa = -1) \<or>
         (fa_net fa \<noteq> -1 \<and> fa_node fa = -1)
      then None
      else Some (if fa_p fa = -1 then fa\<lparr>fa_p := 0\<rparr> else fa))"

definition parse_ftnaddress :: "string \<Rightarrow> FTN_DOMAIN list \<Rightarrow> FTN_ADDR option" where
  "parse_ftnaddress s doms =
     (case gettokens TOKENS s of
        None \<Rightarrow> None
      | Some ts \<Rightarrow>
          (case parse_node_point ts (parse_zone_net ts) of
             None \<Rightarrow> None
           | Some st \<Rightarrow>
               (case parse_domain ts doms st of
                  None \<Rightarrow> None
                | Some st' \<Rightarrow> parse_finish ts st')))"

section \<open>Printing, expansion, comparison\<close>

definition xftnaddress_to_str :: "FTN_ADDR \<Rightarrow> bool \<Rightarrow> string" where
  "xftnaddress_to_str fa force_point =
     (if fa_z fa \<noteq> -1 then dec_of_int (fa_z fa) @ '':'' else []) @
     (if fa_net fa \<noteq> -1 then dec_of_int (fa_net fa) else []) @
     (if fa_node fa \<noteq> -1 then ''/'' @ dec_of_int (fa_node fa) else []) @
     (if fa_p fa \<noteq> 0 \<or> fa_node fa = -1 \<or> force_point then ''.'' @ dec_of_int (fa_p fa) else []) @
     (if fa_domain fa \<noteq> [] then ''@'' @ fa_domain fa else [])"

abbreviation ftnaddress_to_str :: "FTN_ADDR \<Rightarrow> string" where
  "ftnaddress_to_str fa \<equiv> xftnaddress_to_str fa False"

text \<open>Expansion from the main address (the first of a non-empty list of own addresses).\<close>

definition exp_ftnaddress :: "FTN_ADDR \<Rightarrow> FTN_ADDR list \<Rightarrow> FTN_DOMAIN list \<Rightarrow> FTN_ADDR" where
  "exp_ftnaddress fa pAddr doms =
     (let main = hd pAddr;
          fa1 = (if fa_z fa = -1 then
                   fa\<lparr>fa_z := (case get_domain_info (fa_domain fa) doms of
                                 Some d \<Rightarrow> (case alias4 d of Some a \<Rightarrow> dom_z a | None \<Rightarrow> dom_z d)
                               | None \<Rightarrow> fa_z main)\<rparr>
                 else fa);
          fa2 = (if fa_net fa1 = -1 then fa1\<lparr>fa_net := fa_net main\<rparr> else fa1);
          fa3 = (if fa_node fa2 = -1 then fa2\<lparr>fa_node := fa_node main\<rparr> else fa2)
      in if fa_domain fa3 = [] then fa3\<lparr>fa_domain := get_matched_domain (fa_z fa3) pAddr doms\<rparr> else fa3)"

definition ftnaddress_cmp :: "FTN_ADDR \<Rightarrow> FTN_ADDR \<Rightarrow> int" where
  "ftnaddress_cmp a b =
     (let i = o_stricmp (fa_domain a) (fa_domain b) in
      if i \<noteq> 0 then i
      else if fa_z a \<noteq> fa_z b then to_int32 (fa_z a - fa_z b)
      else if fa_net a \<noteq> fa_net b then to_int32 (fa_net a - fa_net b)
      else if fa_node a \<noteq> fa_node b then to_int32 (fa_node a - fa_node b)
      else if fa_p a \<noteq> fa_p b then to_int32 (fa_p a - fa_p b)
      else 0)"

text \<open>\<open>0\<close> when some address, printed with its point, matches the mask.\<close>

definition ftnamask_cmpm :: "string \<Rightarrow> FTN_ADDR list \<Rightarrow> int" where
  "ftnamask_cmpm msk fas =
     (if \<exists>fa\<in>set fas. pmatch_ncase msk (xftnaddress_to_str fa True) then 0 else -1)"

section \<open>Derived names\<close>

definition ftnaddress_to_domain :: "FTN_ADDR \<Rightarrow> FTN_DOMAIN list \<Rightarrow> string \<Rightarrow> string" where
  "ftnaddress_to_domain fa doms dflt =
     (let s = (if fa_p fa = 0 then [] else ''p'' @ dec_of_int (fa_p fa) @ ''.'') @
              ''f'' @ dec_of_int (fa_node fa) @ ''.n'' @ dec_of_int (fa_net fa) @
              ''.z'' @ dec_of_int (fa_z fa) @ ''.''
      in (case get_domain_info (fa_domain fa) doms of
            Some d \<Rightarrow> (case idomain d of Some i \<Rightarrow> strnzcat s i BINKD_FQDNLEN
                       | None \<Rightarrow> strnzcat s dflt BINKD_FQDNLEN)
          | None \<Rightarrow> strnzcat s dflt BINKD_FQDNLEN))"

text \<open>\<^verbatim>\<open>%x\<close> prints an \<^verbatim>\<open>int\<close> as its 32-bit unsigned value.\<close>

definition hex_int :: "nat \<Rightarrow> int \<Rightarrow> string" where
  "hex_int w i = hex_pad w (nat (i mod 2 ^ 32))"

text \<open>
  The zone extension \<^verbatim>\<open>ext\<close> and the point part \<^verbatim>\<open>pnt\<close> of an outbound file name.  They are unbounded here; in C the
  extension of a zone of 4096 or more overflows its array (\<open>ext_bytes\<close> counts the bytes stored), so for such
  zones the model has a name where the behaviour of the code is undefined.
\<close>

definition zone_ext :: "FTN_ADDR \<Rightarrow> FTN_DOMAIN \<Rightarrow> string" where
  "zone_ext fa d = (if fa_z fa \<noteq> dom_z d then ''.'' @ hex_int 3 (fa_z fa) else [])"

definition point_part :: "FTN_ADDR \<Rightarrow> string" where
  "point_part fa = (if fa_p fa \<noteq> 0 then ''.pnt/'' @ hex_int 8 (fa_p fa) else [])"

definition ftnaddress_to_filename :: "FTN_ADDR \<Rightarrow> FTN_DOMAIN list \<Rightarrow> string" where
  "ftnaddress_to_filename fa doms =
     (case get_domain_info (fa_domain fa) doms of
        None \<Rightarrow> []
      | Some d \<Rightarrow>
          take (MAXPATHLEN - 1)
            (dom_path d @ ''/'' @ dom_dir d @ zone_ext fa d @ ''/'' @
             hex_int 4 (fa_net fa) @ hex_int 4 (fa_node fa) @ point_part fa))"

text \<open>The bytes \<^verbatim>\<open>sprintf\<close> stores in \<^verbatim>\<open>ext\<close> (with the NUL), and the size of that array.\<close>

definition ext_bytes :: "FTN_ADDR \<Rightarrow> FTN_DOMAIN \<Rightarrow> nat" where
  "ext_bytes fa d = (if fa_z fa \<noteq> dom_z d then length (zone_ext fa d) + 1 else 0)"

abbreviation EXT_SIZE :: nat where "EXT_SIZE \<equiv> 5"

section \<open>Lemmas on tokens\<close>

lemma foldl_num_step:
  assumes "\<forall>c\<in>set ds. isdigit c" and "foldl (\<lambda>n c. n * 10 + digit_val c) m ds < 2 ^ 31"
  shows "foldl num_step (int m) ds = int (foldl (\<lambda>n c. n * 10 + digit_val c) m ds)"
  using assms
proof (induction ds arbitrary: m)
  case (Cons d ds)
  let ?m = "m * 10 + digit_val d"
  have mono: "k \<le> foldl (\<lambda>n c. n * 10 + digit_val c) k ds" for k
  proof (induction ds arbitrary: k)
    case (Cons a ds)
    have "k \<le> k * 10 + digit_val a" by simp
    also have "\<dots> \<le> foldl (\<lambda>n c. n * 10 + digit_val c) (k * 10 + digit_val a) ds" by (rule Cons.IH)
    finally show ?case by simp
  qed simp
  have "?m < 2 ^ 31" using Cons.prems(2) mono [of ?m] by simp
  moreover have "int m * 10 + int (ord d) - 48 = int ?m"
    using Cons.prems(1) by (simp add: digit_val_def isdigit_def of_nat_diff)
  ultimately have "num_step (int m) d = int ?m"
    by (simp add: num_step_def to_int32_id)
  moreover have "foldl num_step (int ?m) ds = int (foldl (\<lambda>n c. n * 10 + digit_val c) ?m ds)"
    using Cons.IH [of ?m] Cons.prems by simp
  ultimately show ?case by (simp only: foldl.simps)
qed simp

lemma foldl_num_step_dec: "n < 2 ^ 31 \<Longrightarrow> foldl num_step 0 (dec_of_nat n) = int n"
  using foldl_num_step [of "dec_of_nat n" 0] dec_of_nat_digits [of _ n]
  by (simp add: dec_value_dec_of_nat [unfolded dec_value_def])

lemma isdigit_not_separator: "isdigit c \<Longrightarrow> \<not> separator c"
  by (auto simp: separator_def isdigit_def)

lemma isalpha_not_separator: "isalpha c \<Longrightarrow> \<not> separator c"
  by (auto simp: separator_def ctype_simps)

lemma separator_not_digit: "separator c \<Longrightarrow> \<not> isdigit c"
  using isdigit_not_separator by blast

lemma gettoken_number:
  assumes "n < 2 ^ 31" and "r = [] \<or> \<not> isdigit (hd r)"
  shows "gettoken (dec_of_nat n @ r) = Some (\<lparr>tok_c = None, tok_n = int n, tok_s = []\<rparr>, r)"
proof -
  obtain c cs where c: "dec_of_nat n = c # cs" "isdigit c" using dec_of_nat_Cons by blast
  have d: "\<forall>x\<in>set (dec_of_nat n). isdigit x" using dec_of_nat_digits by blast
  have "takeWhile isdigit (dec_of_nat n @ r) = dec_of_nat n"
    "dropWhile isdigit (dec_of_nat n @ r) = r"
    using takeWhile_append_stop [OF d assms(2)] dropWhile_append_stop [OF d assms(2)] .
  moreover have "foldl num_step 0 (dec_of_nat n) = int n" using assms(1) by (rule foldl_num_step_dec)
  ultimately show ?thesis using c by (simp add: isdigit_not_separator)
qed

lemma gettoken_separator: "separator c \<Longrightarrow> gettoken (c # s) = Some (\<lparr>tok_c = Some c, tok_n = 0, tok_s = []\<rparr>, s)"
  by simp

text \<open>What the tokenizer accepts as a domain name, all of it in one token.\<close>

definition wf_domain_name :: "string \<Rightarrow> bool" where
  "wf_domain_name w \<longleftrightarrow> w \<noteq> [] \<and> isalpha (hd w) \<and> (\<forall>c\<in>set w. domain_char c) \<and> length w \<le> MAX_DOMAIN"

lemma gettoken_domain:
  "wf_domain_name w \<Longrightarrow> gettoken w = Some (\<lparr>tok_c = None, tok_n = 0, tok_s = w\<rparr>, [])"
proof -
  assume w: "wf_domain_name w"
  then have tw: "takeWhile domain_char w = w" and "take MAX_DOMAIN w = w"
    by (simp_all add: wf_domain_name_def takeWhile_eq_all_conv)
  then have "take MAX_DOMAIN (takeWhile domain_char w) = w" by (simp only: tw)
  moreover obtain c cs where "w = c # cs" "isalpha c"
    using w by (cases w) (auto simp: wf_domain_name_def)
  ultimately show ?thesis
    by (simp only: gettoken.simps isalpha_not_separator isalpha_not_digit Let_def if_False if_True) simp
qed

section \<open>Printing and parsing\<close>

text \<open>A full address whose domain, if any, the table does not rename.\<close>

definition wf_addr :: "FTN_ADDR \<Rightarrow> FTN_DOMAIN list \<Rightarrow> bool" where
  "wf_addr fa doms \<longleftrightarrow>
     0 \<le> fa_z fa \<and> fa_z fa < 2 ^ 31 \<and> 0 \<le> fa_net fa \<and> fa_net fa < 2 ^ 31 \<and>
     0 \<le> fa_node fa \<and> fa_node fa < 2 ^ 31 \<and> 0 \<le> fa_p fa \<and> fa_p fa < 2 ^ 31 \<and>
     (fa_domain fa \<noteq> [] \<longrightarrow>
        wf_domain_name (fa_domain fa) \<and> resolve_domain (fa_domain fa) doms = fa_domain fa)"

abbreviation num_tok :: "nat \<Rightarrow> TOKEN" where
  "num_tok n \<equiv> \<lparr>tok_c = None, tok_n = int n, tok_s = []\<rparr>"

abbreviation sep_tok :: "char \<Rightarrow> TOKEN" where
  "sep_tok c \<equiv> \<lparr>tok_c = Some c, tok_n = 0, tok_s = []\<rparr>"

abbreviation null_tok :: TOKEN where
  "null_tok \<equiv> \<lparr>tok_c = None, tok_n = -1, tok_s = []\<rparr>"

abbreviation word_tok :: "string \<Rightarrow> TOKEN" where
  "word_tok w \<equiv> \<lparr>tok_c = None, tok_n = 0, tok_s = w\<rparr>"

lemma gettokens_Nil: "gettokens k [] = Some (replicate k null_tok)"
  by (induction k) simp_all

lemma gettokens_number_end:
  "n < 2 ^ 31 \<Longrightarrow> gettokens (Suc k) (dec_of_nat n) = Some (num_tok n # replicate k null_tok)"
  using gettoken_number [of n "[]"] by (simp add: gettokens_Nil)

lemma gettokens_number_sep:
  "n < 2 ^ 31 \<Longrightarrow> separator c \<Longrightarrow>
   gettokens (Suc (Suc k)) (dec_of_nat n @ c # s) =
     map_option (\<lambda>ts. num_tok n # sep_tok c # ts) (gettokens k s)"
  using gettoken_number [of n "c # s"]
  by (simp add: separator_not_digit option.map_comp comp_def)

lemma gettokens_domain_end:
  "wf_domain_name w \<Longrightarrow> gettokens (Suc k) w = Some (word_tok w # replicate k null_tok)"
  using gettoken_domain [of w] by (simp add: gettokens_Nil)

lemma separators [simp]: "separator CHR '':''" "separator CHR ''/''" "separator CHR ''.''" "separator CHR ''@''"
  by (simp_all add: separator_def)

lemmas token_simps = token_type_def is_num_def is_sep_def nth_Cons_numeral

lemmas parse_stage_defs =
  parse_ftnaddress_def parse_zone_net_def parse_node_point_def parse_domain_def parse_finish_def

lemma TOKENS_Suc: "TOKENS = Suc (Suc (Suc (Suc (Suc (Suc (Suc (Suc (Suc (Suc 0)))))))))"
  by simp

lemma gettokens_address:
  assumes "z < 2 ^ 31" "net < 2 ^ 31" "node < 2 ^ 31" "pt < 2 ^ 31"
  defines "head \<equiv> dec_of_nat z @ '':'' @ dec_of_nat net @ ''/'' @ dec_of_nat node"
  defines "ht \<equiv> [num_tok z, sep_tok CHR '':'', num_tok net, sep_tok CHR ''/'', num_tok node]"
  shows "gettokens TOKENS head = Some (ht @ [null_tok, null_tok, null_tok, null_tok, null_tok])"
    and "wf_domain_name w \<Longrightarrow> gettokens TOKENS (head @ ''@'' @ w) =
      Some (ht @ [sep_tok CHR ''@'', word_tok w, null_tok, null_tok, null_tok])"
    and "gettokens TOKENS (head @ ''.'' @ dec_of_nat pt) =
      Some (ht @ [sep_tok CHR ''.'', num_tok pt, null_tok, null_tok, null_tok])"
    and "wf_domain_name w \<Longrightarrow> gettokens TOKENS (head @ ''.'' @ dec_of_nat pt @ ''@'' @ w) =
      Some (ht @ [sep_tok CHR ''.'', num_tok pt, sep_tok CHR ''@'', word_tok w, null_tok])"
  using assms(1-4) unfolding head_def ht_def TOKENS_Suc
  by (simp_all add: gettokens_number_sep gettokens_number_end gettokens_domain_end
      del: gettokens.simps(2))

lemma parse_tokens_address:
  assumes ts: "gettokens TOKENS s = Some ts"
    and t: "ts = [num_tok z, sep_tok CHR '':'', num_tok net, sep_tok CHR ''/'', num_tok node] @ tl5"
    and tl5: "(tl5 = [null_tok, null_tok, null_tok, null_tok, null_tok] \<and> pt = 0 \<and> dn = []) \<or>
      (tl5 = [sep_tok CHR ''@'', word_tok w, null_tok, null_tok, null_tok] \<and> pt = 0 \<and> w \<noteq> [] \<and> dn = resolve_domain w doms) \<or>
      (tl5 = [sep_tok CHR ''.'', num_tok pt, null_tok, null_tok, null_tok] \<and> dn = []) \<or>
      (tl5 = [sep_tok CHR ''.'', num_tok pt, sep_tok CHR ''@'', word_tok w, null_tok] \<and> w \<noteq> [] \<and> dn = resolve_domain w doms)"
  shows "parse_ftnaddress s doms =
    Some \<lparr>fa_domain = dn, fa_z = int z, fa_net = int net, fa_node = int node, fa_p = int pt\<rparr>"
  using tl5 by (elim disjE conjE) (simp_all add: parse_stage_defs ts t token_simps FA_ZERO_def Let_def)

lemma dec_of_int_nat: "0 \<le> i \<Longrightarrow> dec_of_int i = dec_of_nat (nat i)"
  by (simp add: dec_of_int_def)

lemma parse_printed:
  assumes "wf_addr fa doms"
  shows "parse_ftnaddress (xftnaddress_to_str fa fp) doms = Some fa"
proof -
  define z where "z = nat (fa_z fa)"
  define net where "net = nat (fa_net fa)"
  define node where "node = nat (fa_node fa)"
  define pt where "pt = nat (fa_p fa)"
  define head where "head = dec_of_nat z @ '':'' @ dec_of_nat net @ ''/'' @ dec_of_nat node"
  have eq: "fa_z fa = int z" "fa_net fa = int net" "fa_node fa = int node" "fa_p fa = int pt"
    using assms by (simp_all add: wf_addr_def z_def net_def node_def pt_def)
  have b: "z < 2 ^ 31" "net < 2 ^ 31" "node < 2 ^ 31" "pt < 2 ^ 31"
    using assms by (simp_all add: wf_addr_def z_def net_def node_def pt_def nat_less_iff)
  note tok = gettokens_address [OF b]
  have str: "xftnaddress_to_str fa fp = head @ (if pt \<noteq> 0 \<or> fp then ''.'' @ dec_of_nat pt else []) @
      (if fa_domain fa \<noteq> [] then ''@'' @ fa_domain fa else [])"
    by (simp add: xftnaddress_to_str_def eq head_def dec_of_int_nat)
  have dn: "wf_domain_name (fa_domain fa) \<and> resolve_domain (fa_domain fa) doms = fa_domain fa"
    if "fa_domain fa \<noteq> []" using assms that by (simp add: wf_addr_def)
  have "parse_ftnaddress (xftnaddress_to_str fa fp) doms =
      Some \<lparr>fa_domain = fa_domain fa, fa_z = int z, fa_net = int net, fa_node = int node, fa_p = int pt\<rparr>"
  proof (cases "pt \<noteq> 0 \<or> fp"; cases "fa_domain fa = []")
    assume "pt \<noteq> 0 \<or> fp" "fa_domain fa = []"
    with tok(3) show ?thesis
      unfolding str head_def by (intro parse_tokens_address [OF _ refl]) auto
  next
    assume "pt \<noteq> 0 \<or> fp" "fa_domain fa \<noteq> []"
    with tok(4) [of "fa_domain fa"] dn show ?thesis
      unfolding str head_def by (intro parse_tokens_address [OF _ refl]) auto
  next
    assume "\<not> (pt \<noteq> 0 \<or> fp)" "fa_domain fa = []"
    with tok(1) show ?thesis
      unfolding str head_def by (intro parse_tokens_address [OF _ refl]) auto
  next
    assume "\<not> (pt \<noteq> 0 \<or> fp)" "fa_domain fa \<noteq> []"
    with tok(2) [of "fa_domain fa"] dn show ?thesis
      unfolding str head_def by (intro parse_tokens_address [OF _ refl]) auto
  qed
  then show ?thesis by (simp flip: eq)
qed

section \<open>Comparison\<close>

definition int32 :: "int \<Rightarrow> bool" where
  "int32 x \<longleftrightarrow> - (2 ^ 31) \<le> x \<and> x < 2 ^ 31"

definition addr_int32 :: "FTN_ADDR \<Rightarrow> bool" where
  "addr_int32 a \<longleftrightarrow> int32 (fa_z a) \<and> int32 (fa_net a) \<and> int32 (fa_node a) \<and> int32 (fa_p a) \<and> nul_free (fa_domain a)"

lemma to_int32_diff: "int32 x \<Longrightarrow> int32 y \<Longrightarrow> x \<noteq> y \<Longrightarrow> to_int32 (x - y) \<noteq> 0"
proof
  assume xy: "int32 x" "int32 y" "x \<noteq> y" and "to_int32 (x - y) = 0"
  then have "(x - y + 2 ^ 31) mod 2 ^ 32 = 2 ^ 31 mod 2 ^ 32"
    by (simp add: to_int32_def signed_take_bit_eq_take_bit_shift take_bit_eq_mod)
  then have "2 ^ 32 dvd (x - y + 2 ^ 31) - 2 ^ 31" by (simp only: mod_eq_dvd_iff)
  then have "2 ^ 32 dvd x - y" by (simp only: add_diff_cancel_right')
  with xy(3) have "\<bar>2 ^ 32\<bar> \<le> \<bar>x - y\<bar>" by (intro dvd_imp_le_int) auto
  then have "4294967296 \<le> \<bar>x - y\<bar>" by simp
  with xy(1,2) show False unfolding int32_def by simp linarith
qed

lemma ftnaddress_cmp_0:
  assumes "addr_int32 a" and "addr_int32 b"
  shows "ftnaddress_cmp a b = 0 \<longleftrightarrow>
    strlower (fa_domain a) = strlower (fa_domain b) \<and> fa_z a = fa_z b \<and> fa_net a = fa_net b \<and>
    fa_node a = fa_node b \<and> fa_p a = fa_p b"
  using assms by (auto simp: ftnaddress_cmp_def addr_int32_def Let_def o_stricmp_eq_0 to_int32_diff)

lemma ftnaddress_cmp_refl [simp]: "ftnaddress_cmp a a = 0"
  by (simp add: ftnaddress_cmp_def)

section \<open>Outbound file names\<close>

definition ftn16 :: "FTN_ADDR \<Rightarrow> bool" where
  "ftn16 fa \<longleftrightarrow> 0 \<le> fa_z fa \<and> fa_z fa < 2 ^ 31 \<and> 0 \<le> fa_net fa \<and> fa_net fa < 65536 \<and>
     0 \<le> fa_node fa \<and> fa_node fa < 65536 \<and> 0 \<le> fa_p fa \<and> fa_p fa < 2 ^ 31"

lemma slash_not_hex_digit [simp]: "n < 16 \<Longrightarrow> CHR ''/'' \<noteq> hex_digit n"
proof -
  have "\<not> isxdigit CHR ''/''" by (simp add: ctype_simps)
  then show "n < 16 \<Longrightarrow> CHR ''/'' \<noteq> hex_digit n" by (metis isxdigit_hex_digit)
qed

lemma hex_of_nat_no_slash: "CHR ''/'' \<notin> set (hex_of_nat n)"
proof (induction n rule: hex_of_nat.induct)
  case (1 n)
  then show ?case
    by (subst hex_of_nat.simps) auto
qed

lemma hex_int_no_slash: "CHR ''/'' \<notin> set (hex_int w i)"
  using hex_of_nat_no_slash by (auto simp: hex_int_def hex_pad_def)

lemma hex_int_inj:
  "0 \<le> i \<Longrightarrow> i < 2 ^ 32 \<Longrightarrow> 0 \<le> j \<Longrightarrow> j < 2 ^ 32 \<Longrightarrow> hex_int w i = hex_int w j \<longleftrightarrow> i = j"
  by (simp add: hex_int_def hex_pad_inj nat_eq_iff)

lemma length_hex_int_4: "0 \<le> i \<Longrightarrow> i < 65536 \<Longrightarrow> length (hex_int 4 i) = 4"
  using length_hex_pad [of "nat i" 3] by (simp add: hex_int_def nat_less_iff)

lemma append_slash_inj:
  "xs @ CHR ''/'' # ys = xs' @ CHR ''/'' # ys' \<Longrightarrow> CHR ''/'' \<notin> set xs \<Longrightarrow> CHR ''/'' \<notin> set xs' \<Longrightarrow> xs = xs' \<and> ys = ys'"
proof (induction xs arbitrary: xs')
  case Nil
  then show ?case by (cases xs') auto
next
  case (Cons x xs)
  then show ?case by (cases xs') auto
qed

lemma filename_inj:
  assumes "ftn16 a" "ftn16 b"
    and "zone_ext a d @ ''/'' @ hex_int 4 (fa_net a) @ hex_int 4 (fa_node a) @ point_part a =
         zone_ext b d @ ''/'' @ hex_int 4 (fa_net b) @ hex_int 4 (fa_node b) @ point_part b"
  shows "fa_z a = fa_z b \<and> fa_net a = fa_net b \<and> fa_node a = fa_node b \<and> fa_p a = fa_p b"
proof -
  have "CHR ''/'' \<notin> set (zone_ext x d)" for x by (simp add: zone_ext_def hex_int_no_slash)
  with append_slash_inj assms(3)
  have ext: "zone_ext a d = zone_ext b d"
    and rest: "hex_int 4 (fa_net a) @ hex_int 4 (fa_node a) @ point_part a =
      hex_int 4 (fa_net b) @ hex_int 4 (fa_node b) @ point_part b"
    by (metis append_Cons append_Nil)+
  have z: "fa_z a = fa_z b"
    using ext assms(1,2) by (auto simp: zone_ext_def ftn16_def hex_int_inj split: if_splits)
  have "hex_int 4 (fa_net a) = hex_int 4 (fa_net b)" "hex_int 4 (fa_node a) = hex_int 4 (fa_node b)"
    "point_part a = point_part b"
    using rest assms(1,2) by (auto simp: ftn16_def length_hex_int_4)
  with z assms(1,2) show ?thesis
    by (auto simp: point_part_def ftn16_def hex_int_inj split: if_splits)
qed

section \<open>Properties\<close>

text \<open>
  C34: an address printed by \<^verbatim>\<open>ftnaddress_to_str\<close> (with or without a forced point) is read
  back unchanged by \<^verbatim>\<open>parse_ftnaddress\<close>, whatever domain table is in force, as long as its
  numbers are \<^verbatim>\<open>int\<close>s, its domain is a name of at most 32 characters and the table does not
  rename it.
\<close>

theorem address_roundtrip:
  assumes "wf_addr fa doms"
  shows "parse_ftnaddress (xftnaddress_to_str fa force_point) doms = Some fa"
  using assms by (rule parse_printed)

theorem address_roundtrip_witness:
  "parse_ftnaddress (xftnaddress_to_str \<lparr>fa_domain = ''fidonet'', fa_z = 2, fa_net = 5047, fa_node = 13, fa_p = 1\<rparr> False) []
   = Some \<lparr>fa_domain = ''fidonet'', fa_z = 2, fa_net = 5047, fa_node = 13, fa_p = 1\<rparr>"
  by (rule address_roundtrip)
    (simp add: wf_addr_def wf_domain_name_def resolve_domain_def domain_char_def ctype_simps)

text \<open>
  \<^verbatim>\<open>ftnaddress_cmp\<close> returns \<open>0\<close> exactly for addresses with equal numbers and domains
  equal up to letter case; the \<^verbatim>\<open>int\<close> subtraction never hides a difference.
\<close>

theorem ftnaddress_cmp_iff:
  assumes "addr_int32 a" and "addr_int32 b"
  shows "ftnaddress_cmp a b = 0 \<longleftrightarrow>
    strlower (fa_domain a) = strlower (fa_domain b) \<and> fa_z a = fa_z b \<and> fa_net a = fa_net b \<and>
    fa_node a = fa_node b \<and> fa_p a = fa_p b"
  using assms by (rule ftnaddress_cmp_0)

theorem ftnaddress_cmp_iff_witness:
  "ftnaddress_cmp \<lparr>fa_domain = ''FidoNet'', fa_z = 2, fa_net = 1, fa_node = 3, fa_p = 0\<rparr>
     \<lparr>fa_domain = ''fidonet'', fa_z = 2, fa_net = 1, fa_node = 3, fa_p = 0\<rparr> = 0"
  by (subst ftnaddress_cmp_iff) (simp_all add: addr_int32_def int32_def, code_simp)

text \<open>
  C35: two different addresses of one domain never share an outbound file name, and so never share a busy
  flag, when their nets and nodes are less than 65536, their zones less than 4096 and the name is not cut off
  at the path limit.  The bounds are those of the code: \<^verbatim>\<open>%04x%04x\<close> runs a larger net into the node, and a larger
  zone overflows the array \<^verbatim>\<open>ext\<close> (\<open>zone_ext_fits_iff\<close>), although \<^verbatim>\<open>parse_ftnaddress\<close> reads both.
\<close>

theorem outbound_name_injective:
  assumes "get_domain_info (fa_domain a) doms = Some d" and "get_domain_info (fa_domain b) doms = Some d"
    and "ftn16 a" and "ftn16 b" and "fa_z a < 4096" and "fa_z b < 4096"
    and "length (ftnaddress_to_filename a doms) < MAXPATHLEN - 1"
    and "(fa_z a, fa_net a, fa_node a, fa_p a) \<noteq> (fa_z b, fa_net b, fa_node b, fa_p b)"
  shows "ftnaddress_to_filename a doms \<noteq> ftnaddress_to_filename b doms"
proof
  assume eq: "ftnaddress_to_filename a doms = ftnaddress_to_filename b doms"
  let ?n = "\<lambda>x. zone_ext x d @ ''/'' @ hex_int 4 (fa_net x) @ hex_int 4 (fa_node x) @ point_part x"
  let ?f = "\<lambda>x. dom_path d @ ''/'' @ dom_dir d @ ?n x"
  have f: "ftnaddress_to_filename a doms = take (MAXPATHLEN - 1) (?f a)"
    "ftnaddress_to_filename b doms = take (MAXPATHLEN - 1) (?f b)"
    by (simp_all only: ftnaddress_to_filename_def assms(1,2) option.case append_assoc)
  have short: "take m xs = xs" if "length (take m xs) < m" for m and xs :: string using that by auto
  have "take (MAXPATHLEN - 1) (?f a) = ?f a"
    by (rule short) (rule assms(7) [unfolded f])
  moreover have "take (MAXPATHLEN - 1) (?f b) = ?f b"
    by (rule short) (rule assms(7) [unfolded eq f])
  ultimately have "?f a = ?f b" using eq unfolding f by argo
  then have "?n a = ?n b" by simp
  then show False using filename_inj [OF assms(3,4)] assms(8) by blast
qed

definition fidonet :: FTN_DOMAIN where
  "fidonet = Domain ''fidonet'' ''/var/spool'' ''outb'' 2 None None"

theorem outbound_name_injective_witness:
  "ftnaddress_to_filename \<lparr>fa_domain = ''fidonet'', fa_z = 1, fa_net = 0x12, fa_node = 0x3, fa_p = 0\<rparr> [fidonet] \<noteq>
   ftnaddress_to_filename \<lparr>fa_domain = ''FidoNet'', fa_z = 1, fa_net = 0x1, fa_node = 0x2003, fa_p = 0\<rparr> [fidonet]"
proof -
  let ?a = "\<lparr>fa_domain = ''fidonet'', fa_z = 1, fa_net = 0x12, fa_node = 0x3, fa_p = 0\<rparr>"
  let ?b = "\<lparr>fa_domain = ''FidoNet'', fa_z = 1, fa_net = 0x1, fa_node = 0x2003, fa_p = 0\<rparr>"
  have d: "get_domain_info (fa_domain ?a) [fidonet] = Some fidonet"
    "get_domain_info (fa_domain ?b) [fidonet] = Some fidonet"
    by code_simp+
  have len: "length (ftnaddress_to_filename ?a [fidonet]) < MAXPATHLEN - 1"
    using d(1) by (simp add: ftnaddress_to_filename_def zone_ext_def point_part_def fidonet_def
        hex_int_def hex_pad_def hex_of_nat.simps)
  have "ftn16 ?a" "ftn16 ?b" "fa_z ?a < 4096" "fa_z ?b < 4096" by (simp_all add: ftn16_def)
  from outbound_name_injective [OF d this len] show ?thesis by simp
qed

text \<open>
  the zone extension fits the five-byte array \<^verbatim>\<open>ext\<close> of \<^verbatim>\<open>ftnaddress_to_filename\<close>
  exactly for zones below 4096; every larger zone, which \<^verbatim>\<open>parse_ftnaddress\<close> accepts, makes
  \<^verbatim>\<open>sprintf\<close> write behind it.
\<close>

theorem zone_ext_fits_iff:
  assumes "0 \<le> fa_z fa" and "fa_z fa < 2 ^ 31" and "fa_z fa \<noteq> dom_z d"
  shows "ext_bytes fa d \<le> EXT_SIZE \<longleftrightarrow> fa_z fa < 4096"
proof -
  have n: "nat (fa_z fa mod 2 ^ 32) = nat (fa_z fa)" using assms by simp
  have "length (hex_of_nat (nat (fa_z fa))) \<le> 3 \<longleftrightarrow> fa_z fa < 4096"
    using hex_of_nat_length_le [of "nat (fa_z fa)" 2] hex_of_nat_length_gt [of 2 "nat (fa_z fa)"] assms(1)
    by (simp add: nat_less_iff le_nat_iff) linarith
  then show ?thesis
    using assms by (simp add: ext_bytes_def zone_ext_def hex_int_def hex_pad_def n) linarith
qed

theorem zone_ext_fits_iff_witness:
  "parse_ftnaddress ''4096:1/1@fidonet'' [fidonet] =
     Some \<lparr>fa_domain = ''fidonet'', fa_z = 4096, fa_net = 1, fa_node = 1, fa_p = 0\<rparr> \<and>
   \<not> ext_bytes \<lparr>fa_domain = ''fidonet'', fa_z = 4096, fa_net = 1, fa_node = 1, fa_p = 0\<rparr> fidonet \<le> EXT_SIZE"
proof
  show "parse_ftnaddress ''4096:1/1@fidonet'' [fidonet] =
     Some \<lparr>fa_domain = ''fidonet'', fa_z = 4096, fa_net = 1, fa_node = 1, fa_p = 0\<rparr>"
    by code_simp
  show "\<not> ext_bytes \<lparr>fa_domain = ''fidonet'', fa_z = 4096, fa_net = 1, fa_node = 1, fa_p = 0\<rparr> fidonet \<le> EXT_SIZE"
    by (subst zone_ext_fits_iff) (simp_all add: fidonet_def)
qed

end
