(* ===== verification/Getw.thy ===== *)
theory Getw
  imports Strings
begin

text \<open>
  Word extraction, \<^verbatim>\<open>getw.c\<close>: the n-th field of a line, with backslash escapes, double quotes,
  comments and \<^verbatim>\<open>%VAR%\<close> substitution. A pointer into the line is the list from there on;
  \<open>GwOob\<close> is a read beyond the terminating NUL.
\<close>

section \<open>The scanner\<close>

record gwx_flags =
  GWX_SUBST :: bool
  GWX_HASH :: bool
  GWX_NOESC :: bool

datatype gw_result = GwNull | GwWord string | GwOob

text \<open>The digits of a numeric escape; octal escapes stop at a letter.\<close>

fun esc_digits :: "nat \<Rightarrow> nat \<Rightarrow> string \<Rightarrow> nat \<times> string" where
  "esc_digits base ch [] = (ch, [])"
| "esc_digits base ch (c # s) =
     (if isdigit c then esc_digits base (ch * base + digit_val c) s
      else if isxdigit c \<and> base = 16 then esc_digits base (ch * base + xdigit_val c) s
      else (ch, c # s))"

definition esc_letter :: "char \<Rightarrow> char" where
  "esc_letter c =
     (if c = CHR ''a'' then CHR 0x07 else if c = CHR ''b'' then CHR 0x08
      else if c = CHR ''f'' then CHR 0x0C else if c = CHR ''n'' then CHR 0x0A
      else if c = CHR ''r'' then CHR 0x0D else if c = CHR ''t'' then CHR 0x09
      else if c = CHR ''E'' then CHR 0x1B else c)"

text \<open>The character after a backslash; at the end of the line the code steps over the NUL.\<close>

fun escape :: "string \<Rightarrow> (char \<times> string) option" where
  "escape [] = None"
| "escape (c # s) =
     (if \<not> isdigit c \<and> c \<noteq> CHR ''x'' \<and> c \<noteq> CHR ''X'' then Some (esc_letter c, s)
      else (let (ch, r) = (if toupper c = CHR ''X'' then esc_digits 16 0 s else esc_digits 8 0 (c # s))
            in Some (char_of ch, r)))"

text \<open>
  The name of a substituted variable: \<open>None\<close> when the scan runs over the NUL or the name fills
  the 257 bytes of \<^verbatim>\<open>varname\<close>.
\<close>

fun var_name :: "nat \<Rightarrow> string \<Rightarrow> (string \<times> string) option" where
  "var_name 0 s = None"
| "var_name (Suc k) [] = None"
| "var_name (Suc k) (c # s) =
     (if isspace c \<or> c = CHR ''%'' then Some ([], c # s)
      else map_option (\<lambda>(v, r). (toupper c # v, r)) (var_name k s))"

lemma esc_digits_shorter: "length (snd (esc_digits base ch s)) \<le> length s"
  by (induction base ch s rule: esc_digits.induct) (auto split: if_splits)

lemma escape_shorter: "escape s = Some (c, r) \<Longrightarrow> length r \<le> length s"
  using esc_digits_shorter [of 16 0 "tl s"] esc_digits_shorter [of 8 0 s]
  by (cases s) (auto simp: Let_def split: if_splits prod.splits)

lemma var_name_shorter: "var_name k s = Some (v, r) \<Longrightarrow> length r \<le> length s"
  by (induction k s arbitrary: v r rule: var_name.induct) (fastforce split: if_splits)+

text \<open>
  One turn of the inner loop at the character \<open>c\<close>: the word ends here, the code reads out of
  bounds, or it stores some characters and goes on with a quoting state and a rest.
\<close>

datatype gw_step = GwStop | GwBad | GwEmit string bool string

definition gw_step :: "gwx_flags \<Rightarrow> char set \<Rightarrow> (string \<Rightarrow> string option) \<Rightarrow> bool \<Rightarrow> char \<Rightarrow> string \<Rightarrow> gw_step" where
  "gw_step fl seps getenv quoted c r =
     (if \<not> GWX_NOESC fl \<and> c = CHR 0x5C then
        (case escape r of None \<Rightarrow> GwBad | Some (ch, r') \<Rightarrow> GwEmit [ch] quoted r')
      else if c = CHR 0x0A \<or> c = CHR 0x0D then GwStop
      else if c = CHR 0x22 then GwEmit [] (\<not> quoted) r
      else if c \<in> seps \<and> \<not> quoted then GwStop
      else if c = CHR ''%'' \<and> GWX_SUBST fl then
        (if r \<noteq> [] \<and> hd r = CHR ''%'' then GwEmit ''%'' quoted (tl r)
         else (case var_name 257 r of
                 None \<Rightarrow> GwBad
               | Some (v, r') \<Rightarrow> GwEmit (case getenv v of None \<Rightarrow> [] | Some x \<Rightarrow> x) quoted (tl r')))
      else GwEmit [c] quoted r)"

lemma gw_step_shorter: "gw_step fl seps env q c r = GwEmit w q' r' \<Longrightarrow> length r' \<le> length r"
  by (auto simp: gw_step_def dest!: escape_shorter var_name_shorter split: if_splits option.splits)

text \<open>
  One word: the result is the word, the quoting state and the rest of the line, or \<open>None\<close>
  for a read out of bounds. The quoting state is kept from one word to the next.
\<close>

function gw_scan :: "gwx_flags \<Rightarrow> char set \<Rightarrow> (string \<Rightarrow> string option) \<Rightarrow> bool \<Rightarrow> string \<Rightarrow>
    (string \<times> bool \<times> string) option" where
  "gw_scan fl seps getenv quoted [] = Some ([], quoted, [])"
| "gw_scan fl seps getenv quoted (c # r) =
     (case gw_step fl seps getenv quoted c r of
        GwStop \<Rightarrow> Some ([], quoted, c # r)
      | GwBad \<Rightarrow> None
      | GwEmit w quoted' r' \<Rightarrow> map_option (apfst ((@) w)) (gw_scan fl seps getenv quoted' r'))"
  by pat_completeness auto
termination
  by (relation "measure (\<lambda>(fl, seps, getenv, quoted, s). length s)")
    (auto dest!: gw_step_shorter)

fun gw_words :: "gwx_flags \<Rightarrow> char set \<Rightarrow> char set \<Rightarrow> (string \<Rightarrow> string option) \<Rightarrow> bool \<Rightarrow> nat \<Rightarrow> string \<Rightarrow> gw_result" where
  "gw_words fl seps skip getenv quoted 0 src = GwNull"
| "gw_words fl seps skip getenv quoted (Suc n) src =
     (let s = dropWhile (\<lambda>c. c \<in> skip) src in
      if s = [] \<or> (GWX_HASH fl \<and> hd s = CHR ''#'') then GwNull
      else (case gw_scan fl seps getenv quoted s of
              None \<Rightarrow> GwOob
            | Some (w, quoted', rest) \<Rightarrow>
                if n = 0 then GwWord (takeWhile (\<lambda>c. c \<noteq> NUL_char) w)
                else gw_words fl seps skip getenv quoted' n
                       (if rest \<noteq> [] \<and> hd rest \<in> seps then tl rest else rest)))"

text \<open>\<^verbatim>\<open>getwordx2\<close>; words are numbered from 1.\<close>

definition getwordx2 :: "string \<Rightarrow> nat \<Rightarrow> gwx_flags \<Rightarrow> char set \<Rightarrow> char set \<Rightarrow> (string \<Rightarrow> string option) \<Rightarrow> gw_result" where
  "getwordx2 src n fl fldsep fldskip getenv = gw_words fl fldsep fldskip getenv False n src"

definition blanks :: "char set" where
  "blanks = {CHR '' '', CHR 0x09, CHR 0x0A, CHR 0x0D}"

text \<open>The macro \<^verbatim>\<open>getwordx\<close>, used without substitution in the protocol.\<close>

definition getwordx :: "string \<Rightarrow> nat \<Rightarrow> gwx_flags \<Rightarrow> gw_result" where
  "getwordx src n fl = getwordx2 src n fl blanks blanks (\<lambda>_. None)"

definition no_flags :: gwx_flags where
  "no_flags = \<lparr>GWX_SUBST = False, GWX_HASH = False, GWX_NOESC = False\<rparr>"

definition noesc :: gwx_flags where
  "noesc = \<lparr>GWX_SUBST = False, GWX_HASH = False, GWX_NOESC = True\<rparr>"

text \<open>
  The loop \<^verbatim>\<open>for (i = 1; (w = getwordx (s, i, flags)) != 0; ++i)\<close>: the words it visits,
  \<open>None\<close> if it reads out of bounds. A line of \<open>k\<close> characters has at most \<open>k\<close> words.
\<close>

fun collect_words :: "string \<Rightarrow> gwx_flags \<Rightarrow> nat \<Rightarrow> nat \<Rightarrow> string list option" where
  "collect_words s fl i 0 = Some []"
| "collect_words s fl i (Suc k) =
     (case getwordx s i fl of
        GwNull \<Rightarrow> Some []
      | GwOob \<Rightarrow> None
      | GwWord w \<Rightarrow> map_option ((#) w) (collect_words s fl (Suc i) k))"

definition all_words :: "string \<Rightarrow> gwx_flags \<Rightarrow> string list option" where
  "all_words s fl = collect_words s fl 1 (Suc (length s))"

section \<open>Lemmas\<close>

lemma gw_scan_rest: "gw_scan fl seps env q s = Some (w, q', rest) \<Longrightarrow> length rest \<le> length s"
  by (induction fl seps env q s arbitrary: w q' rest rule: gw_scan.induct)
    (fastforce dest: gw_step_shorter split: gw_step.splits)+

text \<open>A word that starts at a character that does not stop the scan takes at least that character.\<close>

lemma gw_scan_progress:
  "gw_scan fl seps env q (c # r) = Some (w, q', rest) \<Longrightarrow> gw_step fl seps env q c r \<noteq> GwStop \<Longrightarrow>
   length rest \<le> length r"
  by (fastforce dest: gw_step_shorter gw_scan_rest split: gw_step.splits)

lemma esc_digits_subset: "set (snd (esc_digits base ch s)) \<subseteq> set s"
  by (induction base ch s rule: esc_digits.induct) auto

lemma escape_subset: "escape s = Some (c, r) \<Longrightarrow> set r \<subseteq> set s"
  using esc_digits_subset [of 16 0 "tl s"] esc_digits_subset [of 8 0 s]
  by (cases s) (auto simp: Let_def split: if_splits prod.splits)

lemma var_name_subset: "var_name k s = Some (v, r) \<Longrightarrow> set r \<subseteq> set s"
  by (induction k s arbitrary: v r rule: var_name.induct) (fastforce split: if_splits)+

lemma set_tl: "x \<in> set (tl xs) \<Longrightarrow> x \<in> set xs"
  by (cases xs) auto

lemma gw_step_subset: "gw_step fl seps env q c r = GwEmit w q' r' \<Longrightarrow> set r' \<subseteq> set r"
  by (auto simp: gw_step_def dest!: escape_subset var_name_subset dest: set_tl split: if_splits option.splits)

lemma gw_scan_subset: "gw_scan fl seps env q s = Some (w, q', rest) \<Longrightarrow> set rest \<subseteq> set s"
  by (induction fl seps env q s arbitrary: w q' rest rule: gw_scan.induct)
    (fastforce dest: gw_step_subset split: gw_step.splits)+

text \<open>
  The number of words is bounded when the line breaks of the line, which end a word, are separators: what
  is not one is never passed.
\<close>

lemma gw_words_bound:
  "set s \<inter> {CHR 0x0A, CHR 0x0D} \<subseteq> seps \<Longrightarrow> length s < n \<Longrightarrow>
   gw_words fl seps skip env q n s = GwNull \<or> gw_words fl seps skip env q n s = GwOob"
proof (induction n arbitrary: q s)
  case (Suc n)
  define t where "t = dropWhile (\<lambda>c. c \<in> skip) s"
  have lt: "length t \<le> n" using Suc.prems(2) length_dropWhile_le [of "\<lambda>c. c \<in> skip" s]
    by (simp add: t_def)
  have st: "set t \<subseteq> set s" by (auto simp: t_def dest: set_dropWhileD)
  show ?case
  proof (cases "t = [] \<or> (GWX_HASH fl \<and> hd t = CHR ''#'') \<or> gw_scan fl seps env q t = None")
    case True
    then show ?thesis by (auto simp: t_def Let_def)
  next
    case False
    then obtain w q' rest where sc: "gw_scan fl seps env q t = Some (w, q', rest)" by auto
    from False obtain c r where t: "t = c # r" by (cases t) auto
    define u where "u = (if rest \<noteq> [] \<and> hd rest \<in> seps then tl rest else rest)"
    have "length u \<le> length r"
    proof (cases "gw_step fl seps env q c r = GwStop")
      case True
      then have "c \<in> seps" using Suc.prems(1) st t by (auto simp: gw_step_def split: if_splits option.splits)
      with True show ?thesis using sc t by (auto simp: u_def)
    next
      case False
      then show ?thesis using gw_scan_progress [OF sc [unfolded t] False] by (auto simp: u_def)
    qed
    then have len: "length u < n" using lt t by simp
    have "set u \<subseteq> set s" using gw_scan_subset [OF sc] st by (auto simp: u_def dest: set_tl)
    then have "set u \<inter> {CHR 0x0A, CHR 0x0D} \<subseteq> seps" using Suc.prems(1) by blast
    from Suc.IH [OF this len] False sc len show ?thesis
      by (simp add: t_def [symmetric] u_def [symmetric] Let_def)
  qed
qed simp

lemma getwordx_bound: "length s < n \<Longrightarrow> getwordx s n fl = GwNull \<or> getwordx s n fl = GwOob"
  unfolding getwordx_def getwordx2_def by (rule gw_words_bound) (auto simp: blanks_def)

text \<open>The specification on lines without escapes and quotes: the blank-separated fields.\<close>

function fields :: "string \<Rightarrow> string list" where
  "fields s =
     (let t = dropWhile (\<lambda>c. c \<in> blanks) s in
      if t = [] then []
      else takeWhile (\<lambda>c. c \<notin> blanks) t # fields (dropWhile (\<lambda>c. c \<notin> blanks) t))"
  by pat_completeness auto
termination
proof (relation "measure length")
  fix s t :: string
  assume t: "t = dropWhile (\<lambda>c. c \<in> blanks) s" "t \<noteq> []"
  then have "hd t \<notin> blanks" using hd_dropWhile [of "\<lambda>c. c \<in> blanks" s] by simp
  with t(2) have "length (dropWhile (\<lambda>c. c \<notin> blanks) t) < length t"
    by (cases t) (auto simp: less_Suc_eq_le length_dropWhile_le)
  also have "\<dots> \<le> length s" by (simp add: t(1) length_dropWhile_le)
  finally show "(dropWhile (\<lambda>c. c \<notin> blanks) t, s) \<in> measure length" by simp
qed simp

declare fields.simps [simp del]

definition plain_line :: "gwx_flags \<Rightarrow> string \<Rightarrow> bool" where
  "plain_line fl s \<longleftrightarrow> \<not> GWX_SUBST fl \<and> \<not> GWX_HASH fl \<and> nul_free s \<and> CHR 0x22 \<notin> set s \<and>
     (GWX_NOESC fl \<or> CHR 0x5C \<notin> set s)"

lemma gw_scan_plain:
  "plain_line fl s \<Longrightarrow>
   gw_scan fl blanks env False s =
     Some (takeWhile (\<lambda>c. c \<notin> blanks) s, False, dropWhile (\<lambda>c. c \<notin> blanks) s)"
proof (induction s)
  case (Cons c s)
  then have "gw_step fl blanks env False c s = (if c \<in> blanks then GwStop else GwEmit [c] False s)"
    by (auto simp: gw_step_def plain_line_def blanks_def)
  moreover have "plain_line fl s" using Cons.prems by (auto simp: plain_line_def)
  ultimately show ?case using Cons.IH by simp
qed simp

lemma plain_line_subset: "plain_line fl s \<Longrightarrow> set t \<subseteq> set s \<Longrightarrow> plain_line fl t"
  by (auto simp: plain_line_def nul_free_def)

lemma fields_skip_blank: "fields (dropWhile (\<lambda>c. c \<in> blanks) s) = fields s"
  by (simp add: fields.simps [of s] fields.simps [of "dropWhile (\<lambda>c. c \<in> blanks) s"] dropWhile_idem)

lemma fields_blank: "c \<in> blanks \<Longrightarrow> fields (c # s) = fields s"
  by (simp add: fields.simps [of s] fields.simps [of "c # s"])

lemma gw_words_plain:
  "plain_line fl s \<Longrightarrow>
   gw_words fl blanks blanks env False (Suc n) s =
     (if n < length (fields s) then GwWord (fields s ! n) else GwNull)"
proof (induction n arbitrary: s)
  define t where "t s = dropWhile (\<lambda>c. c \<in> blanks) s" for s :: string
  have pt: "plain_line fl (t s)" if "plain_line fl s" for s
    using that by (rule plain_line_subset) (auto simp: t_def dest: set_dropWhileD)
  {
    case 0
    from pt [OF 0] have "takeWhile (\<lambda>c. c \<noteq> NUL_char) (takeWhile (\<lambda>c. c \<notin> blanks) (t s)) =
        takeWhile (\<lambda>c. c \<notin> blanks) (t s)"
      by (auto simp: takeWhile_eq_all_conv plain_line_def nul_free_def dest: set_takeWhileD)
    with pt [OF 0] 0 show ?case
      by (simp add: t_def [symmetric] Let_def fields.simps [of s] gw_scan_plain plain_line_def)
  next
    case (Suc n)
    let ?r = "dropWhile (\<lambda>c. c \<notin> blanks) (t s)"
    let ?r' = "if ?r \<noteq> [] \<and> hd ?r \<in> blanks then tl ?r else ?r"
    have "set ?r' \<subseteq> set ?r" by (cases ?r) auto
    also have "\<dots> \<subseteq> set (t s)" using set_dropWhileD by fast
    finally have "set ?r' \<subseteq> set (t s)" .
    then have "plain_line fl ?r'" using pt [OF Suc.prems] by (rule plain_line_subset [rotated])
    moreover have "fields ?r' = fields ?r"
      by (cases ?r) (auto simp: fields_blank)
    ultimately show ?case
      using Suc.IH [of ?r'] pt [OF Suc.prems] Suc.prems
      by (subst gw_words.simps)
        (simp add: t_def [symmetric] Let_def fields.simps [of s] gw_scan_plain plain_line_def
          del: gw_words.simps)
  }
qed

section \<open>Properties\<close>

lemma length_fields: "length (fields s) \<le> length s"
proof (induction s rule: fields.induct)
  case (1 s)
  let ?t = "dropWhile (\<lambda>c. c \<in> blanks) s"
  show ?case
  proof (cases "?t = []")
    case False
    then have h: "hd ?t \<notin> blanks" using hd_dropWhile [of "\<lambda>c. c \<in> blanks" s] by simp
    have "length (dropWhile (\<lambda>c. c \<notin> blanks) ?t) < length ?t"
      using False h by (cases ?t) (auto simp: less_Suc_eq_le length_dropWhile_le)
    moreover have "length ?t \<le> length s" by (rule length_dropWhile_le)
    moreover have "length (fields (dropWhile (\<lambda>c. c \<notin> blanks) ?t)) \<le> length (dropWhile (\<lambda>c. c \<notin> blanks) ?t)"
      using 1 False by simp
    ultimately show ?thesis using False by (simp add: fields.simps [of s] Let_def)
  qed (simp add: fields.simps [of s])
qed

lemma getwordx_plain: "plain_line fl s \<Longrightarrow>
   getwordx s (Suc n) fl = (if n < length (fields s) then GwWord (fields s ! n) else GwNull)"
  unfolding getwordx_def getwordx2_def by (rule gw_words_plain)

lemma all_words_plain:
  assumes "plain_line fl s"
  shows "all_words s fl = Some (fields s)"
proof -
  have "collect_words s fl (Suc i) (Suc k) = Some (drop i (fields s))" if "length (fields s) \<le> i + k" for i k
    using that
  proof (induction k arbitrary: i)
    case 0
    then show ?case by (simp add: getwordx_plain [OF assms])
  next
    case (Suc k)
    then show ?case
      using Suc.IH [of "Suc i"] by (cases "i < length (fields s)") (simp_all add: getwordx_plain [OF assms] Cons_nth_drop_Suc)
  qed
  from this [of 0 "length s"] length_fields [of s] show ?thesis by (simp add: all_words_def)
qed

text \<open>
  on a line without double quotes and, unless escapes are switched off, without
  backslashes, \<^verbatim>\<open>getwordx\<close> returns exactly the n-th blank-separated field, NULL when there are
  fewer, and never reads out of bounds.
\<close>

theorem getwordx_fields:
  assumes "plain_line fl s"
  shows "getwordx s (Suc n) fl = (if n < length (fields s) then GwWord (fields s ! n) else GwNull)"
  using assms by (rule getwordx_plain)

theorem getwordx_fields_witness: "getwordx ''NR ND'' 2 no_flags = GwWord ''ND''"
proof -
  have "plain_line no_flags ''NR ND''" by (simp add: plain_line_def no_flags_def)
  moreover have "fields ''NR ND'' = [''NR'', ''ND'']" by (simp add: fields.simps blanks_def)
  ultimately show ?thesis using getwordx_fields [of no_flags "''NR ND''" 1]
    by (simp add: numeral_2_eq_2)
qed

text \<open>
  a word that ends in a backslash makes \<^verbatim>\<open>getwordx\<close>, called without \<^verbatim>\<open>GWX_NOESC\<close> as the
  handlers of M_ADR, M_OK, M_FILE and M_GET do with bytes of the peer, step over the NUL that
  ends the message.
\<close>

theorem getwordx_trailing_backslash:
  assumes "plain_line no_flags w" and "\<forall>c\<in>set w. c \<notin> blanks"
  shows "getwordx (w @ [CHR 0x5C]) 1 no_flags = GwOob"
proof -
  have "gw_scan no_flags blanks env False (w @ [CHR 0x5C]) = None" for env
    using assms
  proof (induction w)
    case (Cons c w)
    then have "gw_step no_flags blanks env False c (w @ [CHR 0x5C]) = GwEmit [c] False (w @ [CHR 0x5C])"
      by (auto simp: gw_step_def plain_line_def blanks_def no_flags_def)
    moreover have "plain_line no_flags w" using Cons.prems(1) by (auto simp: plain_line_def)
    ultimately show ?case using Cons by simp
  qed (simp add: gw_step_def no_flags_def)
  moreover have "dropWhile (\<lambda>c. c \<in> blanks) (w @ [CHR 0x5C]) = w @ [CHR 0x5C]"
    using assms(2) by (cases w) (auto simp: blanks_def)
  ultimately show ?thesis
    by (simp add: getwordx_def getwordx2_def Let_def no_flags_def)
qed

theorem getwordx_trailing_backslash_witness: "getwordx (''2:5020/1'' @ [CHR 0x5C]) 1 no_flags = GwOob"
  by (rule getwordx_trailing_backslash) (simp_all add: plain_line_def no_flags_def blanks_def)

end
