(* ===== verification/Files.thy ===== *)
theory Files
  imports Strings
begin

text \<open>
  The file system as the outbound, inbound and session code uses it: a store of paths with
  files and directories, the system calls the sources make on it, and the wrappers of
  \<^verbatim>\<open>tools.c\<close> and \<^verbatim>\<open>unix/rename.c\<close>.  A path is the string the program passes; the store keeps
  the order in which \<^verbatim>\<open>readdir\<close> delivers names.
\<close>

section \<open>A store with lookup laws\<close>

locale store =
  fixes get :: "'s \<Rightarrow> 'k \<Rightarrow> 'v option"
    and put :: "'k \<Rightarrow> 'v \<Rightarrow> 's \<Rightarrow> 's"
    and del :: "'k \<Rightarrow> 's \<Rightarrow> 's"
  assumes get_put: "get (put k v s) k' = (if k' = k then Some v else get s k')"
    and get_del: "get (del k s) k' = (if k' = k then None else get s k')"
begin

lemma get_put_same [simp]: "get (put k v s) k = Some v"
  by (simp add: get_put)

lemma get_move:
  "get s k = Some v \<Longrightarrow> k' \<noteq> k \<Longrightarrow>
    get (del k (put k' v s)) j = (if j = k then None else if j = k' then Some v else get s j)"
  by (simp add: get_put get_del)

lemma get_dels: "get (fold del ks s) k = (if k \<in> set ks then None else get s k)"
  by (induction ks arbitrary: s) (auto simp: get_del)

end

section \<open>The state of the operating system\<close>

datatype errno = ENOENT | EEXIST | EACCES | EPERM | ENOTDIR | ENOTEMPTY | EISDIR

datatype fentry = Dir | File (fdata: string) (mtime: int)

text \<open>
  \<open>w_denied\<close> lists the paths on which the system refuses to create, remove or open for writing;
  \<open>w_nolink\<close> is a file system without hard links, \<open>w_full\<close> a full disk (writes store nothing).
\<close>

record world =
  w_files :: "(string \<times> fentry) list"
  w_denied :: "string list"
  w_nolink :: bool
  w_full :: bool
  w_time :: int
  w_pid :: nat

definition stat :: "world \<Rightarrow> string \<Rightarrow> fentry option" where
  "stat w p = map_of (w_files w) p"

definition fs_put :: "string \<Rightarrow> fentry \<Rightarrow> world \<Rightarrow> world" where
  "fs_put p e w = w\<lparr>w_files := AList.update p e (w_files w)\<rparr>"

definition fs_del :: "string \<Rightarrow> world \<Rightarrow> world" where
  "fs_del p w = w\<lparr>w_files := AList.delete p (w_files w)\<rparr>"

interpretation fs: store stat fs_put fs_del
  by unfold_locales (simp_all add: stat_def fs_put_def fs_del_def update_conv delete_conv)

declare fs.get_put [simp] fs.get_del [simp]

abbreviation denied :: "world \<Rightarrow> string \<Rightarrow> bool" where
  "denied w p \<equiv> p \<in> set (w_denied w)"

definition parent :: "string \<Rightarrow> string" where
  "parent p = (case strrchr p (CHR ''/'') of None \<Rightarrow> [] | Some i \<Rightarrow> take i p)"

definition parent_ok :: "world \<Rightarrow> string \<Rightarrow> bool" where
  "parent_ok w p \<longleftrightarrow> parent p = [] \<or> stat w (parent p) = Some Dir"

section \<open>System calls\<close>

definition access :: "world \<Rightarrow> string \<Rightarrow> bool" where
  "access w p \<longleftrightarrow> stat w p \<noteq> None"

definition is_file :: "world \<Rightarrow> string \<Rightarrow> bool" where
  "is_file w p \<longleftrightarrow> (case stat w p of Some (File d t) \<Rightarrow> True | _ \<Rightarrow> False)"

definition create_check :: "world \<Rightarrow> string \<Rightarrow> errno option" where
  "create_check w p =
    (if p = [] \<or> \<not> parent_ok w p then Some ENOENT
     else if access w p then Some EEXIST
     else if denied w p then Some EACCES else None)"

definition open_excl :: "string \<Rightarrow> world \<Rightarrow> errno option \<times> world" where
  "open_excl p w = (case create_check w p of
     Some e \<Rightarrow> (Some e, w) | None \<Rightarrow> (None, fs_put p (File [] (w_time w)) w))"

definition mkdir :: "string \<Rightarrow> world \<Rightarrow> errno option \<times> world" where
  "mkdir p w = (case create_check w p of Some e \<Rightarrow> (Some e, w) | None \<Rightarrow> (None, fs_put p Dir w))"

definition unlink :: "string \<Rightarrow> world \<Rightarrow> errno option \<times> world" where
  "unlink p w = (case stat w p of
     None \<Rightarrow> (Some ENOENT, w)
   | Some Dir \<Rightarrow> (Some EISDIR, w)
   | Some (File d t) \<Rightarrow> if denied w p then (Some EACCES, w) else (None, fs_del p w))"

definition below :: "string \<Rightarrow> string \<Rightarrow> bool" where
  "below d p \<longleftrightarrow> take (Suc (length d)) p = d @ ''/''"

definition rmdir :: "string \<Rightarrow> world \<Rightarrow> errno option \<times> world" where
  "rmdir p w = (case stat w p of
     None \<Rightarrow> (Some ENOENT, w)
   | Some (File d t) \<Rightarrow> (Some ENOTDIR, w)
   | Some Dir \<Rightarrow>
       if \<exists>q\<in>set (map fst (w_files w)). below p q then (Some ENOTEMPTY, w)
       else if denied w p then (Some EACCES, w) else (None, fs_del p w))"

definition link :: "string \<Rightarrow> string \<Rightarrow> world \<Rightarrow> errno option \<times> world" where
  "link from to w = (case stat w from of
     None \<Rightarrow> (Some ENOENT, w)
   | Some e \<Rightarrow> (case create_check w to of
       Some err \<Rightarrow> (Some err, w)
     | None \<Rightarrow> if w_nolink w \<or> e = Dir then (Some EPERM, w) else (None, fs_put to e w)))"

definition rename_over :: "string \<Rightarrow> string \<Rightarrow> world \<Rightarrow> errno option \<times> world" where
  "rename_over from to w = (case stat w from of
     None \<Rightarrow> (Some ENOENT, w)
   | Some Dir \<Rightarrow> (Some ENOTDIR, w)
   | Some (File d t) \<Rightarrow> if denied w from \<or> denied w to then (Some EACCES, w)
                      else if stat w to = Some Dir then (Some EISDIR, w)
                      else (None, fs_put to (File d t) (fs_del from w)))"

definition utime :: "string \<Rightarrow> int \<Rightarrow> world \<Rightarrow> errno option \<times> world" where
  "utime p t w = (case stat w p of
     None \<Rightarrow> (Some ENOENT, w)
   | Some Dir \<Rightarrow> (None, w)
   | Some (File d t') \<Rightarrow> if denied w p then (Some EACCES, w) else (None, fs_put p (File d t) w))"

definition fs_append :: "string \<Rightarrow> string \<Rightarrow> world \<Rightarrow> world" where
  "fs_append p s w = (case stat w p of
     Some (File d t) \<Rightarrow> if w_full w then w else fs_put p (File (d @ s) (w_time w)) w
   | _ \<Rightarrow> w)"

text \<open>\<^verbatim>\<open>fopen\<close> for reading gives the contents; \<open>fopen_w\<close> is \<^verbatim>\<open>fopen\<close> with mode \<open>w\<close>.\<close>

definition fopen_r :: "string \<Rightarrow> world \<Rightarrow> string option" where
  "fopen_r p w = (case stat w p of Some (File d t) \<Rightarrow> Some d | _ \<Rightarrow> None)"

definition fopen_w :: "string \<Rightarrow> world \<Rightarrow> bool \<times> world" where
  "fopen_w p w = (case stat w p of
     Some Dir \<Rightarrow> (False, w)
   | Some (File d t) \<Rightarrow> if denied w p then (False, w) else (True, fs_put p (File [] (w_time w)) w)
   | None \<Rightarrow> (case create_check w p of
       Some e \<Rightarrow> (False, w) | None \<Rightarrow> (True, fs_put p (File [] (w_time w)) w)))"

text \<open>\<^verbatim>\<open>fopen\<close>, \<^verbatim>\<open>fprintf\<close>, \<^verbatim>\<open>fclose\<close> of a whole text.\<close>

definition write_file :: "string \<Rightarrow> string \<Rightarrow> world \<Rightarrow> bool \<times> world" where
  "write_file p s w = (case fopen_w p w of
     (True, w') \<Rightarrow> (True, fs_append p s w') | (False, w') \<Rightarrow> (False, w'))"

text \<open>\<^verbatim>\<open>fgets\<close>: up to \<open>n - 1\<close> characters, through the first newline; \<open>None\<close> at the end.\<close>

definition fgets :: "nat \<Rightarrow> string \<Rightarrow> (string \<times> string) option" where
  "fgets n s = (if s = [] then None else
     let body = takeWhile (\<lambda>c. c \<noteq> CHR 0x0A) s;
         line = (if length body < length s then body @ [CHR 0x0A] else body);
         k = min (n - 1) (length line)
     in Some (take k s, drop k s))"

definition readdir_names :: "world \<Rightarrow> string \<Rightarrow> string list" where
  "readdir_names w d = [''.'', ''..''] @
     map (drop (Suc (length d))) (filter (\<lambda>p. below d p \<and> CHR ''/'' \<notin> set (drop (Suc (length d)) p)) (map fst (w_files w)))"

section \<open>Wrappers of tools.c and unix/rename.c\<close>

definition create_empty_sem_file :: "string \<Rightarrow> world \<Rightarrow> bool \<times> world" where
  "create_empty_sem_file name w = (case open_excl name w of
     (Some e, w') \<Rightarrow> (False, w') | (None, w') \<Rightarrow> (True, w'))"

definition create_sem_file :: "string \<Rightarrow> world \<Rightarrow> bool \<times> world" where
  "create_sem_file name w = (case open_excl name w of
     (Some e, w') \<Rightarrow> (False, w')
   | (None, w') \<Rightarrow> (True, fs_append name (take 15 (dec_of_nat (w_pid w) @ [CHR 0x0A])) w'))"

definition touch :: "string \<Rightarrow> int \<Rightarrow> world \<Rightarrow> bool \<times> world" where
  "touch file t w = (case utime file t w of (e, w') \<Rightarrow> (e = None, w'))"

definition delete :: "string \<Rightarrow> world \<Rightarrow> bool \<times> world" where
  "delete path w = (case unlink path w of (e, w') \<Rightarrow> (e = None, w'))"

definition trunc_file :: "string \<Rightarrow> world \<Rightarrow> bool \<times> world" where
  "trunc_file path w = (case stat w path of
     Some (File d t) \<Rightarrow> if denied w path then (False, w) else (True, fs_put path (File [] (w_time w)) w)
   | _ \<Rightarrow> (False, w))"

text \<open>
  The non-destructive rename.  Other processes can act between its two calls: what they do there is \<open>others\<close>.
  The rest of the program is modelled with nobody acting there (\<open>o_rename\<close>).
\<close>

definition o_rename_with :: "(world \<Rightarrow> world) \<Rightarrow> string \<Rightarrow> string \<Rightarrow> world \<Rightarrow> errno option \<times> world" where
  "o_rename_with others from to w = (case link from to w of
     (None, w1) \<Rightarrow> (None, snd (unlink from (others w1)))
   | (Some e, w1) \<Rightarrow>
       if e \<noteq> EPERM \<and> e \<noteq> EACCES then (Some e, w1)
       else (case open_excl to w1 of
         (Some e2, w2) \<Rightarrow> (Some e2, w2)
       | (None, w2) \<Rightarrow> (case rename_over from to (others w2) of
           (None, w3) \<Rightarrow> (None, w3)
         | (Some e3, w3) \<Rightarrow> (Some e3, snd (unlink to w3)))))"

definition o_rename :: "string \<Rightarrow> string \<Rightarrow> world \<Rightarrow> errno option \<times> world" where
  "o_rename from to w = o_rename_with (\<lambda>v. v) from to w"

lemma last_index_less: "last_index P s = Some i \<Longrightarrow> i < length s"
  by (auto dest: last_index_Some)

lemma last_slash_less: "last_slash s = Some i \<Longrightarrow> i < length s"
  by (auto simp: last_slash_def dest!: last_index_less split: option.splits if_splits)

function mkpath0 :: "string \<Rightarrow> world \<Rightarrow> bool \<times> world" where
  "mkpath0 path0 w = (case stat w path0 of
     Some Dir \<Rightarrow> (True, w)
   | Some (File d t) \<Rightarrow> (False, w)
   | None \<Rightarrow>
       if path0 = [] then (False, w)
       else
         (case (case last_slash path0 of
                  None \<Rightarrow> (True, w)
                | Some i \<Rightarrow> if take i path0 = [] then (True, w) else mkpath0 (take i path0) w) of
            (False, w1) \<Rightarrow> (False, w1)
          | (True, w1) \<Rightarrow>
              if last path0 = CHR '':'' then (True, w1)
              else (case mkdir path0 w1 of (e, w2) \<Rightarrow> (e = None, w2))))"
  by pat_completeness auto

termination mkpath0
  by (relation "measure (\<lambda>(p, w). length p)") (auto dest: last_slash_less)

declare mkpath0.simps [simp del]

definition mkpath :: "string \<Rightarrow> world \<Rightarrow> bool \<times> world" where
  "mkpath s w = (let path = strnzcpy s MAXPATHLEN in
     case last_slash path of None \<Rightarrow> (True, w) | Some i \<Rightarrow> mkpath0 (take i path) w)"

text \<open>The lines of a file, as \<^verbatim>\<open>fgets\<close> with a buffer of \<open>n\<close> bytes delivers them.\<close>

lemma fgets_shorter: "fgets n s = Some (l, r) \<Longrightarrow> \<not> n < 2 \<Longrightarrow> length r < length s"
proof -
  assume f: "fgets n s = Some (l, r)" and n: "\<not> n < 2"
  let ?b = "takeWhile (\<lambda>c. c \<noteq> CHR 0x0A) s"
  have ne: "s \<noteq> []" using f by (auto simp: fgets_def)
  show ?thesis
  proof (cases "length ?b < length s")
    case True
    then show ?thesis using f n ne by (auto simp: fgets_def Let_def)
  next
    case False
    then have "length ?b = length s" using length_takeWhile_le [of _ s] le_antisym by (metis not_le_imp_less)
    then show ?thesis using f n ne False by (auto simp: fgets_def Let_def)
  qed
qed

function file_lines :: "nat \<Rightarrow> string \<Rightarrow> string list" where
  "file_lines n s = (if n < 2 then [] else case fgets n s of None \<Rightarrow> [] | Some (l, r) \<Rightarrow> l # file_lines n r)"
  by pat_completeness auto

termination file_lines
  by (relation "measure (\<lambda>(n, s). length s)") (auto dest: fgets_shorter)

declare file_lines.simps [simp del]

section \<open>What the calls change\<close>

lemma create_check_None: "create_check w p = None \<Longrightarrow> stat w p = None \<and> \<not> denied w p \<and> parent_ok w p"
  by (simp add: create_check_def access_def split: if_splits)

lemma open_excl_cases:
  "open_excl p w = (r, w') \<Longrightarrow>
    (r = None \<and> stat w p = None \<and> \<not> denied w p \<and> w' = fs_put p (File [] (w_time w)) w) \<or> (r \<noteq> None \<and> w' = w)"
  by (auto simp: open_excl_def dest: create_check_None split: option.splits)

lemma world_frame [simp]:
  "w_denied (fs_put p e w) = w_denied w" "w_nolink (fs_put p e w) = w_nolink w"
  "w_full (fs_put p e w) = w_full w" "w_time (fs_put p e w) = w_time w" "w_pid (fs_put p e w) = w_pid w"
  "w_denied (fs_del p w) = w_denied w" "w_nolink (fs_del p w) = w_nolink w"
  "w_full (fs_del p w) = w_full w" "w_time (fs_del p w) = w_time w" "w_pid (fs_del p w) = w_pid w"
  by (simp_all add: fs_put_def fs_del_def)

lemma stat_fs_append:
  "stat (fs_append p s w) q = (case stat w p of
     Some (File d t) \<Rightarrow> if q = p \<and> \<not> w_full w then Some (File (d @ s) (w_time w)) else stat w q
   | _ \<Rightarrow> stat w q)"
  by (auto simp: fs_append_def split: option.splits fentry.splits)

lemma create_sem_file_True:
  "create_sem_file p w = (True, w') \<Longrightarrow>
    stat w p = None \<and> is_file w' p \<and> (\<forall>q. q \<noteq> p \<longrightarrow> stat w' q = stat w q)"
  by (cases "w_full w")
    (auto simp: create_sem_file_def is_file_def stat_fs_append split: prod.splits option.splits
      dest!: open_excl_cases)

lemma create_sem_file_False: "create_sem_file p w = (False, w') \<Longrightarrow> w' = w"
  by (auto simp: create_sem_file_def split: prod.splits option.splits dest!: open_excl_cases)

lemma create_sem_file_exists: "access w p \<Longrightarrow> create_sem_file p w = (False, w)"
  by (auto simp: create_sem_file_def open_excl_def create_check_def)

lemma create_sem_file_succeeds:
  "p \<noteq> [] \<Longrightarrow> parent_ok w p \<Longrightarrow> \<not> access w p \<Longrightarrow> \<not> denied w p \<Longrightarrow> fst (create_sem_file p w)"
  by (simp add: create_sem_file_def open_excl_def create_check_def)

lemma unlink_cases:
  "unlink p w = (r, w') \<Longrightarrow> (r = None \<and> is_file w p \<and> \<not> denied w p \<and> w' = fs_del p w) \<or>
    (r \<noteq> None \<and> w' = w \<and> (\<not> is_file w p \<or> denied w p))"
  by (auto simp: unlink_def is_file_def split: option.splits fentry.splits if_splits)

lemma delete_frame: "q \<noteq> p \<Longrightarrow> stat (snd (delete p w)) q = stat w q"
  by (cases "unlink p w") (auto simp: delete_def dest!: unlink_cases)

lemma delete_gone: "is_file w p \<Longrightarrow> \<not> denied w p \<Longrightarrow> stat (snd (delete p w)) p = None"
  by (cases "unlink p w") (auto simp: delete_def dest!: unlink_cases)

lemma rmdir_file: "is_file w q \<Longrightarrow> stat (snd (rmdir p w)) q = stat w q"
  by (auto simp: rmdir_def is_file_def split: option.splits fentry.splits)

lemma rmdir_absent: "stat w q = None \<Longrightarrow> stat (snd (rmdir p w)) q = None"
  by (auto simp: rmdir_def split: option.splits fentry.splits)

lemma is_file_stat: "stat w p = stat w' p \<Longrightarrow> is_file w p = is_file w' p"
  by (simp add: is_file_def)

lemma mkdir_cases:
  "mkdir p w = (r, w') \<Longrightarrow> (r = None \<and> stat w p = None \<and> w' = fs_put p Dir w) \<or> (r \<noteq> None \<and> w' = w)"
  by (auto simp: mkdir_def dest: create_check_None split: option.splits)

text \<open>\<open>grows w w'\<close>: some directories were made, nothing else changed.\<close>

definition grows :: "world \<Rightarrow> world \<Rightarrow> bool" where
  "grows w w' \<longleftrightarrow> (\<forall>q. stat w' q = stat w q \<or> (stat w q = None \<and> stat w' q = Some Dir)) \<and>
     w_denied w' = w_denied w"

lemma grows_refl [simp, intro]: "grows w w"
  by (simp add: grows_def)

lemma grows_trans: "grows w w1 \<Longrightarrow> grows w1 w2 \<Longrightarrow> grows w w2"
  unfolding grows_def by metis

lemma grows_mkdir: "mkdir p w = (r, w') \<Longrightarrow> grows w w'"
  by (drule mkdir_cases) (auto simp: grows_def split: if_splits)

lemma grows_mkdir_snd: "grows w (snd (mkdir p w))"
  by (rule grows_mkdir [of p w "fst (mkdir p w)"]) simp

lemma grows_file: "grows w w' \<Longrightarrow> is_file w' p = is_file w p"
  unfolding grows_def is_file_def by (smt (verit) fentry.simps option.simps)

lemma grows_keeps: "grows w w' \<Longrightarrow> stat w q = Some e \<Longrightarrow> stat w' q = Some e"
  unfolding grows_def by (metis option.distinct(1))

lemma grows_denied: "grows w w' \<Longrightarrow> denied w' p = denied w p"
  by (simp add: grows_def)

text \<open>The recursive call of \<^verbatim>\<open>mkpath0\<close> on the leading part of the path.\<close>

definition mkpath_up :: "string \<Rightarrow> world \<Rightarrow> bool \<times> world" where
  "mkpath_up p w = (case last_slash p of None \<Rightarrow> (True, w)
     | Some i \<Rightarrow> if take i p = [] then (True, w) else mkpath0 (take i p) w)"

lemma mkpath0_eq:
  "mkpath0 p w = (case stat w p of
     Some Dir \<Rightarrow> (True, w)
   | Some (File d t) \<Rightarrow> (False, w)
   | None \<Rightarrow> if p = [] then (False, w)
       else if \<not> fst (mkpath_up p w) then (False, snd (mkpath_up p w))
       else if last p = CHR '':'' then (True, snd (mkpath_up p w))
       else (fst (mkdir p (snd (mkpath_up p w))) = None, snd (mkdir p (snd (mkpath_up p w)))))"
  by (subst mkpath0.simps) (auto simp: mkpath_up_def split: option.split fentry.split prod.split bool.split)

lemma mkpath_induct [case_names up]:
  assumes "\<And>p. (\<And>i. last_slash p = Some i \<Longrightarrow> P (take i p)) \<Longrightarrow> P p"
  shows "P p"
proof (induction "length p" arbitrary: p rule: less_induct)
  case less
  show ?case
    by (rule assms) (metis less last_slash_less length_take min.strict_order_iff min.commute)
qed

lemma mkpath0_grows: "grows w (snd (mkpath0 p w))"
proof (induction p rule: mkpath_induct)
  case (up p)
  have "grows w (snd (mkpath_up p w))"
    using up by (auto simp: mkpath_up_def split: option.split)
  then show ?case
    using grows_trans [OF _ grows_mkdir_snd [of "snd (mkpath_up p w)" p]]
    by (auto simp: mkpath0_eq split: option.split fentry.split)
qed

lemma mkpath0_longer: "length p < length q \<Longrightarrow> stat (snd (mkpath0 p w)) q = stat w q"
proof (induction p rule: mkpath_induct)
  case (up p)
  have "stat (snd (mkpath_up p w)) q = stat w q"
    using up by (auto simp: mkpath_up_def split: option.split)
  moreover have "stat (snd (mkdir p v)) q = stat v q" for v
    using up.prems mkdir_cases [of p v] by (cases "mkdir p v") fastforce
  ultimately show ?case
    by (auto simp: mkpath0_eq split: option.split fentry.split)
qed

lemma mkpath0_dir:
  "fst (mkpath0 p w) \<Longrightarrow> last p \<noteq> CHR '':'' \<Longrightarrow> stat (snd (mkpath0 p w)) p = Some Dir"
  using mkdir_cases [of p "snd (mkpath_up p w)" None "snd (mkdir p (snd (mkpath_up p w)))"]
  by (auto simp: mkpath0_eq prod_eq_iff split: option.splits fentry.splits if_splits)

lemma mkdir_nil: "stat (snd (mkdir p w)) [] = stat w []"
  by (cases "p = []") (auto simp: mkdir_def create_check_def split: option.split)

lemma mkpath0_nil: "stat (snd (mkpath0 p w)) [] = stat w []"
proof (induction p rule: mkpath_induct)
  case (up p)
  have "stat (snd (mkpath_up p w)) [] = stat w []"
    using up by (auto simp: mkpath_up_def split: option.split)
  then show ?case by (auto simp: mkpath0_eq mkdir_nil split: option.split fentry.split)
qed

lemma mkpath_nil: "stat (snd (mkpath s w)) [] = stat w []"
  by (auto simp: mkpath_def Let_def mkpath0_nil split: option.split)

lemma mkpath_grows: "grows w (snd (mkpath s w))"
  by (auto simp: mkpath_def Let_def mkpath0_grows split: option.split)

definition plain_path :: "string \<Rightarrow> bool" where
  "plain_path p \<longleftrightarrow> CHR 0x5C \<notin> set p \<and> CHR '':'' \<notin> set p"

lemma plain_path_take: "plain_path p \<Longrightarrow> plain_path (take i p)"
  by (auto simp: plain_path_def dest: in_set_takeD)

lemma last_slash_plain: "plain_path p \<Longrightarrow> last_slash p = strrchr p (CHR ''/'')"
  by (induction p) (auto simp: last_slash_def strrchr_def plain_path_def split: option.splits)

lemma mkpath0_succeeds:
  assumes "plain_path p" "p \<noteq> []" "\<And>i. \<not> is_file w (take i p)" "\<And>i. \<not> denied w (take i p)"
  shows "fst (mkpath0 p w)"
  using assms
proof (induction p rule: mkpath_induct)
  case (up p)
  let ?w = "snd (mkpath_up p w)"
  have g: "grows w ?w" by (auto simp: mkpath_up_def mkpath0_grows split: option.split)
  have rec: "fst (mkpath0 (take i p) w)" if "last_slash p = Some i" "take i p \<noteq> []" for i
    by (rule up.IH [OF that(1)]) (use up.prems that in \<open>auto simp: plain_path_take\<close>)
  have last: "last q \<noteq> CHR '':''" if "plain_path q" "q \<noteq> []" for q
    using that by (metis last_in_set plain_path_def)
  have ok: "fst (mkpath_up p w)" using rec by (auto simp: mkpath_up_def split: option.split)
  have "parent_ok ?w p"
    using up.prems(1) rec last mkpath0_dir plain_path_take
    by (auto simp: parent_ok_def parent_def mkpath_up_def last_slash_plain split: option.splits)
  moreover have "\<not> denied ?w p"
    using up.prems(4) [of "length p"] grows_denied [OF g] by simp
  ultimately have "fst (mkdir p ?w) = None \<or> access ?w p"
    using up.prems(2) by (auto simp: mkdir_def create_check_def split: option.split)
  moreover have "stat ?w p = stat w p"
    by (auto simp: mkpath_up_def mkpath0_longer last_slash_less split: option.split)
  ultimately show ?case
    using ok up.prems(2) up.prems(3) [of "length p"]
    by (auto simp: mkpath0_eq access_def is_file_def split: option.split fentry.split)
qed

lemma mkpath_split:
  "length s < MAXPATHLEN \<Longrightarrow> plain_path s \<Longrightarrow> parent s \<noteq> [] \<Longrightarrow> mkpath s w = mkpath0 (parent s) w"
  by (auto simp: mkpath_def strnzcpy_def last_slash_plain parent_def split: option.splits)

lemma mkpath_makes_parent:
  assumes "length s < MAXPATHLEN" "plain_path s" "parent s \<noteq> []"
    and "\<And>i. i < length s \<Longrightarrow> \<not> is_file w (take i s)" "\<And>i. i < length s \<Longrightarrow> \<not> denied w (take i s)"
  shows "fst (mkpath s w) \<and> parent_ok (snd (mkpath s w)) s \<and> grows w (snd (mkpath s w))"
proof -
  obtain i where i: "parent s = take i s" "i < length s"
    using assms(3) by (auto simp: parent_def strrchr_def dest: last_index_less split: option.splits)
  have pl: "plain_path (parent s)" using assms(2) by (simp add: i plain_path_take)
  then have "last (parent s) \<noteq> CHR '':''"
    using last_in_set [OF assms(3)] by (auto simp: plain_path_def)
  moreover have "fst (mkpath0 (parent s) w)"
    by (rule mkpath0_succeeds) (use assms pl i(2) in \<open>auto simp: i(1)\<close>)
  ultimately show ?thesis
    using assms by (simp add: mkpath_split parent_ok_def mkpath0_dir mkpath0_grows)
qed

lemma mkpath_keeps_self: "stat (snd (mkpath s w)) s = stat w s"
  by (auto simp: mkpath_def Let_def strnzcpy_def dest!: last_slash_less intro!: mkpath0_longer split: option.split)

section \<open>Properties\<close>

text \<open>
  \<^verbatim>\<open>mkpath\<close> makes every missing directory above a file: it succeeds when no leading part
  of the path is a plain file or refused by the system, afterwards the parent directory of the
  file exists, and no existing entry is changed.
\<close>

theorem mkpath_correct:
  assumes "length s < MAXPATHLEN" "plain_path s" "parent s \<noteq> []"
    and "\<And>i. i < length s \<Longrightarrow> \<not> is_file w (take i s) \<and> \<not> denied w (take i s)"
  shows "fst (mkpath s w) \<and> parent_ok (snd (mkpath s w)) s \<and> grows w (snd (mkpath s w))"
  by (rule mkpath_makes_parent) (use assms in auto)

definition empty_world :: world where
  "empty_world = \<lparr>w_files = [], w_denied = [], w_nolink = False, w_full = False, w_time = 0, w_pid = 1\<rparr>"

theorem mkpath_correct_witness:
  "fst (mkpath ''/o/f.001/0001.bsy'' empty_world) \<and>
   parent_ok (snd (mkpath ''/o/f.001/0001.bsy'' empty_world)) ''/o/f.001/0001.bsy''"
proof -
  have "length ''/o/f.001/0001.bsy'' < MAXPATHLEN" "plain_path ''/o/f.001/0001.bsy''"
    "parent ''/o/f.001/0001.bsy'' \<noteq> []"
    by (simp_all add: plain_path_def parent_def strrchr_def)
  moreover have "\<not> is_file empty_world p" "\<not> denied empty_world p" for p
    by (simp_all add: empty_world_def is_file_def stat_def)
  ultimately show ?thesis using mkpath_correct by blast
qed

lemma o_rename_result:
  assumes "stat w from = Some (File d t)" "o_rename from to w = (r, w')"
  shows "(r = None \<longrightarrow> stat w to = None \<and> stat w' to = Some (File d t) \<and> (denied w from \<or> stat w' from = None)) \<and>
    (r \<noteq> None \<longrightarrow> (\<forall>q. stat w' q = stat w q)) \<and> (\<forall>q. q \<noteq> from \<longrightarrow> q \<noteq> to \<longrightarrow> stat w' q = stat w q)"
proof (cases "create_check w to")
  case (Some e)
  then have "r = Some e \<and> w' = w"
    using assms by (simp add: o_rename_def o_rename_with_def link_def open_excl_def split: if_splits)
  then show ?thesis by simp
next
  case None
  then have to: "stat w to = None" "\<not> denied w to" "from \<noteq> to"
    using assms(1) create_check_None by (metis option.distinct(1))+
  show ?thesis
    using assms None to
    by (auto simp: o_rename_def o_rename_with_def link_def open_excl_def rename_over_def unlink_def split: if_splits)
qed

lemma o_rename_denied: "o_rename from to w = (r, w') \<Longrightarrow> w_denied w' = w_denied w"
  by (auto simp: o_rename_def o_rename_with_def link_def open_excl_def rename_over_def unlink_def fs_put_def fs_del_def
      split: if_splits option.splits fentry.splits prod.splits)




end
