(* ===== verification/Types.thy ===== *)
theory Types
  imports Files Ftnaddr
begin

text \<open>
  The data the components share (\<^verbatim>\<open>btypes.h\<close>, \<^verbatim>\<open>ftnaddr.h\<close>, \<^verbatim>\<open>readcfg.h\<close>, \<^verbatim>\<open>readflo.h\<close>): nodes,
  queue entries, files in transfer, kill lists and the configuration.  A linked list is a list, a
  \<^verbatim>\<open>char\<close> flag is a character with NUL for none, a NULL string is the empty one unless the code
  tells them apart (then it is an option).
\<close>

section \<open>Nodes\<close>

record FTN_NODE =
  n_listed :: int
  n_hosts :: "string option"
  n_fa :: FTN_ADDR
  n_pwd :: string
  n_pkt_pwd :: "string option"
  n_out_pwd :: "string option"
  n_obox_flvr :: char
  n_obox :: "string option"
  n_ibox :: "string option"
  n_pipe :: "string option"
  n_NR_flag :: int
  n_ND_flag :: int
  n_MD_flag :: int
  n_HC_flag :: int
  n_restrictIP :: int
  n_NP_flag :: int
  n_NC_flag :: int
  n_hold_until :: int
  n_busy :: char
  n_mail_flvr :: char
  n_files_flvr :: char
  n_IP_afamily :: int
  n_recheck :: int

section \<open>Queue entries, files in transfer\<close>

record FTNQ =
  q_fa :: FTN_ADDR
  q_flvr :: char
  q_action :: char
  q_type :: char
  q_path :: string
  q_size :: int
  q_time :: int
  q_sent :: bool

text \<open>A stream: the path it was opened on and the current position in it.\<close>

record handle =
  h_path :: string
  h_pos :: nat

record TFILE =
  t_path :: string
  t_flo :: string
  t_netname :: string
  t_action :: char
  t_type :: char
  t_size :: int
  t_start :: int
  t_time :: int
  t_f :: "handle option"
  t_fa :: FTN_ADDR

record KILLLIST =
  k_name :: string
  k_cond :: char

section \<open>Configuration\<close>

text \<open>\<^verbatim>\<open>addrtype\<close> is a bit mask: \<^verbatim>\<open>A_LST\<close> 1, \<^verbatim>\<open>A_UNLST\<close> 2, \<^verbatim>\<open>A_PROT\<close> 4, \<^verbatim>\<open>A_UNPROT\<close> 8, \<^verbatim>\<open>A_ALL\<close> -1.\<close>

type_synonym addrtype = int

record skipchain =
  sk_mask :: string
  sk_atype :: addrtype
  sk_size :: int
  sk_destr :: bool

datatype aka_act = ACT_HIDE | ACT_PRESENT

record akachain =
  aka_fa :: FTN_ADDR
  aka_mask :: string
  aka_type :: aka_act
  aka_not :: bool

record SHARED_CHAIN =
  sha :: FTN_ADDR
  sfa :: "FTN_ADDR list"

record RF_RULE =
  rf_from :: string
  rf_to :: string

datatype dontsendemptytype = EMPTY_NO | EMPTY_ARCMAIL | EMPTY_ALL

datatype renamestyletype = RENAME_POSTFIX | RENAME_EXTENSION | RENAME_BODY

record BINKD_CONFIG =
  pAddr :: "FTN_ADDR list"
  pNod :: "FTN_NODE list"
  nNodSorted :: bool
  q_present :: bool
  oblksize :: int
  nettimeout :: int
  kill_dup_partial_files :: bool
  kill_old_partial_files :: int
  kill_old_bsy :: int
  minfree :: int
  minfree_nonsecure :: int
  tries :: int
  hold :: int
  hold_skipped :: int
  send_if_pwd :: bool
  remove_try_files :: bool
  prescan :: bool
  inboundcase :: inbcasetype
  deletedirs :: bool
  havedefnode :: bool
  dontsendempty :: dontsendemptytype
  renamestyle :: renamestyletype
  pkthdr_type :: addrtype
  pkthdr_bad :: string
  pDomains :: "FTN_DOMAIN list"
  overwrite :: "string list"
  skipmask :: "skipchain list"
  rf_rules :: "RF_RULE list"
  akamask :: "akachain list"
  shares :: "SHARED_CHAIN list"
  root_domain :: string
  sysname :: string
  sysop :: string
  location :: string
  nodeinfo :: string
  inbound :: string
  inbound_nonsecure :: string
  temp_inbound :: string
  tfilebox :: string
  bfilebox :: string
  deleteablebox :: bool

text \<open>A small configuration for the examples: one domain, one address, defaults elsewhere.\<close>

definition sample_cfg :: BINKD_CONFIG where
  "sample_cfg = \<lparr>pAddr = [\<lparr>fa_domain = ''fidonet'', fa_z = 2, fa_net = 5020, fa_node = 79, fa_p = 0\<rparr>],
    pNod = [], nNodSorted = False, q_present = False, oblksize = 4096, nettimeout = 300,
    kill_dup_partial_files = False, kill_old_partial_files = 86400, kill_old_bsy = 0, minfree = 100, minfree_nonsecure = 100,
    tries = 0, hold = 0, hold_skipped = 3600, send_if_pwd = False,
    remove_try_files = False, prescan = False, inboundcase = INB_SAVE, deletedirs = False,
    havedefnode = False, dontsendempty = EMPTY_NO, renamestyle = RENAME_POSTFIX,
    pkthdr_type = 0, pkthdr_bad = [], pDomains = [fidonet], overwrite = [], skipmask = [],
    rf_rules = [], akamask = [], shares = [], root_domain = ''binkp.net'', sysname = ''Node'',
    sysop = ''Sysop'', location = ''Moscow'', nodeinfo = ''115200'', inbound = ''/in'',
    inbound_nonsecure = ''/un'', temp_inbound = ''/tmp'', tfilebox = [], bfilebox = [],
    deleteablebox = False\<rparr>"

text \<open>A link of that configuration.\<close>

definition ex_link :: FTN_ADDR where
  "ex_link = \<lparr>fa_domain = ''fidonet'', fa_z = 2, fa_net = 2, fa_node = 3, fa_p = 0\<rparr>"

lemma ex_filename: "ftnaddress_to_filename ex_link (pDomains sample_cfg) = ''/var/spool/outb/00020003''"
proof -
  have d: "get_domain_info (fa_domain ex_link) [fidonet] = Some fidonet" by code_simp
  have h: "hex_int 4 2 = ''0002''" "hex_int 4 3 = ''0003''" by code_simp+
  have "pDomains sample_cfg = [fidonet]" by (simp add: sample_cfg_def)
  then show ?thesis
    by (simp only: ftnaddress_to_filename_def d option.case)
      (simp add: zone_ext_def point_part_def fidonet_def ex_link_def h)
qed

end
