(* ===== verification/Hosts.thy ===== *)
theory Hosts
  imports Types Getw
begin

text \<open>
  The host list of a node (\<^verbatim>\<open>get_host_and_port\<close> of \<^verbatim>\<open>readcfg.c\<close>), which the client calls through and the
  login compares addresses with.  The lists are separated by commas and semicolons; a host may be a star
  (the domain name of the address), an IPv6 literal in brackets, and carry a port.
\<close>

text \<open>The host and the port; \<open>None\<close> stands for a read past the end of the list.\<close>

datatype host_result = HOST_END | HOST_BAD | HOST string string

abbreviation MAXPORTSTRLEN :: nat where "MAXPORTSTRLEN \<equiv> 32"

definition index_of :: "char \<Rightarrow> string \<Rightarrow> nat option" where
  "index_of c s = (if c \<in> set s then Some (length (takeWhile (\<lambda>x. x \<noteq> c) s)) else None)"

definition split_host :: "string \<Rightarrow> bool \<times> string \<times> string option" where
  "split_host w =
    (let plain = (case index_of (CHR '':'') w of
          None \<Rightarrow> (w = ''*'', w, None) | Some t \<Rightarrow> (take t w = ''*'', take t w, Some (drop (Suc t) w)))
     in case index_of (CHR '']'') w of
          Some e \<Rightarrow> if hd w = CHR ''['' then
              (False, take (e - 1) (drop 1 w), map_option (\<lambda>t. drop (Suc t) (drop e w)) (index_of (CHR '':'') (drop e w)))
            else plain
        | None \<Rightarrow> plain)"

definition get_host_and_port :: "nat \<Rightarrow> string \<Rightarrow> FTN_ADDR \<Rightarrow> (string \<Rightarrow> string option) \<Rightarrow> string \<Rightarrow>
    BINKD_CONFIG \<Rightarrow> host_result option" where
  "get_host_and_port n src fa find_port oport cfg =
    (case getwordx2 src n no_flags {CHR '','', CHR '';''} {} (\<lambda>_. None) of
       GwOob \<Rightarrow> None
     | GwNull \<Rightarrow> Some HOST_END
     | GwWord w \<Rightarrow> (case split_host w of (star, host, port) \<Rightarrow>
         let name = (if star then ftnaddress_to_domain fa (pDomains cfg) (root_domain cfg)
                     else strnzcpy host BINKD_FQDNLEN)
         in (case port of
               None \<Rightarrow> Some (HOST name (strnzcpy oport MAXPORTSTRLEN))
             | Some p \<Rightarrow> (case find_port p of
                 None \<Rightarrow> Some HOST_BAD
               | Some q \<Rightarrow> Some (HOST name (strnzcpy q MAXPORTSTRLEN))))))"

text \<open>
  The lists are finite: without a line break in it, a list has no more hosts than characters.  A line
  break (the configuration can put one in with an escape) ends every word and is never skipped, so behind
  it every number has an empty host.
\<close>

definition one_line :: "string \<Rightarrow> bool" where
  "one_line s \<longleftrightarrow> (\<forall>c\<in>set s. c \<noteq> CHR 0x0A \<and> c \<noteq> CHR 0x0D)"

lemma host_list_ends:
  assumes "one_line src" "length src < n"
  shows "get_host_and_port n src fa ports oport cfg = None \<or> get_host_and_port n src fa ports oport cfg = Some HOST_END"
proof -
  have "set src \<inter> {CHR 0x0A, CHR 0x0D} \<subseteq> {CHR '','', CHR '';''}" using assms(1) by (auto simp: one_line_def)
  from gw_words_bound [OF this assms(2), of no_flags "{}" "\<lambda>_. None" False]
  show ?thesis by (elim disjE) (simp_all add: get_host_and_port_def getwordx2_def)
qed

end
