(* ===== verification/Bsy.thy ===== *)
theory Bsy
  imports Types "HOL-Library.Multiset"
begin

text \<open>
  Busy flags (\<^verbatim>\<open>bsy.c\<close>): a link is locked by an exclusively created \<^verbatim>\<open>.bsy\<close> or \<^verbatim>\<open>.csy\<close> file in the
  outbound, and each process keeps the list of the locks it made.  The processes of the fork
  build share the file system and nothing else; the step relation interleaves their calls.
\<close>

section \<open>An exclusive lock service\<close>

text \<open>
  What mutual exclusion rests on: a successful acquire finds the key free and leaves it held, no
  call but the release of a key frees it.  \<open>own\<close> gives the keys each process believes to hold.
\<close>

definition consistent :: "('w \<Rightarrow> 'k \<Rightarrow> bool) \<Rightarrow> 'w \<Rightarrow> ('p \<Rightarrow> 'k list) \<Rightarrow> bool" where
  "consistent held w own \<longleftrightarrow> (\<forall>p. distinct (own p)) \<and>
     (\<forall>p q k. k \<in> set (own p) \<longrightarrow> k \<in> set (own q) \<longrightarrow> p = q) \<and> (\<forall>p. \<forall>k\<in>set (own p). held w k)"

lemma consistentD:
  assumes "consistent held w own"
  shows "distinct (own p)" and "k \<in> set (own p) \<Longrightarrow> k \<in> set (own q) \<Longrightarrow> p = q"
    and "k \<in> set (own p) \<Longrightarrow> held w k"
  using assms by (auto simp: consistent_def)

lemma consistentI:
  "(\<And>p. distinct (own p)) \<Longrightarrow> (\<And>p q k. k \<in> set (own p) \<Longrightarrow> k \<in> set (own q) \<Longrightarrow> p = q) \<Longrightarrow>
    (\<And>p k. k \<in> set (own p) \<Longrightarrow> held w k) \<Longrightarrow> consistent held w own"
  by (auto simp: consistent_def)

lemma consistent_mono:
  "consistent held w own \<Longrightarrow> (\<And>k. held w k \<Longrightarrow> held w' k) \<Longrightarrow> consistent held w' own"
  by (auto simp: consistent_def)

locale exclusive_lock =
  fixes held :: "'w \<Rightarrow> 'k \<Rightarrow> bool"
    and key :: "'a \<Rightarrow> 'k"
    and acquire :: "'a \<Rightarrow> 'w \<Rightarrow> bool \<times> 'w"
    and release :: "'a \<Rightarrow> 'w \<Rightarrow> 'w"
  assumes acquire_held: "acquire a w = (True, w') \<Longrightarrow> \<not> held w (key a) \<and> held w' (key a)"
    and acquire_frame: "acquire a w = (b, w') \<Longrightarrow> held w k \<Longrightarrow> held w' k"
    and release_frame: "k \<noteq> key a \<Longrightarrow> held w k \<Longrightarrow> held (release a w) k"
begin

lemma acquire_failed: "consistent held w own \<Longrightarrow> acquire a w = (b, w') \<Longrightarrow> consistent held w' own"
  by (erule consistent_mono) (rule acquire_frame)

lemma acquire_consistent:
  assumes "consistent held w own" and "acquire a w = (True, w')" and "mset ks = add_mset (key a) (mset (own p))"
  shows "consistent held w' (own(p := ks))"
proof -
  note con = consistentD [OF assms(1)]
  have new: "key a \<notin> set (own q)" for q
    using con(3) acquire_held [OF assms(2)] by blast
  have d: "distinct ks" and s: "set ks = insert (key a) (set (own p))"
    using mset_eq_imp_distinct_iff [of ks "key a # own p"] mset_eq_setD [of ks "key a # own p"] assms(3)
      new con(1) by auto
  show ?thesis
  proof (rule consistentI)
    show "distinct ((own(p := ks)) q)" for q using d con(1) by simp
    show "q = r" if "k \<in> set ((own(p := ks)) q)" "k \<in> set ((own(p := ks)) r)" for q r k
      using that s new con(2) [of k] by (auto split: if_splits)
    show "held w' k" if "k \<in> set ((own(p := ks)) q)" for q k
      using that s con(3) acquire_held [OF assms(2)] acquire_frame [OF assms(2)] by (auto split: if_splits)
  qed
qed

lemma release_consistent:
  assumes "consistent held w own" and "add_mset (key a) (mset ks) = mset (own p)"
  shows "consistent held (release a w) (own(p := ks))"
proof -
  note con = consistentD [OF assms(1)]
  have d: "distinct (key a # ks)" and s: "set (own p) = insert (key a) (set ks)"
    using mset_eq_imp_distinct_iff [of "own p" "key a # ks"] mset_eq_setD [of "own p" "key a # ks"] assms(2)
      con(1) [of p] by auto
  have other: "k \<noteq> key a \<and> k \<in> set (own q)" if "k \<in> set ((own(p := ks)) q)" for k q
    using that s d con(2) [of "key a" p q] by (auto split: if_splits)
  show ?thesis
  proof (rule consistentI)
    show "distinct ((own(p := ks)) q)" for q using d con(1) by simp
    show "q = r" if "k \<in> set ((own(p := ks)) q)" "k \<in> set ((own(p := ks)) r)" for q r k
      using that other con(2) by blast
    show "held (release a w) k" if "k \<in> set ((own(p := ks)) q)" for q k
      using other [OF that] con(3) release_frame by blast
  qed
qed

lemma acquire_busy: "held w (key a) \<Longrightarrow> \<not> fst (acquire a w)"
  using acquire_held by (metis prod.collapse)

end

section \<open>The model of bsy.c\<close>

datatype bsy_t = F_CSY | F_BSY

record BSY_ADDR =
  b_fa :: FTN_ADDR
  b_bt :: bsy_t

definition lock_path :: "FTN_ADDR \<Rightarrow> bsy_t \<Rightarrow> BINKD_CONFIG \<Rightarrow> string" where
  "lock_path fa bt cfg = (let buf = ftnaddress_to_filename fa (pDomains cfg) in
     if buf = [] then [] else strnzcat buf (if bt = F_CSY then ''.csy'' else ''.bsy'') (MAXPATHLEN + 1))"

text \<open>\<^verbatim>\<open>bsy_get_free_cell\<close> and the assignments to the cell it returns.\<close>

fun reuse_cell :: "BSY_ADDR list \<Rightarrow> BSY_ADDR \<Rightarrow> BSY_ADDR list option" where
  "reuse_cell [] new = None"
| "reuse_cell (b # bs) new =
     (if FA_ISNULL (b_fa b) then Some (new # bs) else map_option ((#) b) (reuse_cell bs new))"

definition bsy_get_free_cell :: "BSY_ADDR list \<Rightarrow> BSY_ADDR \<Rightarrow> BSY_ADDR list" where
  "bsy_get_free_cell l new = (case reuse_cell l new of Some l' \<Rightarrow> l' | None \<Rightarrow> new # l)"

definition make_lock :: "BINKD_CONFIG \<Rightarrow> FTN_ADDR \<times> bsy_t \<Rightarrow> world \<Rightarrow> bool \<times> world" where
  "make_lock cfg fb w = (let buf = lock_path (fst fb) (snd fb) cfg in
     if buf = [] then (False, w) else create_sem_file buf (snd (mkpath buf w)))"

definition bsy_add :: "FTN_ADDR \<Rightarrow> bsy_t \<Rightarrow> BINKD_CONFIG \<Rightarrow> world \<times> BSY_ADDR list \<Rightarrow> bool \<times> world \<times> BSY_ADDR list" where
  "bsy_add fa0 bt cfg st = (case make_lock cfg (fa0, bt) (fst st) of
     (ok, w') \<Rightarrow> (ok, w', if ok then bsy_get_free_cell (snd st) \<lparr>b_fa = fa0, b_bt = bt\<rparr> else snd st))"

text \<open>The result is \<open>True\<close> for 1, the flag is free.\<close>

definition bsy_test :: "FTN_ADDR \<Rightarrow> bsy_t \<Rightarrow> BINKD_CONFIG \<Rightarrow> world \<Rightarrow> bool \<times> world" where
  "bsy_test fa0 bt cfg w = (let buf = lock_path fa0 bt cfg in
     if buf = [] then (False, w)
     else let w' = snd (mkpath buf w) in (\<not> access w' buf, w'))"

text \<open>Cutting \<^verbatim>\<open>buf\<close> at its last slash and removing that directory.\<close>

definition cut_rmdir :: "bool \<Rightarrow> string \<times> world \<Rightarrow> string \<times> world" where
  "cut_rmdir cond bw = (case last_slash (fst bw) of
     Some i \<Rightarrow> if cond then (take i (fst bw), snd (rmdir (take i (fst bw)) (snd bw))) else bw
   | None \<Rightarrow> bw)"

definition drop_lock :: "BINKD_CONFIG \<Rightarrow> FTN_ADDR \<times> bsy_t \<Rightarrow> world \<Rightarrow> world" where
  "drop_lock cfg fb w = (let buf = lock_path (fst fb) (snd fb) cfg; w1 = snd (delete buf w) in
     if deletedirs cfg then
       snd (cut_rmdir (case get_domain_info (fa_domain (fst fb)) (pDomains cfg) of
                         Some d \<Rightarrow> fa_z (fst fb) \<noteq> dom_z d | None \<Rightarrow> False)
              (cut_rmdir (fa_p (fst fb) \<noteq> 0) (buf, w1)))
     else w1)"

text \<open>The loop over the list: the first cell with this address and type is freed.\<close>

fun free_cell :: "FTN_ADDR \<Rightarrow> bsy_t \<Rightarrow> BSY_ADDR list \<Rightarrow> BSY_ADDR list option" where
  "free_cell fa0 bt [] = None"
| "free_cell fa0 bt (b # bs) =
     (if ftnaddress_cmp (b_fa b) fa0 = 0 \<and> b_bt b = bt then Some (b\<lparr>b_fa := FA_ZERO\<rparr> # bs)
      else map_option ((#) b) (free_cell fa0 bt bs))"

definition bsy_remove :: "FTN_ADDR \<Rightarrow> bsy_t \<Rightarrow> BINKD_CONFIG \<Rightarrow> world \<times> BSY_ADDR list \<Rightarrow> world \<times> BSY_ADDR list" where
  "bsy_remove fa0 bt cfg st =
    (if lock_path fa0 bt cfg = [] then st
     else case free_cell fa0 bt (snd st) of
       None \<Rightarrow> st | Some l' \<Rightarrow> (drop_lock cfg (fa0, bt) (fst st), l'))"

text \<open>At exit only the point directories are removed, not the zone directories.\<close>

definition exit_lock :: "BINKD_CONFIG \<Rightarrow> FTN_ADDR \<times> bsy_t \<Rightarrow> world \<Rightarrow> world" where
  "exit_lock cfg fb w = (let buf = lock_path (fst fb) (snd fb) cfg in
     snd (cut_rmdir (deletedirs cfg \<and> fa_p (fst fb) \<noteq> 0) (buf, snd (delete buf w))))"

fun bsy_remove_all :: "BINKD_CONFIG \<Rightarrow> world \<Rightarrow> BSY_ADDR list \<Rightarrow> world \<times> BSY_ADDR list" where
  "bsy_remove_all cfg w [] = (w, [])"
| "bsy_remove_all cfg w (b # bs) =
     (if FA_ISNULL (b_fa b) \<or> lock_path (b_fa b) (b_bt b) cfg = []
      then map_prod id ((#) b) (bsy_remove_all cfg w bs)
      else map_prod id ((#) (b\<lparr>b_fa := FA_ZERO\<rparr>)) (bsy_remove_all cfg (exit_lock cfg (b_fa b, b_bt b) w) bs))"

abbreviation BSY_TOUCH_DELAY :: int where "BSY_TOUCH_DELAY \<equiv> 60"

definition touch_cell :: "BINKD_CONFIG \<Rightarrow> world \<Rightarrow> BSY_ADDR \<Rightarrow> world" where
  "touch_cell cfg w b = (let buf = lock_path (b_fa b) (b_bt b) cfg in
     if buf = [] then w else snd (touch buf (w_time w) w))"

text \<open>The static variable \<^verbatim>\<open>last_touch\<close> is passed along.\<close>

definition bsy_touch :: "BINKD_CONFIG \<Rightarrow> int \<Rightarrow> world \<Rightarrow> BSY_ADDR list \<Rightarrow> int \<times> world" where
  "bsy_touch cfg last_touch w l =
    (if w_time w - last_touch > BSY_TOUCH_DELAY then (w_time w, foldl (touch_cell cfg) w l) else (last_touch, w))"

section \<open>Lock files as an exclusive lock service\<close>

lemma is_file_access: "is_file w p \<Longrightarrow> access w p"
  by (auto simp: is_file_def access_def split: option.splits)

lemma delete_file: "q \<noteq> p \<Longrightarrow> is_file (snd (delete p w)) q = is_file w q"
  by (rule is_file_stat) (simp add: delete_frame)

lemma rmdir_is_file: "is_file w q \<Longrightarrow> is_file (snd (rmdir p w)) q"
  using rmdir_file is_file_stat by metis

lemma cut_rmdir_file: "is_file (snd bw) q \<Longrightarrow> is_file (snd (cut_rmdir c bw)) q"
  by (auto simp: cut_rmdir_def rmdir_is_file split: option.split)

lemma cut_rmdir_absent: "stat (snd bw) q = None \<Longrightarrow> stat (snd (cut_rmdir c bw)) q = None"
  by (auto simp: cut_rmdir_def rmdir_absent split: option.split)

abbreviation lock_key :: "BINKD_CONFIG \<Rightarrow> FTN_ADDR \<times> bsy_t \<Rightarrow> string" where
  "lock_key cfg fb \<equiv> lock_path (fst fb) (snd fb) cfg"

lemma drop_lock_frame: "k \<noteq> lock_key cfg a \<Longrightarrow> is_file w k \<Longrightarrow> is_file (drop_lock cfg a w) k"
  by (auto simp: drop_lock_def Let_def delete_file intro!: cut_rmdir_file)

lemma exit_lock_frame: "k \<noteq> lock_key cfg a \<Longrightarrow> is_file w k \<Longrightarrow> is_file (exit_lock cfg a w) k"
  by (auto simp: exit_lock_def Let_def delete_file intro!: cut_rmdir_file)

lemma make_lock_cases:
  "make_lock cfg a w = (b, w') \<Longrightarrow>
    (\<forall>k. is_file w k \<longrightarrow> is_file w' k) \<and> (b \<longrightarrow> \<not> is_file w (lock_key cfg a) \<and> is_file w' (lock_key cfg a))"
proof -
  assume m: "make_lock cfg a w = (b, w')"
  define v where "v = snd (mkpath (lock_key cfg a) w)"
  have v: "is_file v k = is_file w k" for k
    unfolding v_def using grows_file mkpath_grows by blast
  show ?thesis
  proof (cases "lock_key cfg a = []")
    case True
    then show ?thesis using m by (auto simp: make_lock_def)
  next
    case False
    then have c: "create_sem_file (lock_key cfg a) v = (b, w')"
      using m by (simp add: make_lock_def v_def Let_def)
    show ?thesis
    proof (cases b)
      case True
      with c have t: "stat v (lock_key cfg a) = None" "is_file w' (lock_key cfg a)"
        "\<And>q. q \<noteq> lock_key cfg a \<Longrightarrow> stat w' q = stat v q"
        using create_sem_file_True by auto
      then have "\<not> is_file v (lock_key cfg a)" by (simp add: is_file_def)
      with t v show ?thesis using is_file_stat by metis
    next
      case False
      with c v show ?thesis using create_sem_file_False by auto
    qed
  qed
qed

interpretation lk: exclusive_lock is_file "lock_key cfg" "make_lock cfg" "drop_lock cfg" for cfg
  by unfold_locales (auto dest: make_lock_cases drop_lock_frame)

interpretation lkx: exclusive_lock is_file "lock_key cfg" "make_lock cfg" "exit_lock cfg" for cfg
  by unfold_locales (auto dest: make_lock_cases exit_lock_frame)

section \<open>Processes that share the outbound\<close>

definition wf_lock :: "FTN_ADDR \<Rightarrow> bool" where
  "wf_lock fa \<longleftrightarrow> addr_int32 fa \<and> \<not> FA_ISNULL fa"

definition cell_keys :: "BINKD_CONFIG \<Rightarrow> BSY_ADDR list \<Rightarrow> string list" where
  "cell_keys cfg l = map (\<lambda>b. lock_path (b_fa b) (b_bt b) cfg) (filter (\<lambda>b. \<not> FA_ISNULL (b_fa b)) l)"

text \<open>
  One call of \<^verbatim>\<open>bsy.c\<close> by process \<open>p\<close>, or an action of another program that leaves the lock files
  in place.  \<open>ls p\<close> is the list of process \<open>p\<close>.
\<close>

inductive bsy_step :: "BINKD_CONFIG \<Rightarrow> world \<times> (nat \<Rightarrow> BSY_ADDR list) \<Rightarrow> world \<times> (nat \<Rightarrow> BSY_ADDR list) \<Rightarrow> bool"
  for cfg where
  add: "wf_lock fa \<Longrightarrow> bsy_add fa bt cfg (w\<lparr>w_pid := p\<rparr>, ls p) = (ok, w', l') \<Longrightarrow>
    bsy_step cfg (w, ls) (w', ls(p := l'))"
| remove: "wf_lock fa \<Longrightarrow> bsy_remove fa bt cfg (w, ls p) = (w', l') \<Longrightarrow> bsy_step cfg (w, ls) (w', ls(p := l'))"
| exit: "bsy_remove_all cfg w (ls p) = (w', l') \<Longrightarrow> bsy_step cfg (w, ls) (w', ls(p := l'))"
| touch: "bsy_touch cfg t w (ls p) = (t', w') \<Longrightarrow> bsy_step cfg (w, ls) (w', ls)"
| test: "bsy_test fa bt cfg w = (free, w') \<Longrightarrow> bsy_step cfg (w, ls) (w', ls)"
| other: "(\<And>fa bt. is_file w (lock_path fa bt cfg) \<Longrightarrow> is_file w' (lock_path fa bt cfg)) \<Longrightarrow>
    bsy_step cfg (w, ls) (w', ls)"

inductive bsy_reach :: "BINKD_CONFIG \<Rightarrow> world \<times> (nat \<Rightarrow> BSY_ADDR list) \<Rightarrow> bool" for cfg where
  init: "bsy_reach cfg (w, \<lambda>p. [])"
| step: "bsy_reach cfg s \<Longrightarrow> bsy_step cfg s s' \<Longrightarrow> bsy_reach cfg s'"

section \<open>Keys of the cells\<close>

lemma o_stricmp_case: "strlower b = strlower c \<Longrightarrow> o_stricmp a b = o_stricmp a c"
proof (induction a b arbitrary: c rule: o_stricmp.induct)
  case (2 d ds)
  then show ?case by (cases c) (auto simp: strlower_def)
next
  case (4 a as d ds)
  then show ?case by (cases c) (auto simp: strlower_def)
qed (auto simp: strlower_def)

lemma get_domain_info_case: "strlower a = strlower b \<Longrightarrow> get_domain_info a doms = get_domain_info b doms"
  by (induction doms) (auto simp: o_stricmp_case [of a b])

lemma same_lock_path:
  assumes "addr_int32 a" "addr_int32 b" "ftnaddress_cmp a b = 0"
  shows "lock_path a bt cfg = lock_path b bt cfg"
proof -
  have e: "fa_z a = fa_z b" "fa_net a = fa_net b" "fa_node a = fa_node b" "fa_p a = fa_p b"
    "get_domain_info (fa_domain a) (pDomains cfg) = get_domain_info (fa_domain b) (pDomains cfg)"
    using assms get_domain_info_case [of "fa_domain a" "fa_domain b"] by (simp_all add: ftnaddress_cmp_0)
  have "zone_ext a = zone_ext b" "point_part a = point_part b"
    by (simp_all add: fun_eq_iff zone_ext_def point_part_def e)
  with e show ?thesis by (simp only: lock_path_def ftnaddress_to_filename_def)
qed

lemma same_null:
  "addr_int32 a \<Longrightarrow> addr_int32 b \<Longrightarrow> ftnaddress_cmp a b = 0 \<Longrightarrow> FA_ISNULL a = FA_ISNULL b"
  by (auto simp: ftnaddress_cmp_0 FA_ISNULL_def strlower_def)

lemma FA_ZERO_null [simp]: "FA_ISNULL FA_ZERO"
  by (simp add: FA_ISNULL_def FA_ZERO_def)

lemma addr_int32_FA_ZERO [simp]: "addr_int32 FA_ZERO"
  by (simp add: addr_int32_def FA_ZERO_def int32_def nul_free_def)

lemma reuse_cell_keys:
  "reuse_cell l new = Some l' \<Longrightarrow> \<not> FA_ISNULL (b_fa new) \<Longrightarrow>
    mset (cell_keys cfg l') = add_mset (lock_path (b_fa new) (b_bt new) cfg) (mset (cell_keys cfg l))"
  by (induction l arbitrary: l') (auto simp: cell_keys_def split: if_splits)

lemma reuse_cell_set: "reuse_cell l new = Some l' \<Longrightarrow> set l' \<subseteq> insert new (set l)"
  by (induction l arbitrary: l') (auto split: if_splits)

lemma get_free_cell_keys:
  "\<not> FA_ISNULL (b_fa new) \<Longrightarrow> mset (cell_keys cfg (bsy_get_free_cell l new)) =
    add_mset (lock_path (b_fa new) (b_bt new) cfg) (mset (cell_keys cfg l))"
  by (auto simp: bsy_get_free_cell_def reuse_cell_keys cell_keys_def [of cfg "new # l"] cell_keys_def [of cfg l]
      split: option.split)

lemma get_free_cell_set: "set (bsy_get_free_cell l new) \<subseteq> insert new (set l)"
  by (auto simp: bsy_get_free_cell_def dest: reuse_cell_set split: option.split)

lemma free_cell_keys:
  "free_cell fa bt l = Some l' \<Longrightarrow> wf_lock fa \<Longrightarrow> \<forall>b\<in>set l. addr_int32 (b_fa b) \<Longrightarrow>
    add_mset (lock_path fa bt cfg) (mset (cell_keys cfg l')) = mset (cell_keys cfg l)"
proof (induction l arbitrary: l')
  case (Cons b l)
  show ?case
  proof (cases "ftnaddress_cmp (b_fa b) fa = 0 \<and> b_bt b = bt")
    case True
    then have "\<not> FA_ISNULL (b_fa b)" "lock_path (b_fa b) bt cfg = lock_path fa bt cfg"
      using Cons.prems same_null same_lock_path by (auto simp: wf_lock_def)
    then show ?thesis using Cons.prems True by (auto simp: cell_keys_def)
  next
    case False
    then show ?thesis using Cons by (auto simp: cell_keys_def)
  qed
qed simp

lemma reuse_cell_mem: "reuse_cell l new = Some l' \<Longrightarrow> new \<in> set l'"
  by (induction l arbitrary: l') (auto split: if_splits)

lemma get_free_cell_mem: "new \<in> set (bsy_get_free_cell l new)"
  by (auto simp: bsy_get_free_cell_def reuse_cell_mem split: option.split)

lemma free_cell_finds: "\<lparr>b_fa = fa, b_bt = bt\<rparr> \<in> set l \<Longrightarrow> \<exists>l'. free_cell fa bt l = Some l'"
  by (induction l) auto

lemma free_cell_set: "free_cell fa bt l = Some l' \<Longrightarrow> \<forall>b\<in>set l. addr_int32 (b_fa b) \<Longrightarrow> \<forall>b\<in>set l'. addr_int32 (b_fa b)"
  by (induction l arbitrary: l') (auto split: if_splits)

section \<open>The invariant\<close>

definition bsy_inv :: "BINKD_CONFIG \<Rightarrow> world \<times> (nat \<Rightarrow> BSY_ADDR list) \<Rightarrow> bool" where
  "bsy_inv cfg s \<longleftrightarrow> consistent is_file (fst s) (\<lambda>p. cell_keys cfg (snd s p)) \<and>
     (\<forall>p. \<forall>b\<in>set (snd s p). addr_int32 (b_fa b))"

lemma inv_world:
  assumes "bsy_inv cfg (w, ls)" "\<And>fa bt. is_file w (lock_path fa bt cfg) \<Longrightarrow> is_file w' (lock_path fa bt cfg)"
  shows "bsy_inv cfg (w', ls)"
  using assms unfolding bsy_inv_def consistent_def cell_keys_def by auto

lemma cell_keys_upd: "(\<lambda>q. cell_keys cfg ((ls(p := l)) q)) = (\<lambda>q. cell_keys cfg (ls q))(p := cell_keys cfg l)"
  by auto

lemma is_file_pid [simp]: "is_file (w\<lparr>w_pid := p\<rparr>) k = is_file w k"
  by (simp add: is_file_def stat_def)

lemma inv_add:
  assumes "bsy_inv cfg (w, ls)" "wf_lock fa" "bsy_add fa bt cfg (w\<lparr>w_pid := p\<rparr>, ls p) = (ok, w', l')"
  shows "bsy_inv cfg (w', ls(p := l'))"
proof (cases ok)
  case True
  then have m: "make_lock cfg (fa, bt) (w\<lparr>w_pid := p\<rparr>) = (True, w')"
    and l': "l' = bsy_get_free_cell (ls p) \<lparr>b_fa = fa, b_bt = bt\<rparr>"
    using assms(3) by (auto simp: bsy_add_def split: prod.splits)
  have "consistent is_file (w\<lparr>w_pid := p\<rparr>) (\<lambda>q. cell_keys cfg (ls q))"
    using assms(1) consistent_mono by (fastforce simp: bsy_inv_def)
  then have "consistent is_file w' (\<lambda>q. cell_keys cfg ((ls(p := l')) q))"
    unfolding cell_keys_upd
    by (rule lk.acquire_consistent [OF _ m]) (use assms(2) get_free_cell_keys in \<open>auto simp: l' wf_lock_def\<close>)
  moreover have "addr_int32 (b_fa b)" if "b \<in> set l'" for b
    using that get_free_cell_set [of "ls p"] assms(1,2) unfolding l' bsy_inv_def wf_lock_def by force
  ultimately show ?thesis using assms(1) by (auto simp: bsy_inv_def)
next
  case False
  then have m: "make_lock cfg (fa, bt) (w\<lparr>w_pid := p\<rparr>) = (False, w')" and "l' = ls p"
    using assms(3) by (auto simp: bsy_add_def split: prod.splits)
  with make_lock_cases [OF m] assms(1) show ?thesis by (auto intro: inv_world)
qed

lemma inv_remove:
  assumes "bsy_inv cfg (w, ls)" "wf_lock fa" "bsy_remove fa bt cfg (w, ls p) = (w', l')"
  shows "bsy_inv cfg (w', ls(p := l'))"
proof (cases "lock_path fa bt cfg = [] \<or> free_cell fa bt (ls p) = None")
  case True
  then show ?thesis using assms by (auto simp: bsy_remove_def split: if_splits)
next
  case False
  then have f: "free_cell fa bt (ls p) = Some l'" and w': "w' = drop_lock cfg (fa, bt) w"
    using assms(3) by (auto simp: bsy_remove_def)
  have wf: "\<forall>b\<in>set (ls p). addr_int32 (b_fa b)" using assms(1) by (simp add: bsy_inv_def)
  have "consistent is_file w' (\<lambda>q. cell_keys cfg ((ls(p := l')) q))"
    unfolding cell_keys_upd w'
    by (rule lk.release_consistent) (use assms(1) free_cell_keys [OF f assms(2) wf] in \<open>auto simp: bsy_inv_def\<close>)
  with free_cell_set [OF f wf] assms(1) show ?thesis by (auto simp: bsy_inv_def)
qed

lemma cell_keys_append [simp]: "cell_keys cfg (xs @ ys) = cell_keys cfg xs @ cell_keys cfg ys"
  by (simp add: cell_keys_def)

lemma cell_keys_free [simp]: "cell_keys cfg (b\<lparr>b_fa := FA_ZERO\<rparr> # l) = cell_keys cfg l"
  by (simp add: cell_keys_def)

lemma inv_exit_loop:
  "consistent is_file w (own(p := cell_keys cfg (done @ l))) \<Longrightarrow> bsy_remove_all cfg w l = (w', l') \<Longrightarrow>
    consistent is_file w' (own(p := cell_keys cfg (done @ l')))"
proof (induction l arbitrary: w w' l' "done")
  case (Cons b l)
  show ?case
  proof (cases "FA_ISNULL (b_fa b) \<or> lock_path (b_fa b) (b_bt b) cfg = []")
    case True
    then obtain l1 where "bsy_remove_all cfg w l = (w', l1)" "l' = b # l1"
      using Cons.prems(2) by (auto simp: map_prod_def split: prod.splits)
    with Cons.IH [of w "done @ [b]"] Cons.prems(1) show ?thesis by simp
  next
    case False
    let ?a = "(b_fa b, b_bt b)"
    obtain l1 where r: "bsy_remove_all cfg (exit_lock cfg ?a w) l = (w', l1)" "l' = b\<lparr>b_fa := FA_ZERO\<rparr> # l1"
      using False Cons.prems(2) by (auto simp: map_prod_def split: prod.splits)
    have "consistent is_file (exit_lock cfg ?a w)
        ((own(p := cell_keys cfg (done @ b # l)))(p := cell_keys cfg (done @ l)))"
      by (rule lkx.release_consistent [OF Cons.prems(1)]) (use False in \<open>simp add: cell_keys_def\<close>)
    then have "consistent is_file (exit_lock cfg ?a w) (own(p := cell_keys cfg (done @ l)))"
      by (simp only: fun_upd_upd)
    from Cons.IH [OF this r(1)] show ?thesis by (simp only: r(2) cell_keys_append cell_keys_free)
  qed
qed simp

lemma remove_all_wf:
  "bsy_remove_all cfg w l = (w', l') \<Longrightarrow> \<forall>b\<in>set l. addr_int32 (b_fa b) \<Longrightarrow> \<forall>b\<in>set l'. addr_int32 (b_fa b)"
  by (induction l arbitrary: w w' l') (auto simp: map_prod_def split: prod.splits if_splits)

lemma inv_exit:
  assumes "bsy_inv cfg (w, ls)" "bsy_remove_all cfg w (ls p) = (w', l')"
  shows "bsy_inv cfg (w', ls(p := l'))"
proof -
  let ?own = "\<lambda>q. cell_keys cfg (ls q)"
  have "consistent is_file w (?own(p := cell_keys cfg ([] @ ls p)))"
    using assms(1) by (simp add: bsy_inv_def fun_upd_idem)
  from inv_exit_loop [OF this assms(2)] have "consistent is_file w' (?own(p := cell_keys cfg l'))" by simp
  with remove_all_wf [OF assms(2)] assms(1) show ?thesis
    unfolding bsy_inv_def fst_conv snd_conv cell_keys_upd by auto
qed

lemma touch_file: "is_file w k \<Longrightarrow> is_file (snd (touch p t w)) k"
  by (cases "k = p") (auto simp: touch_def utime_def is_file_def split: option.splits fentry.splits)

lemma bsy_touch_file: "bsy_touch cfg t w l = (t', w') \<Longrightarrow> is_file w k \<Longrightarrow> is_file w' k"
  using foldl_step_invariant [of "\<lambda>w. is_file w k" l "touch_cell cfg" w]
  by (auto simp: bsy_touch_def touch_cell_def Let_def touch_file split: if_splits)

lemma bsy_test_file: "bsy_test fa bt cfg w = (free, w') \<Longrightarrow> is_file w k \<Longrightarrow> is_file w' k"
  using grows_file [OF mkpath_grows] by (auto simp: bsy_test_def Let_def split: if_splits)

lemma bsy_reach_inv: "bsy_reach cfg s \<Longrightarrow> bsy_inv cfg s"
proof (induction rule: bsy_reach.induct)
  case (init w)
  then show ?case by (simp add: bsy_inv_def consistent_def cell_keys_def)
next
  case (step s s')
  from step(2,3) show ?case
    by (cases rule: bsy_step.cases)
      (auto intro: inv_add inv_remove inv_exit inv_world dest: bsy_touch_file bsy_test_file)
qed

section \<open>Making and dropping one lock\<close>

lemma make_lock_denied: "make_lock cfg a w = (True, w') \<Longrightarrow> \<not> denied w' (lock_key cfg a)"
proof -
  assume m: "make_lock cfg a w = (True, w')"
  define v where "v = snd (mkpath (lock_key cfg a) w)"
  have "create_sem_file (lock_key cfg a) v = (True, w')"
    using m by (auto simp: make_lock_def v_def Let_def split: if_splits)
  then show ?thesis
    by (auto simp: create_sem_file_def fs_append_def split: prod.splits option.splits fentry.splits if_splits
        dest!: open_excl_cases)
qed

lemma make_lock_ok:
  assumes "length (lock_key cfg a) < MAXPATHLEN" "plain_path (lock_key cfg a)" "parent (lock_key cfg a) \<noteq> []"
    and "\<And>i. i < length (lock_key cfg a) \<Longrightarrow> \<not> is_file w (take i (lock_key cfg a))"
    and "\<And>i. \<not> denied w (take i (lock_key cfg a))"
  shows "fst (make_lock cfg a w) \<longleftrightarrow> \<not> access w (lock_key cfg a)"
proof -
  let ?k = "lock_key cfg a" and ?v = "snd (mkpath (lock_key cfg a) w)"
  have ne: "?k \<noteq> []" using assms(3) by (auto simp: parent_def strrchr_def)
  have mk: "parent_ok ?v ?k" "grows w ?v" using mkpath_makes_parent [OF assms(1-4)] assms(5) by blast+
  have "\<not> denied ?v ?k" using assms(5) [of "length ?k"] grows_denied [OF mk(2)] by simp
  moreover have "access ?v ?k = access w ?k" by (simp add: access_def mkpath_keeps_self)
  ultimately show ?thesis
    using ne mk(1) create_sem_file_exists [of ?v ?k] create_sem_file_succeeds [of ?k ?v]
    by (auto simp: make_lock_def Let_def)
qed

lemma bsy_test_access: "lock_path fa bt cfg \<noteq> [] \<Longrightarrow> fst (bsy_test fa bt cfg w) \<longleftrightarrow> \<not> access w (lock_path fa bt cfg)"
  by (simp add: bsy_test_def Let_def access_def mkpath_keeps_self)

lemma drop_lock_gone:
  "is_file w (lock_key cfg a) \<Longrightarrow> \<not> denied w (lock_key cfg a) \<Longrightarrow> stat (drop_lock cfg a w) (lock_key cfg a) = None"
  by (auto simp: drop_lock_def Let_def delete_gone intro!: cut_rmdir_absent)

lemma exit_lock_gone:
  "is_file w (lock_key cfg a) \<Longrightarrow> \<not> denied w (lock_key cfg a) \<Longrightarrow> stat (exit_lock cfg a w) (lock_key cfg a) = None"
  by (auto simp: exit_lock_def Let_def delete_gone intro!: cut_rmdir_absent)

lemma delete_absent: "stat w q = None \<Longrightarrow> stat (snd (delete p w)) q = None"
  by (cases "unlink p w") (auto simp: delete_def dest!: unlink_cases)

lemma exit_lock_absent: "stat w q = None \<Longrightarrow> stat (exit_lock cfg a w) q = None"
  by (auto simp: exit_lock_def Let_def delete_absent intro!: cut_rmdir_absent)

lemma delete_denied [simp]: "w_denied (snd (delete p w)) = w_denied w"
  by (cases "unlink p w") (auto simp: delete_def dest!: unlink_cases)

lemma cut_rmdir_denied [simp]: "w_denied (snd (cut_rmdir c bw)) = w_denied (snd bw)"
  by (auto simp: cut_rmdir_def rmdir_def split: option.split fentry.split)

lemma exit_lock_denied [simp]: "w_denied (exit_lock cfg a w) = w_denied w"
  by (simp add: exit_lock_def Let_def)

lemma remove_all_absent: "bsy_remove_all cfg w l = (w', l') \<Longrightarrow> stat w k = None \<Longrightarrow> stat w' k = None"
  by (induction l arbitrary: w l') (auto simp: map_prod_def exit_lock_absent split: prod.splits if_splits)

lemma remove_all_gone:
  assumes "bsy_remove_all cfg w l = (w', l')" "distinct (cell_keys cfg l)" "[] \<notin> set (cell_keys cfg l)"
    and "\<forall>k\<in>set (cell_keys cfg l). is_file w k \<and> \<not> denied w k"
  shows "cell_keys cfg l' = [] \<and> (\<forall>k\<in>set (cell_keys cfg l). stat w' k = None)"
  using assms
proof (induction l arbitrary: w l')
  case (Cons b l)
  let ?a = "(b_fa b, b_bt b)"
  show ?case
  proof (cases "FA_ISNULL (b_fa b)")
    case True
    then show ?thesis
      using Cons by (auto simp: cell_keys_def map_prod_def split: prod.splits)
  next
    case False
    let ?w = "exit_lock cfg ?a w"
    have ks: "cell_keys cfg (b # l) = lock_key cfg ?a # cell_keys cfg l"
      using False by (simp add: cell_keys_def)
    obtain l1 where r: "bsy_remove_all cfg ?w l = (w', l1)" "l' = b\<lparr>b_fa := FA_ZERO\<rparr> # l1"
      using False Cons.prems(1,3) by (auto simp: ks map_prod_def split: prod.splits)
    have "is_file ?w k \<and> \<not> denied ?w k" if "k \<in> set (cell_keys cfg l)" for k
      using that Cons.prems(2,4) by (auto simp: ks intro!: exit_lock_frame)
    then have "cell_keys cfg l1 = [] \<and> (\<forall>k\<in>set (cell_keys cfg l). stat w' k = None)"
      using Cons.IH [OF r(1)] Cons.prems by (auto simp: ks)
    moreover have "stat w' (lock_key cfg ?a) = None"
      using Cons.prems(4) remove_all_absent [OF r(1)] exit_lock_gone by (auto simp: ks)
    ultimately show ?thesis by (simp add: ks r(2))
  qed
qed (simp add: cell_keys_def)

section \<open>Properties\<close>

text \<open>
  C1: mutual exclusion.  Whatever calls the processes make and in whatever order, two cells
  that hold the same link with the same kind of flag belong to the same process, and its flag
  file is in the outbound.
\<close>

theorem bsy_mutual_exclusion:
  assumes "bsy_reach cfg (w, ls)"
    and "b \<in> set (ls p)" "c \<in> set (ls q)" "\<not> FA_ISNULL (b_fa b)"
    and "ftnaddress_cmp (b_fa b) (b_fa c) = 0" "b_bt b = b_bt c"
  shows "p = q \<and> is_file w (lock_path (b_fa b) (b_bt b) cfg)"
proof -
  have inv: "consistent is_file w (\<lambda>p. cell_keys cfg (ls p))" and wf: "addr_int32 (b_fa b)" "addr_int32 (b_fa c)"
    using bsy_reach_inv [OF assms(1)] assms(2,3) by (auto simp: bsy_inv_def)
  let ?k = "lock_path (b_fa b) (b_bt b) cfg"
  have "?k \<in> set (cell_keys cfg (ls p))"
    using assms(2,4) by (force simp: cell_keys_def)
  moreover have "?k \<in> set (cell_keys cfg (ls q))"
    using assms(3,4,6) same_null [OF wf assms(5)] same_lock_path [OF wf assms(5)]
    by (force simp: cell_keys_def)
  ultimately show ?thesis using consistentD [OF inv] by blast
qed

lemma ex_lock_path: "lock_path ex_link F_BSY sample_cfg = ''/var/spool/outb/00020003.bsy''"
  by (simp add: lock_path_def ex_filename strnzcat_def strnzcpy_def)

lemma ex_wf: "wf_lock ex_link"
  by (simp add: wf_lock_def ex_link_def addr_int32_def int32_def FA_ISNULL_def nul_free_def)

lemma ex_make: "fst (make_lock sample_cfg (ex_link, F_BSY) (empty_world\<lparr>w_pid := 1\<rparr>))"
proof -
  have "length (lock_path ex_link F_BSY sample_cfg) < MAXPATHLEN"
    "plain_path (lock_path ex_link F_BSY sample_cfg)" "parent (lock_path ex_link F_BSY sample_cfg) \<noteq> []"
    by (simp_all add: ex_lock_path plain_path_def parent_def strrchr_def)
  then show ?thesis
    using make_lock_ok [of "(ex_link, F_BSY)" sample_cfg "empty_world\<lparr>w_pid := 1\<rparr>"]
    by (auto simp: empty_world_def is_file_def stat_def access_def)
qed

abbreviation ex_cells :: "nat \<Rightarrow> BSY_ADDR list" where
  "ex_cells \<equiv> (\<lambda>p. [])(1 := [\<lparr>b_fa = ex_link, b_bt = F_BSY\<rparr>])"

lemma ex_added:
  obtains w' where
    "bsy_add ex_link F_BSY sample_cfg (empty_world\<lparr>w_pid := 1\<rparr>, []) = (True, w', [\<lparr>b_fa = ex_link, b_bt = F_BSY\<rparr>])"
    and "bsy_reach sample_cfg (w', ex_cells)"
proof -
  let ?b = "\<lparr>b_fa = ex_link, b_bt = F_BSY\<rparr>"
  obtain w' where "make_lock sample_cfg (ex_link, F_BSY) (empty_world\<lparr>w_pid := 1\<rparr>) = (True, w')"
    using ex_make by (metis (full_types) prod.collapse)
  then have add: "bsy_add ex_link F_BSY sample_cfg (empty_world\<lparr>w_pid := 1\<rparr>, (\<lambda>p. []) (1::nat)) = (True, w', [?b])"
    by (simp add: bsy_add_def bsy_get_free_cell_def)
  have "bsy_reach sample_cfg (w', ex_cells)"
    by (rule bsy_reach.step [OF bsy_reach.init]) (rule bsy_step.add [OF ex_wf add])
  with add that show thesis by simp
qed

theorem bsy_mutual_exclusion_witness:
  "\<exists>w. bsy_reach sample_cfg (w, ex_cells) \<and> is_file w ''/var/spool/outb/00020003.bsy''"
proof -
  obtain w' where r: "bsy_reach sample_cfg (w', ex_cells)" by (rule ex_added)
  let ?b = "\<lparr>b_fa = ex_link, b_bt = F_BSY\<rparr>"
  have "is_file w' (lock_path ex_link F_BSY sample_cfg)"
    using bsy_mutual_exclusion [OF r, of ?b 1 ?b 1] ex_wf by (simp add: wf_lock_def)
  with r show ?thesis by (auto simp: ex_lock_path)
qed

text \<open>
  \<^verbatim>\<open>bsy_add\<close> succeeds exactly when \<^verbatim>\<open>bsy_test\<close> reports the link free, which is when no flag
  file exists, provided the directories above it can be made.
\<close>

theorem bsy_add_iff_free:
  assumes "length (lock_path fa bt cfg) < MAXPATHLEN" "plain_path (lock_path fa bt cfg)"
    and "parent (lock_path fa bt cfg) \<noteq> []"
    and "\<And>i. i < length (lock_path fa bt cfg) \<Longrightarrow> \<not> is_file w (take i (lock_path fa bt cfg))"
    and "\<And>i. \<not> denied w (take i (lock_path fa bt cfg))"
  shows "(fst (bsy_add fa bt cfg (w, l)) \<longleftrightarrow> fst (bsy_test fa bt cfg w)) \<and>
    (fst (bsy_test fa bt cfg w) \<longleftrightarrow> \<not> access w (lock_path fa bt cfg))"
proof -
  have "lock_path fa bt cfg \<noteq> []" using assms(3) by (auto simp: parent_def strrchr_def)
  moreover have "fst (bsy_add fa bt cfg (w, l)) = fst (make_lock cfg (fa, bt) w)"
    by (simp add: bsy_add_def split: prod.split)
  ultimately show ?thesis
    using make_lock_ok [of "(fa, bt)" cfg w] assms by (simp add: bsy_test_access)
qed

theorem bsy_add_iff_free_witness: "fst (bsy_add ex_link F_BSY sample_cfg (empty_world, []))"
proof -
  have h: "length (lock_path ex_link F_BSY sample_cfg) < MAXPATHLEN"
    "plain_path (lock_path ex_link F_BSY sample_cfg)" "parent (lock_path ex_link F_BSY sample_cfg) \<noteq> []"
    by (simp_all add: ex_lock_path plain_path_def parent_def strrchr_def)
  have w: "\<not> is_file empty_world p" "\<not> denied empty_world p" "\<not> access empty_world p" for p
    by (simp_all add: empty_world_def is_file_def stat_def access_def)
  show ?thesis using bsy_add_iff_free [OF h w(1) w(2)] w(3) by blast
qed

text \<open>
  a link that was locked tests busy, and \<^verbatim>\<open>bsy_remove\<close> frees it again: the flag file
  is gone and the process holds the locks it held before.
\<close>

theorem bsy_add_remove:
  assumes "wf_lock fa" "\<forall>b\<in>set l. addr_int32 (b_fa b)" "bsy_add fa bt cfg (w, l) = (True, w1, l1)"
  shows "\<not> fst (bsy_test fa bt cfg w1) \<and> fst (bsy_test fa bt cfg (fst (bsy_remove fa bt cfg (w1, l1)))) \<and>
    mset (cell_keys cfg (snd (bsy_remove fa bt cfg (w1, l1)))) = mset (cell_keys cfg l)"
proof -
  let ?k = "lock_path fa bt cfg" and ?b = "\<lparr>b_fa = fa, b_bt = bt\<rparr>"
  have m: "make_lock cfg (fa, bt) w = (True, w1)" and l1: "l1 = bsy_get_free_cell l ?b"
    using assms(3) by (auto simp: bsy_add_def split: prod.splits)
  have f: "is_file w1 ?k" "\<not> denied w1 ?k" using make_lock_cases [OF m] make_lock_denied [OF m] by auto
  have ne: "?k \<noteq> []" using m by (auto simp: make_lock_def split: if_splits)
  have wf: "\<forall>b\<in>set l1. addr_int32 (b_fa b)"
    using get_free_cell_set [of l ?b] assms(1,2) by (auto simp: l1 wf_lock_def)
  have ks: "mset (cell_keys cfg l1) = add_mset ?k (mset (cell_keys cfg l))"
    using get_free_cell_keys [of ?b cfg l] assms(1) by (simp add: l1 wf_lock_def)
  obtain l2 where l2: "free_cell fa bt l1 = Some l2"
    using free_cell_finds [OF get_free_cell_mem, of fa bt l] by (auto simp: l1)
  have rm: "bsy_remove fa bt cfg (w1, l1) = (drop_lock cfg (fa, bt) w1, l2)"
    using ne l2 by (simp add: bsy_remove_def)
  show ?thesis
    using ne f free_cell_keys [OF l2 assms(1) wf, of cfg] ks drop_lock_gone [of w1 "(fa, bt)" cfg]
    by (auto simp: rm bsy_test_access is_file_access) (simp add: access_def)
qed

theorem bsy_add_remove_witness:
  "\<exists>w. let st = bsy_remove ex_link F_BSY sample_cfg (w, ex_cells 1) in
     \<not> fst (bsy_test ex_link F_BSY sample_cfg w) \<and> fst (bsy_test ex_link F_BSY sample_cfg (fst st))"
proof -
  obtain w' where a: "bsy_add ex_link F_BSY sample_cfg (empty_world\<lparr>w_pid := 1\<rparr>, []) = (True, w', ex_cells 1)"
    by (rule ex_added) simp
  show ?thesis
    by (intro exI [of _ w']) (use bsy_add_remove [OF ex_wf _ a] in \<open>simp add: Let_def\<close>)
qed

text \<open>
  at exit \<^verbatim>\<open>bsy_remove_all\<close> removes every flag file of the process, empties its list and
  leaves the flags of the other processes alone.
\<close>

theorem bsy_remove_all_frees:
  assumes "bsy_reach cfg (w, ls)" "bsy_remove_all cfg w (ls p) = (w', l')" "stat w [] = None"
    and "\<forall>k\<in>set (cell_keys cfg (ls p)). \<not> denied w k"
  shows "cell_keys cfg l' = [] \<and> (\<forall>k\<in>set (cell_keys cfg (ls p)). stat w' k = None) \<and>
    (\<forall>q k. q \<noteq> p \<longrightarrow> k \<in> set (cell_keys cfg (ls q)) \<longrightarrow> is_file w' k)"
proof -
  have inv: "bsy_inv cfg (w, ls)" by (rule bsy_reach_inv [OF assms(1)])
  then have con: "consistent is_file w (\<lambda>q. cell_keys cfg (ls q))" by (simp add: bsy_inv_def)
  have "[] \<notin> set (cell_keys cfg (ls p))"
    using consistentD(3) [OF con, of "[]" p] assms(3) by (auto simp: is_file_def)
  then have g: "cell_keys cfg l' = [] \<and> (\<forall>k\<in>set (cell_keys cfg (ls p)). stat w' k = None)"
    using remove_all_gone [OF assms(2)] consistentD(1) [OF con, of p] consistentD(3) [OF con, of _ p] assms(4) by blast
  have "bsy_inv cfg (w', ls(p := l'))" by (rule inv_exit [OF inv assms(2)])
  then have "consistent is_file w' (\<lambda>q. cell_keys cfg ((ls(p := l')) q))" by (simp add: bsy_inv_def)
  from consistentD(3) [OF this] have "is_file w' k" if "q \<noteq> p" "k \<in> set (cell_keys cfg (ls q))" for q k
    using that by (metis fun_upd_other)
  with g show ?thesis by blast
qed

lemma make_lock_nil: "make_lock cfg a w = (True, w') \<Longrightarrow> stat w' [] = stat w []"
  using create_sem_file_True [of "lock_key cfg a" "snd (mkpath (lock_key cfg a) w)" w']
  by (auto simp: make_lock_def Let_def mkpath_nil split: if_splits)

theorem bsy_remove_all_frees_witness:
  "\<exists>w. is_file w ''/var/spool/outb/00020003.bsy'' \<and>
     stat (fst (bsy_remove_all sample_cfg w (ex_cells 1))) ''/var/spool/outb/00020003.bsy'' = None"
proof -
  obtain w where a: "bsy_add ex_link F_BSY sample_cfg (empty_world\<lparr>w_pid := 1\<rparr>, []) = (True, w, ex_cells 1)"
    and r: "bsy_reach sample_cfg (w, ex_cells)"
    by (rule ex_added) simp
  then have m: "make_lock sample_cfg (ex_link, F_BSY) (empty_world\<lparr>w_pid := 1\<rparr>) = (True, w)"
    by (auto simp: bsy_add_def split: prod.splits)
  have k: "cell_keys sample_cfg (ex_cells 1) = [''/var/spool/outb/00020003.bsy'']"
    using ex_wf by (simp add: cell_keys_def wf_lock_def ex_lock_path)
  have e: "bsy_remove_all sample_cfg w (ex_cells 1) =
      (fst (bsy_remove_all sample_cfg w (ex_cells 1)), snd (bsy_remove_all sample_cfg w (ex_cells 1)))" by simp
  have n: "stat w [] = None" using make_lock_nil [OF m] by (simp add: empty_world_def stat_def)
  have d: "\<forall>k\<in>set (cell_keys sample_cfg (ex_cells 1)). \<not> denied w k"
    using make_lock_denied [OF m] k by (simp add: ex_lock_path)
  have "is_file w ''/var/spool/outb/00020003.bsy''"
    using make_lock_cases [OF m] by (simp add: ex_lock_path)
  then show ?thesis
    using bsy_remove_all_frees [OF r e n d] k by (intro exI [of _ w]) simp
qed

end
