(* ===== verification/Ftnnode.thy ===== *)
theory Ftnnode
  imports Types "HOL-Library.Multiset" "HOL-Library.List_Lexorder" "HOL-Library.Product_Lexorder"
begin

text \<open>
  The table of nodes (\<^verbatim>\<open>ftnnode.c\<close>): adding and editing nodes, the sorted array and its binary
  search, the fallback to the \<^verbatim>\<open>defnode\<close> entry, iteration.  \<^verbatim>\<open>qsort\<close> and \<^verbatim>\<open>bsearch\<close> are the C library's.
\<close>

section \<open>Sorting and searching with a comparison function\<close>

fun insert_by :: "('a \<Rightarrow> 'a \<Rightarrow> int) \<Rightarrow> 'a \<Rightarrow> 'a list \<Rightarrow> 'a list" where
  "insert_by cmp x [] = [x]"
| "insert_by cmp x (y # ys) = (if cmp x y \<le> 0 then x # y # ys else y # insert_by cmp x ys)"

definition qsort :: "('a \<Rightarrow> 'a \<Rightarrow> int) \<Rightarrow> 'a list \<Rightarrow> 'a list" where
  "qsort cmp xs = foldr (insert_by cmp) xs []"

function bsearch_from :: "('a \<Rightarrow> int) \<Rightarrow> 'a list \<Rightarrow> nat \<Rightarrow> nat \<Rightarrow> nat option" where
  "bsearch_from c xs l u =
    (if l < u then
       let idx = (l + u) div 2; r = c (xs ! idx) in
       if r < 0 then bsearch_from c xs l idx
       else if 0 < r then bsearch_from c xs (Suc idx) u
       else Some idx
     else None)"
  by pat_completeness auto

termination bsearch_from
  by (relation "measure (\<lambda>(c, xs, l, u). u - l)") auto

declare bsearch_from.simps [simp del]

definition bsearch :: "('a \<Rightarrow> int) \<Rightarrow> 'a list \<Rightarrow> nat option" where
  "bsearch c xs = bsearch_from c xs 0 (length xs)"

text \<open>
  A comparison function that orders a carrier by a key; sorting makes the keys ascending and the
  search then finds an element exactly when there is one.
\<close>

locale keyed_cmp =
  fixes cmp :: "'a \<Rightarrow> 'a \<Rightarrow> int" and key :: "'a \<Rightarrow> 'k :: linorder" and ok :: "'a \<Rightarrow> bool"
  assumes cmp_less: "ok a \<Longrightarrow> ok b \<Longrightarrow> cmp a b < 0 \<longleftrightarrow> key a < key b"
    and cmp_eq: "ok a \<Longrightarrow> ok b \<Longrightarrow> cmp a b = 0 \<longleftrightarrow> key a = key b"
begin

lemma cmp_le: "ok a \<Longrightarrow> ok b \<Longrightarrow> cmp a b \<le> 0 \<longleftrightarrow> key a \<le> key b"
  using cmp_less [of a b] cmp_eq [of a b] by (auto simp: le_less)

lemma mset_insert_by: "mset (insert_by cmp x xs) = add_mset x (mset xs)"
  by (induction xs) auto

lemma mset_qsort: "mset (qsort cmp xs) = mset xs"
  unfolding qsort_def by (induction xs) (auto simp: mset_insert_by)

lemma set_insert_by: "set (insert_by cmp x xs) = insert x (set xs)"
  by (induction xs) auto

lemma sorted_insert_by:
  "ok x \<Longrightarrow> \<forall>y\<in>set xs. ok y \<Longrightarrow> sorted (map key xs) \<Longrightarrow> sorted (map key (insert_by cmp x xs))"
proof (induction xs)
  case (Cons y ys)
  then show ?case using cmp_le [of x y] by (auto simp: set_insert_by)
qed simp

lemma sorted_qsort: "\<forall>y\<in>set xs. ok y \<Longrightarrow> sorted (map key (qsort cmp xs))"
proof (induction xs)
  case (Cons x xs)
  have "set (qsort cmp xs) = set xs" using mset_qsort [of xs] by (metis set_mset_mset)
  with Cons show ?case by (simp add: qsort_def sorted_insert_by)
qed (simp add: qsort_def)

lemma bsearch_from_sound:
  assumes "bsearch_from (cmp x) xs l u = Some i" "u \<le> length xs" "ok x" "\<forall>y\<in>set xs. ok y"
  shows "i < length xs \<and> key (xs ! i) = key x"
  using assms
proof (induction "cmp x" xs l u rule: bsearch_from.induct)
  case (1 xs l u)
  let ?m = "(l + u) div 2"
  from "1.prems"(1) have lu: "l < u"
    by (subst (asm) bsearch_from.simps) (simp split: if_splits)
  with "1.prems"(2) have m: "?m < length xs" by simp
  then have "ok (xs ! ?m)" using "1.prems"(4) by simp
  then have e: "cmp x (xs ! ?m) = 0 \<Longrightarrow> key (xs ! ?m) = key x" using cmp_eq "1.prems"(3) by simp
  have "bsearch_from (cmp x) xs l u = (if cmp x (xs ! ?m) < 0 then bsearch_from (cmp x) xs l ?m
      else if 0 < cmp x (xs ! ?m) then bsearch_from (cmp x) xs (Suc ?m) u else Some ?m)"
    by (subst bsearch_from.simps) (simp add: lu Let_def)
  with "1.prems" m e "1.hyps"(1) [OF lu refl refl] "1.hyps"(2) [OF lu refl refl]
  show ?case by (auto split: if_splits)
qed

lemma bsearch_from_complete:
  assumes "sorted (map key xs)" "ok x" "\<forall>y\<in>set xs. ok y" "l \<le> j" "j < u" "u \<le> length xs" "key (xs ! j) = key x"
  shows "bsearch_from (cmp x) xs l u \<noteq> None"
  using assms
proof (induction "cmp x" xs l u rule: bsearch_from.induct)
  case (1 xs l u)
  let ?m = "(l + u) div 2"
  have m: "l < u" "?m < length xs" using "1.prems" by auto
  then have okm: "ok (xs ! ?m)" using "1.prems"(3) by simp
  have mono: "key (xs ! a) \<le> key (xs ! b)" if "a \<le> b" "b < length xs" for a b
    using sorted_nth_mono [OF "1.prems"(1) that(1)] that by simp
  have "j < ?m" if "cmp x (xs ! ?m) < 0"
    using that cmp_less [OF "1.prems"(2) okm] mono [of ?m j] "1.prems" by (auto simp: not_le [symmetric])
  moreover have "?m < j" if "0 < cmp x (xs ! ?m)"
    using that cmp_le [OF "1.prems"(2) okm] mono [of j ?m] "1.prems" m by (auto simp: not_le [symmetric])
  ultimately show ?case
    using "1.prems" m "1.hyps"(1) [OF m(1) refl refl] "1.hyps"(2) [OF m(1) refl refl]
    by (subst bsearch_from.simps) (auto simp: Let_def)
qed

end

section \<open>The model of ftnnode.c\<close>

abbreviation NL_UNLISTED :: int where "NL_UNLISTED \<equiv> 0"
abbreviation NL_NODE :: int where "NL_NODE \<equiv> 1"
abbreviation NR_USE_OLD :: int where "NR_USE_OLD \<equiv> -1"
abbreviation ND_USE_OLD :: int where "ND_USE_OLD \<equiv> -1"
abbreviation MD_USE_OLD :: int where "MD_USE_OLD \<equiv> 0"
abbreviation RIP_USE_OLD :: int where "RIP_USE_OLD \<equiv> -1"
abbreviation HC_USE_OLD :: int where "HC_USE_OLD \<equiv> 0"
abbreviation NP_USE_OLD :: int where "NP_USE_OLD \<equiv> -1"
abbreviation NC_USE_OLD :: int where "NC_USE_OLD \<equiv> -1"
abbreviation AF_USE_OLD :: int where "AF_USE_OLD \<equiv> -1"
abbreviation RESOLVE_TTL :: int where "RESOLVE_TTL \<equiv> 3600"
abbreviation MAXPWDLEN :: nat where "MAXPWDLEN \<equiv> 40"

definition node_cmp :: "FTN_NODE \<Rightarrow> FTN_NODE \<Rightarrow> int" where
  "node_cmp a b = ftnaddress_cmp (n_fa a) (n_fa b)"

definition sort_nodes :: "BINKD_CONFIG \<Rightarrow> BINKD_CONFIG" where
  "sort_nodes cfg = cfg\<lparr>pNod := qsort node_cmp (pNod cfg), nNodSorted := True\<rparr>"

text \<open>The arguments of \<^verbatim>\<open>add_node\<close> after the address.\<close>

record node_args =
  a_hosts :: "string option"
  a_pwd :: "string option"
  a_pkt_pwd :: "string option"
  a_out_pwd :: "string option"
  a_obox_flvr :: char
  a_obox :: "string option"
  a_ibox :: "string option"
  a_NR_flag :: int
  a_ND_flag :: int
  a_MD_flag :: int
  a_restrictIP :: int
  a_HC_flag :: int
  a_NP_flag :: int
  a_NC_flag :: int
  a_pipe :: "string option"
  a_IP_afamily :: int

definition new_node :: "FTN_ADDR \<Rightarrow> FTN_NODE" where
  "new_node fa = \<lparr>n_listed = NL_UNLISTED, n_hosts = None, n_fa = fa, n_pwd = ''-'', n_pkt_pwd = None,
     n_out_pwd = None, n_obox_flvr = CHR ''f'', n_obox = None, n_ibox = None, n_pipe = None,
     n_NR_flag = 0, n_ND_flag = 0, n_MD_flag = MD_USE_OLD, n_HC_flag = HC_USE_OLD, n_restrictIP = 0,
     n_NP_flag = 0, n_NC_flag = 0, n_hold_until = 0, n_busy = NUL_char, n_mail_flvr = NUL_char,
     n_files_flvr = NUL_char, n_IP_afamily = 0, n_recheck = 0\<rparr>"

definition set_flags :: "node_args \<Rightarrow> int \<Rightarrow> FTN_NODE \<Rightarrow> FTN_NODE" where
  "set_flags a now pn = pn\<lparr>n_recheck := now + RESOLVE_TTL,
     n_MD_flag := (if a_MD_flag a \<noteq> MD_USE_OLD then a_MD_flag a else n_MD_flag pn),
     n_restrictIP := (if a_restrictIP a \<noteq> RIP_USE_OLD then a_restrictIP a else n_restrictIP pn),
     n_NR_flag := (if a_NR_flag a \<noteq> NR_USE_OLD then a_NR_flag a else n_NR_flag pn),
     n_ND_flag := (if a_ND_flag a \<noteq> ND_USE_OLD then a_ND_flag a else n_ND_flag pn),
     n_NP_flag := (if a_NP_flag a \<noteq> NP_USE_OLD then a_NP_flag a else n_NP_flag pn),
     n_NC_flag := (if a_NC_flag a \<noteq> NC_USE_OLD then a_NC_flag a else n_NC_flag pn),
     n_HC_flag := (if a_HC_flag a \<noteq> HC_USE_OLD then a_HC_flag a else n_HC_flag pn),
     n_IP_afamily := (if a_IP_afamily a \<noteq> AF_USE_OLD then a_IP_afamily a else n_IP_afamily pn),
     n_pipe := (if a_pipe a \<noteq> None then a_pipe a else n_pipe pn),
     n_hosts := (if a_hosts a \<noteq> None \<and> a_hosts a \<noteq> Some [] then a_hosts a else n_hosts pn)\<rparr>"

definition no_password :: "string option \<Rightarrow> bool" where
  "no_password p \<longleftrightarrow> p = None \<or> p = Some ''-''"

text \<open>
  A NULL packet or outgoing password stands for the session password (the source keeps a pointer
  to it, and it is not changed afterwards); \<open>-\<close> is no password.
\<close>

definition set_passwords :: "node_args \<Rightarrow> FTN_NODE \<Rightarrow> FTN_NODE" where
  "set_passwords a pn =
    (case a_pwd a of
       None \<Rightarrow> pn
     | Some pwd \<Rightarrow>
         if pwd \<noteq> ''-'' \<and> n_pwd pn = ''-'' \<and> no_password (n_pkt_pwd pn) \<and> no_password (n_out_pwd pn) then
           let p = strnzcpy pwd (MAXPWDLEN + 1);
               other = (\<lambda>q. case q of None \<Rightarrow> Some p | Some s \<Rightarrow> if s = ''-'' then None else Some s)
           in pn\<lparr>n_pwd := p, n_pkt_pwd := other (a_pkt_pwd a), n_out_pwd := other (a_out_pwd a)\<rparr>
         else pn)"

definition set_boxes :: "node_args \<Rightarrow> FTN_NODE \<Rightarrow> FTN_NODE" where
  "set_boxes a pn = pn\<lparr>n_obox_flvr := (if a_obox_flvr a \<noteq> CHR ''-'' then a_obox_flvr a else n_obox_flvr pn),
     n_obox := (if a_obox a \<noteq> None then a_obox a else n_obox pn),
     n_ibox := (if a_ibox a \<noteq> None then a_ibox a else n_ibox pn)\<rparr>"

definition edit_node :: "node_args \<Rightarrow> int \<Rightarrow> FTN_NODE \<Rightarrow> FTN_NODE" where
  "edit_node a now pn = set_boxes a (set_passwords a (set_flags a now pn))"

text \<open>The scan for an entry with this address; a new one goes to the end of the array.\<close>

fun find_index :: "('a \<Rightarrow> bool) \<Rightarrow> 'a list \<Rightarrow> nat option" where
  "find_index P [] = None"
| "find_index P (x # xs) = (if P x then Some 0 else map_option Suc (find_index P xs))"

definition add_node :: "FTN_ADDR \<Rightarrow> node_args \<Rightarrow> int \<Rightarrow> BINKD_CONFIG \<Rightarrow> BINKD_CONFIG" where
  "add_node fa a now cfg =
    (case find_index (\<lambda>pn. ftnaddress_cmp (n_fa pn) fa = 0) (pNod cfg) of
       Some cn \<Rightarrow> cfg\<lparr>pNod := (pNod cfg)[cn := edit_node a now (pNod cfg ! cn)]\<rparr>
     | None \<Rightarrow> cfg\<lparr>pNod := pNod cfg @ [edit_node a now (new_node fa)], nNodSorted := False\<rparr>)"

definition search_for_node :: "FTN_ADDR \<Rightarrow> BINKD_CONFIG \<Rightarrow> nat option" where
  "search_for_node fa cfg = bsearch (\<lambda>n. ftnaddress_cmp fa (n_fa n)) (pNod cfg)"

definition defnode_addr :: FTN_ADDR where
  "defnode_addr = \<lparr>fa_domain = ''defnode'', fa_z = 0, fa_net = 0, fa_node = 0, fa_p = 0\<rparr>"

definition copy_defnode :: "FTN_NODE \<Rightarrow> FTN_NODE \<Rightarrow> FTN_NODE" where
  "copy_defnode np on = on\<lparr>n_hosts := n_hosts np, n_NR_flag := n_NR_flag np, n_ND_flag := n_ND_flag np,
     n_MD_flag := n_MD_flag np, n_NP_flag := n_NP_flag np, n_NC_flag := n_NC_flag np,
     n_HC_flag := n_HC_flag np, n_restrictIP := n_restrictIP np, n_pipe := n_pipe np,
     n_IP_afamily := n_IP_afamily np\<rparr>"

definition defnode_args :: "FTN_NODE \<Rightarrow> node_args" where
  "defnode_args np = \<lparr>a_hosts = n_hosts np, a_pwd = None, a_pkt_pwd = None, a_out_pwd = None,
     a_obox_flvr = n_obox_flvr np, a_obox = n_obox np, a_ibox = n_ibox np, a_NR_flag = n_NR_flag np,
     a_ND_flag = n_ND_flag np, a_MD_flag = n_MD_flag np, a_restrictIP = n_restrictIP np,
     a_HC_flag = n_HC_flag np, a_NP_flag = n_NP_flag np, a_NC_flag = n_NC_flag np,
     a_pipe = n_pipe np, a_IP_afamily = n_IP_afamily np\<rparr>"

text \<open>
  \<^verbatim>\<open>get_defnode_info\<close>: the resolution of the host names it tries first only fills a local buffer
  that nothing reads, so it is left out.  Entries are named by their index in the array.
\<close>

definition get_defnode_info :: "FTN_ADDR \<Rightarrow> nat option \<Rightarrow> int \<Rightarrow> BINKD_CONFIG \<Rightarrow> nat option \<times> BINKD_CONFIG" where
  "get_defnode_info fa on now cfg = (case search_for_node defnode_addr cfg of
     None \<Rightarrow> (on, cfg)
   | Some d \<Rightarrow> let np = pNod cfg ! d in
       (case on of
          Some i \<Rightarrow> (Some i, cfg\<lparr>pNod := (pNod cfg)[i := copy_defnode np (pNod cfg ! i)]\<rparr>)
        | None \<Rightarrow> let cfg' = sort_nodes (add_node fa (defnode_args np) now cfg)
                  in (search_for_node fa cfg', cfg')))"

definition get_node_index :: "FTN_ADDR \<Rightarrow> int \<Rightarrow> BINKD_CONFIG \<Rightarrow> nat option \<times> BINKD_CONFIG" where
  "get_node_index fa now cfg0 =
    (let cfg = (if nNodSorted cfg0 then cfg0 else sort_nodes cfg0);
         np = search_for_node fa cfg
     in if (case np of None \<Rightarrow> True
              | Some i \<Rightarrow> n_listed (pNod cfg ! i) \<noteq> NL_NODE \<and> n_recheck (pNod cfg ! i) < now) \<and> havedefnode cfg
        then get_defnode_info fa np now cfg else (np, cfg))"

text \<open>The result is the entry itself; an entry that still has no hosts gets \<open>-\<close>.\<close>

definition get_node_info :: "FTN_ADDR \<Rightarrow> int \<Rightarrow> BINKD_CONFIG \<Rightarrow> FTN_NODE option \<times> BINKD_CONFIG" where
  "get_node_info fa now cfg0 = (case get_node_index fa now cfg0 of
     (None, cfg) \<Rightarrow> (None, cfg)
   | (Some i, cfg) \<Rightarrow>
       let n = pNod cfg ! i; n' = (if n_hosts n = None then n\<lparr>n_hosts := Some ''-''\<rparr> else n)
       in (Some n', cfg\<lparr>pNod := (pNod cfg)[i := n']\<rparr>))"

text \<open>
  \<^verbatim>\<open>foreach_node\<close> walks a copy of the array of pointers; an entry is found again by its address,
  and what \<open>func\<close> does to it is written back.
\<close>

definition set_node :: "FTN_NODE \<Rightarrow> BINKD_CONFIG \<Rightarrow> BINKD_CONFIG" where
  "set_node n cfg = cfg\<lparr>pNod := map (\<lambda>m. if n_fa m = n_fa n then n else m) (pNod cfg)\<rparr>"

fun foreach_loop :: "(FTN_NODE \<Rightarrow> 's \<Rightarrow> int \<times> FTN_NODE \<times> 's) \<Rightarrow> int \<Rightarrow> FTN_ADDR list \<Rightarrow> BINKD_CONFIG \<Rightarrow> 's \<Rightarrow>
    int \<times> BINKD_CONFIG \<times> 's" where
  "foreach_loop func now [] cfg s = (0, cfg, s)"
| "foreach_loop func now (fa # fas) cfg s =
    (case (case find (\<lambda>n. n_fa n = fa) (pNod cfg) of
             None \<Rightarrow> (None, cfg)
           | Some n \<Rightarrow> if n_hosts n = None then get_node_info fa now cfg else (Some n, cfg)) of
       (None, cfg1) \<Rightarrow> foreach_loop func now fas cfg1 s
     | (Some n, cfg1) \<Rightarrow>
         (case func n s of
            (rc, n', s') \<Rightarrow>
              if rc \<noteq> 0 then (rc, set_node n' cfg1, s')
              else foreach_loop func now fas (set_node n' cfg1) s'))"

definition foreach_node :: "(FTN_NODE \<Rightarrow> 's \<Rightarrow> int \<times> FTN_NODE \<times> 's) \<Rightarrow> int \<Rightarrow> BINKD_CONFIG \<Rightarrow> 's \<Rightarrow>
    int \<times> BINKD_CONFIG \<times> 's" where
  "foreach_node func now cfg0 s =
    (let cfg = (if nNodSorted cfg0 then cfg0 else sort_nodes cfg0)
     in foreach_loop func now (map n_fa (pNod cfg)) cfg s)"

section \<open>Addresses are ordered by their key\<close>

definition name_key :: "string \<Rightarrow> int list" where
  "name_key s = map (\<lambda>c. char_int (tolower c)) s @ [0]"

definition addr_key :: "FTN_ADDR \<Rightarrow> int list \<times> int \<times> int \<times> int \<times> int" where
  "addr_key a = (name_key (fa_domain a), fa_z a, fa_net a, fa_node a, fa_p a)"

definition addr_pos :: "FTN_ADDR \<Rightarrow> bool" where
  "addr_pos a \<longleftrightarrow> nul_free (fa_domain a) \<and> 0 \<le> fa_z a \<and> fa_z a < 2 ^ 31 \<and> 0 \<le> fa_net a \<and> fa_net a < 2 ^ 31 \<and>
     0 \<le> fa_node a \<and> fa_node a < 2 ^ 31 \<and> 0 \<le> fa_p a \<and> fa_p a < 2 ^ 31"

lemma o_stricmp_key:
  "nul_free s \<Longrightarrow> nul_free t \<Longrightarrow> (o_stricmp s t < 0 \<longleftrightarrow> name_key s < name_key t) \<and>
    (o_stricmp s t = 0 \<longleftrightarrow> name_key s = name_key t)"
  by (induction s t rule: o_stricmp.induct) (auto simp: name_key_def)

lemma to_int32_sub: "0 \<le> x \<Longrightarrow> x < 2 ^ 31 \<Longrightarrow> 0 \<le> y \<Longrightarrow> y < 2 ^ 31 \<Longrightarrow> to_int32 (x - y) = x - y"
  by (rule to_int32_id) auto

lemma ftnaddress_cmp_key:
  assumes "addr_pos a" "addr_pos b"
  shows "ftnaddress_cmp a b < 0 \<longleftrightarrow> addr_key a < addr_key b"
    and "ftnaddress_cmp a b = 0 \<longleftrightarrow> addr_key a = addr_key b"
proof -
  have k: "(o_stricmp (fa_domain a) (fa_domain b) < 0) = (name_key (fa_domain a) < name_key (fa_domain b))"
    "(o_stricmp (fa_domain a) (fa_domain b) = 0) = (name_key (fa_domain a) = name_key (fa_domain b))"
    using assms o_stricmp_key by (auto simp: addr_pos_def)
  show "ftnaddress_cmp a b < 0 \<longleftrightarrow> addr_key a < addr_key b"
    using assms by (auto simp: ftnaddress_cmp_def Let_def addr_key_def addr_pos_def to_int32_sub k)
  show "ftnaddress_cmp a b = 0 \<longleftrightarrow> addr_key a = addr_key b"
    using assms by (auto simp: ftnaddress_cmp_def Let_def addr_key_def addr_pos_def to_int32_sub k)
qed

abbreviation node_key :: "FTN_NODE \<Rightarrow> int list \<times> int \<times> int \<times> int \<times> int" where
  "node_key n \<equiv> addr_key (n_fa n)"

abbreviation node_pos :: "FTN_NODE \<Rightarrow> bool" where
  "node_pos n \<equiv> addr_pos (n_fa n)"

interpretation nodes: keyed_cmp node_cmp node_key node_pos
  by unfold_locales (simp_all add: node_cmp_def ftnaddress_cmp_key)

section \<open>The table as a map\<close>

text \<open>The abstract table: the entry of each address, addresses of equal key being the same.\<close>

definition node_map :: "BINKD_CONFIG \<Rightarrow> (int list \<times> int \<times> int \<times> int \<times> int) \<Rightarrow> FTN_NODE option" where
  "node_map cfg k = map_of (map (\<lambda>n. (node_key n, n)) (pNod cfg)) k"

definition nodes_ok :: "BINKD_CONFIG \<Rightarrow> bool" where
  "nodes_ok cfg \<longleftrightarrow> (\<forall>n\<in>set (pNod cfg). node_pos n) \<and> distinct (map node_key (pNod cfg)) \<and>
     (nNodSorted cfg \<longrightarrow> sorted (map node_key (pNod cfg)))"

lemma node_map_eq:
  "nodes_ok cfg \<Longrightarrow> node_map cfg k = Some n \<longleftrightarrow> n \<in> set (pNod cfg) \<and> node_key n = k"
  by (auto simp: node_map_def nodes_ok_def map_of_eq_Some_iff comp_def)

lemma mset_map_key: "mset xs = mset ys \<Longrightarrow> mset (map f xs) = mset (map f ys)"
  by simp

lemma sort_nodes_ok: "nodes_ok cfg \<Longrightarrow> nodes_ok (sort_nodes cfg)"
  using mset_eq_setD [OF nodes.mset_qsort [of "pNod cfg"]]
    mset_eq_imp_distinct_iff [OF mset_map_key [OF nodes.mset_qsort [of "pNod cfg"], of node_key]]
  by (auto simp: nodes_ok_def sort_nodes_def intro: nodes.sorted_qsort)

lemma sort_nodes_map: "nodes_ok cfg \<Longrightarrow> node_map (sort_nodes cfg) = node_map cfg"
proof
  fix k assume ok: "nodes_ok cfg"
  have "set (pNod (sort_nodes cfg)) = set (pNod cfg)"
    using mset_eq_setD [OF nodes.mset_qsort [of "pNod cfg"]] by (simp add: sort_nodes_def)
  then have "node_map (sort_nodes cfg) k = Some n \<longleftrightarrow> node_map cfg k = Some n" for n
    by (simp add: node_map_eq ok sort_nodes_ok)
  then show "node_map (sort_nodes cfg) k = node_map cfg k" by (metis option.exhaust)
qed

text \<open>Replacing one entry by another with the same address.\<close>

lemma nodes_ok_update:
  assumes "nodes_ok cfg" "i < length (pNod cfg)" "n_fa n = n_fa (pNod cfg ! i)"
  shows "nodes_ok (cfg\<lparr>pNod := (pNod cfg)[i := n]\<rparr>)"
    and "node_map (cfg\<lparr>pNod := (pNod cfg)[i := n]\<rparr>) = (node_map cfg)(node_key n \<mapsto> n)"
proof -
  have keys: "map node_key ((pNod cfg)[i := n]) = map node_key (pNod cfg)"
    using assms(2,3) by (simp add: map_update list_update_same_conv)
  have "node_pos n" using assms by (simp add: nodes_ok_def)
  then show ok: "nodes_ok (cfg\<lparr>pNod := (pNod cfg)[i := n]\<rparr>)"
    using assms(1) set_update_subset_insert [of "pNod cfg" i n] by (auto simp: nodes_ok_def keys)
  have d: "distinct (map node_key (pNod cfg))" using assms(1) by (simp add: nodes_ok_def)
  have other: "m \<in> set ((pNod cfg)[i := n]) \<longleftrightarrow> m \<in> set (pNod cfg)" if "node_key m \<noteq> node_key n" for m
    using that assms(2,3) by (auto simp: in_set_conv_nth nth_list_update split: if_splits)
  show "node_map (cfg\<lparr>pNod := (pNod cfg)[i := n]\<rparr>) = (node_map cfg)(node_key n \<mapsto> n)"
  proof
    fix k
    show "node_map (cfg\<lparr>pNod := (pNod cfg)[i := n]\<rparr>) k = ((node_map cfg)(node_key n \<mapsto> n)) k"
    proof (cases "k = node_key n")
      case True
      have "n \<in> set ((pNod cfg)[i := n])" using assms(2) by (simp add: set_update_memI)
      then show ?thesis using node_map_eq [OF ok] True by simp
    next
      case False
      then have "node_map (cfg\<lparr>pNod := (pNod cfg)[i := n]\<rparr>) k = Some m \<longleftrightarrow> node_map cfg k = Some m" for m
        using node_map_eq [OF ok] node_map_eq [OF assms(1)] other by auto
      with False show ?thesis by (metis fun_upd_other option.exhaust)
    qed
  qed
qed

lemma n_fa_set_flags [simp]: "n_fa (set_flags a now n) = n_fa n"
  by (simp add: set_flags_def)

lemma n_fa_set_passwords [simp]: "n_fa (set_passwords a n) = n_fa n"
  by (cases "a_pwd a") (simp_all add: set_passwords_def Let_def)

lemma n_fa_edit [simp]:
  "n_fa (edit_node a now n) = n_fa n" "n_fa (copy_defnode np n) = n_fa n" "n_fa (new_node fa) = fa"
  by (simp_all add: edit_node_def set_boxes_def copy_defnode_def new_node_def)

lemma find_index_Some: "find_index P xs = Some i \<Longrightarrow> i < length xs \<and> P (xs ! i)"
  by (induction xs arbitrary: i) (auto split: if_splits)

lemma find_index_None: "find_index P xs = None \<Longrightarrow> \<forall>x\<in>set xs. \<not> P x"
  by (induction xs) (auto split: if_splits)

definition upsert :: "FTN_ADDR \<Rightarrow> node_args \<Rightarrow> int \<Rightarrow> FTN_NODE option \<Rightarrow> FTN_NODE" where
  "upsert fa a now old = edit_node a now (case old of None \<Rightarrow> new_node fa | Some n \<Rightarrow> n)"

lemma add_node_correct:
  assumes "nodes_ok cfg" "addr_pos fa"
  shows "nodes_ok (add_node fa a now cfg) \<and>
    node_map (add_node fa a now cfg) = (node_map cfg)(addr_key fa \<mapsto> upsert fa a now (node_map cfg (addr_key fa)))"
proof (cases "find_index (\<lambda>pn. ftnaddress_cmp (n_fa pn) fa = 0) (pNod cfg)")
  case None
  have "node_key n \<noteq> addr_key fa" if "n \<in> set (pNod cfg)" for n
    using that find_index_None [OF None] ftnaddress_cmp_key(2) [of "n_fa n" fa] assms by (auto simp: nodes_ok_def)
  then have new: "addr_key fa \<notin> node_key ` set (pNod cfg)" by force
  then have m: "node_map cfg (addr_key fa) = None"
    by (auto simp: node_map_def map_of_eq_None_iff)
  have "nodes_ok (add_node fa a now cfg)"
    using None new assms by (auto simp: add_node_def nodes_ok_def)
  moreover have "node_map (add_node fa a now cfg) = (node_map cfg)(addr_key fa \<mapsto> upsert fa a now None)"
    using None new m
    by (auto simp: add_node_def node_map_def map_add_def upsert_def fun_eq_iff split: option.split)
  ultimately show ?thesis by (simp add: m)
next
  case (Some i)
  note f = find_index_Some [OF Some]
  then have k: "node_key (pNod cfg ! i) = addr_key fa"
    using ftnaddress_cmp_key(2) [of "n_fa (pNod cfg ! i)" fa] assms by (simp add: nodes_ok_def)
  then have m: "node_map cfg (addr_key fa) = Some (pNod cfg ! i)"
    using f node_map_eq [OF assms(1)] by simp
  show ?thesis
    using Some nodes_ok_update [OF assms(1), of i "edit_node a now (pNod cfg ! i)"] f k m
    by (simp add: add_node_def upsert_def)
qed

lemma search_correct:
  assumes "nodes_ok cfg" "nNodSorted cfg" "addr_pos fa"
  shows "case search_for_node fa cfg of
      None \<Rightarrow> node_map cfg (addr_key fa) = None
    | Some i \<Rightarrow> i < length (pNod cfg) \<and> node_map cfg (addr_key fa) = Some (pNod cfg ! i)"
proof -
  let ?x = "new_node fa"
  have c: "search_for_node fa cfg = bsearch_from (node_cmp ?x) (pNod cfg) 0 (length (pNod cfg))"
    by (simp add: search_for_node_def bsearch_def node_cmp_def [abs_def])
  have ok: "node_pos ?x" "\<forall>y\<in>set (pNod cfg). node_pos y" "sorted (map node_key (pNod cfg))"
    using assms by (simp_all add: nodes_ok_def)
  show ?thesis
  proof (cases "search_for_node fa cfg")
    case None
    have "node_key n \<noteq> addr_key fa" if "n \<in> set (pNod cfg)" for n
      using that None nodes.bsearch_from_complete [OF ok(3,1,2), of 0 _ "length (pNod cfg)"]
      by (auto simp: c in_set_conv_nth)
    then show ?thesis using None by (force simp: node_map_def map_of_eq_None_iff)
  next
    case (Some i)
    then show ?thesis
      using nodes.bsearch_from_sound [of ?x "pNod cfg" 0 "length (pNod cfg)" i] ok node_map_eq [OF assms(1)]
      by (simp add: c)
  qed
qed

text \<open>What a lookup is to return, over the abstract table.\<close>

definition resolved :: "((int list \<times> int \<times> int \<times> int \<times> int) \<Rightarrow> FTN_NODE option) \<Rightarrow> bool \<Rightarrow> FTN_ADDR \<Rightarrow> int \<Rightarrow> FTN_NODE option" where
  "resolved m havedef fa now =
    map_option (\<lambda>n. if n_hosts n = None then n\<lparr>n_hosts := Some ''-''\<rparr> else n)
      (case (m (addr_key fa), if havedef then m (addr_key defnode_addr) else None) of
         (Some n, Some np) \<Rightarrow> Some (if n_listed n \<noteq> NL_NODE \<and> n_recheck n < now then copy_defnode np n else n)
       | (None, Some np) \<Rightarrow> Some (upsert fa (defnode_args np) now None)
       | (r, None) \<Rightarrow> r)"

lemma addr_pos_defnode: "addr_pos defnode_addr"
  by (simp add: addr_pos_def defnode_addr_def nul_free_def)

lemma get_defnode_info_correct:
  assumes "nodes_ok cfg" "nNodSorted cfg" "addr_pos fa" "on = search_for_node fa cfg"
    and "get_defnode_info fa on now cfg = (r, cfg')"
  shows "nodes_ok cfg' \<and> (case node_map cfg (addr_key defnode_addr) of
      None \<Rightarrow> r = on \<and> cfg' = cfg
    | Some np \<Rightarrow> \<exists>i e. r = Some i \<and> i < length (pNod cfg') \<and> pNod cfg' ! i = e \<and>
        e = (case node_map cfg (addr_key fa) of Some n \<Rightarrow> copy_defnode np n | None \<Rightarrow> upsert fa (defnode_args np) now None) \<and>
        node_map cfg' = (node_map cfg)(addr_key fa \<mapsto> e))"
proof (cases "search_for_node defnode_addr cfg")
  case None
  then show ?thesis
    using search_correct [OF assms(1,2) addr_pos_defnode] assms by (auto simp: get_defnode_info_def)
next
  case (Some d)
  define np where "np = pNod cfg ! d"
  have d: "node_map cfg (addr_key defnode_addr) = Some np"
    using search_correct [OF assms(1,2) addr_pos_defnode] Some by (simp add: np_def)
  show ?thesis
  proof (cases on)
    case None
    define c1 where "c1 = add_node fa (defnode_args np) now cfg"
    have m: "node_map cfg (addr_key fa) = None" using search_correct [OF assms(1-3)] None assms(4) by simp
    have c1: "nodes_ok c1" "node_map c1 = (node_map cfg)(addr_key fa \<mapsto> upsert fa (defnode_args np) now None)"
      using add_node_correct [OF assms(1,3)] m by (simp_all add: c1_def)
    have r: "r = search_for_node fa (sort_nodes c1)" "cfg' = sort_nodes c1"
      using assms(5) Some None by (auto simp: get_defnode_info_def np_def c1_def Let_def)
    have s: "nodes_ok (sort_nodes c1)" "nNodSorted (sort_nodes c1)" "node_map (sort_nodes c1) = node_map c1"
      using c1 sort_nodes_ok sort_nodes_map by (simp_all add: sort_nodes_def)
    have "node_map (sort_nodes c1) (addr_key fa) = Some (upsert fa (defnode_args np) now None)"
      by (simp add: s(3) c1(2))
    then show ?thesis
      using search_correct [OF s(1,2) assms(3)] s c1 r d m by (auto split: option.splits)
  next
    case (Some i)
    have i: "i < length (pNod cfg)" "node_map cfg (addr_key fa) = Some (pNod cfg ! i)"
      using search_correct [OF assms(1-3)] Some assms(4) by simp_all
    then have k: "node_key (pNod cfg ! i) = addr_key fa" using node_map_eq [OF assms(1)] by blast
    have "r = Some i" "cfg' = cfg\<lparr>pNod := (pNod cfg)[i := copy_defnode np (pNod cfg ! i)]\<rparr>"
      using assms(5) Some \<open>search_for_node defnode_addr cfg = Some d\<close>
      by (simp_all add: get_defnode_info_def np_def Let_def)
    then show ?thesis
      using nodes_ok_update [OF assms(1) i(1), of "copy_defnode np (pNod cfg ! i)"] i k d by simp
  qed
qed

lemma get_node_index_correct:
  assumes "nodes_ok cfg" "addr_pos fa" "get_node_index fa now cfg = (r, cfg')"
  shows "nodes_ok cfg' \<and> (case r of
      None \<Rightarrow> resolved (node_map cfg) (havedefnode cfg) fa now = None \<and> node_map cfg' = node_map cfg
    | Some i \<Rightarrow> i < length (pNod cfg') \<and> node_key (pNod cfg' ! i) = addr_key fa \<and>
        resolved (node_map cfg) (havedefnode cfg) fa now =
          Some (let n = pNod cfg' ! i in if n_hosts n = None then n\<lparr>n_hosts := Some ''-''\<rparr> else n) \<and>
        node_map cfg' = (node_map cfg)(addr_key fa \<mapsto> pNod cfg' ! i))"
proof -
  define c where "c = (if nNodSorted cfg then cfg else sort_nodes cfg)"
  have c: "nodes_ok c" "nNodSorted c" "node_map c = node_map cfg" "havedefnode c = havedefnode cfg"
    using assms(1) sort_nodes_ok sort_nodes_map by (auto simp: c_def sort_nodes_def)
  define on where "on = search_for_node fa c"
  define redo where "redo = ((case on of None \<Rightarrow> True
     | Some i \<Rightarrow> n_listed (pNod c ! i) \<noteq> NL_NODE \<and> n_recheck (pNod c ! i) < now) \<and> havedefnode c)"
  have g: "(r, cfg') = (if redo then get_defnode_info fa on now c else (on, c))"
    using assms(3) by (simp only: get_node_index_def Let_def c_def [symmetric] on_def [symmetric] redo_def [symmetric])
  note sc = search_correct [OF c(1,2) assms(2), folded on_def, unfolded c(3)]
  have self: "(node_map cfg)(addr_key fa \<mapsto> n) = node_map cfg" if "node_map cfg (addr_key fa) = Some n" for n
    using that by (simp add: fun_upd_idem)
  have kn: "node_key n = addr_key fa" if "node_map cfg (addr_key fa) = Some n" for n
    using that node_map_eq [OF assms(1)] by simp
  show ?thesis
  proof (cases redo)
    case False
    then have "r = on" "cfg' = c" using g by simp_all
    then show ?thesis
      using False sc c self kn
      by (auto simp: redo_def resolved_def Let_def split: option.splits)
  next
    case True
    then have gd: "get_defnode_info fa on now c = (r, cfg')" and hd: "havedefnode cfg"
      using g c(4) by (simp_all add: redo_def)
    note dc = get_defnode_info_correct [OF c(1,2) assms(2) on_def gd, unfolded c(3)]
    show ?thesis
    proof (cases "node_map cfg (addr_key defnode_addr)")
      case None
      then show ?thesis using dc sc c hd self kn by (auto simp: resolved_def Let_def split: option.splits)
    next
      case (Some np)
      then obtain i e where e: "r = Some i" "i < length (pNod cfg')" "pNod cfg' ! i = e" "nodes_ok cfg'"
        "node_map cfg' = (node_map cfg)(addr_key fa \<mapsto> e)"
        "e = (case node_map cfg (addr_key fa) of Some n \<Rightarrow> copy_defnode np n | None \<Rightarrow> upsert fa (defnode_args np) now None)"
        using dc by auto
      then have "node_key e = addr_key fa" using kn by (auto simp: upsert_def split: option.splits)
      with e Some hd True sc show ?thesis
        by (auto simp: resolved_def redo_def Let_def split: option.splits)
    qed
  qed
qed

section \<open>Properties\<close>

definition sample_args :: "string option \<Rightarrow> node_args" where
  "sample_args p = \<lparr>a_hosts = Some ''host'', a_pwd = p, a_pkt_pwd = None, a_out_pwd = None,
     a_obox_flvr = CHR ''-'', a_obox = None, a_ibox = None, a_NR_flag = -1, a_ND_flag = -1,
     a_MD_flag = 0, a_restrictIP = -1, a_HC_flag = 0, a_NP_flag = -1, a_NC_flag = -1,
     a_pipe = None, a_IP_afamily = -1\<rparr>"

definition sample_node :: FTN_ADDR where
  "sample_node = \<lparr>fa_domain = ''fidonet'', fa_z = 2, fa_net = 5020, fa_node = 1, fa_p = 0\<rparr>"

lemma sample_ok: "nodes_ok sample_cfg" "addr_pos sample_node"
  by (simp_all add: nodes_ok_def sample_cfg_def addr_pos_def sample_node_def nul_free_def)

text \<open>
  C24: adding or editing a node is the update of the abstract table at its address and
  nothing else: one entry per address, settings given replace the old ones.
\<close>

theorem add_node_refines:
  assumes "nodes_ok cfg" "addr_pos fa"
  shows "nodes_ok (add_node fa a now cfg) \<and>
    node_map (add_node fa a now cfg) = (node_map cfg)(addr_key fa \<mapsto> upsert fa a now (node_map cfg (addr_key fa)))"
  using assms by (rule add_node_correct)

theorem add_node_refines_witness:
  "nodes_ok (add_node sample_node (sample_args None) 0 sample_cfg) \<and>
   node_map (add_node sample_node (sample_args None) 0 sample_cfg) (addr_key sample_node) \<noteq> None"
  using add_node_refines [OF sample_ok, of "sample_args None" 0] by simp

text \<open>
  C23: the lookup, through sorting, binary search and the \<^verbatim>\<open>defnode\<close> fallback, returns
  what the abstract table says and records exactly that entry.
\<close>

theorem get_node_info_refines:
  assumes "nodes_ok cfg" "addr_pos fa" "get_node_info fa now cfg = (r, cfg')"
  shows "nodes_ok cfg' \<and> r = resolved (node_map cfg) (havedefnode cfg) fa now \<and>
    node_map cfg' = (case r of None \<Rightarrow> node_map cfg | Some n \<Rightarrow> (node_map cfg)(addr_key fa \<mapsto> n))"
proof -
  obtain x c1 where g: "get_node_index fa now cfg = (x, c1)" by fastforce
  note gc = get_node_index_correct [OF assms(1,2) g]
  show ?thesis
  proof (cases x)
    case None
    then show ?thesis using assms(3) gc g by (simp add: get_node_info_def)
  next
    case (Some i)
    define n where "n = (let n = pNod c1 ! i in if n_hosts n = None then n\<lparr>n_hosts := Some ''-''\<rparr> else n)"
    have fa: "n_fa n = n_fa (pNod c1 ! i)" by (simp add: n_def Let_def)
    have r: "r = Some n" "cfg' = c1\<lparr>pNod := (pNod c1)[i := n]\<rparr>"
      using assms(3) g Some by (simp_all add: get_node_info_def n_def Let_def)
    show ?thesis using gc Some nodes_ok_update [of c1 i n] fa by (simp add: r n_def)
  qed
qed

theorem get_node_info_refines_witness:
  "map_option n_hosts (fst (get_node_info sample_node 5 (add_node sample_node (sample_args None) 0 sample_cfg))) =
     Some (Some ''host'')"
proof -
  let ?c = "add_node sample_node (sample_args None) 0 sample_cfg"
  have a: "nodes_ok ?c" "node_map ?c (addr_key sample_node) = Some (upsert sample_node (sample_args None) 0 None)"
    using add_node_correct [OF sample_ok, of "sample_args None" 0]
    by (simp_all add: node_map_def sample_cfg_def)
  have hd: "\<not> havedefnode ?c" by (simp add: add_node_def sample_cfg_def)
  have h: "n_hosts (upsert sample_node (sample_args None) 0 None) = Some ''host''"
    by (simp add: upsert_def edit_node_def set_boxes_def set_passwords_def set_flags_def sample_args_def)
  obtain r c' where g: "get_node_info sample_node 5 ?c = (r, c')" by fastforce
  from get_node_info_refines [OF a(1) sample_ok(2) g]
  show ?thesis by (simp add: g resolved_def a(2) hd h)
qed

text \<open>The first password of a list of \<^verbatim>\<open>node\<close> lines that is given and not \<open>-\<close>.\<close>

fun first_password :: "string option list \<Rightarrow> string" where
  "first_password [] = ''-''"
| "first_password (None # ps) = first_password ps"
| "first_password (Some p # ps) = (if p = ''-'' then first_password ps else take MAXPWDLEN p)"

definition edits :: "(node_args \<times> int) list \<Rightarrow> FTN_NODE \<Rightarrow> FTN_NODE" where
  "edits es n = foldl (\<lambda>n (a, now). edit_node a now n) n es"

lemma pwd_edit_kept: "n_pwd n \<noteq> ''-'' \<Longrightarrow> n_pwd (edit_node a now n) = n_pwd n"
  by (cases "a_pwd a") (simp_all add: edit_node_def set_boxes_def set_passwords_def set_flags_def)

lemma pwd_edits_kept: "n_pwd n \<noteq> ''-'' \<Longrightarrow> n_pwd (edits es n) = n_pwd n"
  unfolding edits_def by (induction es arbitrary: n) (auto simp: pwd_edit_kept)

definition unprotected :: "FTN_NODE \<Rightarrow> bool" where
  "unprotected n \<longleftrightarrow> n_pwd n = ''-'' \<and> no_password (n_pkt_pwd n) \<and> no_password (n_out_pwd n)"

lemma flags_passwords [simp]:
  "n_pwd (set_flags a now n) = n_pwd n" "n_pkt_pwd (set_flags a now n) = n_pkt_pwd n"
  "n_out_pwd (set_flags a now n) = n_out_pwd n" "n_pwd (set_boxes a n) = n_pwd n"
  "n_pkt_pwd (set_boxes a n) = n_pkt_pwd n" "n_out_pwd (set_boxes a n) = n_out_pwd n"
  by (simp_all add: set_flags_def set_boxes_def)

lemma edit_unprotected:
  assumes "unprotected n"
  shows "a_pwd a = None \<or> a_pwd a = Some ''-'' \<Longrightarrow> unprotected (edit_node a now n)"
    and "a_pwd a = Some p \<Longrightarrow> p \<noteq> ''-'' \<Longrightarrow> n_pwd (edit_node a now n) = take MAXPWDLEN p"
proof -
  show "unprotected (edit_node a now n)" if "a_pwd a = None \<or> a_pwd a = Some ''-''"
  proof -
    have "set_passwords a m = m" for m using that by (auto simp: set_passwords_def)
    then show ?thesis using assms by (simp add: unprotected_def edit_node_def)
  qed
  show "n_pwd (edit_node a now n) = take MAXPWDLEN p" if "a_pwd a = Some p" "p \<noteq> ''-''"
    using assms that by (simp add: unprotected_def edit_node_def set_passwords_def strnzcpy_def Let_def)
qed

lemma take_not_dash: "p \<noteq> ''-'' \<Longrightarrow> take MAXPWDLEN p \<noteq> ''-''"
  by (cases p; cases "tl p") (auto simp: numeral_eq_Suc)

lemma edits_first_password: "unprotected n \<Longrightarrow> n_pwd (edits es n) = first_password (map (\<lambda>(a, t). a_pwd a) es)"
proof (induction es arbitrary: n)
  case Nil
  then show ?case by (simp add: edits_def unprotected_def)
next
  case (Cons e es)
  obtain a now where e: "e = (a, now)" by fastforce
  have s: "edits ((a, now) # es) n = edits es (edit_node a now n)" by (simp add: edits_def)
  show ?case
  proof (cases "a_pwd a = None \<or> a_pwd a = Some ''-''")
    case True
    then show ?thesis using Cons.IH [OF edit_unprotected(1) [OF Cons.prems]] by (auto simp: s e)
  next
    case False
    then obtain p where p: "a_pwd a = Some p" "p \<noteq> ''-''" by (cases "a_pwd a") auto
    then show ?thesis
      using edit_unprotected(2) [OF Cons.prems] take_not_dash pwd_edits_kept by (simp add: s e)
  qed
qed

lemma add_nodes:
  "nodes_ok cfg \<Longrightarrow> addr_pos fa \<Longrightarrow> node_map cfg (addr_key fa) = Some n \<Longrightarrow>
    node_map (foldl (\<lambda>c (a, now). add_node fa a now c) cfg es) (addr_key fa) = Some (edits es n)"
proof (induction es arbitrary: cfg n)
  case (Cons e es)
  then show ?case
    using add_node_correct [of cfg fa "fst e" "snd e"] by (cases e) (simp add: edits_def upsert_def)
qed (simp add: edits_def)

text \<open>
  however many times a node is configured, its session password is the first one
  given, cut to the size of the field; later lines cannot change it.
\<close>

theorem first_password_wins:
  assumes "nodes_ok cfg" "addr_pos fa" "node_map cfg (addr_key fa) = None" "es \<noteq> []"
  shows "map_option n_pwd (node_map (foldl (\<lambda>c (a, now). add_node fa a now c) cfg es) (addr_key fa)) =
    Some (first_password (map (\<lambda>(a, t). a_pwd a) es))"
proof -
  obtain a now es' where es: "es = (a, now) # es'" using assms(4) by (cases es) auto
  note c = add_node_correct [OF assms(1,2), of a now]
  have "unprotected (new_node fa)" by (simp add: unprotected_def new_node_def no_password_def)
  then have "n_pwd (edits es (new_node fa)) = first_password (map (\<lambda>(a, t). a_pwd a) es)"
    by (rule edits_first_password)
  moreover have "edits es (new_node fa) = edits es' (edit_node a now (new_node fa))"
    by (simp add: edits_def es)
  moreover have "node_map (foldl (\<lambda>c (a, now). add_node fa a now c) cfg es) (addr_key fa) =
      Some (edits es' (edit_node a now (new_node fa)))"
    using add_nodes [of "add_node fa a now cfg" fa "edit_node a now (new_node fa)" es'] c assms(2,3)
    by (simp add: es upsert_def)
  ultimately show ?thesis by simp
qed

theorem first_password_wins_witness:
  "map_option n_pwd (node_map (foldl (\<lambda>c (a, now). add_node sample_node a now c) sample_cfg
     [(sample_args None, 0), (sample_args (Some ''secret''), 0), (sample_args (Some ''guess''), 0)])
     (addr_key sample_node)) = Some ''secret''"
proof -
  have "node_map sample_cfg (addr_key sample_node) = None" by (simp add: node_map_def sample_cfg_def)
  then show ?thesis by (subst first_password_wins [OF sample_ok]) (simp_all add: sample_args_def)
qed

end
