(* ===== verification/Ftnq.thy ===== *)
theory Ftnq
  imports Ftnnode Pmatch "HOL-Library.Signed_Division"
begin

text \<open>
  The outbound queue (\<^verbatim>\<open>ftnq.c\<close>): scanning outbound directories and file boxes, the queue of one
  session, the choice of the next node to call, polls, holds and the counters of failed calls.
  The operating system and the configuration (whose node table is updated) are passed along.
\<close>

type_synonym st = "world \<times> BINKD_CONFIG"

definition get_node :: "FTN_ADDR \<Rightarrow> st \<Rightarrow> FTN_NODE option \<times> st" where
  "get_node fa st = (case get_node_info fa (w_time (fst st)) (snd st) of (n, cfg) \<Rightarrow> (n, fst st, cfg))"

definition put_node :: "FTN_NODE \<Rightarrow> st \<Rightarrow> st" where
  "put_node n st = (fst st, set_node n (snd st))"

section \<open>Flavours\<close>

definition prio :: string where
  "prio = ''IiCcDdOoFfHh''"

definition flo_flvrs :: string where
  "flo_flvrs = ''icdfhICDFH''"

definition out_flvrs :: string where
  "out_flvrs = ''icdohICDOH''"

text \<open>
  The position of \<^verbatim>\<open>strchr(prio, c)\<close>: the terminating NUL of \<^verbatim>\<open>prio\<close> for \<open>c = 0\<close>, and the NULL
  pointer, below all positions, for a letter that is no flavour.
\<close>

definition flvr_rank :: "char \<Rightarrow> int" where
  "flvr_rank c = (if c = NUL_char then 12
     else case find_index (\<lambda>d. d = c) prio of Some i \<Rightarrow> int i | None \<Rightarrow> -1)"

definition MAXFLVR :: "char \<Rightarrow> char \<Rightarrow> char" where
  "MAXFLVR a b = (if flvr_rank a < flvr_rank b then a else b)"

section \<open>The queue\<close>

datatype queue = SCAN_LISTED | Q "FTNQ list"

definition FQ_ZERO :: FTNQ where
  "FQ_ZERO = \<lparr>q_fa = FA_ZERO, q_flvr = NUL_char, q_action = NUL_char, q_type = NUL_char, q_path = [],
     q_size = 0, q_time = 0, q_sent = False\<rparr>"

text \<open>The members of the share groups an address heads.\<close>

definition share_targets :: "BINKD_CONFIG \<Rightarrow> FTN_ADDR \<Rightarrow> FTN_ADDR list" where
  "share_targets cfg fa = concat (map sfa (filter (\<lambda>c. ftnaddress_cmp fa (sha c) = 0) (shares cfg)))"

text \<open>The first line of a status file, split into name, size and time.\<close>

definition read_status :: "string \<Rightarrow> world \<Rightarrow> string list option" where
  "read_status filename w =
    (case fopen_r filename w of
       None \<Rightarrow> None
     | Some d \<Rightarrow> (case fgets (MAXPATHLEN + 1) d of
         None \<Rightarrow> None
       | Some (l, r) \<Rightarrow>
           let str = takeWhile (\<lambda>c. c \<noteq> NUL_char) l
           in if str \<noteq> [] \<and> isspace (hd str) then None
              else map_option fst (parse_args 3 (rev (dropWhile isspace (rev str))))))"

definition mark_node :: "FTN_ADDR \<Rightarrow> char \<Rightarrow> char \<Rightarrow> st \<Rightarrow> st" where
  "mark_node fa flvr type st = (case get_node fa st of
     (None, st') \<Rightarrow> st'
   | (Some n, st') \<Rightarrow> put_node
       (if type = CHR ''m'' then n\<lparr>n_mail_flvr := MAXFLVR flvr (n_mail_flvr n)\<rparr>
        else n\<lparr>n_files_flvr := MAXFLVR flvr (n_files_flvr n)\<rparr>) st')"

text \<open>
  Outside a \<^verbatim>\<open>SCAN_LISTED\<close> run the recursive calls for the members of a share group build entries
  that are dropped; in it they mark the members' nodes.  The first argument bounds the depth of
  share groups within share groups (the source recurses without end on a cyclic definition).
\<close>

fun mark_shares :: "nat \<Rightarrow> FTN_ADDR \<Rightarrow> char \<Rightarrow> char \<Rightarrow> st \<Rightarrow> st" where
  "mark_shares 0 fa flvr type st = st"
| "mark_shares (Suc d) fa flvr type st =
     mark_node fa flvr type (fold (\<lambda>t. mark_shares d t flvr type) (share_targets (snd st) fa) st)"

abbreviation SHARE_DEPTH :: nat where "SHARE_DEPTH \<equiv> 8"

definition new_entry :: "string \<Rightarrow> FTN_ADDR \<Rightarrow> char \<Rightarrow> char \<Rightarrow> char \<Rightarrow> world \<Rightarrow> FTNQ option" where
  "new_entry filename fa flvr action type w =
    (let e = FQ_ZERO\<lparr>q_fa := fa, q_flvr := flvr, q_action := action, q_type := type\<rparr>
     in if type = CHR ''s'' then
          (case read_status filename w of
             None \<Rightarrow> None
           | Some argv \<Rightarrow> Some (e\<lparr>q_size := to_int64 (int (strtoumax (argv ! 1))), q_time := safe_atol (argv ! 2),
               q_path := strnzcpy (argv ! 0) MAXPATHLEN\<rparr>))
        else Some (e\<lparr>q_path := strnzcpy filename MAXPATHLEN\<rparr>))"

definition q_add_file :: "queue \<Rightarrow> string \<Rightarrow> FTN_ADDR \<Rightarrow> char \<Rightarrow> char \<Rightarrow> char \<Rightarrow> st \<Rightarrow> queue \<times> st" where
  "q_add_file q filename fa flvr action type st = (case q of
     SCAN_LISTED \<Rightarrow> (SCAN_LISTED, mark_shares SHARE_DEPTH fa flvr type st)
   | Q es \<Rightarrow> (case new_entry filename fa flvr action type (fst st) of
       None \<Rightarrow> (Q es, st) | Some e \<Rightarrow> (Q (e # es), st)))"

definition q_add_last_file :: "FTNQ list \<Rightarrow> string \<Rightarrow> FTN_ADDR \<Rightarrow> char \<Rightarrow> char \<Rightarrow> char \<Rightarrow> world \<Rightarrow> FTNQ list" where
  "q_add_last_file es filename fa flvr action type w =
    (case new_entry filename fa flvr action type w of None \<Rightarrow> es | Some e \<Rightarrow> es @ [e])"

section \<open>File boxes\<close>

definition weight_by_name :: "string \<Rightarrow> int" where
  "weight_by_name s = (if ispkt s then 100 else if isarcmail s then 50 else if istic s then -100 else 0)"

definition cmp_filebox_files :: "FTNQ \<Rightarrow> FTNQ \<Rightarrow> int" where
  "cmp_filebox_files a b = (let w_a = weight_by_name (q_path a); w_b = weight_by_name (q_path b) in
     if w_a - w_b = 0 then to_int32 (q_time a - q_time b) else w_b - w_a)"

definition to32 :: "int \<Rightarrow> char" where
  "to32 N = (if 0 \<le> N \<and> N \<le> 9 then char_of (48 + nat N)
     else if 9 < N \<and> N < 32 then char_of (65 + nat N - 10) else CHR ''Z'')"

definition brakeExt :: "(string \<times> char) list" where
  "brakeExt = [(''immediate'', CHR ''i''), (''crash'', CHR ''c''), (''direct'', CHR ''d''), (''normal'', CHR ''f''),
     (''hold'', CHR ''h''), (''Immediate'', CHR ''i''), (''Crash'', CHR ''c''), (''Direct'', CHR ''d''),
     (''Normal'', CHR ''f''), (''Hold'', CHR ''h'')]"

abbreviation BUF :: nat where "BUF \<equiv> MAXPATHLEN + 1"

text \<open>One name of the directory; the count of files is kept beside the queue.\<close>

definition box_entry :: "FTN_ADDR \<Rightarrow> string \<Rightarrow> char \<Rightarrow> string \<Rightarrow> (queue \<times> nat) \<times> st \<Rightarrow> (queue \<times> nat) \<times> st" where
  "box_entry fa dir flvr name qs = (case qs of ((q, n), st) \<Rightarrow>
     let buf = strnzcat dir name BUF in
     if \<not> (name \<noteq> [] \<and> hd name = CHR ''.'') \<and> is_file (fst st) buf then
       (case q_add_file q buf fa flvr CHR ''d'' NUL_char st of (q', st') \<Rightarrow> ((q', Suc n), st'))
     else ((q, n), st))"

definition q_scan_box :: "FTN_ADDR \<Rightarrow> string \<Rightarrow> char \<Rightarrow> bool \<Rightarrow> queue \<times> st \<Rightarrow> queue \<times> st" where
  "q_scan_box fa boxpath flvr deleteempty qst = (case qst of (q, st) \<Rightarrow>
     if \<not> access (fst st) boxpath \<or> denied (fst st) boxpath then (q, st)
     else if stat (fst st) boxpath \<noteq> Some Dir then (q, st)
     else
       let dir = strnzcat (strnzcpy boxpath BUF) ''/'' BUF in
       (case fold (box_entry fa dir flvr) (readdir_names (fst st) boxpath) ((q, 0), st) of
          ((q', n), (w, cfg)) \<Rightarrow>
            if n = 0 \<and> deleteempty then (q', snd (rmdir boxpath w), cfg) else (q', w, cfg)))"

definition dec_u32 :: "int \<Rightarrow> string" where
  "dec_u32 i = dec_of_nat (nat (i mod 2 ^ 32))"

text \<open>The box named with a trailing \<open>H\<close> on disk, or with \<open>h\<close> when there is no such directory.\<close>

definition hold_box :: "string \<Rightarrow> world \<Rightarrow> string" where
  "hold_box buf w = (if stat w buf = Some Dir then buf else butlast buf @ ''h'')"

definition bfilebox_scan :: "FTN_ADDR \<Rightarrow> queue \<times> st \<Rightarrow> queue \<times> st" where
  "bfilebox_scan fa qst = (let cfg = snd (snd qst);
      dir = strnzcat (strnzcpy (bfilebox cfg) BUF) ''/'' BUF;
      buf = take MAXPATHLEN (dir @ fa_domain fa @ ''.'' @ dec_u32 (fa_z fa) @ ''.'' @ dec_u32 (fa_net fa) @ ''.'' @
              dec_u32 (fa_node fa) @ ''.'' @ dec_u32 (fa_p fa) @ ''.'')
    in fold (\<lambda>(ext, flv). q_scan_box fa (strnzcat buf ext BUF) flv (deleteablebox cfg)) brakeExt qst)"

definition tfilebox_scan :: "FTN_ADDR \<Rightarrow> queue \<times> st \<Rightarrow> queue \<times> st" where
  "tfilebox_scan fa qst0 = (let cfg = snd (snd qst0); del = deleteablebox cfg;
      dir = strnzcat (strnzcpy (tfilebox cfg) BUF) ''/'' BUF;
      b1 = take MAXPATHLEN (dir @ dec_u32 (fa_z fa) @ ''.'' @ dec_u32 (fa_net fa) @ ''.'' @
             dec_u32 (fa_node fa) @ ''.'' @ dec_u32 (fa_p fa));
      qst1 = q_scan_box fa b1 CHR ''f'' del qst0;
      b2 = hold_box (strnzcat b1 ''.H'' BUF) (fst (snd qst1));
      qst2 = q_scan_box fa b2 CHR ''h'' del qst1;
      b3 = take MAXPATHLEN (dir @ [to32 (fa_z fa sdiv 32), to32 (fa_z fa smod 32),
             to32 (fa_net fa sdiv 1024), to32 ((fa_net fa sdiv 32) smod 32), to32 (fa_net fa smod 32),
             to32 (fa_node fa sdiv 1024), to32 ((fa_node fa sdiv 32) smod 32), to32 (fa_node fa smod 32),
             CHR ''.'', to32 (fa_p fa sdiv 32), to32 (fa_p fa smod 32)]);
      qst3 = q_scan_box fa b3 CHR ''f'' del qst2;
      b4 = hold_box (strnzcat b3 ''H'' BUF) (fst (snd qst3))
    in q_scan_box fa b4 CHR ''h'' del qst3)"

text \<open>\<open>to\<close> is whether we called (any mail may go) or were called.\<close>

definition withheld :: "bool \<Rightarrow> FTN_NODE option \<Rightarrow> BINKD_CONFIG \<Rightarrow> bool" where
  "withheld to node cfg \<longleftrightarrow> \<not> to \<and> send_if_pwd cfg \<and> (case node of None \<Rightarrow> True | Some n \<Rightarrow> n_pwd n = ''-'')"

definition scan_boxes_addr :: "bool \<Rightarrow> FTN_ADDR \<Rightarrow> queue \<times> st \<Rightarrow> queue \<times> st" where
  "scan_boxes_addr to fa qst = (case qst of (q, st) \<Rightarrow> (case get_node fa st of (node, st') \<Rightarrow>
     if withheld to node (snd st') then (q, st')
     else
       let r1 = (case node of
                   Some n \<Rightarrow> (case n_obox n of Some b \<Rightarrow> q_scan_box fa b (n_obox_flvr n) False (q, st') | None \<Rightarrow> (q, st'))
                 | None \<Rightarrow> (q, st'));
           r2 = (if bfilebox (snd st') \<noteq> [] then bfilebox_scan fa r1 else r1)
       in if tfilebox (snd st') \<noteq> [] then tfilebox_scan fa r2 else r2))"

definition q_scan_boxes :: "FTN_ADDR list \<Rightarrow> bool \<Rightarrow> queue \<times> st \<Rightarrow> queue \<times> st" where
  "q_scan_boxes fas to qst = fold (scan_boxes_addr to) fas qst"

section \<open>Outbound directories\<close>

text \<open>\<^verbatim>\<open>fscanf\<close> with \<open>%ld\<close>, saturating.\<close>

definition scan_long :: "string \<Rightarrow> int option" where
  "scan_long s =
    (let t = dropWhile isspace s;
         neg = (t \<noteq> [] \<and> hd t = CHR ''-'');
         u = (if t \<noteq> [] \<and> (hd t = CHR ''-'' \<or> hd t = CHR ''+'') then tl t else t);
         d = takeWhile isdigit u;
         v = (if neg then - int (dec_value d) else int (dec_value d))
     in if d = [] then None else Some (max (- (2 ^ 63)) (min (2 ^ 63 - 1) v)))"

definition process_hld :: "FTN_ADDR \<Rightarrow> string \<Rightarrow> st \<Rightarrow> st" where
  "process_hld fa path st = (case get_node fa st of
     (None, st') \<Rightarrow> st'
   | (Some n, st') \<Rightarrow>
       let w = fst st';
           h = (case fopen_r path w of None \<Rightarrow> 0
                | Some d \<Rightarrow> (case scan_long d of None \<Rightarrow> 0 | Some v \<Rightarrow> v))
       in if h \<le> w_time w then (snd (delete path w), set_node (n\<lparr>n_hold_until := 0\<rparr>) (snd st'))
          else (w, set_node (n\<lparr>n_hold_until := h\<rparr>) (snd st')))"

definition process_bsy :: "FTN_ADDR \<Rightarrow> string \<Rightarrow> st \<Rightarrow> st" where
  "process_bsy fa path st =
    (let s = drop (length path - 4) path; w = fst st;
         old = (case stat w path of
                  Some (File d t) \<Rightarrow> kill_old_bsy (snd st) \<noteq> 0 \<and> w_time w - t > kill_old_bsy (snd st)
                | _ \<Rightarrow> False)
     in if old then (snd (delete path w), snd st)
        else (case get_node fa st of
                (None, st') \<Rightarrow> st'
              | (Some n, st') \<Rightarrow>
                  if n_busy n \<noteq> CHR ''b'' \<and> (o_stricmp s ''.bsy'' = 0 \<or> o_stricmp s ''.csy'' = 0)
                  then put_node (n\<lparr>n_busy := tolower (s ! 1)\<rparr>) st' else st'))"

text \<open>Names of the form \<open>xxxxxxxx.ext\<close> with eight hexadecimal digits.\<close>

definition bso_name :: "string \<Rightarrow> bool" where
  "bso_name s \<longleftrightarrow> length s = 12 \<and> (\<forall>c\<in>set (take 8 s). isxdigit c) \<and> s ! 8 = CHR ''.'' \<and> CHR ''.'' \<notin> set (drop 9 s)"

definition name_addr :: "FTN_ADDR \<Rightarrow> string \<Rightarrow> FTN_ADDR" where
  "name_addr fa1 s =
    (if fa_node fa1 \<noteq> -1 \<and> fa_p fa1 \<noteq> 0 then fa1\<lparr>fa_p := to_int32 (int (hex_value (take 8 s)))\<rparr>
     else fa1\<lparr>fa_net := int (hex_value (take 4 s)), fa_node := int (hex_value (take 4 (drop 4 s)))\<rparr>)"

text \<open>What the extension stands for.\<close>

datatype out_kind = OUT_MAIL | OUT_REQ | OUT_HLD | OUT_FLO | OUT_STC | OUT_NONE

definition out_kind :: "string \<Rightarrow> out_kind" where
  "out_kind ext =
    (if ext ! 0 \<in> set out_flvrs \<and> tolower (ext ! 1) = CHR ''u'' \<and> tolower (ext ! 2) = CHR ''t'' then OUT_MAIL
     else if o_stricmp ext ''req'' = 0 then OUT_REQ
     else if o_stricmp ext ''hld'' = 0 then OUT_HLD
     else if ext ! 0 \<in> set flo_flvrs \<and> tolower (ext ! 1) = CHR ''l'' \<and> tolower (ext ! 2) = CHR ''o'' then OUT_FLO
     else if o_stricmp ext ''stc'' = 0 then OUT_STC
     else OUT_NONE)"

definition add_out_file :: "string \<Rightarrow> string \<Rightarrow> FTN_ADDR \<Rightarrow> queue \<times> st \<Rightarrow> queue \<times> st" where
  "add_out_file buf ext fa2 qst = (case out_kind ext of
     OUT_MAIL \<Rightarrow> q_add_file (fst qst) buf fa2 (ext ! 0) CHR ''d'' CHR ''m'' (snd qst)
   | OUT_REQ \<Rightarrow> q_add_file (fst qst) buf fa2 CHR ''h'' CHR ''s'' CHR ''r'' (snd qst)
   | OUT_HLD \<Rightarrow> (fst qst, process_hld fa2 buf (snd qst))
   | OUT_FLO \<Rightarrow> q_add_file (fst qst) buf fa2 (ext ! 0) CHR ''d'' CHR ''l'' (snd qst)
   | OUT_STC \<Rightarrow> q_add_file (fst qst) buf fa2 CHR ''h'' NUL_char CHR ''s'' (snd qst)
   | OUT_NONE \<Rightarrow> qst)"

text \<open>
  One name of an outbound directory.  \<open>sub\<close> scans a point directory below (the recursive call).
\<close>

definition dir_entry :: "(string \<Rightarrow> FTN_ADDR \<Rightarrow> queue \<times> st \<Rightarrow> queue \<times> st) \<Rightarrow> string \<Rightarrow> FTN_ADDR \<Rightarrow> string \<Rightarrow> queue \<times> st \<Rightarrow> queue \<times> st" where
  "dir_entry sub dir fa1 s qst =
    (if \<not> bso_name s then qst
     else
       let fa2 = name_addr fa1 s;
           buf = strnzcat (strnzcat (strnzcpy dir BUF) ''/'' BUF) s BUF;
           ext = drop 9 s
       in if fa_node fa1 \<noteq> -1 \<and> fa_p fa1 \<noteq> -1 \<and> ftnaddress_cmp fa1 fa2 \<noteq> 0 then qst
          else if o_stricmp ext ''pnt'' = 0 \<and> fa_p fa2 = -1 then
            (if stat (fst (snd qst)) buf = Some Dir then sub buf fa2 qst else qst)
          else
            let fa3 = (if fa_p fa2 = -1 then fa2\<lparr>fa_p := 0\<rparr> else fa2);
                st1 = (if o_stricmp ext ''bsy'' = 0 \<or> o_stricmp ext ''csy'' = 0
                       then process_bsy fa3 buf (snd qst) else snd qst)
            in if havedefnode (snd st1) then add_out_file buf ext fa3 (fst qst, st1)
               else (case get_node fa3 st1 of (node, st2) \<Rightarrow>
                       if node = None \<and> \<not> is5D fa1 then (fst qst, st2)
                       else add_out_file buf ext fa3 (fst qst, st2)))"

text \<open>
  \<^verbatim>\<open>q_add_dir\<close>; the first argument bounds the nesting of point directories.  A path holds at most
  \<^verbatim>\<open>MAXPATHLEN\<close> characters and each level adds thirteen, so \<open>PNT_DEPTH\<close> levels always suffice.
\<close>

fun q_add_dir :: "nat \<Rightarrow> string \<Rightarrow> FTN_ADDR \<Rightarrow> queue \<times> st \<Rightarrow> queue \<times> st" where
  "q_add_dir 0 dir fa1 qst = qst"
| "q_add_dir (Suc d) dir fa1 qst =
    (if stat (fst (snd qst)) dir = Some Dir
     then fold (dir_entry (q_add_dir d) dir fa1) (readdir_names (fst (snd qst)) dir) qst
     else qst)"

abbreviation PNT_DEPTH :: nat where "PNT_DEPTH \<equiv> 400"

definition scan_addr :: "bool \<Rightarrow> FTN_ADDR \<Rightarrow> queue \<times> st \<Rightarrow> queue \<times> st" where
  "scan_addr to fa qst = (case qst of (q, st) \<Rightarrow>
     (case (if \<not> to \<and> send_if_pwd (snd st)
            then (case get_node fa st of (n, st') \<Rightarrow> (withheld to n (snd st'), st')) else (False, st)) of
        (skip, st1) \<Rightarrow>
          if skip then (q, st1)
          else (case last_slash (ftnaddress_to_filename fa (pDomains (snd st1))) of
                  None \<Rightarrow> (q, st1)
                | Some i \<Rightarrow> q_add_dir PNT_DEPTH (take i (ftnaddress_to_filename fa (pDomains (snd st1)))) fa (q, st1))))"

definition q_scan_addrs :: "FTN_ADDR list \<Rightarrow> bool \<Rightarrow> queue \<times> st \<Rightarrow> queue \<times> st" where
  "q_scan_addrs fas to qst = q_scan_boxes fas to (fold (scan_addr to) fas qst)"

text \<open>A directory of the domain: its name, optionally followed by the zone in hexadecimal.\<close>

definition strtol16 :: "string \<Rightarrow> int" where
  "strtol16 s = (let t = (if length s > 2 \<and> s ! 0 = CHR ''0'' \<and> toupper (s ! 1) = CHR ''X'' \<and> isxdigit (s ! 2)
                          then drop 2 s else s)
     in min (2 ^ 63 - 1) (int (hex_value (takeWhile isxdigit t))))"

definition zone_dir :: "FTN_DOMAIN \<Rightarrow> string \<Rightarrow> FTN_ADDR option" where
  "zone_dir d name =
    (let len = length (dom_dir d); rest = drop len name;
         z = (if rest = [] then dom_z d else to_int32 (strtol16 (tl rest)))
     in if o_strnicmp name (dom_dir d) len = 0 \<and>
           (rest = [] \<or> (hd rest = CHR ''.'' \<and> tl rest \<noteq> [] \<and> isxdigit (hd (tl rest)))) \<and> (rest = [] \<or> z \<noteq> dom_z d)
        then Some (FA_ZERO\<lparr>fa_z := z, fa_domain := dom_name d\<rparr>) else None)"

definition scan_domain :: "FTN_DOMAIN \<Rightarrow> queue \<times> st \<Rightarrow> queue \<times> st" where
  "scan_domain d qst =
    (if alias4 d \<noteq> None then qst
     else
       let outb = (let p = strnzcpy (dom_path d) MAXPATHLEN in if p \<noteq> [] \<and> last p = CHR '':'' then p @ ''/'' else p);
           base = strnzcat (strnzcpy (dom_path d) BUF) ''/'' BUF
       in if stat (fst (snd qst)) outb \<noteq> Some Dir then qst
          else fold (\<lambda>name q. case zone_dir d name of
                       None \<Rightarrow> q | Some fa \<Rightarrow> q_add_dir PNT_DEPTH (strnzcat base name BUF) fa q)
                 (readdir_names (fst (snd qst)) outb) qst)"

text \<open>The boxes of every listed node follow; \<^verbatim>\<open>foreach_node\<close> walks the addresses known then.\<close>

definition q_scan :: "queue \<times> st \<Rightarrow> queue \<times> st" where
  "q_scan qst0 = (let qst = fold scan_domain (pDomains (snd (snd qst0))) qst0;
      cfg0 = snd (snd qst); cfg = (if nNodSorted cfg0 then cfg0 else sort_nodes cfg0)
    in fold (\<lambda>fa. q_scan_boxes [fa] True) (map n_fa (pNod cfg)) (fst qst, fst (snd qst), cfg))"

section \<open>The queue of a session\<close>

text \<open>\<open>scan_order\<close>: the first of the keys equal to one side decides.\<close>

fun scan_order :: "('k \<Rightarrow> bool) \<Rightarrow> ('k \<Rightarrow> bool) \<Rightarrow> 'k list \<Rightarrow> int option" where
  "scan_order isa isb [] = None"
| "scan_order isa isb (k # ks) = (if isa k then Some (-1) else if isb k then Some 1 else scan_order isa isb ks)"

definition typeorder :: string where
  "typeorder = ''srmld''"

definition cmp_aka :: "FTNQ \<Rightarrow> FTNQ \<Rightarrow> FTN_ADDR list \<Rightarrow> int option" where
  "cmp_aka a b fas =
    (if ftnaddress_cmp (q_fa a) (q_fa b) = 0 then
       (if FA_ISNULL (q_fa a) then Some (-1) else if FA_ISNULL (q_fa b) then Some 1
        else scan_order (\<lambda>f. ftnaddress_cmp (q_fa a) f = 0) (\<lambda>f. ftnaddress_cmp (q_fa b) f = 0) fas)
     else None)"

definition cmp_type :: "FTNQ \<Rightarrow> FTNQ \<Rightarrow> int option" where
  "cmp_type a b = (if q_type a \<noteq> q_type b
     then scan_order (\<lambda>t. q_type a = t) (\<lambda>t. q_type b = t) typeorder else None)"

definition q_cmp :: "FTNQ \<Rightarrow> FTNQ \<Rightarrow> FTN_ADDR list \<Rightarrow> int" where
  "q_cmp a b fas =
    (if q_sent a \<or> q_sent b then of_bool (q_sent b) - of_bool (q_sent a)
     else case cmp_aka a b fas of
       Some r \<Rightarrow> r
     | None \<Rightarrow> (case cmp_type a b of
         Some r \<Rightarrow> r
       | None \<Rightarrow> if q_type a = CHR ''d'' \<and> q_type b = CHR ''d'' then cmp_filebox_files a b else 0))"

text \<open>The insertion sort on the linked list.\<close>

fun q_insert :: "FTN_ADDR list \<Rightarrow> FTNQ \<Rightarrow> FTNQ list \<Rightarrow> FTNQ list" where
  "q_insert fas e [] = [e]"
| "q_insert fas e (cur # rest) = (if q_cmp cur e fas > 0 then e # cur # rest else cur # q_insert fas e rest)"

definition q_sort :: "FTNQ list \<Rightarrow> FTN_ADDR list \<Rightarrow> FTNQ list" where
  "q_sort es fas = (case es of [] \<Rightarrow> [] | e # r \<Rightarrow> foldl (\<lambda>acc x. q_insert fas x acc) [e] r)"

text \<open>The entry chosen and the queue with its \<^verbatim>\<open>sent\<close> mark set.\<close>

fun select_next_file :: "FTNQ list \<Rightarrow> FTNQ option \<times> FTNQ list" where
  "select_next_file [] = (None, [])"
| "select_next_file (e # es) =
     (if \<not> q_sent e then (Some (e\<lparr>q_sent := True\<rparr>), e\<lparr>q_sent := True\<rparr> # es)
      else (case select_next_file es of (r, es') \<Rightarrow> (r, e # es')))"

definition file_size :: "fentry \<Rightarrow> int \<times> int" where
  "file_size e = (case e of Dir \<Rightarrow> (0, 0) | File d t \<Rightarrow> (int (length d), t))"

definition flo_line_target :: "string \<Rightarrow> string option" where
  "flo_line_target l =
    (let str = takeWhile (\<lambda>c. c \<noteq> NUL_char) l in
     if str \<noteq> [] \<and> (hd str = CHR ''~'' \<or> hd str = CHR ''$'') then None
     else let t = takeWhile (\<lambda>c. c \<noteq> CHR 0x0A) str in
          Some (if t \<noteq> [] \<and> (hd t = CHR ''#'' \<or> hd t = CHR ''^'') then tl t else t))"

definition flo_sizes :: "world \<Rightarrow> string list \<Rightarrow> int \<times> int" where
  "flo_sizes w ls = foldl (\<lambda>(sz, tm) l. case flo_line_target l of
       None \<Rightarrow> (sz, tm)
     | Some p \<Rightarrow> (case stat w p of None \<Rightarrow> (sz, tm)
         | Some e \<Rightarrow> (sz + fst (file_size e), max tm (snd (file_size e))))) (0, 0) ls"

definition entry_sizes :: "world \<Rightarrow> FTNQ \<Rightarrow> FTNQ" where
  "entry_sizes w e =
    (if q_type e = CHR ''l'' then
       (if q_size e \<noteq> 0 then e
        else case fopen_r (q_path e) w of
          None \<Rightarrow> e
        | Some d \<Rightarrow> (case flo_sizes w (file_lines (MAXPATHLEN + 2) d) of (sz, tm) \<Rightarrow> e\<lparr>q_size := sz, q_time := tm\<rparr>))
     else if q_type e = CHR ''s'' then e
     else if q_size e = 0 then
       (case stat w (q_path e) of None \<Rightarrow> e
        | Some f \<Rightarrow> e\<lparr>q_size := fst (file_size f), q_time := snd (file_size f)\<rparr>)
     else e)"

text \<open>The updated queue, the size of the mail packets and the size of the files.\<close>

definition q_get_sizes :: "world \<Rightarrow> FTNQ list \<Rightarrow> FTNQ list \<times> int \<times> int" where
  "q_get_sizes w es = (let es' = map (entry_sizes w) es in
     (es', sum_list (map q_size (filter (\<lambda>e. q_type e = CHR ''m'') es')) mod 2 ^ 64,
           sum_list (map q_size (filter (\<lambda>e. q_type e \<noteq> CHR ''m'') es')) mod 2 ^ 64))"

definition q_freq_num :: "FTNQ list \<Rightarrow> nat" where
  "q_freq_num es = length (filter (\<lambda>e. q_type e = CHR ''r'') es)"

section \<open>Which node to call\<close>

definition callable :: "int \<Rightarrow> FTN_NODE \<Rightarrow> bool" where
  "callable now fn \<longleftrightarrow> n_busy fn = NUL_char \<and> n_hosts fn \<noteq> Some ''-'' \<and> n_hold_until fn < now"

definition qn_not_empty :: "int \<Rightarrow> FTN_NODE \<Rightarrow> char \<times> FTN_NODE option \<Rightarrow> int \<times> FTN_NODE \<times> char \<times> FTN_NODE option" where
  "qn_not_empty now fn a =
    (if callable now fn \<and> fst a \<noteq> MAXFLVR (n_mail_flvr fn) (MAXFLVR (n_files_flvr fn) (fst a))
     then (0, fn, MAXFLVR (n_mail_flvr fn) (n_files_flvr fn), Some fn) else (0, fn, a))"

definition q_not_empty :: "int \<Rightarrow> BINKD_CONFIG \<Rightarrow> FTN_NODE option \<times> BINKD_CONFIG" where
  "q_not_empty now cfg = (case foreach_node (qn_not_empty now) now cfg (NUL_char, None) of
     (rc, cfg', maxflvr, fn) \<Rightarrow>
       (if maxflvr \<noteq> NUL_char \<and> tolower maxflvr \<noteq> CHR ''h'' then fn else None, cfg'))"

definition q_next_node :: "int \<Rightarrow> BINKD_CONFIG \<Rightarrow> FTN_NODE option \<times> BINKD_CONFIG" where
  "q_next_node now cfg = (case q_not_empty now cfg of
     (None, cfg') \<Rightarrow> (None, cfg')
   | (Some fn, cfg') \<Rightarrow>
       let fn' = fn\<lparr>n_mail_flvr := NUL_char, n_files_flvr := NUL_char, n_busy := CHR ''c''\<rparr>
       in (Some fn', set_node fn' cfg'))"

definition qn_free :: "FTN_NODE \<Rightarrow> unit \<Rightarrow> int \<times> FTN_NODE \<times> unit" where
  "qn_free fn a = (0, fn\<lparr>n_hold_until := 0, n_mail_flvr := NUL_char, n_files_flvr := NUL_char, n_busy := NUL_char\<rparr>, a)"

definition q_free :: "int \<Rightarrow> BINKD_CONFIG \<Rightarrow> BINKD_CONFIG" where
  "q_free now cfg = fst (snd (foreach_node qn_free now cfg ()))"

section \<open>Polls, holds and failed calls\<close>

definition bso_file :: "FTN_ADDR \<Rightarrow> string \<Rightarrow> BINKD_CONFIG \<Rightarrow> string" where
  "bso_file fa ext cfg = (let buf = ftnaddress_to_filename fa (pDomains cfg) in
     if buf = [] then [] else strnzcat buf ext BUF)"

definition create_poll :: "FTN_ADDR \<Rightarrow> char \<Rightarrow> BINKD_CONFIG \<Rightarrow> world \<Rightarrow> bool \<times> world" where
  "create_poll fa flvr cfg w =
    (let ext = (if flvr \<in> set flo_flvrs then [CHR ''.'', tolower flvr] @ ''lo'' else ''.flo'');
         buf = bso_file fa ext cfg;
         w1 = snd (mkpath (ftnaddress_to_filename fa (pDomains cfg)) w)
     in if buf = [] then (False, w)
        else if access w1 buf then (True, w1) else create_empty_sem_file buf w1)"

definition hold_node :: "FTN_ADDR \<Rightarrow> int \<Rightarrow> st \<Rightarrow> st" where
  "hold_node fa hold_until st =
    (let buf = bso_file fa ''.hld'' (snd st) in
     if buf = [] then st
     else case write_file buf (dec_of_nat (nat (hold_until mod 2 ^ 64))) (fst st) of
       (False, w) \<Rightarrow> (w, snd st)
     | (True, w) \<Rightarrow> (case get_node fa (w, snd st) of
         (None, st') \<Rightarrow> st' | (Some n, st') \<Rightarrow> put_node (n\<lparr>n_hold_until := hold_until\<rparr>) st'))"

text \<open>\<^verbatim>\<open>%c\<close> keeps the low byte of its argument.\<close>

definition low_byte :: "nat \<Rightarrow> char" where
  "low_byte n = char_of n"

definition write_try :: "FTN_ADDR \<Rightarrow> nat \<Rightarrow> nat \<Rightarrow> string \<Rightarrow> BINKD_CONFIG \<Rightarrow> world \<Rightarrow> world" where
  "write_try fa nok nbad comment cfg w =
    (let buf = bso_file fa ''.try'' cfg in
     if tries cfg > 0 \<and> buf \<noteq> []
     then snd (write_file buf ([low_byte (nok mod 256), low_byte (nok div 256), low_byte (nbad mod 256),
                                low_byte (nbad div 256), low_byte (length comment)] @ comment) w)
     else w)"

text \<open>\<open>None\<close>: the variables stay as they were (unknown domain).\<close>

definition read_try :: "FTN_ADDR \<Rightarrow> BINKD_CONFIG \<Rightarrow> world \<Rightarrow> (nat \<times> nat) option" where
  "read_try fa cfg w =
    (let buf = bso_file fa ''.try'' cfg in
     if buf = [] then None
     else case fopen_r buf w of
       Some (a # b # c # d # r) \<Rightarrow> Some (ord a + ord b * 256, ord c + ord d * 256)
     | _ \<Rightarrow> Some (0, 0))"

text \<open>The counters are 32-bit and unset when the domain is unknown, which \<open>junk\<close> stands for.\<close>

definition bad_try :: "nat \<times> nat \<Rightarrow> FTN_ADDR \<Rightarrow> string \<Rightarrow> st \<Rightarrow> st" where
  "bad_try junk fa error st =
    (if tries (snd st) = 0 then st
     else case (case read_try fa (snd st) (fst st) of Some c \<Rightarrow> c | None \<Rightarrow> junk) of
       (nok, nbad) \<Rightarrow>
         if tries (snd st) > 0 \<and> (nbad + 1) mod 2 ^ 32 \<ge> nat (tries (snd st)) then
           (case hold_node fa (w_time (fst st) + hold (snd st)) st of
              (w, cfg) \<Rightarrow> (write_try fa 0 0 error cfg w, cfg))
         else
           let nbad' = (if tries (snd st) > 0 then (nbad + 1) mod 2 ^ 32 else nbad)
           in (write_try fa nok nbad' error (snd st) (fst st), snd st))"

definition remove_try :: "FTN_ADDR \<Rightarrow> BINKD_CONFIG \<Rightarrow> world \<Rightarrow> world" where
  "remove_try fa cfg w =
    (let buf = bso_file fa ''.try'' cfg in
     if tries cfg = 0 \<or> buf = [] then w else if access w buf then snd (delete buf w) else w)"

definition good_try :: "nat \<times> nat \<Rightarrow> FTN_ADDR \<Rightarrow> string \<Rightarrow> BINKD_CONFIG \<Rightarrow> world \<Rightarrow> world" where
  "good_try junk fa comment cfg w =
    (if tries cfg = 0 then w
     else if remove_try_files cfg then remove_try fa cfg w
     else case (case read_try fa cfg w of Some c \<Rightarrow> c | None \<Rightarrow> junk) of
       (nok, nbad) \<Rightarrow> write_try fa ((nok + 1) mod 2 ^ 32) 0 comment cfg w)"

text \<open>\<^verbatim>\<open>poll_node\<close> of \<^verbatim>\<open>ftnnode.c\<close>.\<close>

definition poll_args :: node_args where
  "poll_args = \<lparr>a_hosts = Some ''*'', a_pwd = None, a_pkt_pwd = None, a_out_pwd = None, a_obox_flvr = CHR ''-'',
     a_obox = None, a_ibox = None, a_NR_flag = NR_USE_OLD, a_ND_flag = ND_USE_OLD, a_MD_flag = MD_USE_OLD,
     a_restrictIP = RIP_USE_OLD, a_HC_flag = HC_USE_OLD, a_NP_flag = NP_USE_OLD, a_NC_flag = NC_USE_OLD,
     a_pipe = None, a_IP_afamily = AF_USE_OLD\<rparr>"

definition poll_node :: "string \<Rightarrow> st \<Rightarrow> bool \<times> st" where
  "poll_node s st = (case parse_ftnaddress s (pDomains (snd st)) of
     None \<Rightarrow> (False, st)
   | Some t \<Rightarrow>
       let target = exp_ftnaddress t (pAddr (snd st)) (pDomains (snd st)) in
       (case get_node target st of (n, w, cfg) \<Rightarrow>
          let cfg' = (if n = None then add_node target poll_args (w_time w) cfg else cfg) in
          (case create_poll target CHR ''d'' cfg' w of (rc, w') \<Rightarrow> (rc, w', cfg'))))"

section \<open>Sorting and selecting\<close>

lemma q_insert_sent:
  "q_sent e \<Longrightarrow> \<forall>x\<in>set xs. q_sent x \<Longrightarrow> \<forall>y\<in>set ys. \<not> q_sent y \<Longrightarrow> q_insert fas e (xs @ ys) = xs @ e # ys"
proof (induction xs)
  case Nil
  then show ?case by (cases ys) (simp_all add: q_cmp_def)
qed (simp add: q_cmp_def)

lemma q_insert_unsent:
  "\<not> q_sent e \<Longrightarrow> \<forall>x\<in>set xs. q_sent x \<Longrightarrow> q_insert fas e (xs @ ys) = xs @ q_insert fas e ys"
  by (induction xs) (simp_all add: q_cmp_def)

lemma set_q_insert [simp]: "set (q_insert fas e es) = insert e (set es)"
  by (induction es) auto

lemma mset_q_insert: "mset (q_insert fas e es) = add_mset e (mset es)"
  by (induction es) auto

lemma q_sort_Cons_foldl: "q_sort es fas = foldl (\<lambda>acc x. q_insert fas x acc) [] es"
  by (cases es) (simp_all add: q_sort_def)

lemma q_sort_loop:
  "\<forall>x\<in>set xs. q_sent x \<Longrightarrow> \<forall>y\<in>set ys. \<not> q_sent y \<Longrightarrow>
    foldl (\<lambda>acc x. q_insert fas x acc) (xs @ ys) es =
    (xs @ filter q_sent es) @ foldl (\<lambda>acc x. q_insert fas x acc) ys (filter (\<lambda>e. \<not> q_sent e) es)"
proof (induction es arbitrary: xs ys)
  case (Cons e es)
  show ?case
  proof (cases "q_sent e")
    case True
    have "foldl (\<lambda>acc x. q_insert fas x acc) (xs @ ys) (e # es) =
        foldl (\<lambda>acc x. q_insert fas x acc) ((xs @ [e]) @ ys) es"
      using True Cons.prems q_insert_sent by simp
    also have "\<dots> = ((xs @ [e]) @ filter q_sent es) @ foldl (\<lambda>acc x. q_insert fas x acc) ys (filter (\<lambda>e. \<not> q_sent e) es)"
      by (rule Cons.IH) (use True Cons.prems in auto)
    finally show ?thesis using True by simp
  next
    case False
    have "foldl (\<lambda>acc x. q_insert fas x acc) (xs @ ys) (e # es) =
        foldl (\<lambda>acc x. q_insert fas x acc) (xs @ q_insert fas e ys) es"
      using False Cons.prems q_insert_unsent by simp
    also have "\<dots> = (xs @ filter q_sent es) @ foldl (\<lambda>acc x. q_insert fas x acc) (q_insert fas e ys) (filter (\<lambda>e. \<not> q_sent e) es)"
      by (rule Cons.IH) (use False Cons.prems in auto)
    finally show ?thesis using False by simp
  qed
qed simp

lemma q_sort_split: "q_sort es fas = filter q_sent es @ q_sort (filter (\<lambda>e. \<not> q_sent e) es) fas"
  using q_sort_loop [of "[]" "[]" fas es] by (simp add: q_sort_Cons_foldl)

lemma mset_q_sort: "mset (q_sort es fas) = mset es"
proof -
  have "mset (foldl (\<lambda>acc x. q_insert fas x acc) ys xs) = mset ys + mset xs" for xs ys
    by (induction xs arbitrary: ys) (simp_all add: mset_q_insert)
  then show ?thesis by (simp add: q_sort_Cons_foldl)
qed

text \<open>Two unsent entries of one link, an AKA of the session, never change places.\<close>

definition for_link :: "FTN_ADDR \<Rightarrow> FTNQ \<Rightarrow> bool" where
  "for_link fa e \<longleftrightarrow> \<not> q_sent e \<and> addr_pos (q_fa e) \<and> ftnaddress_cmp (q_fa e) fa = 0"

lemma scan_order_both:
  "(\<And>k. k \<in> set ks \<Longrightarrow> isa k = isb k) \<Longrightarrow> \<exists>k\<in>set ks. isa k \<Longrightarrow> scan_order isa isb ks = Some (-1)"
  by (induction ks) auto

lemma q_cmp_same_link:
  assumes "for_link fa a" "for_link fa b" "fa \<in> set fas" "\<forall>f\<in>set fas. addr_pos f"
  shows "q_cmp a b fas = -1"
proof -
  have pos: "addr_pos (q_fa a)" "addr_pos (q_fa b)" "addr_pos fa"
    using assms by (auto simp: for_link_def)
  have k: "addr_key (q_fa a) = addr_key fa" "addr_key (q_fa b) = addr_key fa"
    using assms pos ftnaddress_cmp_key(2) by (auto simp: for_link_def)
  have "\<not> FA_ISNULL (q_fa a)" using pos by (auto simp: FA_ISNULL_def addr_pos_def)
  moreover have "scan_order (\<lambda>f. ftnaddress_cmp (q_fa a) f = 0) (\<lambda>f. ftnaddress_cmp (q_fa b) f = 0) fas = Some (-1)"
    by (rule scan_order_both) (use assms(3,4) pos k in \<open>auto simp: ftnaddress_cmp_key(2)\<close>)
  moreover have "\<not> FA_ISNULL (q_fa b)" using pos by (auto simp: FA_ISNULL_def addr_pos_def)
  ultimately have "cmp_aka a b fas = Some (-1)"
    using pos k by (simp add: cmp_aka_def ftnaddress_cmp_key(2))
  then show ?thesis using assms by (simp add: q_cmp_def for_link_def)
qed

lemma q_insert_last: "\<forall>c\<in>set es. q_cmp c e fas \<le> 0 \<Longrightarrow> q_insert fas e es = es @ [e]"
  by (induction es) auto

lemma q_sort_same_link:
  assumes "\<forall>e\<in>set es. for_link fa e" "fa \<in> set fas" "\<forall>f\<in>set fas. addr_pos f"
  shows "q_sort es fas = es"
proof -
  have "foldl (\<lambda>acc x. q_insert fas x acc) ys xs = ys @ xs"
    if "\<forall>e\<in>set ys. for_link fa e" "\<forall>e\<in>set xs. for_link fa e" for xs ys
    using that
  proof (induction xs arbitrary: ys)
    case (Cons x xs)
    have "q_insert fas x ys = ys @ [x]"
      by (rule q_insert_last) (use Cons.prems assms q_cmp_same_link [of fa _ x fas] in fastforce)
    then show ?case using Cons by simp
  qed simp
  from this [of "[]" es] assms(1) show ?thesis by (simp add: q_sort_Cons_foldl)
qed

text \<open>Calling \<^verbatim>\<open>select_next_file\<close> \<open>k\<close> times.\<close>

fun selections :: "nat \<Rightarrow> FTNQ list \<Rightarrow> FTNQ list" where
  "selections 0 es = []"
| "selections (Suc k) es = (case select_next_file es of (None, es') \<Rightarrow> [] | (Some e, es') \<Rightarrow> e # selections k es')"

lemma select_next_file_eq:
  "select_next_file (xs @ e # es) = (Some (e\<lparr>q_sent := True\<rparr>), xs @ e\<lparr>q_sent := True\<rparr> # es)"
  if "\<forall>x\<in>set xs. q_sent x" "\<not> q_sent e"
  using that by (induction xs) auto

lemma select_next_file_none: "\<forall>x\<in>set xs. q_sent x \<Longrightarrow> select_next_file xs = (None, xs)"
  by (induction xs) auto

lemma selections_from:
  "\<forall>x\<in>set xs. q_sent x \<Longrightarrow> length (filter (\<lambda>e. \<not> q_sent e) es) \<le> k \<Longrightarrow>
    selections k (xs @ es) = map (\<lambda>e. e\<lparr>q_sent := True\<rparr>) (filter (\<lambda>e. \<not> q_sent e) es)"
proof (induction es arbitrary: xs k)
  case Nil
  then show ?case by (cases k) (simp_all add: select_next_file_none)
next
  case (Cons e es)
  show ?case
  proof (cases "q_sent e")
    case True
    then show ?thesis using Cons.IH [of "xs @ [e]" k] Cons.prems by simp
  next
    case False
    then obtain j where k: "k = Suc j" using Cons.prems(2) by (cases k) auto
    show ?thesis
      using False Cons.prems Cons.IH [of "xs @ [e\<lparr>q_sent := True\<rparr>]" j] select_next_file_eq [of xs e es]
      by (simp add: k)
  qed
qed

section \<open>The best node\<close>

definition node_flvr :: "FTN_NODE \<Rightarrow> char" where
  "node_flvr n = MAXFLVR (n_mail_flvr n) (n_files_flvr n)"

lemma rank_MAXFLVR: "flvr_rank (MAXFLVR a b) = min (flvr_rank a) (flvr_rank b)"
  by (simp add: MAXFLVR_def)

lemma MAXFLVR_changed: "a \<noteq> MAXFLVR m (MAXFLVR f a) \<Longrightarrow> flvr_rank (MAXFLVR m f) < flvr_rank a"
  by (auto simp: MAXFLVR_def split: if_splits)

lemma MAXFLVR_kept: "a = MAXFLVR m (MAXFLVR f a) \<Longrightarrow> flvr_rank a \<le> flvr_rank (MAXFLVR m f)"
  by (metis rank_MAXFLVR min.assoc min.cobounded1 min.commute)

definition best_step :: "int \<Rightarrow> FTN_NODE \<Rightarrow> char \<times> FTN_NODE option \<Rightarrow> char \<times> FTN_NODE option" where
  "best_step now n a = snd (snd (qn_not_empty now n a))"

definition is_best :: "int \<Rightarrow> FTN_NODE list \<Rightarrow> char \<times> FTN_NODE option \<Rightarrow> bool" where
  "is_best now ns a \<longleftrightarrow> (\<forall>m\<in>set ns. callable now m \<longrightarrow> flvr_rank (fst a) \<le> flvr_rank (node_flvr m)) \<and>
     (case snd a of None \<Rightarrow> fst a = NUL_char
      | Some n \<Rightarrow> n \<in> set ns \<and> callable now n \<and> fst a = node_flvr n)"

lemma best_step: "is_best now ns a \<Longrightarrow> is_best now (ns @ [n]) (best_step now n a)"
  using MAXFLVR_changed [of "fst a" "n_mail_flvr n" "n_files_flvr n"]
    MAXFLVR_kept [of "fst a" "n_mail_flvr n" "n_files_flvr n"]
  by (fastforce simp: is_best_def best_step_def qn_not_empty_def node_flvr_def split: option.splits)

lemma best_fold: "is_best now ns a \<Longrightarrow> is_best now (ns @ ms) (fold (best_step now) ms a)"
proof (induction ms arbitrary: ns a)
  case (Cons m ms)
  from Cons.IH [OF best_step [OF Cons.prems, of m]] show ?case by simp
qed simp

lemma set_node_same: "distinct (map n_fa (pNod cfg)) \<Longrightarrow> n \<in> set (pNod cfg) \<Longrightarrow> set_node n cfg = cfg"
  by (auto simp: set_node_def map_idI inj_on_def distinct_map intro!: BINKD_CONFIG.equality)

lemma foreach_best:
  assumes "distinct (map n_fa (pNod cfg))" "\<forall>n\<in>set (pNod cfg). n_hosts n \<noteq> None" "set ns \<subseteq> set (pNod cfg)"
  shows "foreach_loop (qn_not_empty now) now (map n_fa ns) cfg a = (0, cfg, fold (best_step now) ns a)"
  using assms(3)
proof (induction ns arbitrary: a)
  case (Cons n ns)
  have n: "n \<in> set (pNod cfg)" using Cons.prems by simp
  then have "find (\<lambda>m. n_fa m = n_fa n) (pNod cfg) = Some n"
    using assms(1) by (auto simp: find_Some_iff in_set_conv_nth distinct_conv_nth)
  moreover have "fst (qn_not_empty now n a) = 0" "fst (snd (qn_not_empty now n a)) = n"
    by (simp_all add: qn_not_empty_def)
  then have "qn_not_empty now n a = (0, n, best_step now n a)" by (simp add: best_step_def prod_eq_iff)
  ultimately show ?case
    using Cons assms(2) n set_node_same [OF assms(1) n] by auto
qed simp

lemma rank_hold: "10 \<le> flvr_rank c \<longleftrightarrow> c = NUL_char \<or> c = CHR ''H'' \<or> c = CHR ''h''"
  by (auto simp: flvr_rank_def prio_def split: if_splits)

lemma tolower_h: "tolower c = CHR ''h'' \<longleftrightarrow> c = CHR ''H'' \<or> c = CHR ''h''"
proof
  assume t: "tolower c = CHR ''h''"
  show "c = CHR ''H'' \<or> c = CHR ''h''"
  proof (cases "isupper c")
    case True
    then have "ord c \<le> 90" by (simp add: isupper_def)
    moreover have "char_of (ord c + 32) = CHR ''h''" using t True by (simp add: tolower_def)
    then have "ord (char_of (ord c + 32)) = 104" by (simp only:) simp
    then have "(ord c + 32) mod 256 = 104" by (simp only: of_char_of)
    ultimately have "ord c = ord (CHR ''H'')" by simp
    then show ?thesis by (simp only: of_char_eq_iff simp_thms)
  qed (use t in \<open>simp add: tolower_def\<close>)
next
  have "tolower CHR ''H'' = CHR ''h''" "tolower CHR ''h'' = CHR ''h''" by code_simp+
  then show "c = CHR ''H'' \<or> c = CHR ''h'' \<Longrightarrow> tolower c = CHR ''h''" by auto
qed

lemma q_not_empty_eq:
  assumes "distinct (map n_fa (pNod cfg))" "\<forall>n\<in>set (pNod cfg). n_hosts n \<noteq> None" "nNodSorted cfg"
  shows "q_not_empty now cfg = (let a = fold (best_step now) (pNod cfg) (NUL_char, None) in
     (if 10 \<le> flvr_rank (fst a) then None else snd a, cfg))"
  using foreach_best [OF assms(1,2) order_refl, of now "(NUL_char, None)"] assms(3)
  by (auto simp: q_not_empty_def foreach_node_def rank_hold tolower_h Let_def split: prod.splits)

section \<open>Small files in the outbound\<close>

definition writable :: "world \<Rightarrow> string \<Rightarrow> bool" where
  "writable w p \<longleftrightarrow> p \<noteq> [] \<and> parent_ok w p \<and> \<not> denied w p \<and> stat w p \<noteq> Some Dir \<and> \<not> w_full w"

lemma write_file_ok:
  assumes "writable w p"
  obtains w' where "write_file p s w = (True, w')" "fopen_r p w' = Some s"
    "\<And>q. q \<noteq> p \<Longrightarrow> stat w' q = stat w q" "\<And>q. writable w q \<Longrightarrow> writable w' q" "w_time w' = w_time w"
proof -
  have o: "fopen_w p w = (True, fs_put p (File [] (w_time w)) w)"
    using assms by (auto simp: fopen_w_def writable_def create_check_def access_def split: option.split fentry.split)
  let ?w = "fs_append p s (fs_put p (File [] (w_time w)) w)"
  have w: "write_file p s w = (True, ?w)" by (simp add: write_file_def o)
  have st: "stat ?w q = (if q = p then Some (File s (w_time w)) else stat w q)" for q
    using assms by (simp add: stat_fs_append writable_def)
  have fr: "w_denied ?w = w_denied w" "w_full ?w = w_full w" "w_time ?w = w_time w"
    by (simp_all add: fs_append_def split: option.split fentry.split)
  have "writable ?w q" if "writable w q" for q
    using that assms by (auto simp: writable_def fr st parent_ok_def)
  then show thesis using that [OF w] fr by (simp add: st fopen_r_def)
qed

lemma ord_low_byte: "ord (low_byte n) = n mod 256"
  by (simp add: low_byte_def)

lemma write_read_try:
  assumes "writable w (bso_file fa ''.try'' cfg)" "tries cfg > 0" "nok < 65536" "nbad < 65536"
  shows "read_try fa cfg (write_try fa nok nbad comment cfg w) = Some (nok, nbad)"
proof -
  have ne: "bso_file fa ''.try'' cfg \<noteq> []" using assms(1) by (simp add: writable_def)
  obtain w' where w': "write_file (bso_file fa ''.try'' cfg) ([low_byte (nok mod 256), low_byte (nok div 256),
      low_byte (nbad mod 256), low_byte (nbad div 256), low_byte (length comment)] @ comment) w = (True, w')"
    "fopen_r (bso_file fa ''.try'' cfg) w' = Some ([low_byte (nok mod 256), low_byte (nok div 256),
      low_byte (nbad mod 256), low_byte (nbad div 256), low_byte (length comment)] @ comment)"
    by (rule write_file_ok [OF assms(1)])
  have b: "n div 256 mod 256 * 256 = n div 256 * 256" if "n < 65536" for n :: nat
    using that by (simp add: div_less_iff_less_mult)
  show ?thesis
    using ne assms(2) w'(2) b [OF assms(3)] b [OF assms(4)]
    by (simp add: write_try_def read_try_def Let_def w'(1) [simplified] ord_low_byte)
qed

lemma write_try_frame: "q \<noteq> bso_file fa ''.try'' cfg \<Longrightarrow> stat (write_try fa nok nbad c cfg w) q = stat w q"
  by (auto simp: write_try_def Let_def write_file_def fopen_w_def stat_fs_append
      split: option.splits fentry.splits if_splits)

lemma bso_files_differ:
  assumes "bso_file fa e cfg \<noteq> []" "length (ftnaddress_to_filename fa (pDomains cfg)) + 4 \<le> MAXPATHLEN"
    and "length e = 4" "length e' = 4" "e \<noteq> e'"
  shows "bso_file fa e cfg \<noteq> bso_file fa e' cfg"
  using assms by (auto simp: bso_file_def Let_def strnzcat_def strnzcpy_def split: if_splits)

lemma set_node_tries [simp]: "tries (set_node n cfg) = tries cfg" "pDomains (set_node n cfg) = pDomains cfg"
  by (simp_all add: set_node_def)

lemma get_node_info_frame: "get_node_info fa now cfg = (r, cfg') \<Longrightarrow> tries cfg' = tries cfg \<and> pDomains cfg' = pDomains cfg"
  by (auto simp: get_node_info_def get_node_index_def get_defnode_info_def sort_nodes_def add_node_def Let_def
      split: prod.splits option.splits if_splits)

lemma get_node_frame:
  "get_node fa st = (r, st') \<Longrightarrow> fst st' = fst st \<and> tries (snd st') = tries (snd st) \<and> pDomains (snd st') = pDomains (snd st)"
  by (auto simp: get_node_def dest: get_node_info_frame split: prod.splits)

lemma hold_node_ok:
  assumes "writable (fst st) (bso_file fa ''.hld'' (snd st))" "hold_node fa h st = (w', cfg')"
  shows "fopen_r (bso_file fa ''.hld'' (snd st)) w' = Some (dec_of_nat (nat (h mod 2 ^ 64))) \<and>
    tries cfg' = tries (snd st) \<and> pDomains cfg' = pDomains (snd st) \<and> (\<forall>q. writable (fst st) q \<longrightarrow> writable w' q)"
proof -
  obtain w1 where w1: "write_file (bso_file fa ''.hld'' (snd st)) (dec_of_nat (nat (h mod 2 ^ 64))) (fst st) = (True, w1)"
    "fopen_r (bso_file fa ''.hld'' (snd st)) w1 = Some (dec_of_nat (nat (h mod 2 ^ 64)))"
    "\<And>q. writable (fst st) q \<Longrightarrow> writable w1 q"
    using write_file_ok [OF assms(1), of "dec_of_nat (nat (h mod 2 ^ 64))"] by blast
  obtain r st2 where g: "get_node fa (w1, snd st) = (r, st2)" by (cases "get_node fa (w1, snd st)")
  have "bso_file fa ''.hld'' (snd st) \<noteq> []" using assms(1) by (simp add: writable_def)
  then have "(w', cfg') = (case r of None \<Rightarrow> st2 | Some n \<Rightarrow> put_node (n\<lparr>n_hold_until := h\<rparr>) st2)"
    using assms(2) w1(1) g by (simp add: hold_node_def Let_def)
  then show ?thesis
    using get_node_frame [OF g] w1 by (auto simp: put_node_def split: option.splits)
qed

lemma bso_file_cong: "pDomains cfg = pDomains cfg' \<Longrightarrow> bso_file fa e cfg = bso_file fa e cfg'"
  by (simp add: bso_file_def)

lemma read_try_cong: "pDomains cfg = pDomains cfg' \<Longrightarrow> read_try fa cfg w = read_try fa cfg' w"
  by (simp add: read_try_def bso_file_def)

section \<open>Names in the outbound\<close>

lemma isxdigit_hex_of_nat: "\<forall>c\<in>set (hex_of_nat n). isxdigit c"
proof (induction n rule: hex_of_nat.induct)
  case (1 n)
  then show ?case by (subst hex_of_nat.simps) auto
qed

lemma isxdigit_hex_int: "c \<in> set (hex_int w i) \<Longrightarrow> isxdigit c"
  using isxdigit_hex_of_nat isxdigit_hex_digit [of 0]
  by (auto simp: hex_int_def hex_pad_def hex_digit_def isxdigit_def isdigit_def)

lemma length_hex_int_8: "length (hex_int 8 i) = 8"
  using length_hex_pad [of "nat (i mod 2 ^ 32)" 7] by (simp add: hex_int_def nat_less_iff)

lemma hex_value_hex_int: "0 \<le> i \<Longrightarrow> i < 2 ^ 32 \<Longrightarrow> int (hex_value (hex_int w i)) = i"
  by (simp add: hex_int_def)

text \<open>The last component of the name of a link's file.\<close>

definition own_name :: "FTN_ADDR \<Rightarrow> string \<Rightarrow> string" where
  "own_name fa ext = (if fa_p fa = 0 then hex_int 4 (fa_net fa) @ hex_int 4 (fa_node fa) else hex_int 8 (fa_p fa)) @ ''.'' @ ext"

section \<open>Properties\<close>

text \<open>
  \<^verbatim>\<open>q_sort\<close> keeps all entries, and moves the sent ones, in their order, to the front of the
  queue (its comment promises the end).
\<close>

theorem q_sort_sent_first:
  "q_sort es fas = filter q_sent es @ q_sort (filter (\<lambda>e. \<not> q_sent e) es) fas \<and> mset (q_sort es fas) = mset es"
  using q_sort_split mset_q_sort by blast

text \<open>
  the queue of a session holds the entries of one link; on such a queue, when its
  address is one of the session's, \<^verbatim>\<open>q_sort\<close> does nothing: status files, requests, mail and files
  are not put in the order the function declares.
\<close>

theorem q_sort_leaves_link_unsorted:
  assumes "\<forall>e\<in>set es. for_link fa e" "fa \<in> set fas" "\<forall>f\<in>set fas. addr_pos f"
  shows "q_sort es fas = es"
  using assms by (rule q_sort_same_link)

definition sample_entry :: "char \<Rightarrow> FTNQ" where
  "sample_entry t = FQ_ZERO\<lparr>q_fa := sample_node, q_type := t\<rparr>"

theorem q_sort_leaves_link_unsorted_witness:
  "q_sort [sample_entry CHR ''l'', sample_entry CHR ''m''] [sample_node] =
     [sample_entry CHR ''l'', sample_entry CHR ''m'']"
  by (rule q_sort_leaves_link_unsorted [of _ sample_node])
    (simp_all add: for_link_def sample_entry_def FQ_ZERO_def sample_ok)

text \<open>
  repeated selection delivers every unsent entry exactly once, in queue order, and then
  nothing.
\<close>

theorem select_each_once:
  "selections (length es) es = map (\<lambda>e. e\<lparr>q_sent := True\<rparr>) (filter (\<lambda>e. \<not> q_sent e) es)"
  using selections_from [of "[]" es "length es"] by simp

definition marked_called :: "FTN_NODE \<Rightarrow> FTN_NODE" where
  "marked_called n = n\<lparr>n_mail_flvr := NUL_char, n_files_flvr := NUL_char, n_busy := CHR ''c''\<rparr>"

lemma marked_called_not [simp]: "\<not> callable now (marked_called n)" "n_fa (marked_called n) = n_fa n"
  "n_hosts (marked_called n) = n_hosts n" "n_busy (marked_called n) = CHR ''c''"
  by (simp_all add: marked_called_def callable_def)

lemma next_node_picks:
  assumes "nodes_ok cfg" "nNodSorted cfg" "\<forall>n\<in>set (pNod cfg). n_hosts n \<noteq> None"
  shows "case q_next_node now cfg of
      (None, cfg') \<Rightarrow> cfg' = cfg \<and> (\<forall>m\<in>set (pNod cfg). callable now m \<longrightarrow> node_flvr m \<in> {NUL_char, CHR ''H'', CHR ''h''})
    | (Some fn, cfg') \<Rightarrow> \<exists>n\<in>set (pNod cfg). callable now n \<and>
         node_flvr n \<notin> {NUL_char, CHR ''H'', CHR ''h''} \<and> fn = marked_called n \<and> cfg' = set_node fn cfg \<and>
         (\<forall>m\<in>set (pNod cfg). callable now m \<longrightarrow> flvr_rank (node_flvr n) \<le> flvr_rank (node_flvr m))"
proof -
  have "distinct (map n_fa (pNod cfg))"
    using assms(1) by (auto simp: nodes_ok_def distinct_map inj_on_def)
  note eq = q_not_empty_eq [OF this assms(3,2), of now]
  define a where "a = fold (best_step now) (pNod cfg) (NUL_char, None)"
  have best: "is_best now (pNod cfg) a"
    using best_fold [of now "[]" "(NUL_char, None)" "pNod cfg"] by (simp add: is_best_def a_def)
  show ?thesis
  proof (cases "10 \<le> flvr_rank (fst a)")
    case True
    then have "10 \<le> flvr_rank (node_flvr m)" if "m \<in> set (pNod cfg)" "callable now m" for m
      using best that by (fastforce simp: is_best_def)
    then show ?thesis using True by (auto simp: q_next_node_def eq a_def [symmetric] rank_hold)
  next
    case False
    then obtain n where n: "snd a = Some n" "n \<in> set (pNod cfg)" "callable now n" "fst a = node_flvr n"
      using best by (cases "snd a") (auto simp: is_best_def rank_hold)
    then show ?thesis
      using False best
      by (auto simp: q_next_node_def eq a_def [symmetric] rank_hold is_best_def callable_def Let_def marked_called_def
          intro!: bexI [of _ n])
  qed
qed

text \<open>
  C19: \<^verbatim>\<open>q_next_node\<close> picks a node that may be called and whose mail has the best flavour
  of all such nodes, and marks it so that it is not picked again; it finds none exactly when no
  node that may be called has more than held mail.
\<close>

theorem q_next_node_best:
  assumes "nodes_ok cfg" "nNodSorted cfg" "\<forall>n\<in>set (pNod cfg). n_hosts n \<noteq> None"
  shows "case q_next_node now cfg of
      (None, cfg') \<Rightarrow> cfg' = cfg \<and> (\<forall>m\<in>set (pNod cfg). callable now m \<longrightarrow> node_flvr m \<in> {NUL_char, CHR ''H'', CHR ''h''})
    | (Some fn, cfg') \<Rightarrow> \<not> callable now fn \<and> (\<exists>n\<in>set (pNod cfg). callable now n \<and>
         node_flvr n \<notin> {NUL_char, CHR ''H'', CHR ''h''} \<and> n_fa fn = n_fa n \<and> cfg' = set_node fn cfg \<and>
         (\<forall>m\<in>set (pNod cfg). callable now m \<longrightarrow> flvr_rank (node_flvr n) \<le> flvr_rank (node_flvr m)))"
  using next_node_picks [OF assms, of now] by (fastforce split: prod.splits option.splits)

definition sample_table :: BINKD_CONFIG where
  "sample_table = sample_cfg\<lparr>pNod := [(new_node sample_node)\<lparr>n_hosts := Some ''*'', n_mail_flvr := CHR ''f''\<rparr>],
     nNodSorted := True\<rparr>"

theorem q_next_node_best_witness:
  "\<exists>fn cfg'. q_next_node 5 sample_table = (Some fn, cfg') \<and> n_fa fn = sample_node \<and> \<not> callable 5 fn"
proof -
  have h: "nodes_ok sample_table" "nNodSorted sample_table" "\<forall>n\<in>set (pNod sample_table). n_hosts n \<noteq> None"
    using sample_ok(2) by (auto simp: nodes_ok_def sample_table_def new_node_def)
  have f: "\<forall>m\<in>set (pNod sample_table). callable 5 m \<and> node_flvr m = CHR ''f'' \<and> n_fa m = sample_node"
    by (simp add: sample_table_def callable_def node_flvr_def new_node_def MAXFLVR_def flvr_rank_def prio_def)
  have ne: "\<exists>m. m \<in> set (pNod sample_table)" by (simp add: sample_table_def)
  show ?thesis
    using q_next_node_best [OF h, of 5] f ne by (fastforce split: prod.splits option.splits)
qed

text \<open>
  a failed call is counted in the \<^verbatim>\<open>.try\<close> file of the node; the \<^verbatim>\<open>tries\<close>-th failure in a row
  resets the counters and writes the \<^verbatim>\<open>.hld\<close> file with the time until which the node is held.
\<close>

theorem bad_try_counts:
  assumes "writable w (bso_file fa ''.try'' cfg)" "writable w (bso_file fa ''.hld'' cfg)"
    and "length (ftnaddress_to_filename fa (pDomains cfg)) + 4 \<le> MAXPATHLEN"
    and "0 < tries cfg" "tries cfg \<le> 65536" "read_try fa cfg w = Some (nok, nbad)" "nok < 65536" "nbad < 65536"
    and "bad_try junk fa error (w, cfg) = (w', cfg')"
  shows "read_try fa cfg w' = Some (if int nbad + 1 < tries cfg then (nok, nbad + 1) else (0, 0)) \<and>
    fopen_r (bso_file fa ''.hld'' cfg) w' =
      (if int nbad + 1 < tries cfg then fopen_r (bso_file fa ''.hld'' cfg) w
       else Some (dec_of_nat (nat ((w_time w + hold cfg) mod 2 ^ 64))))"
proof (cases "int nbad + 1 < tries cfg")
  case True
  have ne: "bso_file fa ''.hld'' cfg \<noteq> bso_file fa ''.try'' cfg"
    using bso_files_differ [of fa "''.hld''" cfg "''.try''"] assms(2,3) by (simp add: writable_def)
  have "(nbad + 1) mod 2 ^ 32 = nbad + 1" using assms(8) by simp
  then have "w' = write_try fa nok (nbad + 1) error cfg w" "cfg' = cfg"
    using assms(4,6,9) True by (auto simp: bad_try_def Let_def nat_le_iff)
  then show ?thesis
    using True write_read_try [OF assms(1,4,7), of "nbad + 1" error] assms(5) write_try_frame [OF ne]
    by (simp add: fopen_r_def)
next
  case False
  have ne: "bso_file fa ''.hld'' cfg \<noteq> bso_file fa ''.try'' cfg"
    using bso_files_differ [of fa "''.hld''" cfg "''.try''"] assms(2,3) by (simp add: writable_def)
  obtain w1 cfg1 where h: "hold_node fa (w_time w + hold cfg) (w, cfg) = (w1, cfg1)" by fastforce
  have "(nbad + 1) mod 2 ^ 32 = nbad + 1" using assms(8) by simp
  then have w': "w' = write_try fa 0 0 error cfg1 w1" "cfg' = cfg1"
    using assms(4,6,9) False h by (auto simp: bad_try_def Let_def nat_le_iff split: if_splits)
  note hn = hold_node_ok [of "(w, cfg)" fa, unfolded fst_conv snd_conv, OF assms(2) h]
  have c: "bso_file fa e cfg1 = bso_file fa e cfg" "read_try fa cfg1 v = read_try fa cfg v" for e v
    using hn bso_file_cong read_try_cong by metis+
  have "read_try fa cfg1 w' = Some (0, 0)"
    using write_read_try [of w1 fa cfg1 0 0 error] hn assms(1,4) by (simp add: c w')
  moreover have "stat w' (bso_file fa ''.hld'' cfg) = stat w1 (bso_file fa ''.hld'' cfg)"
    using write_try_frame [of _ fa cfg1] ne by (simp add: w' c)
  ultimately show ?thesis using False hn by (simp add: c fopen_r_def)
qed

definition ex_world :: world where
  "ex_world = empty_world\<lparr>w_files := [(''/var/spool/outb'', Dir)], w_time := 1000\<rparr>"

lemma ex_bso: "length e = 4 \<Longrightarrow> bso_file ex_link e sample_cfg = ''/var/spool/outb/00020003'' @ e"
  by (simp add: bso_file_def ex_filename strnzcat_def strnzcpy_def)

lemma ex_writable: "writable ex_world ''/var/spool/outb/00020003.try''" "writable ex_world ''/var/spool/outb/00020003.hld''"
  by (simp_all add: writable_def parent_ok_def parent_def strrchr_def ex_world_def empty_world_def stat_def)

theorem bad_try_counts_witness:
  "\<exists>w. fst (bad_try (0, 0) ex_link ''Busy'' (ex_world, sample_cfg\<lparr>tries := 1, hold := 60\<rparr>)) = w \<and>
     fopen_r ''/var/spool/outb/00020003.hld'' w = Some ''1060''"
proof -
  let ?c = "sample_cfg\<lparr>tries := 1, hold := 60\<rparr>"
  have b: "bso_file ex_link e ?c = bso_file ex_link e sample_cfg" for e by (rule bso_file_cong) simp
  have r: "read_try ex_link ?c ex_world = Some (0, 0)"
    by (simp add: read_try_def b ex_bso fopen_r_def ex_world_def empty_world_def stat_def)
  obtain w' cfg' where t: "bad_try (0, 0) ex_link ''Busy'' (ex_world, ?c) = (w', cfg')" by fastforce
  have "dec_of_nat (nat (1060 mod 2 ^ 64)) = ''1060''" by code_simp
  then have "fopen_r ''/var/spool/outb/00020003.hld'' w' = Some ''1060''"
    using bad_try_counts [of ex_world ex_link ?c 0 0 "(0, 0)" "''Busy''" w' cfg'] r t ex_writable
    by (simp add: b ex_bso ex_filename ex_world_def)
  with t show ?thesis by simp
qed

text \<open>
  the names \<^verbatim>\<open>ftnaddress_to_filename\<close> gives to the files of a link are recognised by the
  scan of its directory and read back as its address.
\<close>

theorem own_name_scanned:
  assumes "ftn16 fa" "length ext = 3" "CHR ''.'' \<notin> set ext"
  shows "bso_name (own_name fa ext) \<and> name_addr fa (own_name fa ext) = fa"
proof (cases "fa_p fa = 0")
  case True
  let ?a = "hex_int 4 (fa_net fa)" and ?b = "hex_int 4 (fa_node fa)"
  have l: "length ?a = 4" "length ?b = 4" using assms(1) length_hex_int_4 by (simp_all add: ftn16_def)
  have o: "own_name fa ext = ?a @ ?b @ ''.'' @ ext" using True by (simp add: own_name_def)
  have "bso_name (own_name fa ext)"
    using assms(2,3) l isxdigit_hex_int by (auto simp: bso_name_def o nth_append)
  moreover have "name_addr fa (own_name fa ext) = fa"
    using True l assms(1) by (simp add: name_addr_def o hex_value_hex_int ftn16_def)
  ultimately show ?thesis by blast
next
  case False
  let ?a = "hex_int 8 (fa_p fa)"
  have o: "own_name fa ext = ?a @ ''.'' @ ext" using False by (simp add: own_name_def)
  have "bso_name (own_name fa ext)"
    using assms(2,3) length_hex_int_8 isxdigit_hex_int by (auto simp: bso_name_def o nth_append)
  moreover have "name_addr fa (own_name fa ext) = fa"
    using False assms(1) length_hex_int_8 to_int32_id [of "fa_p fa"]
    by (simp add: name_addr_def o hex_value_hex_int ftn16_def)
  ultimately show ?thesis by blast
qed

theorem own_name_scanned_witness:
  "bso_name (own_name ex_link ''flo'') \<and> name_addr ex_link (own_name ex_link ''flo'') = ex_link"
  by (rule own_name_scanned) (simp_all add: ftn16_def ex_link_def)

end
