(* ===== verification/Readflo.thy ===== *)
theory Readflo
  imports Types
begin

text \<open>
  Reading flow files (\<^verbatim>\<open>readflo.c\<close>): one file to send per line, with an action prefix; a line that
  starts with a tilde is done.
\<close>

text \<open>A C string ends at the first NUL of the buffer.\<close>

definition c_string :: "string \<Rightarrow> string" where
  "c_string s = takeWhile (\<lambda>c. c \<noteq> NUL_char) s"

definition strip_right :: "string \<Rightarrow> string" where
  "strip_right s = rev (dropWhile isspace (rev s))"

definition flo_entry :: "string \<Rightarrow> (string \<times> char) option" where
  "flo_entry buf = (case buf of
     [] \<Rightarrow> None
   | c # r \<Rightarrow> if c = CHR ''~'' then None
            else if c = CHR ''^'' then Some (r, CHR ''d'')
            else if c = CHR ''#'' then Some (r, CHR ''t'')
            else Some (buf, NUL_char))"

text \<open>The next entry, its action and what follows it in the file; \<open>None\<close> at the end of the file.\<close>

function read_flo_line :: "string \<Rightarrow> (string \<times> char \<times> string) option" where
  "read_flo_line flo = (case fgets MAXPATHLEN flo of
     None \<Rightarrow> None
   | Some (l, rest) \<Rightarrow> (case flo_entry (strip_right (c_string l)) of
       None \<Rightarrow> read_flo_line rest
     | Some (dst, action) \<Rightarrow> Some (dst, action, rest)))"
  by pat_completeness auto

termination read_flo_line
  by (relation "measure length") (auto dest: fgets_shorter)

declare read_flo_line.simps [simp del]

definition trans_flo_line :: "string \<Rightarrow> RF_RULE list \<Rightarrow> string option" where
  "trans_flo_line s rules = (if rules = [] then None
     else Some (foldl (\<lambda>buf r. strnzcpy (ed buf (rf_from r) (rf_to r)) MAXPATHLEN) (strnzcpy s MAXPATHLEN) rules))"

text \<open>All entries of a flow file, as the sender walks it.\<close>

lemma read_flo_line_shorter: "read_flo_line flo = Some (d, a, rest) \<Longrightarrow> length rest < length flo"
proof (induction flo rule: read_flo_line.induct)
  case (1 flo)
  show ?case
  proof (cases "fgets MAXPATHLEN flo")
    case None
    then show ?thesis using "1.prems" by (simp add: read_flo_line.simps [of flo])
  next
    case (Some lr)
    obtain l r where lr: "lr = (l, r)" by (cases lr)
    have s: "length r < length flo" using Some lr fgets_shorter [of MAXPATHLEN flo l r] by simp
    show ?thesis
    proof (cases "flo_entry (strip_right (c_string l))")
      case None
      then have "read_flo_line r = Some (d, a, rest)"
        using "1.prems" Some lr by (simp add: read_flo_line.simps [of flo])
      then show ?thesis using "1.IH" [OF Some lr [symmetric] None] s by simp
    next
      case (Some e)
      then show ?thesis
        using "1.prems" \<open>fgets MAXPATHLEN flo = Some lr\<close> lr s
        by (auto simp: read_flo_line.simps [of flo] split: prod.splits)
    qed
  qed
qed

function flo_entries :: "string \<Rightarrow> (string \<times> char) list" where
  "flo_entries flo = (case read_flo_line flo of None \<Rightarrow> [] | Some (d, a, rest) \<Rightarrow> (d, a) # flo_entries rest)"
  by pat_completeness auto

termination flo_entries
  by (relation "measure length") (auto dest: read_flo_line_shorter)

declare flo_entries.simps [simp del]

section \<open>What a flow file says\<close>

text \<open>A line of a flow file as a tosser writes it: short, without newline, NUL and trailing space.\<close>

definition flo_line :: "string \<Rightarrow> bool" where
  "flo_line l \<longleftrightarrow> length l < MAXPATHLEN - 1 \<and> CHR 0x0A \<notin> set l \<and> NUL_char \<notin> set l \<and> (l \<noteq> [] \<longrightarrow> \<not> isspace (last l))"

definition flo_text :: "string list \<Rightarrow> string" where
  "flo_text ls = concat (map (\<lambda>l. l @ [CHR 0x0A]) ls)"

lemma fgets_line:
  assumes "CHR 0x0A \<notin> set l" "length l < n - 1"
  shows "fgets n (l @ CHR 0x0A # s) = Some (l @ [CHR 0x0A], s)"
proof -
  have "takeWhile (\<lambda>c. c \<noteq> CHR 0x0A) (l @ CHR 0x0A # s) = l"
    using assms(1) by (auto intro: takeWhile_append_stop)
  moreover have "min (n - 1) (Suc (length l)) = Suc (length l)" using assms(2) by simp
  ultimately show ?thesis by (simp add: fgets_def Let_def)
qed

lemma strip_line:
  assumes "flo_line l"
  shows "strip_right (c_string (l @ [CHR 0x0A])) = l"
proof -
  have "c_string (l @ [CHR 0x0A]) = l @ [CHR 0x0A]"
    using assms by (auto simp: c_string_def flo_line_def takeWhile_eq_all_conv)
  moreover have "isspace (CHR 0x0A)" by (simp add: isspace_def)
  moreover have "dropWhile isspace (rev l) = rev l"
    using assms by (cases l rule: rev_cases) (auto simp: flo_line_def)
  ultimately show ?thesis by (simp add: strip_right_def)
qed

lemma flo_entries_line:
  assumes "flo_line l"
  shows "flo_entries (l @ CHR 0x0A # s) = (case flo_entry l of None \<Rightarrow> [] | Some e \<Rightarrow> [e]) @ flo_entries s"
proof -
  have "read_flo_line (l @ CHR 0x0A # s) = (case flo_entry l of None \<Rightarrow> read_flo_line s | Some (d, a) \<Rightarrow> Some (d, a, s))"
    using assms by (subst read_flo_line.simps) (simp add: fgets_line strip_line flo_line_def split: option.split)
  then show ?thesis
    by (auto simp: flo_entries.simps [of "l @ CHR 0x0A # s"] flo_entries.simps [of s] split: option.split)
qed

lemma flo_entries_text:
  assumes "\<forall>l\<in>set ls. flo_line l"
  shows "flo_entries (flo_text ls) = List.map_filter flo_entry ls"
  using assms
proof (induction ls)
  case Nil
  then show ?case by (simp add: flo_text_def flo_entries.simps read_flo_line.simps fgets_def)
next
  case (Cons l ls)
  then have "flo_entries (flo_text (l # ls)) = (case flo_entry l of None \<Rightarrow> [] | Some e \<Rightarrow> [e]) @ flo_entries (flo_text ls)"
    using flo_entries_line by (simp add: flo_text_def)
  with Cons show ?case by (simp add: map_filter_simps split: option.split)
qed

section \<open>Properties\<close>

text \<open>
  reading a flow file delivers, in order, exactly the lines that are not done, each with
  the action its prefix asks for.
\<close>

theorem flo_entries_correct:
  assumes "\<forall>l\<in>set ls. flo_line l"
  shows "flo_entries (flo_text ls) = List.map_filter flo_entry ls"
  using assms by (rule flo_entries_text)

theorem flo_entries_correct_witness:
  "flo_entries (flo_text [''~/out/a.mo0'', ''^/out/b.tu1'', ''/out/c.zip'']) =
     [(''/out/b.tu1'', CHR ''d''), (''/out/c.zip'', NUL_char)]"
  by (subst flo_entries_correct) (simp_all add: flo_line_def isspace_def flo_entry_def map_filter_simps)

end
