(* ===== verification/Prothlp.thy ===== *)
theory Prothlp
  imports Types
begin

text \<open>
  Helpers of the session (\<^verbatim>\<open>prothlp.c\<close>): comparing files in transfer, the list of files to remove
  after the session, the list of received files, and the name a file travels under.
\<close>

abbreviation MAX_NETNAME :: nat where "MAX_NETNAME \<equiv> 255"

definition TF_ZERO :: TFILE where
  "TF_ZERO = \<lparr>t_path = [], t_flo = [], t_netname = [], t_action = NUL_char, t_type = NUL_char, t_size = 0,
     t_start = 0, t_time = 0, t_f = None, t_fa = \<lparr>fa_domain = [], fa_z = 0, fa_net = 0, fa_node = 0, fa_p = 0\<rparr>\<rparr>"

text \<open>The difference of the times is returned as an \<^verbatim>\<open>int\<close>.\<close>

definition tfile_cmp :: "TFILE \<Rightarrow> string \<Rightarrow> int \<Rightarrow> int \<Rightarrow> int" where
  "tfile_cmp a name sz tm =
    (let rc = strcmp (strdequote (t_netname a)) (strdequote name); sizediff = to_int64 (t_size a - sz) in
     if rc \<noteq> 0 then rc
     else if sizediff \<noteq> 0 then (if sizediff > 0 then 1 else -1)
     else if t_time a \<noteq> tm then to_int32 (t_time a - tm)
     else 0)"

definition add_to_killlist :: "KILLLIST list \<Rightarrow> string \<Rightarrow> char \<Rightarrow> KILLLIST list" where
  "add_to_killlist killlist name cond = killlist @ [\<lparr>k_name = strnzcpy name MAXPATHLEN, k_cond = cond\<rparr>]"

fun q_to_killlist :: "KILLLIST list \<Rightarrow> FTNQ list \<Rightarrow> KILLLIST list \<times> FTNQ list" where
  "q_to_killlist k [] = (k, [])"
| "q_to_killlist k (e # es) =
    (if q_action e = CHR ''a''
     then (case q_to_killlist (add_to_killlist k (q_path e) NUL_char) es of (k', es') \<Rightarrow> (k', e\<lparr>q_action := NUL_char\<rparr> # es'))
     else (case q_to_killlist k es of (k', es') \<Rightarrow> (k', e # es')))"

definition process_killlist :: "KILLLIST list \<Rightarrow> char \<Rightarrow> world \<Rightarrow> world" where
  "process_killlist killlist flag w = fold (\<lambda>k w.
     if k_cond k \<noteq> CHR ''s'' \<or> (flag = CHR ''s'' \<and> k_cond k = CHR ''s'') then snd (delete (k_name k) w) else w) killlist w"

definition add_to_rcvdlist :: "string list \<Rightarrow> string \<Rightarrow> string list" where
  "add_to_rcvdlist rcvdlist name = rcvdlist @ [strnzcpy name MAXPATHLEN]"

definition weekext :: "string list" where
  "weekext = [''su'', ''mo'', ''tu'', ''we'', ''th'', ''fr'', ''sa'']"

text \<open>An extension of three characters like \<open>3#a\<close> gets the name of the week day.\<close>

definition arcshield :: "string \<Rightarrow> string" where
  "arcshield s = (case strrchr s (CHR ''.'') of
     None \<Rightarrow> s
   | Some i \<Rightarrow> let z = drop (Suc i) s in
       if length z = 3 \<and> 48 \<le> ord (z ! 0) \<and> ord (z ! 0) < 55 \<and> z ! 1 = CHR ''#''
       then take (Suc i) s @ weekext ! (ord (z ! 0) - 48) @ drop 2 z else s)"

text \<open>\<open>r\<close> is the random number \<^verbatim>\<open>rnd\<close> returns.\<close>

definition netname :: "nat \<Rightarrow> TFILE \<Rightarrow> string" where
  "netname r q =
    (if t_type q = CHR ''m'' then hex_pad 8 (r mod 2 ^ 32) @ ''.pkt''
     else if t_type q = CHR ''r'' then hex_pad 8 (r mod 2 ^ 32) @ ''.req''
     else strnzcpy (strquote (arcshield (strnzcpy (extract_filename (t_path q)) MAX_NETNAME))
            \<lparr>SQ_CNTRL = True, SQ_SPACE = True\<rparr>) MAX_NETNAME)"

section \<open>Lemmas\<close>

lemma tfile_cmp_0:
  assumes "- (2 ^ 62) \<le> t_size a" "t_size a < 2 ^ 62" "- (2 ^ 62) \<le> sz" "sz < 2 ^ 62"
    and "\<bar>t_time a - tm\<bar> < 2 ^ 31"
  shows "tfile_cmp a name sz tm = 0 \<longleftrightarrow>
    strdequote (t_netname a) = strdequote name \<and> t_size a = sz \<and> t_time a = tm"
proof -
  have "to_int64 (t_size a - sz) = t_size a - sz" using assms by (intro to_int64_id) auto
  moreover have "to_int32 (t_time a - tm) = t_time a - tm" using assms(5) by (intro to_int32_id) auto
  ultimately show ?thesis by (simp add: tfile_cmp_def Let_def)
qed

lemma q_to_killlist_eq:
  "q_to_killlist k es = (k @ map (\<lambda>e. \<lparr>k_name = strnzcpy (q_path e) MAXPATHLEN, k_cond = NUL_char\<rparr>)
     (filter (\<lambda>e. q_action e = CHR ''a'') es),
     map (\<lambda>e. if q_action e = CHR ''a'' then e\<lparr>q_action := NUL_char\<rparr> else e) es)"
  by (induction es arbitrary: k) (auto simp: add_to_killlist_def)

definition doomed :: "KILLLIST list \<Rightarrow> char \<Rightarrow> string set" where
  "doomed ks flag = k_name ` {k \<in> set ks. k_cond k \<noteq> CHR ''s'' \<or> flag = CHR ''s''}"

lemma process_killlist_Cons:
  "process_killlist (k # ks) flag w = process_killlist ks flag
    (if k_cond k \<noteq> CHR ''s'' \<or> flag = CHR ''s'' then snd (delete (k_name k) w) else w)"
  by (auto simp: process_killlist_def)

lemma doomed_Cons:
  "p \<in> doomed (k # ks) flag \<longleftrightarrow> (p = k_name k \<and> (k_cond k \<noteq> CHR ''s'' \<or> flag = CHR ''s'')) \<or> p \<in> doomed ks flag"
  by (auto simp: doomed_def)

lemma process_killlist_keeps: "p \<notin> doomed ks flag \<Longrightarrow> stat (process_killlist ks flag w) p = stat w p"
proof (induction ks arbitrary: w)
  case Nil
  then show ?case by (simp add: process_killlist_def)
next
  case (Cons k ks)
  then show ?case by (auto simp: process_killlist_Cons doomed_Cons delete_frame)
qed

lemma kill_absent: "stat w p = None \<Longrightarrow> stat (process_killlist ks flag w) p = None"
proof -
  have d: "stat w p = None \<Longrightarrow> stat (snd (delete q w)) p = None" for w q
    by (cases "unlink q w") (auto simp: delete_def dest!: unlink_cases)
  show "stat w p = None \<Longrightarrow> stat (process_killlist ks flag w) p = None"
    unfolding process_killlist_def by (induction ks arbitrary: w) (auto simp: d)
qed

lemma process_killlist_kills:
  "p \<in> doomed ks flag \<Longrightarrow> is_file w p \<Longrightarrow> \<not> denied w p \<Longrightarrow> stat (process_killlist ks flag w) p = None"
proof (induction ks arbitrary: w)
  case (Cons k ks)
  let ?hit = "k_cond k \<noteq> CHR ''s'' \<or> flag = CHR ''s''"
  show ?case
  proof (cases "?hit \<and> k_name k = p")
    case True
    then have "stat (snd (delete (k_name k) w)) p = None" using Cons.prems delete_gone [of w p] by simp
    then show ?thesis using True kill_absent by (auto simp: process_killlist_Cons)
  next
    case False
    let ?w = "if ?hit then snd (delete (k_name k) w) else w"
    have "p \<in> doomed ks flag" using Cons.prems(1) False by (auto simp: doomed_Cons)
    moreover have "is_file ?w p"
      using Cons.prems(2) False is_file_stat [OF delete_frame [of p "k_name k" w]] by auto
    moreover have "w_denied (snd (delete (k_name k) w)) = w_denied w"
      by (cases "unlink (k_name k) w") (auto simp: delete_def dest!: unlink_cases)
    then have "\<not> denied ?w p" using Cons.prems(3) by simp
    ultimately show ?thesis using Cons.IH by (simp add: process_killlist_Cons)
  qed
qed (simp add: doomed_def)

section \<open>Properties\<close>

text \<open>
  processing the kill list removes exactly the files on it whose condition holds: those
  for a successful session only when it was one.
\<close>

theorem process_killlist_exact:
  assumes "is_file w p" "\<not> denied w p"
  shows "stat (process_killlist ks flag w) p =
    (if \<exists>k\<in>set ks. k_name k = p \<and> (k_cond k \<noteq> CHR ''s'' \<or> flag = CHR ''s'') then None else stat w p)"
proof -
  have "(\<exists>k\<in>set ks. k_name k = p \<and> (k_cond k \<noteq> CHR ''s'' \<or> flag = CHR ''s'')) \<longleftrightarrow> p \<in> doomed ks flag"
    by (auto simp: doomed_def)
  then show ?thesis using process_killlist_keeps process_killlist_kills [OF _ assms] by auto
qed

theorem process_killlist_exact_witness:
  "stat (process_killlist [\<lparr>k_name = ''r'', k_cond = CHR ''s''\<rparr>] NUL_char
     (empty_world\<lparr>w_files := [(''r'', File ''x'' 0)]\<rparr>)) ''r'' = Some (File ''x'' 0)"
proof -
  let ?w = "empty_world\<lparr>w_files := [(''r'', File ''x'' 0)]\<rparr>"
  have "is_file ?w ''r''" "\<not> denied ?w ''r''" by (simp_all add: is_file_def stat_def empty_world_def)
  from process_killlist_exact [OF this, of "[\<lparr>k_name = ''r'', k_cond = CHR ''s''\<rparr>]" NUL_char]
  show ?thesis by (simp add: stat_def)
qed

end
