(* ===== verification/Md5b.thy ===== *)
theory Md5b
  imports Crypt Strings
begin

text \<open>
  MD5, HMAC-MD5 and the CRAM challenge (\<^verbatim>\<open>md5b.c\<close>).  \<^verbatim>\<open>UINT4\<close> is a 32-bit word; the context is updated
  in pieces of any size as in the source, and related to a reference definition on whole messages.
\<close>

section \<open>The transformation\<close>

definition F :: "u32 \<Rightarrow> u32 \<Rightarrow> u32 \<Rightarrow> u32" where
  "F x y z = (x AND y) OR (NOT x AND z)"

definition G :: "u32 \<Rightarrow> u32 \<Rightarrow> u32 \<Rightarrow> u32" where
  "G x y z = (x AND z) OR (y AND NOT z)"

definition H :: "u32 \<Rightarrow> u32 \<Rightarrow> u32 \<Rightarrow> u32" where
  "H x y z = x XOR y XOR z"

definition I :: "u32 \<Rightarrow> u32 \<Rightarrow> u32 \<Rightarrow> u32" where
  "I x y z = y XOR (x OR NOT z)"

definition ROTATE_LEFT :: "u32 \<Rightarrow> nat \<Rightarrow> u32" where
  "ROTATE_LEFT x n = push_bit n x OR drop_bit (32 - n) x"

type_synonym abcd = "u32 \<times> u32 \<times> u32 \<times> u32"

text \<open>
  One line of the transformation, \<open>FF (a, b, c, d, x[k], s, ac)\<close> and so on; the next line names the
  variables one place further, so the result is rotated.
\<close>

definition md5_step :: "(u32 \<Rightarrow> u32 \<Rightarrow> u32 \<Rightarrow> u32) \<Rightarrow> u32 list \<Rightarrow> nat \<times> nat \<times> u32 \<Rightarrow> abcd \<Rightarrow> abcd" where
  "md5_step f x ksc v = (case ksc of (k, s, ac) \<Rightarrow> case v of (a, b, c, d) \<Rightarrow>
     (d, ROTATE_LEFT (a + (f b c d + x ! k + ac)) s + b, b, c))"

definition round1 :: "(nat \<times> nat \<times> u32) list" where
  "round1 = [(0, 7, 0xd76aa478), (1, 12, 0xe8c7b756), (2, 17, 0x242070db), (3, 22, 0xc1bdceee),
     (4, 7, 0xf57c0faf), (5, 12, 0x4787c62a), (6, 17, 0xa8304613), (7, 22, 0xfd469501),
     (8, 7, 0x698098d8), (9, 12, 0x8b44f7af), (10, 17, 0xffff5bb1), (11, 22, 0x895cd7be),
     (12, 7, 0x6b901122), (13, 12, 0xfd987193), (14, 17, 0xa679438e), (15, 22, 0x49b40821)]"

definition round2 :: "(nat \<times> nat \<times> u32) list" where
  "round2 = [(1, 5, 0xf61e2562), (6, 9, 0xc040b340), (11, 14, 0x265e5a51), (0, 20, 0xe9b6c7aa),
     (5, 5, 0xd62f105d), (10, 9, 0x2441453), (15, 14, 0xd8a1e681), (4, 20, 0xe7d3fbc8),
     (9, 5, 0x21e1cde6), (14, 9, 0xc33707d6), (3, 14, 0xf4d50d87), (8, 20, 0x455a14ed),
     (13, 5, 0xa9e3e905), (2, 9, 0xfcefa3f8), (7, 14, 0x676f02d9), (12, 20, 0x8d2a4c8a)]"

definition round3 :: "(nat \<times> nat \<times> u32) list" where
  "round3 = [(5, 4, 0xfffa3942), (8, 11, 0x8771f681), (11, 16, 0x6d9d6122), (14, 23, 0xfde5380c),
     (1, 4, 0xa4beea44), (4, 11, 0x4bdecfa9), (7, 16, 0xf6bb4b60), (10, 23, 0xbebfbc70),
     (13, 4, 0x289b7ec6), (0, 11, 0xeaa127fa), (3, 16, 0xd4ef3085), (6, 23, 0x4881d05),
     (9, 4, 0xd9d4d039), (12, 11, 0xe6db99e5), (15, 16, 0x1fa27cf8), (2, 23, 0xc4ac5665)]"

definition round4 :: "(nat \<times> nat \<times> u32) list" where
  "round4 = [(0, 6, 0xf4292244), (7, 10, 0x432aff97), (14, 15, 0xab9423a7), (5, 21, 0xfc93a039),
     (12, 6, 0x655b59c3), (3, 10, 0x8f0ccc92), (10, 15, 0xffeff47d), (1, 21, 0x85845dd1),
     (8, 6, 0x6fa87e4f), (15, 10, 0xfe2ce6e0), (6, 15, 0xa3014314), (13, 21, 0x4e0811a1),
     (4, 6, 0xf7537e82), (11, 10, 0xbd3af235), (2, 15, 0x2ad7d2bb), (9, 21, 0xeb86d391)]"

fun Decode :: "byte list \<Rightarrow> u32 list" where
  "Decode (a # b # c # d # r) =
     (ucast a OR push_bit 8 (ucast b) OR push_bit 16 (ucast c) OR push_bit 24 (ucast d)) # Decode r"
| "Decode _ = []"

definition enc_word :: "u32 \<Rightarrow> byte list" where
  "enc_word w = [ucast (w AND 0xFF), ucast (drop_bit 8 w AND 0xFF), ucast (drop_bit 16 w AND 0xFF),
     ucast (drop_bit 24 w AND 0xFF)]"

definition Encode :: "u32 list \<Rightarrow> byte list" where
  "Encode ws = concat (map enc_word ws)"

definition MD5Transform :: "abcd \<Rightarrow> byte list \<Rightarrow> abcd" where
  "MD5Transform st block =
    (let x = Decode block;
         v1 = foldl (\<lambda>v k. md5_step F x k v) st round1;
         v2 = foldl (\<lambda>v k. md5_step G x k v) v1 round2;
         v3 = foldl (\<lambda>v k. md5_step H x k v) v2 round3;
         v4 = foldl (\<lambda>v k. md5_step I x k v) v3 round4
     in case st of (s0, s1, s2, s3) \<Rightarrow> case v4 of (a, b, c, d) \<Rightarrow> (s0 + a, s1 + b, s2 + c, s3 + d))"

section \<open>Contexts\<close>

record MD5_CTX =
  md_state :: abcd
  count0 :: u32
  count1 :: u32
  md_buffer :: "byte list"

text \<open>\<open>old\<close> is what the memory of the context held before; only the buffer keeps it.\<close>

definition MD5Init :: "byte list \<Rightarrow> MD5_CTX" where
  "MD5Init old = \<lparr>md_state = (0x67452301, 0xefcdab89, 0x98badcfe, 0x10325476), count0 = 0, count1 = 0,
     md_buffer = old\<rparr>"

text \<open>The loop over whole blocks of the input; what is left goes to the buffer.\<close>

function transform_blocks :: "abcd \<Rightarrow> byte list \<Rightarrow> abcd \<times> byte list" where
  "transform_blocks st bs =
    (if 64 \<le> length bs then transform_blocks (MD5Transform st (take 64 bs)) (drop 64 bs) else (st, bs))"
  by pat_completeness auto

termination transform_blocks
  by (relation "measure (\<lambda>(s, b). length b)") auto

declare transform_blocks.simps [simp del]

definition memcpy :: "byte list \<Rightarrow> nat \<Rightarrow> byte list \<Rightarrow> byte list" where
  "memcpy buf at inp = take at buf @ inp @ drop (at + length inp) buf"

definition MD5Update :: "MD5_CTX \<Rightarrow> byte list \<Rightarrow> MD5_CTX" where
  "MD5Update ctx input =
    (let index = unat (drop_bit 3 (count0 ctx) AND 0x3F);
         len = (word_of_nat (length input) :: u32);
         c0 = count0 ctx + push_bit 3 len;
         c1 = (if c0 < push_bit 3 len then count1 ctx + 1 else count1 ctx) + drop_bit 29 len;
         partLen = 64 - index
     in if partLen \<le> length input then
          (case transform_blocks (MD5Transform (md_state ctx) (memcpy (md_buffer ctx) index (take partLen input)))
                  (drop partLen input) of
             (st, rest) \<Rightarrow> \<lparr>md_state = st, count0 = c0, count1 = c1,
               md_buffer = memcpy (memcpy (md_buffer ctx) index (take partLen input)) 0 rest\<rparr>)
        else \<lparr>md_state = md_state ctx, count0 = c0, count1 = c1, md_buffer = memcpy (md_buffer ctx) index input\<rparr>)"

definition PADDING :: "byte list" where
  "PADDING = 0x80 # replicate 63 0"

definition words_of :: "abcd \<Rightarrow> u32 list" where
  "words_of v = (case v of (a, b, c, d) \<Rightarrow> [a, b, c, d])"

definition MD5Final :: "MD5_CTX \<Rightarrow> byte list" where
  "MD5Final ctx =
    (let bits = Encode [count0 ctx, count1 ctx];
         index = unat (drop_bit 3 (count0 ctx) AND 0x3F);
         padLen = (if index < 56 then 56 - index else 120 - index)
     in Encode (words_of (md_state (MD5Update (MD5Update ctx (take padLen PADDING)) bits))))"

section \<open>HMAC and the challenge\<close>

text \<open>
  The contexts of \<^verbatim>\<open>hmac_md5\<close> are uninitialised local variables; what the buffer holds does not matter
  (\<open>MD5Final_ref\<close>), so it is taken to be zero here.
\<close>

definition md5_of :: "byte list list \<Rightarrow> byte list" where
  "md5_of parts = MD5Final (foldl MD5Update (MD5Init (replicate 64 0)) parts)"

definition hmac_md5 :: "byte list \<Rightarrow> byte list \<Rightarrow> byte list" where
  "hmac_md5 text key0 =
    (let key = (if 64 < length key0 then md5_of [key0] else key0);
         pad = key @ replicate (64 - length key) 0;
         inner = md5_of [map (\<lambda>b. b XOR 0x36) pad, text]
     in md5_of [map (\<lambda>b. b XOR 0x5c) pad, inner])"

abbreviation MD5_DIGEST_LEN :: nat where "MD5_DIGEST_LEN \<equiv> 16"
abbreviation MD_CHALLENGE_LEN :: nat where "MD_CHALLENGE_LEN \<equiv> 16"

text \<open>
  A fresh challenge: the length, then what \<^verbatim>\<open>getrand\<close> fills in (\<open>rnd\<close>, sixteen bytes); the loop asks
  it for one byte less than the length, so the last byte is the filler of \<^verbatim>\<open>xalloc\<close>.
\<close>

definition new_challenge :: "byte list \<Rightarrow> byte list" where
  "new_challenge rnd = [of_nat MD_CHALLENGE_LEN] @ take (MD_CHALLENGE_LEN - 1) rnd @ [0xEE]"

fun strstr :: "string \<Rightarrow> string \<Rightarrow> string option" where
  "strstr s pat = (if take (length pat) s = pat then Some s
     else case s of [] \<Rightarrow> None | c # r \<Rightarrow> strstr r pat)"

declare strstr.simps [simp del]

definition nibble :: "char \<Rightarrow> byte" where
  "nibble c = word_of_nat (let l = ord (tolower c) in if l > 57 then l - 87 else l - 48)"

text \<open>The bytes the second loop stores from index 1 on; an odd digit starts another byte.\<close>

fun pack_hex :: "string \<Rightarrow> byte list" where
  "pack_hex (a # b # r) = (push_bit 4 (nibble a) OR nibble b) # pack_hex r"
| "pack_hex [a] = [push_bit 4 (nibble a)]"
| "pack_hex [] = []"

definition challenge_digits :: "string \<Rightarrow> string option" where
  "challenge_digits str =
    (case strstr str ''CRAM'' of None \<Rightarrow> None
     | Some sp1 \<Rightarrow> (case strstr sp1 ''MD5'' of None \<Rightarrow> None
       | Some sp2 \<Rightarrow> let sp = drop 1 (dropWhile (\<lambda>c. c \<noteq> CHR ''-'') sp2) in
           if sp = [] then None else Some (take 128 (takeWhile isxdigit sp))))"

text \<open>
  \<^verbatim>\<open>MD_getChallenge\<close> of a received option: the length byte and the stored bytes.  The block has
  room for \<open>challenge_room\<close> bytes after the length byte.
\<close>

definition MD_getChallenge :: "string \<Rightarrow> byte list option" where
  "MD_getChallenge str = map_option (\<lambda>ds. word_of_nat (length ds div 2) # pack_hex ds) (challenge_digits str)"

definition challenge_room :: "string \<Rightarrow> nat" where
  "challenge_room ds = length ds div 2"

definition hex_char :: "byte \<Rightarrow> char" where
  "hex_char b = char_of (if b > 9 then unat b + 87 else unat b + 48)"

definition MD_toString :: "byte list \<Rightarrow> string" where
  "MD_toString digest = ''CRAM-MD5-'' @ concat (map (\<lambda>b. [hex_char (drop_bit 4 b), hex_char (b AND 0xF)]) digest)"

text \<open>The challenge starts with its length; \<^verbatim>\<open>strlen\<close> of the password gives the key.\<close>

definition MD_buildDigest :: "string \<Rightarrow> byte list \<Rightarrow> string" where
  "MD_buildDigest pw challenge =
     MD_toString (hmac_md5 (take (unat (challenge ! 0)) (tl challenge)) (map of_char pw))"

section \<open>A reference definition\<close>

text \<open>MD5 of a whole message: pad it with its length and transform the blocks.\<close>

definition md5_pad :: "byte list \<Rightarrow> byte list" where
  "md5_pad m = take (if length m mod 64 < 56 then 56 - length m mod 64 else 120 - length m mod 64) PADDING @
     Encode [word_of_nat (8 * length m), word_of_nat (8 * length m div 2 ^ 32)]"

definition md5_ref :: "byte list \<Rightarrow> byte list" where
  "md5_ref m = Encode (words_of (fst (transform_blocks (md_state (MD5Init [])) (m @ md5_pad m))))"

lemma transform_blocks_append:
  "transform_blocks st (xs @ ys) =
    (case transform_blocks st xs of (st', rest) \<Rightarrow> transform_blocks st' (rest @ ys))"
proof (induction st xs rule: transform_blocks.induct)
  case (1 st xs)
  show ?case
  proof (cases "64 \<le> length xs")
    case True
    have "transform_blocks st (xs @ ys) = transform_blocks (MD5Transform st (take 64 xs)) (drop 64 xs @ ys)"
      using True by (subst transform_blocks.simps) simp
    also have "\<dots> = (case transform_blocks (MD5Transform st (take 64 xs)) (drop 64 xs) of
        (st', rest) \<Rightarrow> transform_blocks st' (rest @ ys))"
      by (rule "1.IH" [OF True])
    also have "transform_blocks (MD5Transform st (take 64 xs)) (drop 64 xs) = transform_blocks st xs"
      using True by (simp add: transform_blocks.simps [of st xs])
    finally show ?thesis .
  next
    case False
    then show ?thesis by (simp add: transform_blocks.simps [of st xs])
  qed
qed

lemma transform_blocks_rest: "length (snd (transform_blocks st xs)) = length xs mod 64"
proof (induction st xs rule: transform_blocks.induct)
  case (1 st xs)
  then show ?case
    by (cases "64 \<le> length xs") (simp_all add: transform_blocks.simps [of st xs] le_mod_geq)
qed

text \<open>A context that has seen the message \<open>m\<close>.\<close>

definition ctx_of :: "MD5_CTX \<Rightarrow> byte list \<Rightarrow> bool" where
  "ctx_of ctx m \<longleftrightarrow>
     md_state ctx = fst (transform_blocks (md_state (MD5Init [])) m) \<and>
     take (length m mod 64) (md_buffer ctx) = snd (transform_blocks (md_state (MD5Init [])) m) \<and>
     length (md_buffer ctx) = 64 \<and>
     count0 ctx = word_of_nat (8 * length m) \<and> count1 ctx = word_of_nat (8 * length m div 2 ^ 32)"

lemma ctx_of_init: "length old = 64 \<Longrightarrow> ctx_of (MD5Init old) []"
  by (simp add: ctx_of_def MD5Init_def transform_blocks.simps)

lemma nat_and_63: "(x :: nat) AND 63 = x mod 64"
  using take_bit_eq_mask [of 6 x] by (simp add: take_bit_eq_mod mask_eq_exp_minus_1)

lemma index_of_count: "unat (drop_bit 3 (word_of_nat (8 * n) :: u32) AND 0x3F) = n mod 64"
proof -
  have "unat (drop_bit 3 (word_of_nat (8 * n) :: u32)) = (8 * n mod 2 ^ 32) div 8"
    by (subst unat_drop_bit_eq, subst unat_of_nat) (simp add: drop_bit_eq_div)
  moreover have "(8 * n mod 2 ^ 32) div 8 = n mod 2 ^ 29"
    by (simp add: mult_mod_right [of 8 n "2 ^ 29", symmetric, simplified])
  moreover have "n mod 2 ^ 29 mod 64 = n mod 64"
    using mod_mod_cancel [of 64 "2 ^ 29" n] by simp
  ultimately show ?thesis
    by (simp add: unsigned_and_eq nat_and_63 del: of_nat_mult)
qed

lemma count_step:
  fixes n c :: nat
  assumes "n < 2 ^ 32"
  shows "(let l = (word_of_nat n :: u32); c0 = word_of_nat c + push_bit 3 l in
      (if c0 < push_bit 3 l then word_of_nat (c div 2 ^ 32) + 1 else word_of_nat (c div 2 ^ 32)) + drop_bit 29 l) =
    (word_of_nat ((c + 8 * n) div 2 ^ 32) :: u32)"
proof -
  let ?B = "2 ^ 32 :: nat"
  let ?L = "push_bit 3 (word_of_nat n :: u32)"
  have L: "?L = word_of_nat (8 * n)" by (simp add: push_bit_eq_mult mult.commute)
  have uL: "unat ?L = 8 * n mod ?B" unfolding L by (simp add: unat_of_nat del: of_nat_mult)
  have uC: "unat (word_of_nat c :: u32) = c mod ?B" by (simp add: unat_of_nat)
  have "n = unat (word_of_nat n :: u32)" using assms by (simp add: unat_of_nat)
  then have "unat (drop_bit 29 (word_of_nat n :: u32)) = n div 2 ^ 29"
    by (metis drop_bit_eq_div unat_drop_bit_eq)
  also have "n div 2 ^ 29 = 8 * n div ?B" by simp
  finally have D: "drop_bit 29 (word_of_nat n :: u32) = word_of_nat (8 * n div ?B)"
    by (simp only: word_unat_eq_iff unat_of_nat) (use assms in simp)
  have "unat (word_of_nat c + ?L) = (c mod ?B + 8 * n mod ?B) mod ?B"
    by (simp only: unat_word_ariths(1) uL uC) simp
  then have carry: "word_of_nat c + ?L < ?L \<longleftrightarrow> ?B \<le> c mod ?B + 8 * n mod ?B"
    unfolding word_less_nat_alt uL
    by (cases "?B \<le> c mod ?B + 8 * n mod ?B") (simp_all add: le_mod_geq mod_less_divisor less_diff_conv2 del: mod_mult_self1)
  have "(c + 8 * n) div ?B = c div ?B + 8 * n div ?B + (c mod ?B + 8 * n mod ?B) div ?B"
    by (rule div_add1_eq)
  also have "(c mod ?B + 8 * n mod ?B) div ?B = (if ?B \<le> c mod ?B + 8 * n mod ?B then 1 else 0)"
    by (simp add: le_div_geq)
  finally show ?thesis
    unfolding Let_def carry D by (simp only: of_nat_add split: if_split) (simp add: algebra_simps)
qed

lemma count0_step:
  "word_of_nat (8 * length m) + push_bit 3 (word_of_nat (length inp)) = (word_of_nat (8 * length (m @ inp)) :: u32)"
  by (simp add: push_bit_eq_mult)

lemma ctx_of_update:
  assumes "ctx_of ctx m" "length inp < 2 ^ 32"
  shows "ctx_of (MD5Update ctx inp) (m @ inp)"
proof -
  let ?s0 = "md_state (MD5Init [])" and ?i = "length m mod 64"
  obtain st rest where t: "transform_blocks ?s0 m = (st, rest)" by (metis surj_pair)
  have rest: "length rest = ?i" using transform_blocks_rest [of ?s0 m] by (simp add: t)
  have c: "md_state ctx = st" "take ?i (md_buffer ctx) = rest" "length (md_buffer ctx) = 64"
    "count0 ctx = word_of_nat (8 * length m)" "count1 ctx = word_of_nat (8 * length m div 2 ^ 32)"
    using assms(1) by (auto simp: ctx_of_def t)
  have idx: "unat (drop_bit 3 (count0 ctx) AND 0x3F) = ?i" unfolding c(4) by (rule index_of_count)
  have app: "transform_blocks ?s0 (m @ inp) = transform_blocks st (rest @ inp)"
    by (subst transform_blocks_append) (simp add: t)
  have c0: "count0 ctx + push_bit 3 (word_of_nat (length inp)) = word_of_nat (8 * length (m @ inp))"
    unfolding c(4) by (rule count0_step)
  have c1: "(if count0 ctx + push_bit 3 (word_of_nat (length inp)) < push_bit 3 (word_of_nat (length inp))
      then count1 ctx + 1 else count1 ctx) + drop_bit 29 (word_of_nat (length inp) :: u32) =
      word_of_nat (8 * length (m @ inp) div 2 ^ 32)"
    using count_step [OF assms(2), of "8 * length m"] by (simp only: Let_def c(4,5) length_append distrib_left)
  note cs = c0 c1 [unfolded c0]
  have lm: "length (m @ inp) mod 64 = (?i + length inp) mod 64" by (simp add: mod_add_left_eq)
  show ?thesis
  proof (cases "64 - ?i \<le> length inp")
    case False
    let ?u = "MD5Update ctx inp"
    have u: "md_state ?u = st" "md_buffer ?u = memcpy (md_buffer ctx) ?i inp"
      "count0 ?u = word_of_nat (8 * length (m @ inp))" "count1 ?u = word_of_nat (8 * length (m @ inp) div 2 ^ 32)"
      using False by (simp_all only: MD5Update_def Let_def idx cs if_False MD5_CTX.simps c(1))
    have sum: "\<not> 64 \<le> length (rest @ inp)" using False rest by simp
    then have "transform_blocks st (rest @ inp) = (st, rest @ inp)" by (subst transform_blocks.simps) simp
    moreover have "length (m @ inp) mod 64 = length (rest @ inp)" unfolding lm using sum rest by simp
    moreover have "take (length (rest @ inp)) (memcpy (md_buffer ctx) ?i inp) = rest @ inp"
      "length (memcpy (md_buffer ctx) ?i inp) = 64"
      using c(2,3) rest sum by (simp_all add: memcpy_def)
    ultimately show ?thesis by (simp only: ctx_of_def u app c(3) fst_conv snd_conv)
  next
    case True
    let ?u = "MD5Update ctx inp" and ?p = "64 - ?i"
    obtain st2 rest2 where t2: "transform_blocks (MD5Transform st (rest @ take ?p inp)) (drop ?p inp) = (st2, rest2)"
      by (metis surj_pair)
    have mc: "memcpy (md_buffer ctx) ?i (take ?p inp) = rest @ take ?p inp"
      using True c(2,3) by (simp add: memcpy_def)
    have len: "length (rest @ take ?p inp) = 64" using True rest by simp
    have u: "md_state ?u = st2" "md_buffer ?u = memcpy (rest @ take ?p inp) 0 rest2"
      "count0 ?u = word_of_nat (8 * length (m @ inp))" "count1 ?u = word_of_nat (8 * length (m @ inp) div 2 ^ 32)"
      using True t2 by (simp_all only: MD5Update_def Let_def idx cs if_True MD5_CTX.simps c(1) mc prod.case)
    have "64 \<le> length (rest @ inp)" using True rest by simp
    then have "transform_blocks st (rest @ inp) = transform_blocks (MD5Transform st (take 64 (rest @ inp))) (drop 64 (rest @ inp))"
      by (subst transform_blocks.simps) simp
    also have "\<dots> = (st2, rest2)" using rest t2 by simp
    finally have tb: "transform_blocks st (rest @ inp) = (st2, rest2)" .
    have "length rest2 = length (rest @ inp) mod 64" using transform_blocks_rest [of st "rest @ inp"] by (simp add: tb)
    then have r2: "length (m @ inp) mod 64 = length rest2" unfolding lm by (simp add: rest)
    then have "length rest2 < 64" by (metis mod_less_divisor zero_less_numeral)
    then have "length (memcpy (rest @ take ?p inp) 0 rest2) = 64" using len by (simp only: memcpy_def length_append length_drop) simp
    moreover have "take (length rest2) (memcpy (rest @ take ?p inp) 0 rest2) = rest2" by (simp add: memcpy_def)
    ultimately show ?thesis by (simp only: ctx_of_def u app tb r2 fst_conv snd_conv)
  qed
qed

lemma ctx_of_updates:
  "ctx_of ctx m \<Longrightarrow> \<forall>p\<in>set parts. length p < 2 ^ 32 \<Longrightarrow> ctx_of (foldl MD5Update ctx parts) (m @ concat parts)"
proof (induction parts arbitrary: ctx m)
  case (Cons p parts)
  from Cons.IH [OF ctx_of_update [OF Cons.prems(1), of p]] Cons.prems(2) show ?case by simp
qed simp

lemma MD5Final_ref: "ctx_of ctx m \<Longrightarrow> MD5Final ctx = md5_ref m"
proof -
  assume c: "ctx_of ctx m"
  let ?pad = "take (if length m mod 64 < 56 then 56 - length m mod 64 else 120 - length m mod 64) PADDING"
  let ?bits = "Encode [count0 ctx, count1 ctx]"
  have cnt: "count0 ctx = word_of_nat (8 * length m)" "count1 ctx = word_of_nat (8 * length m div 2 ^ 32)"
    using c by (simp_all add: ctx_of_def)
  have "length ?pad < 2 ^ 32" "length ?bits < 2 ^ 32" by (simp_all add: PADDING_def Encode_def enc_word_def)
  then have "ctx_of (MD5Update (MD5Update ctx ?pad) ?bits) ((m @ ?pad) @ ?bits)"
    using c ctx_of_update by blast
  then have "md_state (MD5Update (MD5Update ctx ?pad) ?bits) = fst (transform_blocks (md_state (MD5Init [])) (m @ ?pad @ ?bits))"
    by (simp add: ctx_of_def)
  moreover have "unat (drop_bit 3 (count0 ctx) AND 0x3F) = length m mod 64"
    unfolding cnt by (rule index_of_count)
  ultimately show ?thesis
    by (simp only: MD5Final_def Let_def md5_ref_def md5_pad_def cnt)
qed

section \<open>Properties\<close>

text \<open>
  However the message is cut into pieces for \<^verbatim>\<open>MD5Update\<close> (each below 4 GB), and whatever the memory
  of the context held before, the digest is that of one pass over the padded message: the buffered
  bytes, the carry between the two 32-bit bit counts and the choice between one and two padding
  blocks are right.
\<close>

theorem md5_incremental:
  assumes "length old = 64" "\<forall>p\<in>set parts. length p < 2 ^ 32"
  shows "MD5Final (foldl MD5Update (MD5Init old) parts) = md5_ref (concat parts)"
  using MD5Final_ref [OF ctx_of_updates [OF ctx_of_init [OF assms(1)] assms(2)]] by simp

text \<open>The test vector of RFC 1321 for \<open>abc\<close>, cut into two pieces.\<close>

lemma md5_abc: "md5_of [[0x61], [0x62, 0x63]] = [0x90, 0x01, 0x50, 0x98, 0x3c, 0xd2, 0x4f, 0xb0,
    0xd6, 0x96, 0x3f, 0x7d, 0x28, 0xe1, 0x7f, 0x72]"
  by code_simp

theorem md5_incremental_witness:
  "md5_ref [0x61, 0x62, 0x63] = [0x90, 0x01, 0x50, 0x98, 0x3c, 0xd2, 0x4f, 0xb0,
    0xd6, 0x96, 0x3f, 0x7d, 0x28, 0xe1, 0x7f, 0x72]"
  using md5_incremental [of "replicate 64 0" "[[0x61], [0x62, 0x63]]"] md5_abc by (simp add: md5_of_def)

lemma unat_lt_16: "unat (drop_bit 4 (b :: byte)) < 16" "unat ((b :: byte) AND 15) < 16"
proof -
  have "unat b < 256" using unsigned_less [of b] by simp
  then show "unat (drop_bit 4 b) < 16" by (simp add: unat_div drop_bit_eq_div)
  have "b AND 15 \<le> 15" by (rule word_and_le1)
  then have "unat (b AND 15) \<le> unat (15 :: byte)" by (simp only: word_le_nat_alt)
  then show "unat (b AND 15) < 16" by simp
qed

lemma hex_digit_cases:
  "n < 16 \<Longrightarrow> nibble (char_of (if n > 9 then n + 87 else n + 48)) = word_of_nat n \<and>
    isxdigit (char_of (if n > 9 then n + 87 else n + 48))"
  by (auto simp: nibble_def isxdigit_def isdigit_def isupper_def tolower_def)

lemma nibble_hex: "unat b < 16 \<Longrightarrow> nibble (hex_char b) = b \<and> isxdigit (hex_char b)"
proof -
  assume "unat b < 16"
  moreover have "(b > 9) = (unat b > 9)" by (simp add: word_less_nat_alt)
  ultimately show ?thesis using hex_digit_cases [of "unat b"] by (simp add: hex_char_def)
qed

definition hex_pairs :: "byte list \<Rightarrow> string" where
  "hex_pairs bs = concat (map (\<lambda>b. [hex_char (drop_bit 4 b), hex_char (b AND 0xF)]) bs)"

lemma hex_pairs_simps [simp]: "hex_pairs [] = []"
  "hex_pairs (b # bs) = hex_char (drop_bit 4 b) # hex_char (b AND 0xF) # hex_pairs bs"
  by (simp_all add: hex_pairs_def)

lemma length_hex_pairs [simp]: "length (hex_pairs bs) = 2 * length bs"
  by (induction bs) simp_all

lemma hex_pairs_xdigit: "c \<in> set (hex_pairs bs) \<Longrightarrow> isxdigit c"
  by (induction bs) (auto simp: nibble_hex unat_lt_16)

lemma byte_of_nibbles: "push_bit 4 (drop_bit 4 b) OR (b AND 0xF) = (b :: byte)"
proof -
  have "b AND 0xF = take_bit 4 b" by (simp add: take_bit_eq_mask mask_eq_exp_minus_1)
  moreover have "push_bit 4 (drop_bit 4 b) OR take_bit 4 b = b"
    by (rule bit_eqI) (auto simp: bit_simps not_less)
  ultimately show ?thesis by simp
qed

lemma pack_hex_pairs: "pack_hex (hex_pairs bs) = bs"
  by (induction bs) (simp_all add: nibble_hex unat_lt_16 byte_of_nibbles)

lemma challenge_digits_toString:
  assumes "length bs \<le> 64" "bs \<noteq> []"
  shows "challenge_digits (MD_toString bs) = Some (hex_pairs bs)"
proof -
  have "takeWhile isxdigit (hex_pairs bs) = hex_pairs bs"
    by (rule takeWhile_eq_all_conv [THEN iffD2]) (auto intro: hex_pairs_xdigit)
  moreover have "hex_pairs bs \<noteq> []" using assms(2) by (cases bs) simp_all
  ultimately show ?thesis
    using assms(1)
    by (simp add: challenge_digits_def MD_toString_def hex_pairs_def [symmetric] strstr.simps del: takeWhile_eq_all_conv)
qed

lemma getChallenge_new:
  assumes "length rnd = MD_CHALLENGE_LEN"
  shows "MD_getChallenge (MD_toString (tl (new_challenge rnd))) = Some (new_challenge rnd)"
proof -
  let ?t = "tl (new_challenge rnd)"
  have "length ?t = 16" "?t \<noteq> []" using assms by (simp_all add: new_challenge_def)
  then show ?thesis
    using challenge_digits_toString [of ?t] unfolding MD_getChallenge_def
    by (simp add: pack_hex_pairs) (simp add: new_challenge_def)
qed

text \<open>
  The challenge the answering side prints in its \<^verbatim>\<open>OPT CRAM-MD5-...\<close> message is the one the calling side
  reads back, its length byte included, so both sides build the same digest from the same password.
\<close>

theorem cram_challenge_roundtrip:
  assumes "length rnd = MD_CHALLENGE_LEN"
  shows "MD_getChallenge (MD_toString (tl (new_challenge rnd))) = Some (new_challenge rnd)
    \<and> map_option (MD_buildDigest pw) (MD_getChallenge (MD_toString (tl (new_challenge rnd)))) =
        Some (MD_toString (hmac_md5 (tl (new_challenge rnd)) (map of_char pw)))"
proof -
  let ?t = "tl (new_challenge rnd)"
  have t: "length ?t = 16" using assms by (simp add: new_challenge_def)
  note getChallenge_new [OF assms]
  moreover have "MD_buildDigest pw (new_challenge rnd) = MD_toString (hmac_md5 ?t (map of_char pw))"
    using t by (simp add: MD_buildDigest_def) (simp add: new_challenge_def)
  ultimately show ?thesis by simp
qed

theorem cram_challenge_roundtrip_witness:
  "MD_getChallenge (MD_toString (tl (new_challenge (replicate 16 0xA5)))) = Some (new_challenge (replicate 16 0xA5))"
  using cram_challenge_roundtrip [of "replicate 16 0xA5" "''pw''"] by simp

lemma length_pack_hex: "length (pack_hex ds) = (length ds + 1) div 2"
  by (induction ds rule: pack_hex.induct) simp_all

text \<open>
  What \<^verbatim>\<open>MD_getChallenge\<close> stores of a received challenge fits the block it allocates exactly when the
  number of hexadecimal digits is even; an odd number, which the remote chooses, writes one byte past it.
\<close>

theorem challenge_fits_iff:
  "length (pack_hex ds) \<le> challenge_room ds \<longleftrightarrow> even (length ds)"
  unfolding length_pack_hex challenge_room_def by presburger

end
