(* ===== verification/State.thy ===== *)
theory State
  imports Bsy Ftnq Prothlp Md5b
begin

text \<open>
  The state of a session (\<^verbatim>\<open>protoco2.h\<close>, \<^verbatim>\<open>protocol.h\<close>): the structure \<^verbatim>\<open>STATE\<close>, and around it the things
  the handlers change or ask outside of it.  A flag word is one truth value per bit.  The output
  buffer is the list of bytes still to send (\<^verbatim>\<open>optr\<close>, \<^verbatim>\<open>oleft\<close>), the input buffer the bytes read so far
  (\<^verbatim>\<open>ibuf\<close>, \<^verbatim>\<open>iread\<close>); an array with its counter is a list.

  A step of the session that may not return, or whose behaviour C leaves undefined (a read past the end
  of a string), is a partial result: \<open>None\<close> stands for both.
\<close>

section \<open>Constants\<close>

abbreviation BLK_HDR_SIZE :: nat where "BLK_HDR_SIZE \<equiv> 2"
abbreviation MAX_BLKSIZE :: nat where "MAX_BLKSIZE \<equiv> 32767"
abbreviation MAXSYSTEMNAME :: nat where "MAXSYSTEMNAME \<equiv> 120"
abbreviation MAXSYSOPNAME :: nat where "MAXSYSOPNAME \<equiv> 120"
abbreviation MAXLOCATIONNAME :: nat where "MAXLOCATIONNAME \<equiv> 120"

datatype t_msg = M_NUL | M_ADR | M_PWD | M_FILE | M_OK | M_EOB | M_GOT | M_ERR | M_BSY | M_GET | M_SKIP

definition msg_codes :: "t_msg list" where
  "msg_codes = [M_NUL, M_ADR, M_PWD, M_FILE, M_OK, M_EOB, M_GOT, M_ERR, M_BSY, M_GET, M_SKIP]"

fun msg_code :: "t_msg \<Rightarrow> byte" where
  "msg_code M_NUL = 0" | "msg_code M_ADR = 1" | "msg_code M_PWD = 2" | "msg_code M_FILE = 3"
| "msg_code M_OK = 4" | "msg_code M_EOB = 5" | "msg_code M_GOT = 6" | "msg_code M_ERR = 7"
| "msg_code M_BSY = 8" | "msg_code M_GET = 9" | "msg_code M_SKIP = 10"

datatype p_state = P_NULL | P_NONSECURE | P_SECURE
datatype p_ext = P_NA | P_WE_NONSECURE | P_REMOTE_NONSECURE

section \<open>The session\<close>

text \<open>A queued message; \<open>m_s\<close> is \<open>None\<close> once it was copied to the output buffer.  Its size is its length.\<close>

record BMSG =
  m_t :: t_msg
  m_s :: "byte list option"

text \<open>The empty queue is NULL; \<open>s_nfa\<close> of the addresses \<open>s_fa\<close> are not busy and come first.\<close>

record STATE =
  s_to :: "FTN_NODE option"
  s_expected_pwd :: string
  s_pipe :: bool
  s_obuf :: "byte list"
  s_ibuf :: "byte list"
  s_isize :: int
  s_imsg :: bool
  s_msgs :: "BMSG list"
  s_in :: TFILE
  s_out :: TFILE
  s_flo :: TFILE
  s_sent_fls :: "TFILE list"
  s_q :: "FTNQ list"
  s_fa :: "FTN_ADDR list"
  s_nfa :: nat
  s_remote_fa :: "FTN_ADDR option"
  s_pAddr :: "FTN_ADDR list option"
  s_maxflvr :: char
  s_skip_all_flag :: bool
  s_r_skipped_flag :: bool
  s_listed_flag :: int
  s_inbound :: string
  s_ipaddr :: string
  s_io_error :: bool
  s_msgs_in_batch :: nat
  s_minor :: int
  s_major :: int
  s_killlist :: "KILLLIST list"
  s_rcvdlist :: "string list"
  s_nosendlist :: "string list"
  s_files_sent :: int
  s_files_rcvd :: int
  s_bytes_sent :: int
  s_bytes_rcvd :: int
  s_sysname :: string
  s_sysop :: string
  s_location :: string
  s_local_EOB :: bool
  s_remote_EOB :: bool
  s_GET_FILE_balance :: int
  s_off_req_sent :: bool
  s_state :: p_state
  s_state_ext :: p_ext
  s_WANT_NR :: bool
  s_WE_NR :: bool
  s_THEY_NR :: bool
  s_WE_ND :: bool
  s_THEY_ND :: bool
  s_CAN_NDA :: bool
  s_MD_flag :: int
  s_MD_challenge :: "byte list option"
  s_waiting_for_GOT :: bool
  s_send_eof :: bool
  s_in_complete :: TFILE
  s_ND_addr :: FTN_ADDR
  s_WE_CRYPT :: bool
  s_THEY_CRYPT :: bool
  s_YES_CRYPT :: bool
  s_keys_out :: "u64 keys"
  s_keys_in :: "u64 keys"
  s_delay_ADR :: bool
  s_delay_EOB :: int
  s_extcmd :: bool
  s_buggy_NR :: bool

text \<open>
  Around the structure: the file system, the busy flags and the configuration; the bytes the
  output socket has taken (\<open>x_wire\<close>); the numbers \<^verbatim>\<open>rnd\<close> is going to deliver; the globals
  \<^verbatim>\<open>no_crypt\<close>, \<^verbatim>\<open>no_MD5\<close>, \<^verbatim>\<open>binkd_exit\<close>; what unset counters hold; and the system calls
  \<^verbatim>\<open>statvfs\<close> (free kilobytes of a directory) and \<^verbatim>\<open>getaddrinfo\<close> (the addresses of a host, the
  address of a numeric host, whether a service is known); the bytes of a fresh challenge, the
  printed local time and the name of the operating system; the time the busy flags were touched.
\<close>

record session = STATE +
  x_w :: world
  x_bsy :: "BSY_ADDR list"
  x_cfg :: BINKD_CONFIG
  x_wire :: "byte list"
  x_rnd :: "nat list"
  x_no_crypt :: bool
  x_no_MD5 :: bool
  x_exit :: bool
  x_junk :: "nat \<times> nat"
  x_free :: "string \<Rightarrow> nat"
  x_gai :: "string \<Rightarrow> string list option"
  x_num :: "string \<Rightarrow> string option"
  x_port :: "string \<Rightarrow> bool"
  x_chal :: "byte list"
  x_localtime :: string
  x_uname :: string
  x_touch :: int

section \<open>Access\<close>

definition fs_cfg :: "session \<Rightarrow> st" where
  "fs_cfg s = (x_w s, x_cfg s)"

definition set_fs_cfg :: "st \<Rightarrow> session \<Rightarrow> session" where
  "set_fs_cfg st s = s\<lparr>x_w := fst st, x_cfg := snd st\<rparr>"

text \<open>\<^verbatim>\<open>crypt_flag == YES_CRYPT\<close> and \<^verbatim>\<open>crypt_flag == (WE_CRYPT | THEY_CRYPT)\<close>.\<close>

definition crypt_on :: "session \<Rightarrow> bool" where
  "crypt_on s \<longleftrightarrow> s_YES_CRYPT s \<and> \<not> s_WE_CRYPT s \<and> \<not> s_THEY_CRYPT s"

definition crypt_agreed :: "session \<Rightarrow> bool" where
  "crypt_agreed s \<longleftrightarrow> s_WE_CRYPT s \<and> s_THEY_CRYPT s \<and> \<not> s_YES_CRYPT s"

definition NO_CRYPT :: "session \<Rightarrow> session" where
  "NO_CRYPT s = s\<lparr>s_WE_CRYPT := False, s_THEY_CRYPT := False, s_YES_CRYPT := False\<rparr>"

text \<open>We send files unless only protected links get them, or the remote skipped some.\<close>

definition OK_SEND_FILES :: "session \<Rightarrow> bool" where
  "OK_SEND_FILES s \<longleftrightarrow> (\<not> send_if_pwd (x_cfg s) \<or> s_state s = P_SECURE \<or> s_to s \<noteq> None) \<and> \<not> s_r_skipped_flag s"

abbreviation nallfa :: "session \<Rightarrow> nat" where
  "nallfa s \<equiv> length (s_fa s)"

definition starts :: "string \<Rightarrow> string \<Rightarrow> bool" where
  "starts p s \<longleftrightarrow> take (length p) s = p"

definition bytes_of :: "string \<Rightarrow> byte list" where
  "bytes_of s = map of_char s"

definition chars_of :: "byte list \<Rightarrow> string" where
  "chars_of bs = map (\<lambda>b. char_of (unat b)) bs"

lemma unat_of_char: "unat (of_char c :: byte) = ord c"
proof -
  have "(of_char c :: byte) = word_of_nat (ord c)" by (simp only: of_nat_of_char)
  moreover have "ord c < 256" by (rule nat_of_char_less_256)
  ultimately show ?thesis by (simp only: unat_of_nat) simp
qed

lemma of_char_char_of_unat: "(of_char (char_of (unat b)) :: byte) = b"
proof -
  have "unat b < 256" using unsigned_less [of b] by simp
  then have "ord (char_of (unat b)) = unat b" by simp
  then have "unat (of_char (char_of (unat b)) :: byte) = unat b" by (simp only: unat_of_char)
  then show ?thesis by (simp only: word_unat_eq_iff)
qed

lemma chars_of_bytes_of [simp]: "chars_of (bytes_of s) = s"
  by (simp add: chars_of_def bytes_of_def comp_def unat_of_char)

lemma bytes_of_chars_of [simp]: "bytes_of (chars_of bs) = bs"
  by (simp add: chars_of_def bytes_of_def comp_def of_char_char_of_unat)

lemma length_bytes_of [simp]: "length (bytes_of s) = length s"
  by (simp add: bytes_of_def)

text \<open>A failed call is noted for the node we called, if we did.\<close>

definition note_bad_try :: "string \<Rightarrow> session \<Rightarrow> session" where
  "note_bad_try err s = (case s_to s of
     None \<Rightarrow> s | Some n \<Rightarrow> set_fs_cfg (bad_try (x_junk s) (n_fa n) err (fs_cfg s)) s)"

text \<open>Only the file system and the configuration change.\<close>

lemma set_fs_cfg_frame [simp]:
  "s_to (set_fs_cfg st s) = s_to s" "s_expected_pwd (set_fs_cfg st s) = s_expected_pwd s"
  "s_pipe (set_fs_cfg st s) = s_pipe s" "s_obuf (set_fs_cfg st s) = s_obuf s" "s_ibuf (set_fs_cfg st s) = s_ibuf s"
  "s_isize (set_fs_cfg st s) = s_isize s" "s_imsg (set_fs_cfg st s) = s_imsg s" "s_msgs (set_fs_cfg st s) = s_msgs s"
  "s_in (set_fs_cfg st s) = s_in s" "s_out (set_fs_cfg st s) = s_out s" "s_flo (set_fs_cfg st s) = s_flo s"
  "s_sent_fls (set_fs_cfg st s) = s_sent_fls s" "s_q (set_fs_cfg st s) = s_q s" "s_fa (set_fs_cfg st s) = s_fa s"
  "s_nfa (set_fs_cfg st s) = s_nfa s" "s_remote_fa (set_fs_cfg st s) = s_remote_fa s"
  "s_pAddr (set_fs_cfg st s) = s_pAddr s" "s_maxflvr (set_fs_cfg st s) = s_maxflvr s"
  "s_skip_all_flag (set_fs_cfg st s) = s_skip_all_flag s" "s_r_skipped_flag (set_fs_cfg st s) = s_r_skipped_flag s"
  "s_listed_flag (set_fs_cfg st s) = s_listed_flag s" "s_inbound (set_fs_cfg st s) = s_inbound s"
  "s_ipaddr (set_fs_cfg st s) = s_ipaddr s" "s_io_error (set_fs_cfg st s) = s_io_error s"
  "s_msgs_in_batch (set_fs_cfg st s) = s_msgs_in_batch s" "s_minor (set_fs_cfg st s) = s_minor s"
  "s_major (set_fs_cfg st s) = s_major s" "s_killlist (set_fs_cfg st s) = s_killlist s"
  "s_rcvdlist (set_fs_cfg st s) = s_rcvdlist s" "s_nosendlist (set_fs_cfg st s) = s_nosendlist s"
  "s_files_sent (set_fs_cfg st s) = s_files_sent s" "s_files_rcvd (set_fs_cfg st s) = s_files_rcvd s"
  "s_bytes_sent (set_fs_cfg st s) = s_bytes_sent s" "s_bytes_rcvd (set_fs_cfg st s) = s_bytes_rcvd s"
  "s_sysname (set_fs_cfg st s) = s_sysname s" "s_sysop (set_fs_cfg st s) = s_sysop s"
  "s_location (set_fs_cfg st s) = s_location s" "s_local_EOB (set_fs_cfg st s) = s_local_EOB s"
  "s_remote_EOB (set_fs_cfg st s) = s_remote_EOB s" "s_GET_FILE_balance (set_fs_cfg st s) = s_GET_FILE_balance s"
  "s_off_req_sent (set_fs_cfg st s) = s_off_req_sent s" "s_state (set_fs_cfg st s) = s_state s"
  "s_state_ext (set_fs_cfg st s) = s_state_ext s" "s_WANT_NR (set_fs_cfg st s) = s_WANT_NR s"
  "s_WE_NR (set_fs_cfg st s) = s_WE_NR s" "s_THEY_NR (set_fs_cfg st s) = s_THEY_NR s"
  "s_WE_ND (set_fs_cfg st s) = s_WE_ND s" "s_THEY_ND (set_fs_cfg st s) = s_THEY_ND s"
  "s_CAN_NDA (set_fs_cfg st s) = s_CAN_NDA s" "s_MD_flag (set_fs_cfg st s) = s_MD_flag s"
  "s_MD_challenge (set_fs_cfg st s) = s_MD_challenge s" "s_waiting_for_GOT (set_fs_cfg st s) = s_waiting_for_GOT s"
  "s_send_eof (set_fs_cfg st s) = s_send_eof s" "s_in_complete (set_fs_cfg st s) = s_in_complete s"
  "s_ND_addr (set_fs_cfg st s) = s_ND_addr s" "s_WE_CRYPT (set_fs_cfg st s) = s_WE_CRYPT s"
  "s_THEY_CRYPT (set_fs_cfg st s) = s_THEY_CRYPT s" "s_YES_CRYPT (set_fs_cfg st s) = s_YES_CRYPT s"
  "s_keys_out (set_fs_cfg st s) = s_keys_out s" "s_keys_in (set_fs_cfg st s) = s_keys_in s"
  "s_delay_ADR (set_fs_cfg st s) = s_delay_ADR s" "s_delay_EOB (set_fs_cfg st s) = s_delay_EOB s"
  "s_extcmd (set_fs_cfg st s) = s_extcmd s" "s_buggy_NR (set_fs_cfg st s) = s_buggy_NR s"
  "x_bsy (set_fs_cfg st s) = x_bsy s" "x_wire (set_fs_cfg st s) = x_wire s" "x_rnd (set_fs_cfg st s) = x_rnd s"
  "x_no_crypt (set_fs_cfg st s) = x_no_crypt s" "x_no_MD5 (set_fs_cfg st s) = x_no_MD5 s"
  "x_exit (set_fs_cfg st s) = x_exit s" "x_junk (set_fs_cfg st s) = x_junk s" "x_free (set_fs_cfg st s) = x_free s"
  "x_gai (set_fs_cfg st s) = x_gai s" "x_num (set_fs_cfg st s) = x_num s" "x_port (set_fs_cfg st s) = x_port s"
  "x_chal (set_fs_cfg st s) = x_chal s" "x_localtime (set_fs_cfg st s) = x_localtime s"
  "x_uname (set_fs_cfg st s) = x_uname s" "x_touch (set_fs_cfg st s) = x_touch s"
  by (simp_all add: set_fs_cfg_def)

lemma note_bad_try_frame [simp]:
  "s_to (note_bad_try e s) = s_to s" "s_expected_pwd (note_bad_try e s) = s_expected_pwd s"
  "s_pipe (note_bad_try e s) = s_pipe s" "s_obuf (note_bad_try e s) = s_obuf s" "s_ibuf (note_bad_try e s) = s_ibuf s"
  "s_isize (note_bad_try e s) = s_isize s" "s_imsg (note_bad_try e s) = s_imsg s"
  "s_msgs (note_bad_try e s) = s_msgs s" "s_in (note_bad_try e s) = s_in s" "s_out (note_bad_try e s) = s_out s"
  "s_flo (note_bad_try e s) = s_flo s" "s_sent_fls (note_bad_try e s) = s_sent_fls s" "s_q (note_bad_try e s) = s_q s"
  "s_fa (note_bad_try e s) = s_fa s" "s_nfa (note_bad_try e s) = s_nfa s"
  "s_remote_fa (note_bad_try e s) = s_remote_fa s" "s_pAddr (note_bad_try e s) = s_pAddr s"
  "s_maxflvr (note_bad_try e s) = s_maxflvr s" "s_skip_all_flag (note_bad_try e s) = s_skip_all_flag s"
  "s_r_skipped_flag (note_bad_try e s) = s_r_skipped_flag s" "s_listed_flag (note_bad_try e s) = s_listed_flag s"
  "s_inbound (note_bad_try e s) = s_inbound s" "s_ipaddr (note_bad_try e s) = s_ipaddr s"
  "s_io_error (note_bad_try e s) = s_io_error s" "s_msgs_in_batch (note_bad_try e s) = s_msgs_in_batch s"
  "s_minor (note_bad_try e s) = s_minor s" "s_major (note_bad_try e s) = s_major s"
  "s_killlist (note_bad_try e s) = s_killlist s" "s_rcvdlist (note_bad_try e s) = s_rcvdlist s"
  "s_nosendlist (note_bad_try e s) = s_nosendlist s" "s_files_sent (note_bad_try e s) = s_files_sent s"
  "s_files_rcvd (note_bad_try e s) = s_files_rcvd s" "s_bytes_sent (note_bad_try e s) = s_bytes_sent s"
  "s_bytes_rcvd (note_bad_try e s) = s_bytes_rcvd s" "s_sysname (note_bad_try e s) = s_sysname s"
  "s_sysop (note_bad_try e s) = s_sysop s" "s_location (note_bad_try e s) = s_location s"
  "s_local_EOB (note_bad_try e s) = s_local_EOB s" "s_remote_EOB (note_bad_try e s) = s_remote_EOB s"
  "s_GET_FILE_balance (note_bad_try e s) = s_GET_FILE_balance s"
  "s_off_req_sent (note_bad_try e s) = s_off_req_sent s" "s_state (note_bad_try e s) = s_state s"
  "s_state_ext (note_bad_try e s) = s_state_ext s" "s_WANT_NR (note_bad_try e s) = s_WANT_NR s"
  "s_WE_NR (note_bad_try e s) = s_WE_NR s" "s_THEY_NR (note_bad_try e s) = s_THEY_NR s"
  "s_WE_ND (note_bad_try e s) = s_WE_ND s" "s_THEY_ND (note_bad_try e s) = s_THEY_ND s"
  "s_CAN_NDA (note_bad_try e s) = s_CAN_NDA s" "s_MD_flag (note_bad_try e s) = s_MD_flag s"
  "s_MD_challenge (note_bad_try e s) = s_MD_challenge s" "s_waiting_for_GOT (note_bad_try e s) = s_waiting_for_GOT s"
  "s_send_eof (note_bad_try e s) = s_send_eof s" "s_in_complete (note_bad_try e s) = s_in_complete s"
  "s_ND_addr (note_bad_try e s) = s_ND_addr s" "s_WE_CRYPT (note_bad_try e s) = s_WE_CRYPT s"
  "s_THEY_CRYPT (note_bad_try e s) = s_THEY_CRYPT s" "s_YES_CRYPT (note_bad_try e s) = s_YES_CRYPT s"
  "s_keys_out (note_bad_try e s) = s_keys_out s" "s_keys_in (note_bad_try e s) = s_keys_in s"
  "s_delay_ADR (note_bad_try e s) = s_delay_ADR s" "s_delay_EOB (note_bad_try e s) = s_delay_EOB s"
  "s_extcmd (note_bad_try e s) = s_extcmd s" "s_buggy_NR (note_bad_try e s) = s_buggy_NR s"
  "x_bsy (note_bad_try e s) = x_bsy s" "x_wire (note_bad_try e s) = x_wire s" "x_rnd (note_bad_try e s) = x_rnd s"
  "x_no_crypt (note_bad_try e s) = x_no_crypt s" "x_no_MD5 (note_bad_try e s) = x_no_MD5 s"
  "x_exit (note_bad_try e s) = x_exit s" "x_junk (note_bad_try e s) = x_junk s" "x_free (note_bad_try e s) = x_free s"
  "x_gai (note_bad_try e s) = x_gai s" "x_num (note_bad_try e s) = x_num s" "x_port (note_bad_try e s) = x_port s"
  "x_chal (note_bad_try e s) = x_chal s" "x_localtime (note_bad_try e s) = x_localtime s"
  "x_uname (note_bad_try e s) = x_uname s" "x_touch (note_bad_try e s) = x_touch s"
  by (simp_all add: note_bad_try_def split: option.split)

text \<open>The next random number.\<close>

definition rnd :: "session \<Rightarrow> (nat \<times> session) option" where
  "rnd s = (case x_rnd s of [] \<Rightarrow> None | r # rs \<Rightarrow> Some (r, s\<lparr>x_rnd := rs\<rparr>))"

definition node_of :: "FTN_ADDR \<Rightarrow> session \<Rightarrow> FTN_NODE option \<times> session" where
  "node_of fa s = (case get_node_info fa (w_time (x_w s)) (x_cfg s) of (n, cfg) \<Rightarrow> (n, s\<lparr>x_cfg := cfg\<rparr>))"

text \<open>A session of the sample configuration before anything was said, for the examples.\<close>

definition sample_session :: session where
  "sample_session = \<lparr>s_to = None, s_expected_pwd = ''-'', s_pipe = False, s_obuf = [], s_ibuf = [], s_isize = -1,
    s_imsg = False, s_msgs = [], s_in = TF_ZERO, s_out = TF_ZERO, s_flo = TF_ZERO, s_sent_fls = [], s_q = [],
    s_fa = [], s_nfa = 0, s_remote_fa = None, s_pAddr = None, s_maxflvr = CHR ''h'', s_skip_all_flag = False,
    s_r_skipped_flag = False, s_listed_flag = 0, s_inbound = ''/un'', s_ipaddr = ''10.0.0.1'', s_io_error = False,
    s_msgs_in_batch = 0, s_minor = 0, s_major = 1, s_killlist = [], s_rcvdlist = [], s_nosendlist = [],
    s_files_sent = 0, s_files_rcvd = 0, s_bytes_sent = 0, s_bytes_rcvd = 0, s_sysname = [], s_sysop = [],
    s_location = [], s_local_EOB = False, s_remote_EOB = False, s_GET_FILE_balance = 0, s_off_req_sent = False,
    s_state = P_NULL, s_state_ext = P_NA, s_WANT_NR = False, s_WE_NR = False, s_THEY_NR = False,
    s_WE_ND = False, s_THEY_ND = False, s_CAN_NDA = False, s_MD_flag = 0, s_MD_challenge = None,
    s_waiting_for_GOT = False, s_send_eof = False, s_in_complete = TF_ZERO,
    s_ND_addr = (t_fa TF_ZERO)\<lparr>fa_z := -1\<rparr>, s_WE_CRYPT = True, s_THEY_CRYPT = False, s_YES_CRYPT = False,
    s_keys_out = init_keys ''-'', s_keys_in = init_keys ''-'', s_delay_ADR = False, s_delay_EOB = 0,
    s_extcmd = False, s_buggy_NR = False,
    x_w = empty_world, x_bsy = [], x_cfg = sample_cfg, x_wire = [], x_rnd = [1, 2, 3], x_no_crypt = False,
    x_no_MD5 = False, x_exit = False, x_junk = (0, 0), x_free = (\<lambda>_. 1000000), x_gai = (\<lambda>_. None),
    x_num = Some, x_port = (\<lambda>_. True), x_chal = replicate 16 7, x_localtime = ''Sun, 10 May 2026 12:00:00 +0300'',
    x_uname = ''Linux'', x_touch = 0\<rparr>"

end
