(* ===== verification/Send.thy ===== *)
theory Send
  imports State
begin

text \<open>
  The sending half of the protocol (\<^verbatim>\<open>protocol.c\<close>): frames, the queue of messages, and
  \<^verbatim>\<open>send_block\<close>, which moves the buffer to the socket, fills it with queued messages or with the next block
  of the file in transfer, and encrypts it.
\<close>

section \<open>Frames\<close>

definition mkhdr :: "nat \<Rightarrow> byte list" where
  "mkhdr u = [word_of_nat (u div 256), word_of_nat u]"

definition msg_frame :: "t_msg \<Rightarrow> string \<Rightarrow> byte list" where
  "msg_frame m txt = mkhdr ((length txt + 1) OR 0x8000) @ [msg_code m] @ bytes_of txt"

text \<open>The cipher is applied when it is on; it changes the outgoing keys.\<close>

definition seal :: "byte list \<Rightarrow> session \<Rightarrow> byte list \<times> session" where
  "seal bs s = (if crypt_on s then
      (case encrypt_buf (s_keys_out s) bs of (c, ks) \<Rightarrow> (c, s\<lparr>s_keys_out := ks\<rparr>)) else (bs, s))"

definition msg_send2 :: "t_msg \<Rightarrow> string \<Rightarrow> string \<Rightarrow> session \<Rightarrow> session" where
  "msg_send2 m s1 s2 s = (case seal (msg_frame m (s1 @ s2)) s of
     (c, s') \<Rightarrow> s'\<lparr>s_msgs := s_msgs s @ [\<lparr>m_t = m, m_s = Some c\<rparr>], s_msgs_in_batch := s_msgs_in_batch s + 1\<rparr>)"

text \<open>\<^verbatim>\<open>msg_sendf\<close> prints into an array of \<open>max (MAXPATHLEN, MAX_NETNAME) + 80\<close> bytes.\<close>

definition msg_sendf :: "t_msg \<Rightarrow> string \<Rightarrow> session \<Rightarrow> session" where
  "msg_sendf m txt s = msg_send2 m (take (max MAXPATHLEN MAX_NETNAME + 79) txt) [] s"

section \<open>The file in transfer\<close>

text \<open>The copy in the list keeps the pointer of the closed stream, which is not used again.\<close>

definition current_file_was_sent :: "session \<Rightarrow> session" where
  "current_file_was_sent s =
     s\<lparr>s_sent_fls := s_sent_fls s @ [s_out s], s_out := TF_ZERO,
       s_waiting_for_GOT := s_waiting_for_GOT s \<or> s_WE_ND s\<rparr>"

text \<open>\<^verbatim>\<open>fread\<close> of up to \<open>n\<close> bytes at the position of a stream.\<close>

definition fread :: "handle \<Rightarrow> nat \<Rightarrow> world \<Rightarrow> byte list" where
  "fread h n w = (case fopen_r (h_path h) w of
     None \<Rightarrow> [] | Some d \<Rightarrow> bytes_of (take n (drop (h_pos h) d)))"

text \<open>
  The packet password is eight bytes of the node's \<^verbatim>\<open>pkt_pwd\<close>; a shorter password is taken as
  followed by zeros.
\<close>

definition pkt_password :: "string option \<Rightarrow> byte list" where
  "pkt_password p = take 8 (bytes_of (case p of None \<Rightarrow> [] | Some t \<Rightarrow> t) @ replicate 8 0)"

definition patch_bytes :: "nat \<Rightarrow> byte list \<Rightarrow> byte list \<Rightarrow> byte list" where
  "patch_bytes at bs buf = take at buf @ bs @ drop (at + length bs) buf"

text \<open>
  The first block of a packet for a shared address is readdressed to the node of the session; the
  code uses the node's entry without testing that there is one (\<open>None\<close>).
\<close>

definition shared_dest :: "byte list \<Rightarrow> session \<Rightarrow> bool" where
  "shared_dest buf s = (case pkt_getaddr buf of (ok, a) \<Rightarrow> ok \<and>
     (\<exists>c\<in>set (shares (x_cfg s)). fa_z (sha c) = dz a \<and> fa_net (sha c) = dnet a \<and>
        fa_node (sha c) = dnode a \<and> fa_p (sha c) = dp a))"

definition session_fa :: "session \<Rightarrow> FTN_ADDR option" where
  "session_fa s = (case s_to s of Some n \<Rightarrow> Some (n_fa n)
     | None \<Rightarrow> (case s_fa s of [] \<Rightarrow> None | fa # r \<Rightarrow> Some fa))"

definition pkt_hack :: "byte list \<Rightarrow> session \<Rightarrow> (byte list \<times> session) option" where
  "pkt_hack buf s = (if \<not> shared_dest buf s then Some (buf, s)
     else case session_fa s of
       None \<Rightarrow> Some (buf, s)
     | Some fa \<Rightarrow>
         let b1 = readdress buf (to_int16 (fa_z fa)) (to_int16 (fa_net fa)) (to_int16 (fa_node fa)) (to_int16 (fa_p fa));
             (fn, s1) = (case s_to s of Some n \<Rightarrow> (Some n, s) | None \<Rightarrow> node_of fa s)
         in (case fn of None \<Rightarrow> None
             | Some n \<Rightarrow> Some (patch_bytes 26 (pkt_password (n_pkt_pwd n)) b1, s1)))"

section \<open>send_block\<close>

text \<open>What the system call on the socket or pipe does.\<close>

datatype io_result = Moved nat | Would_block | Io_error string

text \<open>
  Messages are copied while they fit; the result is the buffer and the entries that remain in the
  array (copied ones with a NULL text), or \<open>None\<close> for a message that is too big for a frame: there
  the code returns 0 with its pointer behind the copied messages and their number of bytes still to send,
  so that the flush at the end of the session sends what happens to lie behind them in the buffer.
\<close>

fun pack_msgs :: "byte list \<Rightarrow> BMSG list \<Rightarrow> (byte list \<times> BMSG list \<times> bool) option" where
  "pack_msgs buf [] = Some (buf, [], True)"
| "pack_msgs buf (m # ms) = (case m_s m of
     None \<Rightarrow> map_option (\<lambda>(b, r, d). (b, m # r, d)) (pack_msgs buf ms)
   | Some c \<Rightarrow>
       if length c - 2 > MAX_BLKSIZE then None
       else if length buf + length c > MAX_BLKSIZE then Some (buf, m # ms, False)
       else map_option (\<lambda>(b, r, d). (b, m\<lparr>m_s := None\<rparr> # r, d)) (pack_msgs (buf @ c) ms))"

text \<open>The results 0 (give up), 1 and 2 (nothing could be moved).\<close>

datatype sb_result = SB_FAIL | SB_OK | SB_WAIT

definition send_buffer :: "io_result \<Rightarrow> session \<Rightarrow> sb_result \<times> session" where
  "send_buffer io s = (case io of
     Moved n \<Rightarrow>
       if length (s_obuf s) \<le> n then (SB_OK, s\<lparr>x_wire := x_wire s @ s_obuf s, s_obuf := []\<rparr>)
       else if n = 0 then (SB_WAIT, s)
       else (SB_OK, s\<lparr>x_wire := x_wire s @ take n (s_obuf s), s_obuf := drop n (s_obuf s)\<rparr>)
   | Would_block \<Rightarrow> (SB_WAIT, s)
   | Io_error e \<Rightarrow>
       let s1 = s\<lparr>s_io_error := True\<rparr> in (SB_FAIL, if x_exit s then s1 else note_bad_try e s1))"

definition send_msgs :: "session \<Rightarrow> (sb_result \<times> session) option" where
  "send_msgs s = (case pack_msgs [] (s_msgs s) of
     None \<Rightarrow> None
   | Some (b, ms, done) \<Rightarrow> Some (SB_OK, s\<lparr>s_obuf := b, s_msgs := (if done then [] else ms)\<rparr>))"

text \<open>The size of the next block; \<^verbatim>\<open>ftello\<close> beyond the size would be a read past the buffer.\<close>

definition next_size :: "handle \<Rightarrow> session \<Rightarrow> int" where
  "next_size h s = min (oblksize (x_cfg s)) (t_size (s_out s) - int (h_pos h))"

definition ready_data :: "session \<Rightarrow> bool" where
  "ready_data s \<longleftrightarrow> (t_f (s_out s) \<noteq> None \<and> \<not> s_off_req_sent s \<and> \<not> s_waiting_for_GOT s) \<or> s_send_eof s"

definition put_block :: "byte list \<Rightarrow> session \<Rightarrow> session" where
  "put_block d s = (case seal (mkhdr (length d) @ d) s of (c, s') \<Rightarrow> s'\<lparr>s_obuf := c\<rparr>)"

text \<open>
  The next block of the file at its position: no data when the file is shorter than announced, and
  the file moves to the sent ones with its last block.
\<close>

definition file_block :: "handle \<Rightarrow> session \<Rightarrow> (byte list option \<times> session) option" where
  "file_block h s =
    (let sz = next_size h s; d = fread h (nat sz) (x_w s);
         h' = h\<lparr>h_pos := h_pos h + length d\<rparr>;
         s1 = s\<lparr>s_out := s_out s\<lparr>t_f := Some h'\<rparr>\<rparr>
     in if sz < 0 then None
        else if length d < nat sz then Some (None, s1)
        else case (if h_pos h' = nat sz \<and> 60 \<le> sz \<and> ispkt (t_netname (s_out s)) then pkt_hack d s1 else Some (d, s1)) of
          None \<Rightarrow> None
        | Some (d', s2) \<Rightarrow>
            Some (Some d', if sz = 0 \<or> t_size (s_out s) = int (h_pos h') then current_file_was_sent s2 else s2))"

definition next_block :: "session \<Rightarrow> (byte list option \<times> session) option" where
  "next_block s = (case t_f (s_out s) of
     Some h \<Rightarrow> file_block h s | None \<Rightarrow> Some (Some [], s\<lparr>s_send_eof := False\<rparr>))"

definition send_block :: "io_result \<Rightarrow> session \<Rightarrow> (sb_result \<times> session) option" where
  "send_block io s =
    (if s_obuf s \<noteq> [] then Some (send_buffer io s)
     else if s_msgs s \<noteq> [] then send_msgs s
     else if ready_data s then
       (case next_block s of
          None \<Rightarrow> None
        | Some (None, s') \<Rightarrow> Some (SB_FAIL, s')
        | Some (Some d, s') \<Rightarrow> Some (SB_OK, put_block d s'))
     else Some (SB_OK, s))"

section \<open>The byte stream\<close>

datatype frame = Msg t_msg string | Data "byte list"

fun frame_bytes :: "frame \<Rightarrow> byte list" where
  "frame_bytes (Msg m txt) = msg_frame m txt"
| "frame_bytes (Data d) = mkhdr (length d) @ d"

definition wire_image :: "frame list \<Rightarrow> byte list" where
  "wire_image fs = concat (map frame_bytes fs)"

lemma wire_image_simps [simp]: "wire_image [] = []" "wire_image (f # fs) = frame_bytes f @ wire_image fs"
  "wire_image (fs @ gs) = wire_image fs @ wire_image gs"
  by (simp_all add: wire_image_def)

text \<open>All bytes that left or will leave without further calls: on the wire, in the buffer, queued.\<close>

definition pending :: "BMSG list \<Rightarrow> byte list" where
  "pending ms = concat (map (\<lambda>m. case m_s m of None \<Rightarrow> [] | Some c \<Rightarrow> c) ms)"

definition out_stream :: "session \<Rightarrow> byte list" where
  "out_stream s = x_wire s @ s_obuf s @ pending (s_msgs s)"

definition coded :: "session \<Rightarrow> byte list \<Rightarrow> byte list" where
  "coded s bs = (if crypt_on s then fst (encrypt_buf (s_keys_out s) bs) else bs)"

text \<open>\<open>emits s bs s'\<close>: the plain bytes \<open>bs\<close> were added to the stream in the session's mode.\<close>

definition emits :: "session \<Rightarrow> byte list \<Rightarrow> session \<Rightarrow> bool" where
  "emits s bs s' \<longleftrightarrow> out_stream s' = out_stream s @ coded s bs \<and> crypt_on s' = crypt_on s \<and>
     s_keys_out s' = (if crypt_on s then snd (encrypt_buf (s_keys_out s) bs) else s_keys_out s)"

lemma pending_simps [simp]: "pending [] = []"
  "pending (m # ms) = (case m_s m of None \<Rightarrow> [] | Some c \<Rightarrow> c) @ pending ms" "pending (xs @ ys) = pending xs @ pending ys"
  by (simp_all add: pending_def)

lemma emits_trans: "emits s as s1 \<Longrightarrow> emits s1 bs s2 \<Longrightarrow> emits s (as @ bs) s2"
  by (auto simp: emits_def coded_def encrypt_buf_append Let_def split_def)

lemma emits_silent:
  "out_stream s' = out_stream s \<Longrightarrow> crypt_on s' = crypt_on s \<Longrightarrow> s_keys_out s' = s_keys_out s \<Longrightarrow> emits s [] s'"
  by (simp add: emits_def coded_def)

lemma emits_refl [simp]: "emits s [] s"
  by (simp add: emits_silent)

lemma seal_eq:
  "seal bs s = (coded s bs, s\<lparr>s_keys_out := if crypt_on s then snd (encrypt_buf (s_keys_out s) bs) else s_keys_out s\<rparr>)"
  by (simp add: seal_def coded_def split_def)

lemma crypt_on_cong:
  "s_YES_CRYPT s' = s_YES_CRYPT s \<Longrightarrow> s_WE_CRYPT s' = s_WE_CRYPT s \<Longrightarrow> s_THEY_CRYPT s' = s_THEY_CRYPT s \<Longrightarrow>
   crypt_on s' = crypt_on s"
  by (simp add: crypt_on_def)

lemma msg_send2_emits: "emits s (msg_frame m (a @ b)) (msg_send2 m a b s)"
  by (simp add: emits_def msg_send2_def seal_eq out_stream_def crypt_on_def)

lemma put_block_emits: "s_obuf s = [] \<Longrightarrow> s_msgs s = [] \<Longrightarrow> emits s (mkhdr (length d) @ d) (put_block d s)"
  by (simp add: emits_def put_block_def seal_eq out_stream_def crypt_on_def)

lemma pack_msgs_pending: "pack_msgs buf ms = Some (b, r, d) \<Longrightarrow>
   b @ pending r = buf @ pending ms \<and> (d \<longrightarrow> pending r = [])"
proof (induction buf ms arbitrary: b r d rule: pack_msgs.induct)
  case (2 buf m ms)
  then show ?case by (fastforce split: option.splits if_splits)
qed simp

lemma send_buffer_emits: "send_buffer io s = (r, s') \<Longrightarrow> emits s [] s'"
  by (rule emits_silent)
    (auto simp: send_buffer_def out_stream_def crypt_on_def Let_def split: io_result.splits if_splits)

lemma send_msgs_emits: "s_obuf s = [] \<Longrightarrow> send_msgs s = Some (r, s') \<Longrightarrow> emits s [] s'"
  by (rule emits_silent)
    (auto simp: send_msgs_def out_stream_def crypt_on_def split: option.splits if_splits dest: pack_msgs_pending)

text \<open>Building the next block touches neither the buffers nor the cipher.\<close>

definition same_output :: "session \<Rightarrow> session \<Rightarrow> bool" where
  "same_output s s' \<longleftrightarrow> s_obuf s' = s_obuf s \<and> s_msgs s' = s_msgs s \<and> x_wire s' = x_wire s \<and>
     s_keys_out s' = s_keys_out s \<and> crypt_on s' = crypt_on s"

lemma pkt_hack_same: "pkt_hack d s = Some (d', s') \<Longrightarrow> same_output s s'"
  by (auto simp: pkt_hack_def same_output_def node_of_def crypt_on_def split: option.splits if_splits prod.splits)

lemma same_output_trans: "same_output s s1 \<Longrightarrow> same_output s1 s2 \<Longrightarrow> same_output s s2"
  by (simp add: same_output_def)

lemma same_output_emits: "same_output s s' \<Longrightarrow> emits s bs s2 = emits s' bs s2"
  by (simp add: same_output_def emits_def coded_def out_stream_def)

lemma file_sent_same: "same_output s (current_file_was_sent s)"
  by (simp add: same_output_def current_file_was_sent_def crypt_on_def)

lemma file_block_same:
  assumes "file_block h s = Some (d, s')"
  shows "same_output s s'"
proof -
  let ?sz = "next_size h s" and ?b = "fread h (nat (next_size h s)) (x_w s)"
  let ?s1 = "s\<lparr>s_out := s_out s\<lparr>t_f := Some (h\<lparr>h_pos := h_pos h + length ?b\<rparr>)\<rparr>\<rparr>"
  let ?p = "if h_pos h + length ?b = nat ?sz \<and> 60 \<le> ?sz \<and> ispkt (t_netname (s_out s)) then pkt_hack ?b ?s1 else Some (?b, ?s1)"
  have s1: "same_output s ?s1" by (simp add: same_output_def crypt_on_def)
  show ?thesis
  proof (cases "length ?b < nat ?sz")
    case True
    then show ?thesis using assms s1 by (auto simp: file_block_def Let_def split: if_splits)
  next
    case False
    then obtain d' s2 where p: "?p = Some (d', s2)"
      and s': "s' = s2 \<or> s' = current_file_was_sent s2"
      using assms by (auto simp: file_block_def Let_def split: if_splits option.splits)
    have "same_output s s2"
      using p s1 same_output_trans [OF s1 pkt_hack_same] by (auto split: if_splits)
    then show ?thesis using s' same_output_trans [OF _ file_sent_same] by auto
  qed
qed

lemma next_block_same: "next_block s = Some (d, s') \<Longrightarrow> same_output s s'"
  using file_block_same
  by (auto simp: next_block_def same_output_def crypt_on_def split: option.splits)

text \<open>The frames a call of \<^verbatim>\<open>send_block\<close> adds to the stream.\<close>

definition block_frames :: "session \<Rightarrow> frame list" where
  "block_frames s = (if s_obuf s = [] \<and> s_msgs s = [] \<and> ready_data s then
     (case next_block s of Some (Some d, s') \<Rightarrow> [Data d] | _ \<Rightarrow> []) else [])"

lemma send_block_emits:
  assumes "send_block io s = Some (r, s')"
  shows "emits s (wire_image (block_frames s)) s'"
proof (cases "s_obuf s = [] \<and> s_msgs s = [] \<and> ready_data s")
  case True
  then obtain d s1 where n: "next_block s = Some (d, s1)"
    using assms by (auto simp: send_block_def split: option.splits)
  note same = next_block_same [OF n]
  show ?thesis
  proof (cases d)
    case None
    then have "s' = s1" using assms True n by (simp add: send_block_def)
    then have "emits s [] s'" using same_output_emits [OF same] by simp
    then show ?thesis using True None n by (simp add: block_frames_def)
  next
    case (Some b)
    then have "s' = put_block b s1" using assms True n by (simp add: send_block_def)
    moreover have "s_obuf s1 = []" "s_msgs s1 = []" using same True by (simp_all add: same_output_def)
    ultimately have "emits s (mkhdr (length b) @ b) s'"
      using put_block_emits [of s1 b] same_output_emits [OF same] by simp
    then show ?thesis using True Some n by (simp add: block_frames_def)
  qed
next
  case False
  then have "emits s [] s'"
    using assms send_buffer_emits [of io s r s'] send_msgs_emits [of s r s']
    by (cases "s_obuf s = []"; cases "s_msgs s = []") (simp_all add: send_block_def)
  then show ?thesis using False by (auto simp: block_frames_def)
qed

text \<open>
  A stretch of a session, seen from its output: messages are queued, blocks are pumped, and between
  them anything happens that leaves the buffers and the cipher alone.
\<close>

inductive outputs :: "session \<Rightarrow> frame list \<Rightarrow> session \<Rightarrow> bool" for s where
  start: "outputs s [] s"
| queue: "outputs s fs s1 \<Longrightarrow> outputs s (fs @ [Msg m (a @ b)]) (msg_send2 m a b s1)"
| pump: "outputs s fs s1 \<Longrightarrow> send_block io s1 = Some (r, s2) \<Longrightarrow> outputs s (fs @ block_frames s1) s2"
| other: "outputs s fs s1 \<Longrightarrow> same_output s1 s2 \<Longrightarrow> outputs s fs s2"

lemma outputs_emits: "outputs s fs s' \<Longrightarrow> emits s (wire_image fs) s'"
proof (induction rule: outputs.induct)
  case (queue fs s1 m a b)
  then show ?case using emits_trans msg_send2_emits by fastforce
next
  case (pump fs s1 io r s2)
  then show ?case using emits_trans send_block_emits by fastforce
next
  case (other fs s1 s2)
  then show ?case by (simp add: emits_def same_output_def out_stream_def coded_def)
qed simp

lemma outputs_trans: "outputs s1 gs s2 \<Longrightarrow> outputs s fs s1 \<Longrightarrow> outputs s (fs @ gs) s2"
  by (induction rule: outputs.induct)
    (simp_all add: outputs.queue [simplified] outputs.pump outputs.other flip: append_assoc)

lemma outputs_pump: "send_block io s = Some (r, s') \<Longrightarrow> outputs s (block_frames s) s'"
  using outputs.pump [OF outputs.start] by fastforce

section \<open>Sending a file\<close>

text \<open>
  The file in transfer is the plain file \<open>d\<close>, opened at the position of \<open>h\<close>; nothing else is to be sent, no answer
  is waited for, and no addresses are shared (a packet for a shared address is changed while it is sent).
\<close>

definition sends :: "session \<Rightarrow> handle \<Rightarrow> string \<Rightarrow> bool" where
  "sends s h d \<longleftrightarrow> t_f (s_out s) = Some h \<and> fopen_r (h_path h) (x_w s) = Some d \<and>
     t_size (s_out s) = int (length d) \<and> h_pos h \<le> length d \<and> \<not> s_off_req_sent s \<and> \<not> s_waiting_for_GOT s \<and>
     \<not> s_send_eof s \<and> s_msgs s = [] \<and> shares (x_cfg s) = [] \<and> 0 < oblksize (x_cfg s)"

text \<open>Rounds of \<^verbatim>\<open>send_block\<close>, as long as none gives up.\<close>

fun send_rounds :: "io_result list \<Rightarrow> session \<Rightarrow> session option" where
  "send_rounds [] s = Some s"
| "send_rounds (io # ios) s = (case send_block io s of
     None \<Rightarrow> None | Some (r, s') \<Rightarrow> if r = SB_FAIL then None else send_rounds ios s')"

definition block_len :: "session \<Rightarrow> handle \<Rightarrow> string \<Rightarrow> nat" where
  "block_len s h d = min (nat (oblksize (x_cfg s))) (length d - h_pos h)"

lemma shared_dest_none: "shares (x_cfg s) = [] \<Longrightarrow> pkt_hack b s = Some (b, s)"
  by (simp add: pkt_hack_def shared_dest_def split_def)

lemma file_block_sends:
  assumes "sends s h d"
  shows "file_block h s = Some (Some (bytes_of (take (block_len s h d) (drop (h_pos h) d))),
     (let s1 = s\<lparr>s_out := s_out s\<lparr>t_f := Some (h\<lparr>h_pos := h_pos h + block_len s h d\<rparr>)\<rparr>\<rparr> in
      if h_pos h + block_len s h d = length d then current_file_was_sent s1 else s1))"
proof -
  let ?n = "block_len s h d"
  have sz: "next_size h s = int ?n" and n: "?n \<le> length d - h_pos h"
    using assms by (auto simp: sends_def next_size_def block_len_def)
  have fr: "fread h (nat (next_size h s)) (x_w s) = bytes_of (take ?n (drop (h_pos h) d))"
    using assms by (simp add: fread_def sz sends_def)
  have len: "length (bytes_of (take ?n (drop (h_pos h) d))) = ?n" using n by simp
  have z: "?n = 0 \<longleftrightarrow> h_pos h = length d" using assms by (auto simp: sends_def block_len_def)
  have done_iff: "(next_size h s = 0 \<or> t_size (s_out s) = int (h_pos h + ?n)) = (h_pos h + ?n = length d)"
  proof -
    have "t_size (s_out s) = int (length d)" using assms by (simp add: sends_def)
    then show ?thesis using z sz by linarith
  qed
  have ph: "pkt_hack b (s\<lparr>s_out := t\<rparr>) = Some (b, s\<lparr>s_out := t\<rparr>)" for b t
    using assms by (intro shared_dest_none) (simp add: sends_def)
  have hp: "h_pos (h\<lparr>h_pos := x\<rparr>) = x" for x by simp
  have neg: "\<not> next_size h s < 0" "\<not> ?n < nat (next_size h s)" by (simp_all add: sz)
  show ?thesis
    unfolding file_block_def Let_def fr len
    by (simp only: neg if_False ph if_cancel option.case prod.case hp done_iff)
qed

text \<open>A round moves something when the socket takes at least a byte.\<close>

definition moves :: "io_result \<Rightarrow> bool" where
  "moves io \<longleftrightarrow> (\<exists>n. io = Moved (Suc n))"

lemma send_buffer_moved:
  "send_buffer (Moved (Suc n)) s = (SB_OK, s\<lparr>x_wire := x_wire s @ take (Suc n) (s_obuf s), s_obuf := drop (Suc n) (s_obuf s)\<rparr>)"
  by (simp add: send_buffer_def)

lemma sends_buffer: "sends (s\<lparr>x_wire := x, s_obuf := b\<rparr>) h d = sends s h d"
  by (simp add: sends_def)

lemma put_block_frame [simp]:
  "s_msgs (put_block d s) = s_msgs s" "s_out (put_block d s) = s_out s" "s_sent_fls (put_block d s) = s_sent_fls s"
  "x_w (put_block d s) = x_w s" "x_cfg (put_block d s) = x_cfg s" "s_off_req_sent (put_block d s) = s_off_req_sent s"
  "s_waiting_for_GOT (put_block d s) = s_waiting_for_GOT s" "s_send_eof (put_block d s) = s_send_eof s"
  by (simp_all add: put_block_def seal_eq)

lemma put_block_length [simp]: "length (s_obuf (put_block d s)) = length d + 2"
proof -
  have "length (s_obuf (put_block d s)) = length (mkhdr (length d) @ d)"
    unfolding put_block_def seal_eq coded_def by (simp only: prod.case if_distrib [of fst] encrypt_buf_length) (simp add: encrypt_buf_length)
  then show ?thesis by (simp add: mkhdr_def)
qed

definition advanced :: "session \<Rightarrow> handle \<Rightarrow> session" where
  "advanced s h = s\<lparr>s_out := s_out s\<lparr>t_f := Some h\<rparr>\<rparr>"

lemma sends_advance:
  assumes "sends s h d" "h_pos h + block_len s h d < length d"
  shows "sends (put_block b (advanced s (h\<lparr>h_pos := h_pos h + block_len s h d\<rparr>))) (h\<lparr>h_pos := h_pos h + block_len s h d\<rparr>) d"
  using assms by (simp add: sends_def advanced_def)

text \<open>After the last block the buffer is emptied, and then nothing is done.\<close>

definition sent_out :: "session \<Rightarrow> bool" where
  "sent_out s \<longleftrightarrow> s_out s = TF_ZERO \<and> s_msgs s = [] \<and> \<not> s_send_eof s"

lemma rounds_finish:
  assumes "sent_out s" "list_all moves ios" "length (s_obuf s) \<le> length ios"
  shows "\<exists>s'. send_rounds ios s = Some s' \<and> emits s [] s' \<and> s_obuf s' = [] \<and> sent_out s' \<and> s_sent_fls s' = s_sent_fls s"
  using assms
proof (induction ios arbitrary: s)
  case (Cons io ios)
  obtain n where io: "io = Moved (Suc n)" using Cons.prems(2) by (auto simp: moves_def)
  show ?case
  proof (cases "s_obuf s = []")
    case True
    then have "send_block io s = Some (SB_OK, s)"
      using Cons.prems(1) by (simp add: send_block_def sent_out_def ready_data_def TF_ZERO_def)
    then show ?thesis using Cons.IH [OF Cons.prems(1)] Cons.prems(2) True by simp
  next
    case False
    let ?s = "s\<lparr>x_wire := x_wire s @ take (Suc n) (s_obuf s), s_obuf := drop (Suc n) (s_obuf s)\<rparr>"
    have b: "send_block io s = Some (SB_OK, ?s)" using False by (simp add: send_block_def io send_buffer_moved)
    have "sent_out ?s" using Cons.prems(1) by (simp add: sent_out_def)
    moreover have "length (s_obuf ?s) \<le> length ios" using Cons.prems(3) by simp
    ultimately obtain s' where r: "send_rounds ios ?s = Some s'" "emits ?s [] s'" "s_obuf s' = []" "sent_out s'" "s_sent_fls s' = s_sent_fls ?s"
      using Cons.IH [of ?s] Cons.prems(2) by auto
    have "emits s [] ?s" by (rule emits_silent) (simp_all add: out_stream_def crypt_on_def)
    then have "emits s [] s'" using emits_trans [OF _ r(2)] by fastforce
    then show ?thesis using b r by simp
  qed
qed simp

lemma rounds_send:
  assumes "sends s h d" "list_all moves ios" "length (s_obuf s) + 4 * (length d - h_pos h) + 4 \<le> length ios"
  shows "\<exists>bs s' h'. send_rounds ios s = Some s' \<and> emits s (wire_image (map Data bs)) s' \<and>
    concat bs = bytes_of (drop (h_pos h) d) \<and> (\<forall>b\<in>set bs. length b \<le> nat (oblksize (x_cfg s))) \<and>
    s_obuf s' = [] \<and> sent_out s' \<and> s_sent_fls s' = s_sent_fls s @ [s_out s\<lparr>t_f := Some h'\<rparr>]"
  using assms
proof (induction ios arbitrary: s h)
  case (Cons io ios)
  note sd = Cons.prems(1)
  obtain n where io: "io = Moved (Suc n)" using Cons.prems(2) by (auto simp: moves_def)
  have mv: "list_all moves ios" using Cons.prems(2) by simp
  show ?case
  proof (cases "s_obuf s = []")
    case False
    let ?s = "s\<lparr>x_wire := x_wire s @ take (Suc n) (s_obuf s), s_obuf := drop (Suc n) (s_obuf s)\<rparr>"
    have b: "send_block io s = Some (SB_OK, ?s)" using False by (simp add: send_block_def io send_buffer_moved)
    have sd': "sends ?s h d" using sd by (simp only: sends_buffer)
    have ln: "length (s_obuf ?s) + 4 * (length d - h_pos h) + 4 \<le> length ios"
      using Cons.prems(3) False by (cases "s_obuf s") simp_all
    obtain bs s' h' where r: "send_rounds ios ?s = Some s'" "emits ?s (wire_image (map Data bs)) s'"
      "concat bs = bytes_of (drop (h_pos h) d)" "\<forall>b\<in>set bs. length b \<le> nat (oblksize (x_cfg ?s))"
      "s_obuf s' = []" "sent_out s'" "s_sent_fls s' = s_sent_fls ?s @ [s_out ?s\<lparr>t_f := Some h'\<rparr>]"
      using Cons.IH [OF sd' mv ln] by (elim exE conjE)
    have "emits s [] ?s" by (rule emits_silent) (simp_all add: out_stream_def crypt_on_def)
    then have "emits s (wire_image (map Data bs)) s'" using emits_trans [OF _ r(2)] by fastforce
    then show ?thesis using b r(1,3-) by (intro exI [of _ bs] exI [of _ s'] exI [of _ h']) simp
  next
    case True
    let ?n = "block_len s h d"
    let ?h = "h\<lparr>h_pos := h_pos h + ?n\<rparr>" and ?b = "bytes_of (take ?n (drop (h_pos h) d))"
    let ?s1 = "advanced s ?h"
    have r: "ready_data s" "s_msgs s = []" "t_f (s_out s) = Some h" using sd by (auto simp: sends_def ready_data_def)
    have lb: "length ?b = ?n" "?n \<le> nat (oblksize (x_cfg s))" by (simp_all add: block_len_def)
    have nb: "next_block s = Some (Some ?b, if h_pos h + ?n = length d then current_file_was_sent ?s1 else ?s1)"
      using file_block_sends [OF sd] r(3) by (simp add: next_block_def advanced_def Let_def)
    have dr: "drop (h_pos h) d = take ?n (drop (h_pos h) d) @ drop (h_pos h + ?n) d"
      by (metis append_take_drop_id drop_drop add.commute)
    show ?thesis
    proof (cases "h_pos h + ?n = length d")
      case last: True
      let ?s2 = "put_block ?b (current_file_was_sent ?s1)"
      have b: "send_block io s = Some (SB_OK, ?s2)" using r True nb last by (simp add: send_block_def)
      have e: "emits s (frame_bytes (Data ?b)) ?s2"
        using send_block_emits [OF b] r True nb last by (simp add: block_frames_def)
      have so: "sent_out ?s2" using sd by (simp add: sent_out_def current_file_was_sent_def advanced_def sends_def)
      have ln: "length (s_obuf ?s2) \<le> length ios" using lb(1) Cons.prems(3) last by simp
      obtain s' where r': "send_rounds ios ?s2 = Some s'" "emits ?s2 [] s'" "s_obuf s' = []" "sent_out s'"
        "s_sent_fls s' = s_sent_fls ?s2" using rounds_finish [OF so mv ln] by (elim exE conjE)
      have "emits s (wire_image (map Data [?b])) s'" using emits_trans [OF e r'(2)] by simp
      moreover have "?b = bytes_of (drop (h_pos h) d)" using dr last by simp
      ultimately show ?thesis using b r'(1,3-) lb
        by (intro exI [of _ "[?b]"] exI [of _ s'] exI [of _ ?h]) (simp add: current_file_was_sent_def advanced_def)
    next
      case False
      let ?s2 = "put_block ?b ?s1"
      have b: "send_block io s = Some (SB_OK, ?s2)" using r True nb False by (simp add: send_block_def)
      have e: "emits s (frame_bytes (Data ?b)) ?s2"
        using send_block_emits [OF b] r True nb False by (simp add: block_frames_def)
      have lt: "h_pos h + ?n < length d" using False sd by (auto simp: sends_def block_len_def)
      have "0 < ?n" using lt sd by (auto simp: sends_def block_len_def)
      then have ln: "length (s_obuf ?s2) + 4 * (length d - h_pos ?h) + 4 \<le> length ios" using lb(1) Cons.prems(3) lt by simp
      obtain bs s' h' where IH: "send_rounds ios ?s2 = Some s'" "emits ?s2 (wire_image (map Data bs)) s'"
        "concat bs = bytes_of (drop (h_pos ?h) d)" "\<forall>b\<in>set bs. length b \<le> nat (oblksize (x_cfg ?s2))"
        "s_obuf s' = []" "sent_out s'" "s_sent_fls s' = s_sent_fls ?s2 @ [s_out ?s2\<lparr>t_f := Some h'\<rparr>]"
        using Cons.IH [OF sends_advance [OF sd lt] mv ln] by (elim exE conjE)
      have "emits s (wire_image (map Data (?b # bs))) s'" using emits_trans [OF e IH(2)] by simp
      moreover have "concat (?b # bs) = bytes_of (drop (h_pos h) d)"
        using IH(3) dr by (simp add: bytes_of_def flip: map_append)
      ultimately show ?thesis using b IH(1,4-) lb
        by (intro exI [of _ "?b # bs"] exI [of _ s'] exI [of _ h']) (simp add: advanced_def)
    qed
  qed
qed simp

end
