(* ===== verification/Spool.thy ===== *)
theory Spool
  imports Send Readflo
begin

text \<open>
  What becomes of a file after it was acknowledged (\<^verbatim>\<open>protocol.c\<close>): the action on the file, the mark in
  its flow file, the list of sent files; and the announcement of the waiting mail.
\<close>

section \<open>Actions\<close>

definition perform_action :: "string \<Rightarrow> char \<Rightarrow> session \<Rightarrow> session" where
  "perform_action path action s =
    (if action = CHR ''d'' then
       (case delete path (x_w s) of
          (True, w) \<Rightarrow> s\<lparr>x_w := w\<rparr>
        | (False, w) \<Rightarrow> s\<lparr>x_w := w, s_nosendlist := s_nosendlist s @ [path]\<rparr>)
     else if action = CHR ''t'' then s\<lparr>x_w := snd (trunc_file path (x_w s))\<rparr>
     else if action = CHR ''s'' then s\<lparr>s_killlist := add_to_killlist (s_killlist s) path (CHR ''s'')\<rparr>
     else s)"

section \<open>Flow files\<close>

text \<open>A line of a flow file is the entry of \<open>file\<close>, plain or with an action prefix.\<close>

definition entry_of :: "string option \<Rightarrow> string \<Rightarrow> bool" where
  "entry_of file buf \<longleftrightarrow> (case file of None \<Rightarrow> False | Some f \<Rightarrow>
     f = buf \<or> ((hd buf = CHR ''^'' \<or> hd buf = CHR ''#'') \<and> f = tl buf))"

text \<open>
  The loop over the lines: the new contents, whether nothing is left to send, whether the file was
  found.  The first character of its line is overwritten and the rest of the line is read again.
\<close>

lemma fgets_path_shorter: "fgets MAXPATHLEN s = Some (l, r) \<Longrightarrow> length r < length s"
  by (erule fgets_shorter) simp

function mark_lines :: "string option \<Rightarrow> string \<Rightarrow> string \<times> bool \<times> bool" where
  "mark_lines file flo = (case fgets MAXPATHLEN flo of
     None \<Rightarrow> ([], True, False)
   | Some (l, r) \<Rightarrow>
       let buf = strip_right (c_string l) in
       if buf = [] then (case mark_lines file r of (c, e, m) \<Rightarrow> (l @ c, e, m))
       else if entry_of file buf then
         (case fgets MAXPATHLEN (tl flo) of
            None \<Rightarrow> (''~'', True, True)
          | Some (l2, r2) \<Rightarrow> (case mark_lines file r2 of (c, e, m) \<Rightarrow> (CHR ''~'' # l2 @ c, e, True)))
       else (case mark_lines file r of (c, e, m) \<Rightarrow> (l @ c, e \<and> hd buf = CHR ''~'', m)))"
  by pat_completeness auto

termination mark_lines
proof (relation "measure (\<lambda>(f, s). length s)", goal_cases)
  case (3 fl flo x l r buf y l2 r2)
  then have "length r2 < length (tl flo)" by (auto dest: fgets_path_shorter)
  then show ?case by simp
qed (auto dest: fgets_path_shorter)

declare mark_lines.simps [simp del]

text \<open>
  The flow file is the one being walked (its stream stays open and where it was) or another one,
  which is removed when nothing is left to send.  \<open>None\<close> for a flow file that cannot be opened; the
  inner value is whether the entry was found.
\<close>

definition mark_flo :: "string \<Rightarrow> string option \<Rightarrow> session \<Rightarrow> (bool \<times> session) option" where
  "mark_flo flopath file s =
    (let walked = (t_f (s_flo s) \<noteq> None \<and> t_path (s_flo s) = flopath) in
     case stat (x_w s) flopath of
       Some (File d t) \<Rightarrow>
         if \<not> walked \<and> denied (x_w s) flopath then None
         else (case mark_lines file d of (c, e, m) \<Rightarrow>
           let w1 = (if m then fs_put flopath (File c (w_time (x_w s))) (x_w s) else x_w s);
               w2 = (if \<not> walked \<and> e then snd (delete flopath w1) else w1)
           in Some (m, s\<lparr>x_w := w2\<rparr>))
     | _ \<Rightarrow> if walked then Some (False, s) else None)"

definition remove_from_spool :: "string \<Rightarrow> string option \<Rightarrow> char \<Rightarrow> session \<Rightarrow> bool \<times> session" where
  "remove_from_spool flopath file action s =
    (case (if flopath \<noteq> [] then mark_flo flopath file s else Some (False, s)) of
       None \<Rightarrow> (False, s)
     | Some (found, s1) \<Rightarrow> (True, case file of
         None \<Rightarrow> s1
       | Some f \<Rightarrow> (case (if found then trans_flo_line f (rf_rules (x_cfg s1)) else None) of
           Some w \<Rightarrow> perform_action w action s1
         | None \<Rightarrow> perform_action f action s1)))"

section \<open>Sent files\<close>

definition remove_from_sent_files_queue :: "nat \<Rightarrow> session \<Rightarrow> session" where
  "remove_from_sent_files_queue n s =
    (let fs = (s_sent_fls s)[n := (s_sent_fls s ! n)\<lparr>t_netname := []\<rparr>] in
     s\<lparr>s_sent_fls := if \<forall>f\<in>set fs. t_netname f = [] then [] else fs\<rparr>)"

section \<open>Announcement\<close>

definition scan_link :: "session \<Rightarrow> session" where
  "scan_link s = (case q_scan_addrs (take (s_nfa s) (s_fa s)) (s_to s \<noteq> None) (Q [], fs_cfg s) of
     (q, st) \<Rightarrow> set_fs_cfg st (s\<lparr>s_q := case q of Q es \<Rightarrow> es | SCAN_LISTED \<Rightarrow> []\<rparr>))"

definition uint_str :: "int \<Rightarrow> string" where
  "uint_str i = dec_of_nat (nat (i mod 2 ^ 64))"

definition do_prescan :: "session \<Rightarrow> session" where
  "do_prescan s =
    (if OK_SEND_FILES s \<and> prescan (x_cfg s) then
       let s1 = scan_link s;
           (q, netsize, filessize) = q_get_sizes (x_w s1) (s_q s1);
           s2 = msg_send2 M_NUL ''TRF '' (uint_str netsize @ '' '' @ uint_str filessize) (s1\<lparr>s_q := q\<rparr>)
       in if s_major s2 * 100 + s_minor s2 \<le> 100
          then (msg_send2 M_NUL ''FREQ'' [] ^^ q_freq_num (s_q s2)) s2 else s2
     else s)"

end
