(* ===== verification/Inbound.thy ===== *)
theory Inbound
  imports State Readflo Getw
begin

text \<open>
  The inbound (\<^verbatim>\<open>inbound.c\<close>): a file being received is stored as a pair \<open>xxxxxxxx.hr\<close> (its name, size,
  time and sender in one line) and \<open>xxxxxxxx.dt\<close> (the data so far), and gets its real name when it is
  complete.
\<close>

section \<open>Names\<close>

text \<open>The directory with a separator behind it.\<close>

definition in_dir :: "string \<Rightarrow> string" where
  "in_dir d = (let s = strnzcpy d MAXPATHLEN in
     if s \<noteq> [] \<and> last s \<noteq> CHR ''/'' then strnzcat s ''/'' MAXPATHLEN else s)"

text \<open>\<^verbatim>\<open>strcpy (strrchr (path, '.'), ext)\<close> on a path with a dot.\<close>

definition with_ext :: "string \<Rightarrow> string \<Rightarrow> string" where
  "with_ext p e = (case strrchr p (CHR ''.'') of None \<Rightarrow> p | Some i \<Rightarrow> take i p @ e)"

definition umax :: "int \<Rightarrow> string" where
  "umax i = dec_of_nat (nat (i mod 2 ^ 64))"

definition hr_line :: "TFILE \<Rightarrow> string \<Rightarrow> string" where
  "hr_line file node = t_netname file @ '' '' @ umax (t_size file) @ '' '' @ umax (t_time file) @ '' '' @ node @ [CHR 0x0A]"

definition is_hr_name :: "string \<Rightarrow> bool" where
  "is_hr_name n \<longleftrightarrow> 8 \<le> length n \<and> (\<forall>c\<in>set (take 8 n). isxdigit c) \<and> o_stricmp (drop 8 n) ''.hr'' = 0"

definition remove_hr :: "string \<Rightarrow> world \<Rightarrow> world" where
  "remove_hr path w = snd (delete (with_ext path ''.hr'') (snd (delete (with_ext path ''.dt'') w)))"

section \<open>Temporary files\<close>

text \<open>
  The loop draws numbers until a file of that name could be created; \<open>None\<close> when none of the draws
  gives one.  The inner option is the path, or \<open>None\<close> when the line could not be written.
\<close>

fun creat_loop :: "string \<Rightarrow> string \<Rightarrow> nat list \<Rightarrow> world \<Rightarrow> (string option \<times> nat list \<times> world) option" where
  "creat_loop base line [] w = None"
| "creat_loop base line (r # rs) w =
    (let s = strnzcat base (hex_pad 8 (r mod 2 ^ 32) @ ''.hr'') MAXPATHLEN in
     case create_empty_sem_file s w of
       (False, w1) \<Rightarrow> creat_loop base line rs w1
     | (True, w1) \<Rightarrow> (case fopen_w s w1 of
         (False, w2) \<Rightarrow> Some (None, rs, snd (delete s w2))
       | (True, w2) \<Rightarrow> if w_full w2 then Some (None, rs, snd (delete s w2))
                     else Some (Some s, rs, fs_append s line w2)))"

definition sender_name :: "session \<Rightarrow> string" where
  "sender_name s = (case s_fa s of [] \<Rightarrow> ''0:0/0.0@unknown'' | fa # r \<Rightarrow> ftnaddress_to_str fa)"

definition creat_tmp_name :: "TFILE \<Rightarrow> string \<Rightarrow> session \<Rightarrow> (string option \<times> session) option" where
  "creat_tmp_name file inb s =
    (case creat_loop (in_dir inb) (hr_line file (sender_name s)) (x_rnd s) (x_w s) of
       None \<Rightarrow> None | Some (p, rs, w) \<Rightarrow> Some (p, s\<lparr>x_rnd := rs, x_w := w\<rparr>))"

definition to_be_deleted :: "string \<Rightarrow> int \<Rightarrow> BINKD_CONFIG \<Rightarrow> world \<Rightarrow> bool" where
  "to_be_deleted tmp_name filesize cfg w \<longleftrightarrow> kill_old_partial_files cfg \<noteq> 0 \<and>
    (case stat w tmp_name of
       None \<Rightarrow> False
     | Some sd \<Rightarrow> (case stat w (with_ext tmp_name ''.dt'') of
         Some sb \<Rightarrow> fst (file_size sb) \<noteq> filesize \<and> w_time w - snd (file_size sb) > kill_old_partial_files cfg
       | None \<Rightarrow> w_time w - snd (file_size sd) > kill_old_partial_files cfg))"

text \<open>The number of the first address of the list equal to \<open>fa\<close>, or the length of the list.\<close>

definition addr_index :: "FTN_ADDR \<Rightarrow> FTN_ADDR list \<Rightarrow> nat" where
  "addr_index fa fas = length (takeWhile (\<lambda>a. ftnaddress_cmp fa a \<noteq> 0) fas)"

text \<open>The four words of a \<open>.hr\<close> line; \<open>None\<close> for a read past the end, \<open>Some None\<close> when one is missing.\<close>

definition hr_words :: "string \<Rightarrow> (string \<times> string \<times> string \<times> string) option option" where
  "hr_words buf = (case (getwordx buf 1 noesc, getwordx buf 2 noesc, getwordx buf 3 noesc, getwordx buf 4 noesc) of
     (GwWord a, GwWord b, GwWord c, GwWord d) \<Rightarrow> Some (Some (a, b, c, d))
   | (a, b, c, d) \<Rightarrow> if GwOob \<in> {a, b, c, d} then None else Some None)"

text \<open>Clearing the lowest bit of a time.\<close>

definition even_time :: "int \<Rightarrow> int" where
  "even_time t = t - t mod 2"

text \<open>What is done with one \<open>.hr\<close> file; without a file to look for, those of the link are removed.\<close>

datatype hr_act = HR_KEEP | HR_REMOVE | HR_FOUND | HR_BUSY

definition hr_match :: "TFILE option \<Rightarrow> session \<Rightarrow> string \<Rightarrow> string \<times> string \<times> string \<times> string \<Rightarrow> hr_act" where
  "hr_match file s hr ws = (case ws of (w0, w1, w2, w3) \<Rightarrow>
     let i = (case parse_ftnaddress w3 (pDomains (x_cfg s)) of None \<Rightarrow> -1 | Some fa \<Rightarrow> int (addr_index fa (s_fa s)));
         ours = (0 \<le> i \<and> i < int (nallfa s))
     in case file of
          None \<Rightarrow> if ours \<and> \<not> s_skip_all_flag s then HR_REMOVE else HR_KEEP
        | Some f \<Rightarrow>
            if 0 \<le> i \<and> w0 = t_netname f then
              (if t_size f = to_int64 (int (strtoumax w1)) \<and> even_time (t_time f) = even_time (safe_atol w2) \<and> ours
               then (if i \<ge> int (s_nfa s) then HR_BUSY else HR_FOUND)
               else if kill_dup_partial_files (x_cfg s) \<and> ours then HR_REMOVE else HR_KEEP)
            else if to_be_deleted hr (to_int64 (int (strtoumax w1))) (x_cfg s) (x_w s) then HR_REMOVE else HR_KEEP)"

definition hr_check :: "TFILE option \<Rightarrow> string \<Rightarrow> session \<Rightarrow> hr_act option" where
  "hr_check file hr s = (let old = (if to_be_deleted hr (-1) (x_cfg s) (x_w s) then HR_REMOVE else HR_KEEP) in
     case fopen_r hr (x_w s) of
       None \<Rightarrow> Some HR_KEEP
     | Some d \<Rightarrow> (case fgets (MAXPATHLEN + 80) d of
         None \<Rightarrow> Some old
       | Some (buf, r) \<Rightarrow> (case hr_words (c_string buf) of
           None \<Rightarrow> None | Some None \<Rightarrow> Some old | Some (Some ws) \<Rightarrow> Some (hr_match file s hr ws))))"

datatype find_result = FIND_NONE | FIND_FOUND string | FIND_BUSY

fun find_loop :: "TFILE option \<Rightarrow> string \<Rightarrow> string list \<Rightarrow> session \<Rightarrow> (find_result \<times> session) option" where
  "find_loop file base [] s = Some (FIND_NONE, s)"
| "find_loop file base (n # ns) s =
    (if \<not> is_hr_name n then find_loop file base ns s
     else let hr = strnzcat base n MAXPATHLEN in
       case hr_check file hr s of
         None \<Rightarrow> None
       | Some HR_KEEP \<Rightarrow> find_loop file base ns s
       | Some HR_REMOVE \<Rightarrow> find_loop file base ns (s\<lparr>x_w := remove_hr hr (x_w s)\<rparr>)
       | Some HR_FOUND \<Rightarrow> Some (FIND_FOUND hr, s)
       | Some HR_BUSY \<Rightarrow> Some (FIND_BUSY, s))"

definition tmp_dir :: "session \<Rightarrow> string" where
  "tmp_dir s = (if temp_inbound (x_cfg s) \<noteq> [] then temp_inbound (x_cfg s) else s_inbound s)"

text \<open>The results 0, 1 and 2 of \<^verbatim>\<open>find_tmp_name\<close>; the path is that of the data.\<close>

datatype tmp_result = TMP_NONE | TMP_FOUND string | TMP_NEW string

definition find_tmp_name :: "TFILE option \<Rightarrow> session \<Rightarrow> (tmp_result \<times> session) option" where
  "find_tmp_name file s = (let inb = tmp_dir s in
     if stat (x_w s) inb \<noteq> Some Dir then Some (TMP_NONE, s)
     else case find_loop file (in_dir inb) (readdir_names (x_w s) inb) s of
       None \<Rightarrow> None
     | Some (FIND_BUSY, s') \<Rightarrow> Some (TMP_NONE, s')
     | Some (FIND_FOUND hr, s') \<Rightarrow> Some (TMP_FOUND (with_ext hr ''.dt''), s')
     | Some (FIND_NONE, s') \<Rightarrow> (case file of
         None \<Rightarrow> Some (TMP_NONE, s')
       | Some f \<Rightarrow> (case creat_tmp_name f inb s' of
           None \<Rightarrow> None
         | Some (None, s'') \<Rightarrow> Some (TMP_NONE, s'')
         | Some (Some hr, s'') \<Rightarrow> Some (TMP_NEW (with_ext hr ''.dt''), s''))))"

definition inb_remove_partial :: "session \<Rightarrow> session option" where
  "inb_remove_partial s = map_option snd (find_tmp_name None s)"

text \<open>Whether a partial file of one of the active addresses is there.\<close>

definition is_partial_of :: "string \<Rightarrow> session \<Rightarrow> bool option" where
  "is_partial_of hr s = (case fopen_r hr (x_w s) of
     None \<Rightarrow> Some False
   | Some d \<Rightarrow> (case fgets (MAXPATHLEN + 80) d of
       None \<Rightarrow> Some False
     | Some (buf, r) \<Rightarrow> (case getwordx (c_string buf) 4 noesc of
         GwOob \<Rightarrow> None
       | GwNull \<Rightarrow> Some False
       | GwWord w3 \<Rightarrow> (case parse_ftnaddress w3 (pDomains (x_cfg s)) of
           None \<Rightarrow> Some False
         | Some fa \<Rightarrow> Some (\<exists>a\<in>set (take (s_nfa s) (s_fa s)). ftnaddress_cmp fa a = 0)))))"

fun partials_loop :: "string \<Rightarrow> string list \<Rightarrow> session \<Rightarrow> bool option" where
  "partials_loop base [] s = Some False"
| "partials_loop base (n # ns) s =
    (if \<not> is_hr_name n then partials_loop base ns s
     else case is_partial_of (strnzcat base n MAXPATHLEN) s of
       None \<Rightarrow> None | Some True \<Rightarrow> Some True | Some False \<Rightarrow> partials_loop base ns s)"

definition inb_has_partials :: "session \<Rightarrow> bool option" where
  "inb_has_partials s = (let inb = tmp_dir s in
     if stat (x_w s) inb \<noteq> Some Dir then Some False
     else partials_loop (in_dir inb) (readdir_names (x_w s) inb) s)"

section \<open>Opening the data file\<close>

text \<open>\<^verbatim>\<open>open\<close> with \<^verbatim>\<open>O_CREAT | O_APPEND | O_RDWR\<close>: the contents, or \<open>None\<close> for an error.\<close>

definition open_append :: "string \<Rightarrow> world \<Rightarrow> string option \<times> world" where
  "open_append p w = (case stat w p of
     Some Dir \<Rightarrow> (None, w)
   | Some (File d t) \<Rightarrow> if denied w p then (None, w) else (Some d, w)
   | None \<Rightarrow> (case open_excl p w of (Some e, w') \<Rightarrow> (None, w') | (None, w') \<Rightarrow> (Some [], w')))"

definition free_space :: "string \<Rightarrow> session \<Rightarrow> nat" where
  "free_space buf s = (let tmp = temp_inbound (x_cfg s) in
     if tmp \<noteq> [] \<and> starts tmp buf then min (x_free s tmp) (x_free s (s_inbound s)) else x_free s (s_inbound s))"

definition enough_space :: "string \<Rightarrow> int \<Rightarrow> session \<Rightarrow> bool" where
  "enough_space buf have_size s =
    (let req_free = (if s_state s = P_SECURE then minfree (x_cfg s) else minfree_nonsecure (x_cfg s)) in
     req_free < 0 \<or> int (free_space buf s) \<ge> (t_size (s_in s) - have_size + 1023) div 1024 + req_free)"

text \<open>
  The jump back to \<^verbatim>\<open>fopen_again\<close> after an oversized partial file was emptied or removed; the first
  argument is the number of attempts, \<open>None\<close> means that they were not enough.
\<close>

fun fopen_again :: "nat \<Rightarrow> string \<Rightarrow> session \<Rightarrow> (handle option \<times> session) option" where
  "fopen_again 0 buf s = None"
| "fopen_again (Suc n) buf s =
    (case open_append buf (x_w s) of
       (None, w) \<Rightarrow> Some (None, s\<lparr>x_w := w\<rparr>)
     | (Some d, w) \<Rightarrow>
         if int (length d) > t_size (s_in s) then
           (case trunc_file buf w of
              (True, w1) \<Rightarrow> fopen_again n buf (s\<lparr>x_w := w1\<rparr>)
            | (False, w1) \<Rightarrow> (case delete buf w1 of
                (False, w2) \<Rightarrow> Some (None, s\<lparr>x_w := w2\<rparr>)
              | (True, w2) \<Rightarrow> fopen_again n buf (s\<lparr>x_w := w2\<rparr>)))
         else if enough_space buf (int (length d)) s then Some (Some \<lparr>h_path = buf, h_pos = length d\<rparr>, s\<lparr>x_w := w\<rparr>)
         else Some (None, s\<lparr>x_w := w\<rparr>))"

text \<open>Two attempts are enough if any number is (\<open>fopen_again_enough\<close>).\<close>

definition inb_fopen :: "session \<Rightarrow> (handle option \<times> session) option" where
  "inb_fopen s = (case find_tmp_name (Some (s_in s)) s of
     None \<Rightarrow> None
   | Some (TMP_NONE, s1) \<Rightarrow> Some (None, s1)
   | Some (TMP_FOUND buf, s1) \<Rightarrow> fopen_again 2 buf s1
   | Some (TMP_NEW buf, s1) \<Rightarrow> fopen_again 2 buf s1)"

definition inb_reject :: "session \<Rightarrow> (bool \<times> session) option" where
  "inb_reject s = (case find_tmp_name (Some (s_in s)) s of
     None \<Rightarrow> None
   | Some (TMP_FOUND p, s1) \<Rightarrow> Some (True, s1\<lparr>x_w := remove_hr (with_ext p ''.hr'') (x_w s1)\<rparr>)
   | Some (_, s1) \<Rightarrow> Some (False, s1))"

section \<open>Packet headers\<close>

abbreviation A_LST :: int where "A_LST \<equiv> 1"
abbreviation A_UNLST :: int where "A_UNLST \<equiv> 2"
abbreviation A_PROT :: int where "A_PROT \<equiv> 4"
abbreviation A_UNPROT :: int where "A_UNPROT \<equiv> 8"

text \<open>The loop over the addresses: \<open>None\<close> when a node has the check off, else whether one is listed
  (its zone is positive) and whether one has the check on.\<close>

fun hc_flags :: "FTN_ADDR list \<Rightarrow> bool \<times> bool \<Rightarrow> session \<Rightarrow> (bool \<times> bool) option \<times> session" where
  "hc_flags [] lc s = (Some lc, s)"
| "hc_flags (fa # fas) lc s = (case node_of fa s of
     (None, s1) \<Rightarrow> hc_flags fas lc s1
   | (Some n, s1) \<Rightarrow>
       if n_HC_flag n = -1 then (None, s1)
       else hc_flags fas (fst lc \<or> fa_z (n_fa n) > 0, snd lc \<or> n_HC_flag n = 1) s1)"

definition hdr_matches :: "byte list \<Rightarrow> FTN_ADDR list \<Rightarrow> bool" where
  "hdr_matches buf fas = (case pkt_getaddr buf of (ok, a) \<Rightarrow> ok \<and>
     (\<exists>fa\<in>set fas. (oz a < 0 \<or> fa_z fa = oz a) \<and> (onet a < 0 \<or> fa_net fa = onet a) \<and>
        fa_node fa = onode a \<and> (op a < 0 \<or> fa_p fa = op a)))"

text \<open>The extension is overwritten in place and never grows.\<close>

definition bad_ext :: "string \<Rightarrow> string \<Rightarrow> string" where
  "bad_ext bad real = (case strrchr real (CHR ''.'') of
     None \<Rightarrow> real
   | Some i \<Rightarrow> if i = 0 then real
       else let check = length real - Suc i in
         if length bad + 1 \<le> check then take (Suc i) real @ bad else take (Suc i) real @ take check bad)"

definition check_pkthdr :: "string \<Rightarrow> string \<Rightarrow> session \<Rightarrow> string \<times> session" where
  "check_pkthdr tmp_name real_name s =
    (let cfg = x_cfg s; secure = (s_state s = P_SECURE) in
     if pkthdr_bad cfg = [] then (real_name, s)
     else case hc_flags (s_fa s) (False, False) s of
       (None, s1) \<Rightarrow> (real_name, s1)
     | (Some (listed, check), s1) \<Rightarrow>
         if \<not> check \<and> (pkthdr_type cfg = 0 \<or> (pkthdr_type cfg = A_PROT \<and> \<not> secure) \<or>
              (pkthdr_type cfg = A_UNPROT \<and> secure) \<or> (pkthdr_type cfg = A_LST \<and> \<not> listed) \<or>
              (pkthdr_type cfg = A_UNLST \<and> listed))
         then (real_name, s1)
         else let ok = (case fopen_r tmp_name (x_w s1) of
                          None \<Rightarrow> False
                        | Some d \<Rightarrow> 58 \<le> length d \<and> hdr_matches (bytes_of (take 58 d)) (s_fa s1))
              in (if ok then real_name else bad_ext (pkthdr_bad cfg) real_name, s1))"

section \<open>The next candidate for a name that is taken\<close>

abbreviation MAX_INB_RENAME :: int where "MAX_INB_RENAME \<equiv> 10000"

text \<open>
  The carry: \<open>p\<close> runs to the left from the last character of the counter that starts at \<open>s\<close>, and stops at a
  separator or a dot.  The code has no test for the beginning of the string: at index 0 it reads the byte in
  front of the array, which the model takes for a separator.  Only a relative inbound whose name
  consists of top digits, with a name of the same kind in it, can lead there.
\<close>

definition top_digit :: "renamestyletype \<Rightarrow> char \<Rightarrow> bool" where
  "top_digit style c \<longleftrightarrow> (style = RENAME_EXTENSION \<and> c = CHR ''z'') \<or> (style = RENAME_BODY \<and> c = CHR ''f'')"

fun bump :: "renamestyletype \<Rightarrow> nat \<Rightarrow> string \<Rightarrow> nat \<Rightarrow> bool \<times> string \<times> nat" where
  "bump style s fname p =
    (if fname ! p = CHR ''9'' then (True, fname[p := CHR ''a''], s)
     else if top_digit style (fname ! p) then
       (case p of
          0 \<Rightarrow> (False, fname, s)
        | Suc q \<Rightarrow>
            let f1 = fname[p := CHR ''0''] in
            if f1 ! q = CHR ''/'' \<or> f1 ! q = CHR ''.'' then (False, f1, s)
            else if p \<noteq> s then bump style s f1 q
            else (True, f1[q := CHR ''0''], q))
     else (True, fname[p := char_of (ord (fname ! p) + 1)], s))"

declare bump.simps [simp del]

definition next_inb_filename :: "renamestyletype \<Rightarrow> string \<Rightarrow> nat \<Rightarrow> bool \<times> string \<times> nat" where
  "next_inb_filename style fname s =
    (let rest = drop s fname in
     if style = RENAME_POSTFIX then
       (if rest = [] then (True, fname @ ''.1'', s)
        else let num = atoi (drop 1 rest) in
          if num \<le> 0 \<or> num > MAX_INB_RENAME then (False, fname, s)
          else (True, take (Suc s) fname @ dec_of_int (num + 1), s))
     else if (style = RENAME_EXTENSION \<and> rest = []) \<or> (style = RENAME_BODY \<and> rest \<noteq> [] \<and> hd rest = CHR ''.'')
     then (True, fname[s - 1 := CHR ''0''], s - 1)
     else bump style s fname (s + length (takeWhile isalnum (drop 1 rest))))"

section \<open>The complete file\<close>

definition mask_test :: "string \<Rightarrow> string list \<Rightarrow> bool" where
  "mask_test s masks \<longleftrightarrow> (\<exists>m\<in>set masks. pmatch_ncase m s)"

text \<open>The path in the inbound: the dequoted name in the configured case, with separators wiped.\<close>

definition wiped :: "string \<Rightarrow> string \<Rightarrow> string" where
  "wiped dir name = (let p = strnzcat dir name MAXPATHLEN in take (length dir) p @ strwipe (drop (length dir) p))"

definition real_path :: "string \<Rightarrow> session \<Rightarrow> string" where
  "real_path name s = wiped (in_dir (s_inbound s)) (makeinboundcase (strdequote name) (inboundcase (x_cfg s)))"

definition body_style :: "string \<Rightarrow> bool" where
  "body_style name \<longleftrightarrow> ispkt name \<or> istic name \<or> isarcmail name \<or> isreq name"

definition retry_errno :: "errno \<Rightarrow> bool" where
  "retry_errno e \<longleftrightarrow> e = EEXIST \<or> e = EACCES"

text \<open>Replacing an existing file: up to eleven rounds of \<^verbatim>\<open>unlink\<close> and rename.\<close>

fun overwrite_loop :: "nat \<Rightarrow> string \<Rightarrow> string \<Rightarrow> world \<Rightarrow> bool \<times> world" where
  "overwrite_loop n tmp real w =
    (case o_rename tmp real (snd (unlink real w)) of
       (None, w1) \<Rightarrow> (True, w1)
     | (Some e, w1) \<Rightarrow> (case n of
         0 \<Rightarrow> (False, w1) | Suc m \<Rightarrow> if retry_errno e then overwrite_loop m tmp real w1 else (False, w1)))"

declare overwrite_loop.simps [simp del]

text \<open>
  Trying names until one is free.  The fallback from extensions to postfixes starts over with the
  original name \<open>orig\<close>, its counter at \<open>base\<close>, the start of the name.
\<close>

partial_function (option) rename_loop ::
  "string \<Rightarrow> string \<Rightarrow> nat \<Rightarrow> renamestyletype \<Rightarrow> string \<Rightarrow> nat \<Rightarrow> world \<Rightarrow> (string option \<times> world) option" where
  "rename_loop tmp orig base style real s w =
    (case o_rename tmp real w of (err, w1) \<Rightarrow>
       (case err of
          None \<Rightarrow> Some (Some real, w1)
        | Some e \<Rightarrow>
            if \<not> retry_errno e then Some (None, w1)
            else (case next_inb_filename style real s of (ok, real', s') \<Rightarrow>
              if ok then rename_loop tmp orig base style real' s' w1
              else if style = RENAME_EXTENSION then rename_loop tmp orig base RENAME_POSTFIX orig base w1
              else Some (None, w1))))"

declare rename_loop.simps [code]

definition move_file :: "TFILE \<Rightarrow> string \<Rightarrow> session \<Rightarrow> (string option \<times> session) option" where
  "move_file file tmp s =
    (let netname = t_netname file; real = real_path netname s in
     if mask_test netname (overwrite (x_cfg s)) \<and> \<not> ispkt netname \<and> \<not> isarcmail netname then
       (case overwrite_loop 10 tmp real (x_w s) of
          (ok, w) \<Rightarrow> Some (if ok then Some real else None, s\<lparr>x_w := w\<rparr>))
     else
       let (real1, s1) = (if ispkt netname then check_pkthdr tmp real s else (real, s));
           body = body_style netname;
           style = (if body then RENAME_BODY else renamestyle (x_cfg s1));
           s2 = s1\<lparr>x_w := snd (touch tmp (t_time file) (x_w s1))\<rparr>
       in (case rename_loop tmp real (length (in_dir (s_inbound s))) style real1
                 (if body then length real1 - 4 else length real1) (x_w s2) of
             None \<Rightarrow> None | Some (r, w) \<Rightarrow> Some (r, s2\<lparr>x_w := w\<rparr>)))"

text \<open>No event flags are configured, so \<^verbatim>\<open>evt_test\<close> finds nothing to run.\<close>

definition inb_done :: "TFILE \<Rightarrow> session \<Rightarrow> (bool \<times> session) option" where
  "inb_done file s = (case find_tmp_name (Some file) s of
     None \<Rightarrow> None
   | Some (TMP_FOUND tmp, s1) \<Rightarrow> (case move_file file tmp s1 of
       None \<Rightarrow> None
     | Some (None, s2) \<Rightarrow> Some (False, s2)
     | Some (Some real, s2) \<Rightarrow>
         let s3 = s2\<lparr>x_w := snd (delete (with_ext tmp ''.hr'') (x_w s2))\<rparr>;
             s4 = s3\<lparr>s_delay_EOB := if s_delay_EOB s3 \<noteq> 0 \<and> isreq (t_netname file) then s_delay_EOB s3 - 1 else s_delay_EOB s3\<rparr>
         in if s_fa s4 = [] then None
            else Some (True, s4\<lparr>s_bytes_rcvd := s_bytes_rcvd s4 + t_size file, s_files_rcvd := s_files_rcvd s4 + 1\<rparr>))
   | Some (_, s1) \<Rightarrow> Some (False, s1))"

text \<open>Whether a file of this size and time is there already, under one of the names it would get.\<close>

partial_function (option) test_loop :: "renamestyletype \<Rightarrow> int \<Rightarrow> int \<Rightarrow> string \<Rightarrow> nat \<Rightarrow> world \<Rightarrow> bool option" where
  "test_loop style sz t fp s w =
    (case stat w fp of
       None \<Rightarrow> Some False
     | Some e \<Rightarrow>
         if fst (file_size e) = sz \<and> even_time (snd (file_size e)) = even_time t then Some True
         else (case next_inb_filename style fp s of (ok, fp', s') \<Rightarrow>
           if ok then test_loop style sz t fp' s' w else Some False))"

declare test_loop.simps [code]

definition inb_test :: "string \<Rightarrow> int \<Rightarrow> int \<Rightarrow> session \<Rightarrow> bool option" where
  "inb_test name sz t s =
    (let fp = wiped (in_dir (s_inbound s)) (strdequote name); body = body_style name in
     test_loop (if body then RENAME_BODY else renamestyle (x_cfg s)) sz t fp
       (if body then length fp - 4 else length fp) (x_w s))"

end
