(* ===== verification/Login.thy ===== *)
theory Login
  imports Spool Inbound Hosts
begin

text \<open>
  The login (\<^verbatim>\<open>protocol.c\<close>): the banner, the information messages, the exchange of addresses, the
  password check, and what both sides agree on before files are sent.
\<close>

section \<open>Information messages\<close>

definition sq_cntrl :: sq_flags where
  "sq_cntrl = \<lparr>SQ_CNTRL = True, SQ_SPACE = False\<rparr>"

text \<open>Releases that need the workaround for non-reliable mode.\<close>

definition buggy_version :: "string \<Rightarrow> bool" where
  "buggy_version v \<longleftrightarrow> starts ''binkd/0.9/'' v \<or> starts ''binkd/0.9.1/'' v \<or> starts ''binkd/0.9.2/'' v \<or>
     starts ''binkd/0.9.3/'' v \<or> (starts ''binkd/0.9.3'' v \<and> 12 < length v \<and> isalpha (v ! 11) \<and> v ! 12 = CHR ''/'') \<or>
     starts ''binkd/0.9.4/'' v"

definition NUL_ver :: "string \<Rightarrow> session \<Rightarrow> session option" where
  "NUL_ver txt s = (case strstr txt ''binkp/'' of None \<Rightarrow> None
     | Some a \<Rightarrow> (case strstr a ''.'' of None \<Rightarrow> None
       | Some b \<Rightarrow>
           let s1 = s\<lparr>s_major := atoi (drop 6 a), s_minor := atoi (drop 1 b)\<rparr>
           in Some (if buggy_version (drop 4 txt) then s1\<lparr>s_buggy_NR := True\<rparr> else s1)))"

text \<open>One option word.\<close>

definition NUL_opt :: "string \<Rightarrow> session \<Rightarrow> session" where
  "NUL_opt w s =
    (if w = ''NR'' then s\<lparr>s_WE_NR := True\<rparr>
     else if w = ''ND'' then s\<lparr>s_WE_ND := True\<rparr>
     else if w = ''NDA'' then s\<lparr>s_CAN_NDA := True\<rparr>
     else if w = ''CRYPT'' then s\<lparr>s_THEY_CRYPT := True\<rparr>
     else if w = ''EXTCMD'' then s\<lparr>s_extcmd := True\<rparr>
     else if starts ''CRAM-'' w \<and> \<not> x_no_MD5 s \<and> (case s_to s of None \<Rightarrow> False | Some n \<Rightarrow> n_MD_flag n \<ge> 0)
     then s\<lparr>s_MD_challenge := MD_getChallenge w\<rparr>
     else s)"

definition NUL :: "string \<Rightarrow> session \<Rightarrow> (bool \<times> session) option" where
  "NUL buf s =
    (let txt = strquote buf sq_cntrl; arg = drop 4 txt in
     case (if starts ''VER '' txt then NUL_ver txt s else None) of
       Some s1 \<Rightarrow> Some (True, s1)
     | None \<Rightarrow>
         if starts ''TRF '' txt then Some (True, s)
         else if starts ''OPT '' txt then
           (case all_words arg no_flags of
              None \<Rightarrow> None | Some ws \<Rightarrow> Some (True, fold NUL_opt ws s))
         else if starts ''SYS '' txt then Some (True, s\<lparr>s_sysname := strnzcpy arg (MAXSYSTEMNAME + 1)\<rparr>)
         else if starts ''ZYZ '' txt then Some (True, s\<lparr>s_sysop := strnzcpy arg (MAXSYSOPNAME + 1)\<rparr>)
         else if starts ''LOC '' txt then Some (True, s\<lparr>s_location := strnzcpy arg (MAXLOCATIONNAME + 1)\<rparr>)
         else if starts ''FREQ'' txt then Some (True, s\<lparr>s_delay_EOB := s_delay_EOB s + 1\<rparr>)
         else Some (True, s))"

definition RError :: "string \<Rightarrow> session \<Rightarrow> bool \<times> session" where
  "RError buf s = (False, note_bad_try (strquote buf sq_cntrl) s)"

definition BSY :: "string \<Rightarrow> session \<Rightarrow> bool \<times> session" where
  "BSY buf s = (False, note_bad_try (strquote buf sq_cntrl) s)"

section \<open>Our addresses\<close>

definition aka_rule :: "session \<Rightarrow> akachain \<Rightarrow> FTN_ADDR list \<Rightarrow> FTN_ADDR list" where
  "aka_rule s ps addrs =
    (let fas = (case s_to s of Some n \<Rightarrow> [n_fa n] | None \<Rightarrow> take (s_nfa s) (s_fa s));
         rc = (ftnamask_cmpm (aka_mask ps) fas = (if aka_not ps then -1 else 0))
     in if \<not> rc then addrs
        else case aka_type ps of
          ACT_HIDE \<Rightarrow> filter (\<lambda>a. ftnaddress_cmp a (aka_fa ps) \<noteq> 0) addrs
        | ACT_PRESENT \<Rightarrow> if \<exists>a\<in>set addrs. ftnaddress_cmp a (aka_fa ps) = 0 then addrs else addrs @ [aka_fa ps])"

definition send_ADR :: "session \<Rightarrow> session" where
  "send_ADR s =
    (let addrs = fold (aka_rule s) (akamask (x_cfg s)) (case s_pAddr s of None \<Rightarrow> pAddr (x_cfg s) | Some l \<Rightarrow> l)
     in msg_send2 M_ADR (concat (map (\<lambda>a. '' '' @ ftnaddress_to_str a) addrs)) [] (s\<lparr>s_pAddr := Some addrs\<rparr>))"

section \<open>Shared addresses\<close>

text \<open>
  The share groups of one address of the remote: the group addresses to add for a member, up to a
  group whose own address the remote used, in which case that word is to be blanked.
\<close>

fun share_scan :: "FTN_ADDR \<Rightarrow> SHARED_CHAIN list \<Rightarrow> string \<times> bool" where
  "share_scan fa [] = ([], False)"
| "share_scan fa (c # cs) =
    (if ftnaddress_cmp fa (sha c) = 0 then ([], True)
     else case share_scan fa cs of (ad, b) \<Rightarrow>
       ((if \<exists>m\<in>set (sfa c). ftnaddress_cmp m fa = 0 then '' '' @ ftnaddress_to_str (sha c) else []) @ ad, b))"

definition blank_word :: "string \<Rightarrow> string \<Rightarrow> string option" where
  "blank_word s w = (case strstr s w of None \<Rightarrow> None
     | Some r \<Rightarrow> Some (take (length s - length r) s @ replicate (length w) (CHR '' '') @ drop (length w) r))"

partial_function (option) shared_loop ::
  "BINKD_CONFIG \<Rightarrow> nat \<Rightarrow> string \<Rightarrow> string \<Rightarrow> (string \<times> string) option" where
  "shared_loop cfg i s ad =
    (case getwordx s i no_flags of
       GwNull \<Rightarrow> Some (s, ad)
     | GwOob \<Rightarrow> None
     | GwWord w \<Rightarrow> (case parse_ftnaddress w (pDomains cfg) of
         None \<Rightarrow> shared_loop cfg (Suc i) s ad
       | Some fa \<Rightarrow>
           if \<not> is5D fa then shared_loop cfg (Suc i) s ad
           else (case share_scan fa (shares cfg) of (extra, blank) \<Rightarrow>
             (case (if blank then blank_word s w else None) of
                None \<Rightarrow> shared_loop cfg (Suc i) s (ad @ extra)
              | Some s' \<Rightarrow> shared_loop cfg i s' (ad @ extra)))))"

declare shared_loop.simps [code]

definition add_shared_akas :: "string \<Rightarrow> BINKD_CONFIG \<Rightarrow> (string \<times> string) option" where
  "add_shared_akas s cfg = shared_loop cfg 1 s []"

section \<open>The remote's addresses\<close>

subsection \<open>Where the remote calls from\<close>

definition known_port :: "session \<Rightarrow> string \<Rightarrow> string option" where
  "known_port s p = (if p = [] then Some (if x_port s ''binkp'' then ''binkp'' else ''24554'')
     else if x_port s p then Some p else None)"

text \<open>The loop over the hosts of a node: 1 matched, -1 resolved without a match, 0 nothing resolved,
  2 the address of the remote is not known.  The ports do not matter here.\<close>

partial_function (option) ip_loop :: "nat \<Rightarrow> string \<Rightarrow> FTN_ADDR \<Rightarrow> string option \<Rightarrow> int \<Rightarrow> session \<Rightarrow> int option" where
  [code]: "ip_loop i hosts fa sin ipok s = (case get_host_and_port i hosts fa (known_port s) [] (x_cfg s) of
     None \<Rightarrow> None
   | Some HOST_END \<Rightarrow> Some ipok
   | Some HOST_BAD \<Rightarrow> ip_loop (Suc i) hosts fa sin ipok s
   | Some (HOST h p) \<Rightarrow>
       if h = ''-'' then ip_loop (Suc i) hosts fa sin ipok s
       else (case x_gai s h of
         None \<Rightarrow> ip_loop (Suc i) hosts fa sin ipok s
       | Some addrs \<Rightarrow>
           if \<exists>a\<in>set addrs. Some a = sin then Some 1
           else ip_loop (Suc i) hosts fa sin (if ipok = 0 \<and> addrs \<noteq> [] then -1 else ipok) s))"

definition ip_check :: "FTN_NODE \<Rightarrow> session \<Rightarrow> int option" where
  "ip_check pn s =
    (let sin = x_num s (s_ipaddr s); ipok = (if sin = None then 2 else 0) in
     case n_hosts pn of None \<Rightarrow> Some ipok
     | Some hosts \<Rightarrow> ip_loop 1 hosts (n_fa pn) sin ipok s)"

subsection \<open>One address\<close>

text \<open>The local variables of the handler.\<close>

record adr_vars =
  main_AKA_ok :: bool
  ip_verified :: int
  secure_NR :: bool
  unsecure_NR :: bool
  secure_ND :: bool
  unsecure_ND :: bool

definition adr_start :: adr_vars where
  "adr_start = \<lparr>main_AKA_ok = False, ip_verified = 0, secure_NR = False, unsecure_NR = False,
     secure_ND = False, unsecure_ND = False\<rparr>"

text \<open>A step of the loop goes on (with the next part or the next address) or ends the session.\<close>

datatype adr_result = ADR_GO adr_vars session | ADR_NEXT adr_vars session | ADR_FAIL session

definition adr_ip :: "FTN_NODE option \<Rightarrow> adr_vars \<Rightarrow> session \<Rightarrow> adr_result option" where
  "adr_ip pn v s = (case pn of
     None \<Rightarrow> Some (ADR_GO v s)
   | Some n \<Rightarrow>
       if n_restrictIP n \<noteq> 0 \<and> (s_to s = None \<or> n_pipe n = None \<or> n_pipe n = Some []) then
         (case ip_check n s of
            None \<Rightarrow> None
          | Some ipok \<Rightarrow>
              if ipok = 1 then Some (ADR_GO (v\<lparr>ip_verified := 2\<rparr>) s)
              else if ipok < 0 \<or> n_restrictIP n = 2 then
                (if n_pwd n \<noteq> ''-'' \<and> s_to s = None
                 then Some (ADR_FAIL (msg_send2 M_ERR ''Bad source IP'' [] s))
                 else Some (ADR_NEXT (if ip_verified v = 0 then v\<lparr>ip_verified := -1\<rparr> else v) s))
              else Some (ADR_GO v s))
       else Some (ADR_GO (v\<lparr>ip_verified := 1\<rparr>) s))"

text \<open>The password of the session from those of the addresses.  A password \<open>!\<close> is compared with the
  address of the command line, a NULL pointer in sessions that do not start from one.\<close>

definition adr_pwd :: "FTN_ADDR \<Rightarrow> FTN_NODE option \<Rightarrow> adr_vars \<Rightarrow> session \<Rightarrow> adr_result option" where
  "adr_pwd fa pn v s0 = (case pn of
     None \<Rightarrow> Some (ADR_GO v s0)
   | Some n \<Rightarrow>
       let s = s0\<lparr>s_listed_flag := s_listed_flag s0 OR n_listed n\<rparr>;
           pwd = (if s_to s = None then Some (n_pwd n) else n_out_pwd n);
           use_md = s\<lparr>s_MD_flag := s_MD_flag s OR n_MD_flag n\<rparr>
       in if s_expected_pwd s = [] \<or> pwd = None \<or> pwd = Some ''-'' then Some (ADR_GO v s)
          else if pwd = Some ''!'' \<and> s_remote_fa s = None then None
          else if pwd = Some ''!'' \<and> ftnaddress_cmp (the (s_remote_fa s)) fa \<noteq> 0
          then Some (ADR_NEXT v (s\<lparr>s_expected_pwd := []\<rparr>))
          else if s_expected_pwd s = ''-'' \<or> s_expected_pwd s = ''!''
          then Some (ADR_GO v (use_md\<lparr>s_expected_pwd := strnzcpy (the pwd) (MAXPWDLEN + 1)\<rparr>))
          else if s_expected_pwd s = the pwd \<or> pwd = Some ''!'' then Some (ADR_GO v use_md)
          else if s_to s \<noteq> None then Some (ADR_NEXT v s)
          else Some (ADR_NEXT v (s\<lparr>s_expected_pwd := []\<rparr>)))"

definition secured :: "FTN_NODE option \<Rightarrow> bool" where
  "secured pn \<longleftrightarrow> (case pn of None \<Rightarrow> False | Some n \<Rightarrow> n_pwd n \<noteq> ''-'')"

definition adr_lock :: "FTN_ADDR \<Rightarrow> FTN_NODE option \<Rightarrow> adr_vars \<Rightarrow> session \<Rightarrow> adr_result" where
  "adr_lock fa pn v s = (case bsy_add fa F_BSY (x_cfg s) (x_w s, x_bsy s) of
     (True, w, b) \<Rightarrow>
       ADR_GO (if (case s_to s of None \<Rightarrow> False | Some n \<Rightarrow> ftnaddress_cmp fa (n_fa n) = 0) then v\<lparr>main_AKA_ok := True\<rparr> else v)
         (s\<lparr>x_w := w, x_bsy := b, s_fa := take (s_nfa s) (s_fa s) @ [fa] @ drop (s_nfa s) (s_fa s), s_nfa := s_nfa s + 1\<rparr>)
   | (False, w, b) \<Rightarrow>
       let s1 = s\<lparr>x_w := w, x_bsy := b\<rparr> in
       if secured pn \<and> s_to s = None
       then ADR_FAIL (msg_sendf M_BSY (''Secure AKA '' @ ftnaddress_to_str fa @ '' busy'') s1)
       else ADR_GO v (s1\<lparr>s_fa := s_fa s @ [fa]\<rparr>))"

definition adr_modes :: "FTN_NODE option \<Rightarrow> adr_vars \<Rightarrow> session \<Rightarrow> adr_vars" where
  "adr_modes pn v s = (case pn of
     None \<Rightarrow> v
   | Some n \<Rightarrow>
       if s_to s \<noteq> None then v
       else if n_ND_flag n \<noteq> 0 then
         (if secured pn then v\<lparr>secure_ND := True, secure_NR := True\<rparr> else v\<lparr>unsecure_ND := True, unsecure_NR := True\<rparr>)
       else if n_NR_flag n \<noteq> 0 then (if secured pn then v\<lparr>secure_NR := True\<rparr> else v\<lparr>unsecure_NR := True\<rparr>)
       else v)"

definition adr_addr :: "FTN_ADDR \<Rightarrow> adr_vars \<Rightarrow> session \<Rightarrow> adr_result option" where
  "adr_addr fa v s0 = (case node_of fa s0 of (pn, s) \<Rightarrow>
     (case adr_ip pn v s of
        Some (ADR_GO v1 s1) \<Rightarrow> (case adr_pwd fa pn v1 s1 of
          Some (ADR_GO v2 s2) \<Rightarrow> (case adr_lock fa pn v2 s2 of
            ADR_GO v3 s3 \<Rightarrow> Some (ADR_NEXT (adr_modes pn v3 s3) s3)
          | r \<Rightarrow> Some r)
        | r \<Rightarrow> r)
      | r \<Rightarrow> r))"

fun adr_loop :: "string list \<Rightarrow> adr_vars \<Rightarrow> session \<Rightarrow> (adr_vars option \<times> session) option" where
  "adr_loop [] v s = Some (Some v, s)"
| "adr_loop (w # ws) v s = (case parse_ftnaddress w (pDomains (x_cfg s)) of
     None \<Rightarrow> Some (None, msg_send2 M_ERR ''Bad address'' [] s)
   | Some fa0 \<Rightarrow>
       if \<not> is4D fa0 then Some (None, msg_send2 M_ERR ''Bad address'' [] s)
       else
         let fa = (if fa_domain fa0 = []
                   then fa0\<lparr>fa_domain := get_matched_domain (fa_z fa0) (pAddr (x_cfg s)) (pDomains (x_cfg s))\<rparr> else fa0)
         in (case adr_addr fa v s of
               None \<Rightarrow> None
             | Some (ADR_FAIL s1) \<Rightarrow> Some (None, s1)
             | Some (ADR_NEXT v1 s1) \<Rightarrow> adr_loop ws v1 s1
             | Some (ADR_GO v1 s1) \<Rightarrow> adr_loop ws v1 s1))"

subsection \<open>The handler\<close>

definition out_password :: "FTN_NODE \<Rightarrow> string" where
  "out_password n = (case n_out_pwd n of None \<Rightarrow> ''-'' | Some p \<Rightarrow> p)"

text \<open>Our password is sent, as a digest if the remote gave a challenge.\<close>

definition send_PWD :: "FTN_NODE \<Rightarrow> session \<Rightarrow> bool \<times> session" where
  "send_PWD n s = (case s_MD_challenge s of
     Some ch \<Rightarrow> (True, (msg_send2 M_PWD (MD_buildDigest (out_password n) ch) [] s)\<lparr>s_MD_flag := 1\<rparr>)
   | None \<Rightarrow>
       if n_MD_flag n = 1 \<and> \<not> x_no_MD5 s then (False, note_bad_try ''CRAM-MD5 is not supported by remote'' s)
       else (True, msg_send2 M_PWD (out_password n) [] s))"

definition adr_modes_done :: "adr_vars \<Rightarrow> session \<Rightarrow> session" where
  "adr_modes_done v s =
    (if s_expected_pwd s \<noteq> [] \<and> s_expected_pwd s \<noteq> ''-''
     then s\<lparr>s_THEY_ND := s_THEY_ND s \<or> secure_ND v, s_WANT_NR := s_WANT_NR s \<or> secure_NR v\<rparr>
     else s\<lparr>s_THEY_ND := s_THEY_ND s \<or> unsecure_ND v, s_WANT_NR := s_WANT_NR s \<or> unsecure_NR v\<rparr>)"

definition adr_finish :: "adr_vars \<Rightarrow> session \<Rightarrow> bool \<times> session" where
  "adr_finish v s =
    (if s_nfa s = 0 then (False, msg_send2 M_BSY ''No AKAs in common domains or all AKAs are busy'' [] s)
     else if s_to s \<noteq> None \<and> \<not> main_AKA_ok v then (False, note_bad_try ''Remote has no needed AKA'' s)
     else if ip_verified v < 0 then (False, msg_send2 M_ERR ''Bad remote IP'' [] s)
     else case s_to s of
       None \<Rightarrow> (True, adr_modes_done v (if s_delay_ADR s then send_ADR s else s))
     | Some n \<Rightarrow> send_PWD n (do_prescan s))"

definition ADR :: "string \<Rightarrow> session \<Rightarrow> (bool \<times> session) option" where
  "ADR buf s0 =
    (case (if shares (x_cfg s0) = [] then Some (buf, []) else add_shared_akas buf (x_cfg s0)) of
       None \<Rightarrow> None
     | Some (str, ad) \<Rightarrow>
         let txt = str @ ad;
             s = (case s_to s0 of None \<Rightarrow> s0 | Some n \<Rightarrow> s0\<lparr>s_expected_pwd := take MAXPWDLEN (out_password n)\<rparr>)
         in (case getwordx txt 1 no_flags of
               GwOob \<Rightarrow> None
             | GwNull \<Rightarrow> Some (False, s0)
             | GwWord w \<Rightarrow> (case all_words txt no_flags of
                 None \<Rightarrow> None
               | Some ws \<Rightarrow> (case adr_loop ws adr_start s of
                   None \<Rightarrow> None
                 | Some (None, s1) \<Rightarrow> Some (False, s1)
                 | Some (Some v, s1) \<Rightarrow> Some (adr_finish v s1)))))"

section \<open>Password and modes\<close>

definition select_inbound :: "FTN_ADDR option \<Rightarrow> p_state \<Rightarrow> session \<Rightarrow> string \<times> session" where
  "select_inbound fa secure_flag s =
    (let (node, s1) = (case fa of None \<Rightarrow> (None, s) | Some a \<Rightarrow> node_of a s);
         dflt = (if secure_flag = P_SECURE then inbound (x_cfg s1) else inbound_nonsecure (x_cfg s1))
     in (case node of None \<Rightarrow> dflt | Some n \<Rightarrow> (case n_ibox n of None \<Rightarrow> dflt | Some b \<Rightarrow> b), s1))"

definition first_fa :: "session \<Rightarrow> FTN_ADDR option" where
  "first_fa s = (case s_fa s of [] \<Rightarrow> None | fa # r \<Rightarrow> Some fa)"

text \<open>The keys of the two directions; \<open>pw\<close> is the caller's password, known to both.\<close>

definition caller_key :: "string \<Rightarrow> u64 keys" where
  "caller_key pw = init_keys pw"

definition answer_key :: "string \<Rightarrow> u64 keys" where
  "answer_key pw = foldl (\<lambda>k c. update_keys k (char_int c)) (init_keys ''-'') pw"

definition YES_CRYPT :: "session \<Rightarrow> session" where
  "YES_CRYPT s =
    (let s1 = s\<lparr>s_WE_CRYPT := False, s_THEY_CRYPT := False, s_YES_CRYPT := True\<rparr> in
     case s_to s of
       Some n \<Rightarrow> s1\<lparr>s_keys_out := caller_key (out_password n), s_keys_in := answer_key (out_password n)\<rparr>
     | None \<Rightarrow> s1\<lparr>s_keys_in := caller_key (s_expected_pwd s), s_keys_out := answer_key (s_expected_pwd s)\<rparr>)"

definition login_crypt :: "session \<Rightarrow> session" where
  "login_crypt s =
    (let s1 = (if s_state s \<noteq> P_SECURE then NO_CRYPT s
               else if crypt_agreed s \<and> s_MD_flag s = 0 then NO_CRYPT s
               else if crypt_agreed s \<and> s_expected_pwd s = ''!'' then NO_CRYPT s
               else if crypt_agreed s then YES_CRYPT s else s)
     in if crypt_on s1 then s1 else NO_CRYPT s1)"

definition sort_q :: "session \<Rightarrow> session" where
  "sort_q s = s\<lparr>s_q := q_sort (s_q s) (take (s_nfa s) (s_fa s))\<rparr>"

definition complete_login :: "session \<Rightarrow> session" where
  "complete_login s0 =
    (let (inb, s) = select_inbound (first_fa s0) (s_state s0) s0;
         s1 = s\<lparr>s_inbound := inb\<rparr>;
         s2 = (if OK_SEND_FILES s1 \<and> s_q s1 = [] then scan_link s1 else s1);
         s3 = (if OK_SEND_FILES s2 then sort_q s2 else s2);
         s4 = s3\<lparr>s_msgs_in_batch := 0\<rparr>;
         s5 = (if s_WE_ND s4 then s4\<lparr>s_WE_NR := True\<rparr> else s4)
     in login_crypt s5)"

text \<open>
  The password check: \<open>None\<close> for the message \<^verbatim>\<open>You must support MD5\<close>, else whether the password is bad and
  the session with the mode of authentication.  \<open>cram\<close> is whether the remote sent a digest.
\<close>

definition check_PWD :: "string \<Rightarrow> bool \<Rightarrow> session \<Rightarrow> (bool \<times> session) option" where
  "check_PWD pwd cram s =
    (if s_MD_flag s = 1 \<or> (cram \<and> s_MD_challenge s \<noteq> None) then
       (if \<not> cram \<and> s_MD_flag s \<noteq> 0 then None
        else Some (if s_expected_pwd s = ''!'' then False
                   else (case s_MD_challenge s of
                     None \<Rightarrow> True
                   | Some ch \<Rightarrow> o_stricmp (MD_buildDigest (s_expected_pwd s) ch) pwd \<noteq> 0),
                   s\<lparr>s_MD_flag := 1\<rparr>))
     else Some (s_expected_pwd s \<noteq> ''!'' \<and> (s_expected_pwd s = [] \<or> s_expected_pwd s \<noteq> pwd), s))"

text \<open>The result of the check on the state: \<open>None\<close> when the session is to end (with a message).\<close>

definition verdict_PWD :: "string \<Rightarrow> session \<Rightarrow> bool \<times> session" where
  "verdict_PWD pwd s =
    (let cram = (o_strnicmp pwd ''CRAM-'' 5 = 0); no_pwd = (s_expected_pwd s = ''-'') in
     if no_pwd \<and> \<not> cram then (True, (do_prescan s)\<lparr>s_state := P_NONSECURE\<rparr>)
     else case check_PWD pwd cram s of
       None \<Rightarrow> (False, msg_send2 M_ERR ''You must support MD5'' [] s)
     | Some (bad, s1) \<Rightarrow>
         if bad \<and> \<not> no_pwd then (False, msg_send2 M_ERR ''Bad password'' [] s1)
         else if no_pwd then
           let s2 = do_prescan (s1\<lparr>s_state := P_NONSECURE\<rparr>)
           in (True, if bad then s2\<lparr>s_state_ext := P_WE_NONSECURE\<rparr> else s2)
         else (True, do_prescan (s1\<lparr>s_state := P_SECURE\<rparr>)))"

definition pwd_modes :: "session \<Rightarrow> session" where
  "pwd_modes s =
    (let s1 = (if s_state s \<noteq> P_SECURE then NO_CRYPT s
               else if crypt_agreed s \<and> s_MD_flag s = 0 then NO_CRYPT s
               else if crypt_agreed s \<and> s_expected_pwd s = ''!'' then NO_CRYPT s else s);
         s2 = (if s_WE_ND s1 \<and> \<not> s_CAN_NDA s1 then s1\<lparr>s_THEY_ND := True\<rparr> else s1);
         s3 = (if \<not> s_WE_ND s2 \<and> \<not> s_CAN_NDA s2 then s2\<lparr>s_THEY_ND := False\<rparr> else s2)
     in if s_buggy_NR s3 \<and> s_WANT_NR s3 then s3\<lparr>s_WE_NR := True\<rparr> else s3)"

text \<open>Non-reliable mode is wanted if incomplete files of the link are waiting.\<close>

definition auto_NR :: "session \<Rightarrow> session option" where
  "auto_NR s0 =
    (if s_WANT_NR s0 \<or> s_WE_NR s0 then Some s0
     else let (inb, s) = select_inbound (first_fa s0) (s_state s0) s0 in
       (case inb_has_partials (s\<lparr>s_inbound := inb\<rparr>) of
          None \<Rightarrow> None | Some p \<Rightarrow> Some (if p then s\<lparr>s_WANT_NR := True\<rparr> else s)))"

definition pwd_opts :: "session \<Rightarrow> string" where
  "pwd_opts s = '' EXTCMD'' @ (if s_WANT_NR s then '' NR'' else []) @ (if s_THEY_ND s then '' ND'' else []) @
     (if (\<not> s_WE_ND s) \<noteq> (\<not> s_THEY_ND s) then '' NDA'' else []) @ (if crypt_agreed s then '' CRYPT'' else [])"

definition PWD :: "string \<Rightarrow> session \<Rightarrow> (bool \<times> session) option" where
  "PWD pwd s =
    (if s_to s \<noteq> None then Some (True, s)
     else if s_state s \<noteq> P_NULL
     then Some (False, msg_send2 M_NUL ''MSG Warning: double of password is received (M_PWD more one)!'' [] s)
     else case verdict_PWD pwd s of
       (False, s1) \<Rightarrow> Some (False, s1)
     | (True, s1) \<Rightarrow> (case auto_NR (pwd_modes s1) of
         None \<Rightarrow> None
       | Some s2 \<Rightarrow>
           let s3 = msg_send2 M_NUL ''OPT'' (pwd_opts s2) s2;
               s4 = msg_send2 M_OK (if s_state s3 = P_SECURE then ''secure'' else ''non-secure'') [] s3
           in Some (True, complete_login s4)))"

definition ok_word :: "string \<Rightarrow> session \<Rightarrow> session" where
  "ok_word w s = (if s_state s = P_SECURE \<and> w = ''non-secure''
     then (NO_CRYPT s)\<lparr>s_state_ext := P_REMOTE_NONSECURE\<rparr> else s)"

definition OK :: "string \<Rightarrow> session \<Rightarrow> (bool \<times> session) option" where
  "OK buf s = (case s_to s of
     None \<Rightarrow> Some (False, s)
   | Some n \<Rightarrow> (case all_words buf no_flags of
       None \<Rightarrow> None
     | Some ws \<Rightarrow>
         let s1 = fold ok_word ws (s\<lparr>s_state := if out_password n \<noteq> ''-'' then P_SECURE else P_NONSECURE\<rparr>);
             only = (s_CAN_NDA s1 = False \<and> s_WE_ND s1 \<noteq> s_THEY_ND s1);
             s2 = (if only then s1\<lparr>s_WE_ND := False, s_THEY_ND := False\<rparr> else s1)
         in Some (True, complete_login s2)))"

section \<open>Banner\<close>

definition banner_opts :: "session \<Rightarrow> string" where
  "banner_opts s = '' NDA EXTCMD'' @ (if s_WANT_NR s then '' NR'' else []) @ (if s_THEY_ND s then '' ND'' else []) @
     (if s_WE_CRYPT s then '' CRYPT'' else [])"

definition banner_cram :: "session \<Rightarrow> session" where
  "banner_cram s = (if \<not> x_no_MD5 s \<and> s_to s = None then
      let ch = new_challenge (x_chal s)
      in msg_send2 M_NUL (''OPT '' @ MD_toString (take (unat (hd ch)) (tl ch))) [] (s\<lparr>s_MD_challenge := Some ch\<rparr>)
    else s\<lparr>s_MD_flag := 0\<rparr>)"

definition VER_text :: "session \<Rightarrow> string" where
  "VER_text s = ''VER binkd/1.1a-115'' @ take 79 (''/'' @ x_uname s) @ '' binkp/1.1''"

definition banner :: "session \<Rightarrow> (bool \<times> session) option" where
  "banner s0 =
    (let cfg = x_cfg s0;
         s1 = banner_cram s0;
         s2 = msg_send2 M_NUL ''SYS '' (sysname cfg) s1;
         s3 = msg_send2 M_NUL ''ZYZ '' (sysop cfg) s2;
         s4 = msg_send2 M_NUL ''LOC '' (location cfg) s3;
         s5 = msg_send2 M_NUL ''NDL '' (nodeinfo cfg) s4;
         s6 = msg_send2 M_NUL ''TIME '' (take 59 (x_localtime s5)) s5;
         s7 = msg_sendf M_NUL (VER_text s6) s6;
         s8 = (if s_to s7 \<noteq> None \<or> \<not> s_delay_ADR s7 then send_ADR s7 else s7)
     in if s_to s8 = None then Some (True, s8)
        else (case (if s_WANT_NR s8 \<or> s_WE_NR s8 then Some False else inb_has_partials s8) of
          None \<Rightarrow> None
        | Some p \<Rightarrow>
            let s9 = (if p then s8\<lparr>s_WANT_NR := True\<rparr> else s8)
            in Some (True, msg_send2 M_NUL ''OPT'' (banner_opts s9) s9)))"

end
