(* ===== verification/Filemsg.thy ===== *)
theory Filemsg
  imports Login
begin

text \<open>
  The file messages (\<^verbatim>\<open>protocol.c\<close>): \<^verbatim>\<open>M_FILE\<close>, \<^verbatim>\<open>M_GET\<close>, \<^verbatim>\<open>M_SKIP\<close>, \<^verbatim>\<open>M_GOT\<close>, \<^verbatim>\<open>M_EOB\<close>, the receipt of blocks
  and the dispatch to the handlers.
\<close>

section \<open>Helpers\<close>

text \<open>The arguments of a message; if there are too few the remote is told.\<close>

definition parse_msg_args :: "nat \<Rightarrow> string \<Rightarrow> string \<Rightarrow> session \<Rightarrow> (string list \<times> string) option \<times> session" where
  "parse_msg_args ac txt id_name s = (case parse_args ac txt of
     None \<Rightarrow> (None, msg_send2 M_ERR id_name '': cannot parse args'' s)
   | Some r \<Rightarrow> (Some r, s))"

definition size_arg :: "string \<Rightarrow> int" where
  "size_arg a = to_int64 (int (strtoumax a))"

definition file_text :: "TFILE \<Rightarrow> string" where
  "file_text t = t_netname t @ '' '' @ umax (t_size t) @ '' '' @ umax (t_time t)"

definition close_partial :: "session \<Rightarrow> session option" where
  "close_partial s = (case t_f (s_in s) of
     None \<Rightarrow> Some (s\<lparr>s_in := TF_ZERO\<rparr>)
   | Some h \<Rightarrow>
       let pos = (if ispkt (t_netname (s_in s)) then 0 else h_pos h);
           s1 = s\<lparr>s_in := s_in s\<lparr>t_f := None\<rparr>\<rparr>
       in if pos = 0
          then map_option (\<lambda>(ok, s2). s2\<lparr>s_in := TF_ZERO\<rparr>) (inb_reject s1)
          else Some (s1\<lparr>s_in := TF_ZERO\<rparr>))"

text \<open>A complete file that waited for its renaming; \<open>False\<close> when that failed.\<close>

definition finish_complete :: "session \<Rightarrow> (bool \<times> session) option" where
  "finish_complete s =
    (if s_THEY_ND s \<and> t_netname (s_in_complete s) \<noteq> [] then
       (case inb_done (s_in_complete s) s of
          None \<Rightarrow> None
        | Some (False, s1) \<Rightarrow>
            Some (False, note_bad_try ''Local error saving file'' (msg_send2 M_ERR ''Local error saving file'' [] s1))
        | Some (True, s1) \<Rightarrow> Some (True, s1\<lparr>s_in_complete := TF_ZERO\<rparr>))
     else Some (True, s))"

section \<open>M_FILE\<close>

definition skip_amask :: "session \<Rightarrow> int" where
  "skip_amask s = (if s_listed_flag s \<noteq> 0 then A_LST else A_UNLST) OR (if s_state s = P_SECURE then A_PROT else A_UNPROT)"

definition skip_test :: "session \<Rightarrow> skipchain option" where
  "skip_test s =
    (case List.find (\<lambda>ps. sk_atype ps AND skip_amask s \<noteq> 0 \<and> pmatch_ncase (sk_mask ps) (t_netname (s_in s))) (skipmask (x_cfg s)) of
       None \<Rightarrow> None
     | Some ps \<Rightarrow> if sk_size ps \<ge> 0 \<and> t_size (s_in s) \<ge> sk_size ps then Some ps else None)"

text \<open>The file of the message, when none is being received.\<close>

definition announced :: "string list \<Rightarrow> session \<Rightarrow> session" where
  "announced argv s = (if t_f (s_in s) \<noteq> None then s
     else s\<lparr>s_in := s_in s\<lparr>t_start := w_time (x_w s), t_netname := strnzcpy (argv ! 0) MAX_NETNAME,
       t_size := size_arg (argv ! 1), t_time := safe_atol (argv ! 2)\<rparr>\<rparr>)"

text \<open>Opening it: \<open>Inl\<close> when the message is answered, \<open>Inr\<close> with the open stream.\<close>

definition open_recv :: "session \<Rightarrow> (session + handle \<times> session) option" where
  "open_recv s = (case skip_test s of
     Some ps \<Rightarrow> Some (Inl (msg_sendf (if sk_destr ps then M_GOT else M_SKIP) (file_text (s_in s)) s))
   | None \<Rightarrow> (case inb_test (t_netname (s_in s)) (t_size (s_in s)) (t_time (s_in s)) s of
       None \<Rightarrow> None
     | Some True \<Rightarrow> Some (Inl (msg_sendf M_GOT (file_text (s_in s)) s))
     | Some False \<Rightarrow>
         (case (if s_skip_all_flag s then Some (None, s) else inb_fopen s) of
            None \<Rightarrow> None
          | Some (Some h, s1) \<Rightarrow> Some (Inr (h, s1\<lparr>s_in := s_in s1\<lparr>t_f := Some h\<rparr>\<rparr>))
          | Some (None, s1) \<Rightarrow>
              Some (Inl ((msg_sendf M_SKIP (file_text (s_in s1)) (s1\<lparr>s_skip_all_flag := True\<rparr>))\<lparr>s_in := TF_ZERO\<rparr>)))))"

definition begin_recv :: "bool \<Rightarrow> int \<Rightarrow> string \<Rightarrow> handle \<Rightarrow> session \<Rightarrow> (bool \<times> session) option" where
  "begin_recv off_req offset extras h s =
    (if off_req \<or> offset \<noteq> int (h_pos h) then
       let s1 = msg_sendf M_GET (file_text (s_in s) @ '' '' @ umax (int (h_pos h))) s
       in Some (True, s1\<lparr>s_GET_FILE_balance := s_GET_FILE_balance s1 + 1, s_in := TF_ZERO\<rparr>)
     else case all_words extras no_flags of
       None \<Rightarrow> None
     | Some ws \<Rightarrow>
         Some (True, if offset \<noteq> 0 \<or> s_THEY_NR s then s\<lparr>s_GET_FILE_balance := s_GET_FILE_balance s - 1\<rparr> else s))"

definition start_file_recv :: "string \<Rightarrow> session \<Rightarrow> (bool \<times> session) option" where
  "start_file_recv txt s = (case parse_msg_args 4 txt ''M_FILE'' s of
     (None, s1) \<Rightarrow> Some (False, s1)
   | (Some (argv, extras), s1) \<Rightarrow>
       (case (if t_f (s_in s1) \<noteq> None \<and> argv ! 0 \<noteq> t_netname (s_in s1) then close_partial s1 else Some s1) of
          None \<Rightarrow> None
        | Some s2 \<Rightarrow> (case finish_complete s2 of
            None \<Rightarrow> None
          | Some (False, s3) \<Rightarrow> Some (False, s3)
          | Some (True, s3) \<Rightarrow>
              let s4 = announced argv s3; offset = size_arg (argv ! 3); off_req = (argv ! 3 = ''-1'');
                  s5 = (if off_req then s4\<lparr>s_THEY_NR := True\<rparr> else s4)
              in (case t_f (s_in s5) of
                    Some h \<Rightarrow> begin_recv off_req offset extras h s5
                  | None \<Rightarrow> (case open_recv s5 of
                      None \<Rightarrow> None
                    | Some (Inl s6) \<Rightarrow> Some (True, s6)
                    | Some (Inr (h, s6)) \<Rightarrow> begin_recv off_req offset extras h s6)))))"

section \<open>Link status\<close>

definition ND_set_status :: "string \<Rightarrow> FTN_ADDR \<Rightarrow> session \<Rightarrow> bool \<times> session" where
  "ND_set_status status fa s =
    (let buf = bso_file fa ''.stc'' (x_cfg s); w = x_w s in
     if fa_z fa = -1 \<or> buf = [] then (False, s)
     else if status = [] then
       (case unlink buf w of (e, w1) \<Rightarrow> (e = None \<or> \<not> access w1 buf, s\<lparr>x_w := w1\<rparr>))
     else (case write_file buf status w of (ok, w1) \<Rightarrow> (ok \<and> \<not> w_full w1, s\<lparr>x_w := w1\<rparr>)))"

definition clear_status :: "session \<Rightarrow> session" where
  "clear_status s = (let s1 = snd (ND_set_status [] (s_ND_addr s) s) in s1\<lparr>s_ND_addr := s_ND_addr s1\<lparr>fa_z := -1\<rparr>\<rparr>)"

section \<open>M_GET\<close>

definition same_file :: "string list \<Rightarrow> TFILE \<Rightarrow> bool" where
  "same_file argv t \<longleftrightarrow> tfile_cmp t (argv ! 0) (size_arg (argv ! 1)) (safe_atol (argv ! 2)) = 0"

definition sent_index :: "string list \<Rightarrow> session \<Rightarrow> nat option" where
  "sent_index argv s = find_index (same_file argv) (s_sent_fls s)"

definition fopen_rb :: "string \<Rightarrow> world \<Rightarrow> handle option" where
  "fopen_rb p w = (if fopen_r p w = None then None else Some \<lparr>h_path = p, h_pos = 0\<rparr>)"

text \<open>A file that was sent already becomes the file in transfer again; the current one takes its place.\<close>

definition recall_sent :: "string list \<Rightarrow> session \<Rightarrow> session" where
  "recall_sent argv s = (case sent_index argv s of
     None \<Rightarrow> s
   | Some i \<Rightarrow>
       let t = s_sent_fls s ! i;
           s1 = (if t_f (s_out s) \<noteq> None
                 then s\<lparr>s_sent_fls := (s_sent_fls s)[i := s_out s\<lparr>t_f := None\<rparr>]\<rparr>
                 else remove_from_sent_files_queue i s)
       in s1\<lparr>s_out := (case fopen_rb (t_path t) (x_w s1) of None \<Rightarrow> TF_ZERO | Some h \<Rightarrow> t\<lparr>t_f := Some h\<rparr>)\<rparr>)"

definition get_done :: "session \<Rightarrow> session" where
  "get_done s = (let s1 = clear_status s in
     s1\<lparr>s_waiting_for_GOT := s_waiting_for_GOT s1 \<and> \<not> s_WE_ND s1, s_off_req_sent := False\<rparr>)"

text \<open>The answer to an offset request for a status, which has no file: \<open>None\<close> to go on.\<close>

definition get_status :: "string list \<Rightarrow> session \<Rightarrow> bool \<times> session" where
  "get_status argv s =
    (let off = strtoumax (argv ! 3);
         s1 = msg_sendf M_FILE (file_text (s_out s) @ '' '' @ dec_of_nat off) s
     in if int off = t_size (s_out s) mod 2 ^ 64 \<and> s_WE_ND s
        then (True, s1\<lparr>s_send_eof := True, s_waiting_for_GOT := True, s_off_req_sent := False\<rparr>)
        else (False, (snd (ND_set_status [] (t_fa (s_out s1)) s1))\<lparr>s_out := TF_ZERO\<rparr>))"

definition get_file :: "string list \<Rightarrow> string \<Rightarrow> handle \<Rightarrow> session \<Rightarrow> (bool \<times> session) option" where
  "get_file argv extras h s =
    (let offset = size_arg (argv ! 3); out = s_out s in
     if offset > t_size out then
       let s1 = msg_sendf M_ERR (''Invalid M_GET violates binkp: offset '' @ umax offset @ '' after end of file, file '' @
                  (argv ! 0) @ '' size '' @ umax (t_size out)) s
       in Some (False, s1\<lparr>s_out := s_out s1\<lparr>t_f := None\<rparr>, x_w := snd (touch (t_path out) (w_time (x_w s1)) (x_w s1))\<rparr>)
     else if offset < 0 then
       let s1 = msg_sendf M_ERR (''Error seeking: '' @ (argv ! 0) @ '' size '' @ umax (t_size out) @ '' to offset '' @ umax offset) s
       in Some (False, s1\<lparr>s_out := s_out s1\<lparr>t_f := None\<rparr>\<rparr>)
     else case all_words extras no_flags of
       None \<Rightarrow> None
     | Some ws \<Rightarrow>
         if ''NZ'' \<in> set ws then None
         else let s1 = msg_sendf M_FILE (file_text out @ '' '' @ umax offset) s
           in Some (True, s1\<lparr>s_out := s_out s1\<lparr>t_f := Some (h\<lparr>h_pos := nat offset\<rparr>)\<rparr>\<rparr>))"

definition GET :: "string \<Rightarrow> session \<Rightarrow> (bool \<times> session) option" where
  "GET txt s = (case parse_msg_args 4 txt ''M_GET'' s of
     (None, s1) \<Rightarrow> Some (False, s1)
   | (Some (argv, extras), s1) \<Rightarrow>
       let s2 = recall_sent argv s1 in
       if (t_f (s_out s2) \<noteq> None \<or> s_off_req_sent s2) \<and> same_file argv (s_out s2) then
         (case t_f (s_out s2) of
            None \<Rightarrow> (case get_status argv s2 of
              (True, s3) \<Rightarrow> Some (True, s3) | (False, s3) \<Rightarrow> Some (True, get_done s3))
          | Some h \<Rightarrow> map_option (\<lambda>(rc, s3). (rc, get_done s3)) (get_file argv extras h s2))
       else Some (False, get_done s2))"

section \<open>M_SKIP\<close>

definition skip_sent :: "string list \<Rightarrow> nat \<Rightarrow> session \<Rightarrow> session" where
  "skip_sent argv n s =
    (if n < length (s_sent_fls s) \<and> same_file argv (s_sent_fls s ! n)
     then remove_from_sent_files_queue n (s\<lparr>s_r_skipped_flag := True, s_ND_addr := t_fa (s_sent_fls s ! n)\<rparr>)
     else s)"

definition SKIP :: "string \<Rightarrow> session \<Rightarrow> bool \<times> session" where
  "SKIP txt s = (case parse_msg_args 3 txt ''M_SKIP'' s of
     (None, s1) \<Rightarrow> (False, s1)
   | (Some (argv, extras), s1) \<Rightarrow>
       let s2 = fold (skip_sent argv) [0..<length (s_sent_fls s1)] s1;
           hit = same_file argv (s_out s2);
           s3 = (if hit then s2\<lparr>s_r_skipped_flag := True\<rparr> else s2)
       in if hit \<and> t_f (s_out s3) = None then (False, msg_send2 M_ERR ''Cannot skip ND-status'' [] s3)
          else
            let s4 = clear_status (if hit then s3\<lparr>s_out := TF_ZERO\<rparr> else s3)
            in (True, if s_WE_ND s4 \<or> s_WE_NR s4 then s4\<lparr>s_waiting_for_GOT := False, s_off_req_sent := False\<rparr> else s4))"

section \<open>M_GOT\<close>

definition set_status_if :: "string option \<Rightarrow> bool \<Rightarrow> session \<Rightarrow> bool \<times> session" where
  "set_status_if status clear s = (case status of
     None \<Rightarrow> (True, s) | Some t \<Rightarrow> ND_set_status (if clear then [] else t) (s_ND_addr s) s)"

definition got_out :: "string option \<Rightarrow> session \<Rightarrow> bool \<times> session" where
  "got_out status s =
    (let out = s_out s;
         (rc, s1) = set_status_if status (s_off_req_sent s) (s\<lparr>s_out := out\<lparr>t_f := None\<rparr>, s_ND_addr := t_fa out\<rparr>);
         s2 = s1\<lparr>s_waiting_for_GOT := False, s_off_req_sent := False\<rparr>;
         s3 = snd (remove_from_spool (t_flo out) (Some (t_path out)) (t_action out) s2)
     in (rc, s3\<lparr>s_out := TF_ZERO\<rparr>))"

definition got_sent :: "string option \<Rightarrow> nat \<Rightarrow> session \<Rightarrow> bool \<times> session" where
  "got_sent status n s =
    (let t = s_sent_fls s ! n;
         s0 = s\<lparr>s_bytes_sent := s_bytes_sent s + t_size t, s_files_sent := s_files_sent s + 1, s_ND_addr := t_fa t\<rparr>;
         (rc, s1) = set_status_if status (s_off_req_sent s0 \<or> \<not> s_WE_ND s0) s0;
         s2 = s1\<lparr>s_waiting_for_GOT := False\<rparr>;
         s3 = snd (remove_from_spool (t_flo t) (Some (t_path t)) (t_action t) s2)
     in (rc, remove_from_sent_files_queue n s3))"

definition GOT :: "string \<Rightarrow> session \<Rightarrow> bool \<times> session" where
  "GOT txt s = (case parse_msg_args 3 txt ''M_GOT'' s of
     (None, s1) \<Rightarrow> (False, s1)
   | (Some (argv, extras), s1) \<Rightarrow>
       let plain_NR = (s_WE_NR s1 \<and> \<not> s_WE_ND s1);
           s2 = (if plain_NR then snd (ND_set_status [] (s_ND_addr s1) s1) else s1);
           status = (if plain_NR then None else Some txt)
       in if same_file argv (s_out s2) then got_out status s2
          else (case sent_index argv s2 of None \<Rightarrow> (True, s2) | Some n \<Rightarrow> got_sent status n s2))"

section \<open>M_EOB\<close>

text \<open>The log line of the first branch prints the first address without testing that there is one.\<close>

definition EOB :: "session \<Rightarrow> (bool \<times> session) option" where
  "EOB s0 =
    (let s = s0\<lparr>s_remote_EOB := True\<rparr> in
     case (case t_f (s_in s) of
             None \<Rightarrow> Some s
           | Some h \<Rightarrow>
               if \<not> s_THEY_NR s \<and> h_pos h \<noteq> 0 then
                 if s_fa s = [] then None
                 else map_option (\<lambda>(ok, s1). s1\<lparr>s_in := TF_ZERO\<rparr>) (inb_reject (s\<lparr>s_in := s_in s\<lparr>t_f := None\<rparr>\<rparr>))
               else close_partial s) of
       None \<Rightarrow> None
     | Some s1 \<Rightarrow> (case finish_complete s1 of
         None \<Rightarrow> None
       | Some (False, s2) \<Rightarrow> Some (False, s2)
       | Some (True, s2) \<Rightarrow> Some (True, s2\<lparr>s_delay_EOB := 0\<rparr>)))"

end
