(* ===== verification/Recv.thy ===== *)
theory Recv
  imports Filemsg
begin

text \<open>
  The receiving half (\<^verbatim>\<open>protocol.c\<close>): \<^verbatim>\<open>recv_block\<close> collects the bytes of a block, decrypts them, and hands
  messages to their handlers and data to the file being received.
\<close>

section \<open>Messages\<close>

definition handle_msg :: "t_msg \<Rightarrow> string \<Rightarrow> session \<Rightarrow> (bool \<times> session) option" where
  "handle_msg m buf s = (case m of
     M_NUL \<Rightarrow> NUL buf s
   | M_ADR \<Rightarrow> ADR buf s
   | M_PWD \<Rightarrow> PWD buf s
   | M_FILE \<Rightarrow> start_file_recv buf s
   | M_OK \<Rightarrow> OK buf s
   | M_EOB \<Rightarrow> EOB s
   | M_GOT \<Rightarrow> Some (GOT buf s)
   | M_ERR \<Rightarrow> Some (RError buf s)
   | M_BSY \<Rightarrow> Some (BSY buf s)
   | M_GET \<Rightarrow> GET buf s
   | M_SKIP \<Rightarrow> Some (SKIP buf s))"

text \<open>The message number, the first byte; a block without one or with a bigger one is ignored.\<close>

definition recv_msg :: "byte list \<Rightarrow> session \<Rightarrow> (bool \<times> session) option" where
  "recv_msg blk s0 = (let s = s0\<lparr>s_msgs_in_batch := s_msgs_in_batch s0 + 1\<rparr> in
     case blk of
       [] \<Rightarrow> Some (True, s)
     | c # r \<Rightarrow> if unat c < length msg_codes then handle_msg (msg_codes ! unat c) (c_string (chars_of r)) s
              else Some (True, s))"

section \<open>Data\<close>

text \<open>The file is complete.\<close>

definition file_received :: "session \<Rightarrow> (bool \<times> session) option" where
  "file_received s0 =
    (let s = s0\<lparr>s_in := s_in s0\<lparr>t_f := None\<rparr>\<rparr> in
     case (if s_THEY_ND s then Some (True, s\<lparr>s_in_complete := s_in s\<rparr>) else inb_done (s_in s) s) of
       None \<Rightarrow> None
     | Some (False, s1) \<Rightarrow>
         Some (False, note_bad_try ''Local error saving file'' (msg_send2 M_ERR ''Local error saving file'' [] s1))
     | Some (True, s1) \<Rightarrow> Some (True, (msg_sendf M_GOT (file_text (s_in s1)) s1)\<lparr>s_in := TF_ZERO\<rparr>))"

definition recv_data :: "byte list \<Rightarrow> session \<Rightarrow> (bool \<times> session) option" where
  "recv_data blk s = (case t_f (s_in s) of
     None \<Rightarrow> Some (True, s)
   | Some h \<Rightarrow>
       if blk \<noteq> [] \<and> w_full (x_w s) then Some (False, s)
       else
         let h1 = h\<lparr>h_pos := h_pos h + length blk\<rparr>;
             s1 = s\<lparr>x_w := (if blk = [] then x_w s else fs_append (h_path h) (chars_of blk) (x_w s)),
                    s_in := s_in s\<lparr>t_f := Some h1\<rparr>\<rparr>
         in if int (h_pos h1) = t_size (s_in s1) then file_received s1
            else if int (h_pos h1) > t_size (s_in s1) then Some (False, s1)
            else Some (True, s1))"

section \<open>Blocks\<close>

datatype recv_result = Got "byte list" | Recv_would_block | Recv_error string

definition hdr_imsg :: "byte list \<Rightarrow> bool" where
  "hdr_imsg hdr \<longleftrightarrow> 128 \<le> unat (hdr ! 0)"

definition hdr_size :: "byte list \<Rightarrow> int" where
  "hdr_size hdr = int (unat (hdr ! 0) mod 128 * 256 + unat (hdr ! 1))"

text \<open>A complete block; the buffers are reset, except after data that ends the session.\<close>

definition got_block :: "byte list \<Rightarrow> session \<Rightarrow> (bool \<times> session) option" where
  "got_block blk s = (case (if s_imsg s then recv_msg blk s else recv_data blk s) of
     None \<Rightarrow> None
   | Some (False, s1) \<Rightarrow> Some (False, if s_imsg s then s1\<lparr>s_ibuf := []\<rparr> else s1)
   | Some (True, s1) \<Rightarrow> Some (True, s1\<lparr>s_isize := -1, s_ibuf := []\<rparr>))"

definition needed :: "session \<Rightarrow> nat" where
  "needed s = (if s_isize s = -1 then BLK_HDR_SIZE else nat (s_isize s))"

definition take_header :: "session \<Rightarrow> session" where
  "take_header s = s\<lparr>s_imsg := hdr_imsg (s_ibuf s), s_isize := hdr_size (s_ibuf s)\<rparr>"

text \<open>The bytes are decrypted and stored; a complete header is evaluated, a complete block handled.\<close>

definition recv_bytes :: "byte list \<Rightarrow> session \<Rightarrow> (bool \<times> session) option" where
  "recv_bytes bs s =
    (let (d, ks) = (if crypt_on s then decrypt_buf (s_keys_in s) bs else (bs, s_keys_in s));
         s1 = s\<lparr>s_ibuf := s_ibuf s @ d, s_keys_in := ks\<rparr>
     in if length (s_ibuf s1) \<noteq> needed s then Some (True, s1)
        else if s_isize s1 = -1 then
          (let s2 = take_header s1 in if s_isize s2 = 0 then got_block [] s2 else Some (True, s2\<lparr>s_ibuf := []\<rparr>))
        else got_block (s_ibuf s1) s1)"

definition io_failed :: "string \<Rightarrow> session \<Rightarrow> session" where
  "io_failed err s = (let s1 = s\<lparr>s_io_error := True\<rparr> in if x_exit s then s1 else note_bad_try err s1)"

definition recv_block :: "recv_result \<Rightarrow> session \<Rightarrow> (bool \<times> session) option" where
  "recv_block io s =
    (if needed s = 0 then recv_bytes [] s
     else case io of
       Recv_would_block \<Rightarrow> Some (True, s)
     | Recv_error e \<Rightarrow> Some (False, io_failed e s)
     | Got bs \<Rightarrow>
         if bs = [] then Some (False, io_failed ''connection closed by foreign host'' s)
         else recv_bytes (take (needed s - length (s_ibuf s)) bs) s)"

end
