(* ===== verification/Session.thy ===== *)
theory Session
  imports Recv
begin

text \<open>
  A session from the first byte to the last (\<^verbatim>\<open>protocol.c\<close>): the start of the next file, the loop of
  \<^verbatim>\<open>protocol\<close>, and what is done after it.
\<close>

section \<open>Start and end\<close>

text \<open>The structure is zeroed and set up; what is around it stays.\<close>

definition zero_keys :: "u64 keys" where
  "zero_keys = \<lparr>k0 = 0, k1 = 0, k2 = 0\<rparr>"

definition init_protocol :: "FTN_NODE option \<Rightarrow> FTN_ADDR option \<Rightarrow> bool \<Rightarrow> string \<Rightarrow> session \<Rightarrow> session" where
  "init_protocol to fa is_pipe ip e = e\<lparr>
    s_to := to, s_expected_pwd := ''-'', s_pipe := is_pipe, s_obuf := [], s_ibuf := [], s_isize := -1, s_imsg := False,
    s_msgs := [], s_in := TF_ZERO, s_out := TF_ZERO, s_flo := TF_ZERO, s_sent_fls := [], s_q := [], s_fa := [], s_nfa := 0,
    s_remote_fa := fa, s_pAddr := None, s_maxflvr := CHR ''h'', s_skip_all_flag := False, s_r_skipped_flag := False,
    s_listed_flag := 0, s_inbound := inbound_nonsecure (x_cfg e), s_ipaddr := ip, s_io_error := False,
    s_msgs_in_batch := 0, s_minor := 0, s_major := 1, s_killlist := [], s_rcvdlist := [], s_nosendlist := [],
    s_files_sent := 0, s_files_rcvd := 0, s_bytes_sent := 0, s_bytes_rcvd := 0, s_sysname := [], s_sysop := [],
    s_location := [], s_local_EOB := False, s_remote_EOB := False, s_GET_FILE_balance := 0, s_off_req_sent := False,
    s_state := P_NULL, s_state_ext := P_NA,
    s_WANT_NR := (case to of None \<Rightarrow> False | Some n \<Rightarrow> n_NR_flag n = 1 \<or> n_ND_flag n = 1),
    s_WE_NR := False, s_THEY_NR := False, s_WE_ND := False,
    s_THEY_ND := (case to of None \<Rightarrow> False | Some n \<Rightarrow> n_ND_flag n = 1), s_CAN_NDA := False, s_MD_flag := 0,
    s_MD_challenge := None, s_waiting_for_GOT := False, s_send_eof := False, s_in_complete := TF_ZERO,
    s_ND_addr := (t_fa TF_ZERO)\<lparr>fa_z := -1\<rparr>, s_WE_CRYPT := \<not> x_no_crypt e, s_THEY_CRYPT := False,
    s_YES_CRYPT := False, s_keys_out := zero_keys, s_keys_in := zero_keys,
    s_delay_ADR := (akamask (x_cfg e) \<noteq> []), s_delay_EOB := 0, s_extcmd := False, s_buggy_NR := False,
    x_wire := []\<rparr>"

definition drop_busy :: "FTN_ADDR \<Rightarrow> session \<Rightarrow> session" where
  "drop_busy fa s = (case bsy_remove fa F_BSY (x_cfg s) (x_w s, x_bsy s) of (w, b) \<Rightarrow> s\<lparr>x_w := w, x_bsy := b\<rparr>)"

definition deinit_protocol :: "session \<Rightarrow> session option" where
  "deinit_protocol s = map_option (\<lambda>s1. fold drop_busy (take (s_nfa s1) (s_fa s1)) s1) (close_partial s)"

section \<open>The next file\<close>

text \<open>\<^verbatim>\<open>stat\<close> of the opened file.\<close>

definition fstat :: "string \<Rightarrow> world \<Rightarrow> (int \<times> int) option" where
  "fstat p w = (case stat w p of Some (File d t) \<Rightarrow> Some (int (length d), t) | _ \<Rightarrow> None)"

text \<open>
  The entry of the queue is opened: \<open>None\<close> when it cannot be sent, else its stream (none for a status or a
  flow file), size and time.
\<close>

definition open_entry :: "FTNQ \<Rightarrow> session \<Rightarrow> (handle option \<times> int \<times> int) option \<times> session" where
  "open_entry e s0 =
    (let s = s0\<lparr>s_maxflvr := MAXFLVR (s_maxflvr s0) (q_flvr e)\<rparr>;
         mark = (\<lambda>t. let t1 = t\<lparr>s_out := s_out t\<lparr>t_fa := q_fa e\<rparr>\<rparr> in if s_WE_ND t1 then t1 else t1\<lparr>s_ND_addr := q_fa e\<rparr>)
     in if q_type e = CHR ''s'' then (Some (None, q_size e, q_time e), mark s)
        else if q_path e \<in> set (s_nosendlist s) then (None, s)
        else case fstat (q_path e) (x_w s) of
          None \<Rightarrow> (None, s)
        | Some (sz, t) \<Rightarrow>
            let h = \<lparr>h_path = q_path e, h_pos = 0\<rparr> in
            if q_type e \<noteq> CHR ''l'' then (Some (Some h, sz, t), mark s)
            else if denied (x_w s) (q_path e) then (None, s)
            else (Some (None, sz, t), mark (s\<lparr>s_flo := s_flo s\<lparr>t_action := q_action e, t_path := q_path e, t_fa := q_fa e, t_f := Some h\<rparr>\<rparr>)))"

text \<open>
  The lines of the open flow file: the first one that names a readable file, with its action.  The
  comparison with the list of files not to send uses the queue entry, which is absent (NULL) when the
  flow file was opened earlier.
\<close>

definition unsendable :: "FTNQ option \<Rightarrow> string option \<Rightarrow> session \<Rightarrow> bool option" where
  "unsendable e w s = (if s_nosendlist s = [] then Some False
     else case w of Some p \<Rightarrow> Some (p \<in> set (s_nosendlist s))
     | None \<Rightarrow> (case e of None \<Rightarrow> None | Some q \<Rightarrow> Some (q_path q \<in> set (s_nosendlist s))))"

partial_function (option) flo_loop ::
  "FTNQ option \<Rightarrow> handle \<Rightarrow> session \<Rightarrow> ((string \<times> char \<times> handle \<times> int \<times> int) option \<times> session) option" where
  "flo_loop e h s =
    (case read_flo_line (drop (h_pos h) (case fopen_r (h_path h) (x_w s) of None \<Rightarrow> [] | Some d \<Rightarrow> d)) of
       None \<Rightarrow> Some (None, (snd (remove_from_spool (t_path (s_flo s)) None NUL_char
                 (s\<lparr>s_flo := s_flo s\<lparr>t_f := None\<rparr>\<rparr>)))\<lparr>s_flo := TF_ZERO\<rparr>)
     | Some line \<Rightarrow> (case line of (path, action, rest) \<Rightarrow>
         (let d = (case fopen_r (h_path h) (x_w s) of None \<Rightarrow> [] | Some c \<Rightarrow> c);
              h' = h\<lparr>h_pos := length d - length rest\<rparr>;
              s1 = s\<lparr>s_flo := s_flo s\<lparr>t_f := Some h'\<rparr>\<rparr>;
              w = trans_flo_line path (rf_rules (x_cfg s));
              real = (case w of Some p \<Rightarrow> p | None \<Rightarrow> path);
              done = snd (remove_from_spool (t_path (s_flo s)) (Some path) NUL_char s1)
          in (case unsendable e w s1 of
                None \<Rightarrow> None
              | Some skip \<Rightarrow>
                  if skip then flo_loop e h' done
                  else (case fstat real (x_w s1) of
                    None \<Rightarrow> flo_loop e h' done
                  | Some st \<Rightarrow> Some (Some (path, action, \<lparr>h_path = real, h_pos = 0\<rparr>, fst st, snd st), s1))))))"

declare flo_loop.simps [code]

text \<open>The name the file travels under; packets and requests get a random one.\<close>

definition name_file :: "session \<Rightarrow> session option" where
  "name_file s = (if t_type (s_out s) = CHR ''m'' \<or> t_type (s_out s) = CHR ''r'' then
      (case rnd s of None \<Rightarrow> None | Some (r, s1) \<Rightarrow> Some (s1\<lparr>s_out := s_out s1\<lparr>t_netname := netname r (s_out s1)\<rparr>\<rparr>))
    else Some (s\<lparr>s_out := s_out s\<lparr>t_netname := netname 0 (s_out s)\<rparr>\<rparr>))"

definition at_least_arcmail :: "dontsendemptytype \<Rightarrow> bool" where
  "at_least_arcmail d \<longleftrightarrow> d \<noteq> EMPTY_NO"

definition dontsend :: "session \<Rightarrow> bool" where
  "dontsend s \<longleftrightarrow> (let t = s_out s; d = dontsendempty (x_cfg s) in
     ((t_type t = CHR ''m'' \<or> (ispkt (t_netname t) \<and> at_least_arcmail d)) \<and> t_size t \<le> 60) \<or>
     (at_least_arcmail d \<and> t_size t = 0 \<and> isarcmail (t_netname t)) \<or> (d = EMPTY_ALL \<and> t_size t = 0))"

definition send_FILE :: "session \<Rightarrow> session" where
  "send_FILE s =
    (if s_WE_NR s then (msg_sendf M_FILE (file_text (s_out s) @ '' -1'') s)\<lparr>s_off_req_sent := True\<rparr>
     else if t_f (s_out s) = None then msg_sendf M_FILE (file_text (s_out s) @ '' '' @ umax (t_size (s_out s))) s
     else msg_sendf M_FILE (file_text (s_out s) @ '' 0'') s)"

definition offer_file :: "session \<Rightarrow> (bool \<times> session) option" where
  "offer_file s = (case name_file (s\<lparr>s_waiting_for_GOT := False\<rparr>) of
     None \<Rightarrow> None
   | Some s1 \<Rightarrow>
       if dontsend s1 then
         let t = s_out s1
         in Some (False, (snd (remove_from_spool (t_flo t) (Some (t_path t)) (t_action t) s1))\<lparr>s_out := TF_ZERO\<rparr>)
       else Some (True, send_FILE s1))"

definition start_file_transfer :: "FTNQ option \<Rightarrow> session \<Rightarrow> (bool \<times> session) option" where
  "start_file_transfer e s0 =
    (let s = s0\<lparr>s_out := TF_ZERO\<rparr> in
     case (if t_f (s_flo s) = None
           then (case e of None \<Rightarrow> None | Some q \<Rightarrow> Some (open_entry q s))
           else Some (Some (None, 0, 0), s)) of
       None \<Rightarrow> None
     | Some (None, s1) \<Rightarrow> Some (False, s1)
     | Some (Some (f, sz, t), s1) \<Rightarrow> (case t_f (s_flo s1) of
         Some h \<Rightarrow> (case flo_loop e h s1 of
           None \<Rightarrow> None
         | Some (None, s2) \<Rightarrow> Some (False, s2)
         | Some (Some (path, action, hf, sz2, t2), s2) \<Rightarrow>
             offer_file (s2\<lparr>s_out := s_out s2\<lparr>t_flo := t_path (s_flo s2), t_path := path, t_fa := t_fa (s_flo s2),
               t_action := action, t_type := NUL_char, t_f := Some hf, t_size := sz2, t_time := t2, t_start := w_time (x_w s2)\<rparr>\<rparr>))
       | None \<Rightarrow> (case e of
           None \<Rightarrow> None
         | Some q \<Rightarrow>
             offer_file (s1\<lparr>s_out := s_out s1\<lparr>t_path := q_path q, t_flo := [], t_action := q_action q, t_type := q_type q,
               t_f := f, t_size := sz, t_time := t, t_start := w_time (x_w s1)\<rparr>\<rparr>))))"

section \<open>The loop\<close>

text \<open>The next .pkt, flow file or file of the queue, until one is offered to the remote.\<close>

partial_function (option) next_file :: "session \<Rightarrow> session option" where
  "next_file s =
    (case (if t_f (s_flo s) \<noteq> None then (None, s_q s) else select_next_file (s_q s)) of (e, q) \<Rightarrow>
       if t_f (s_flo s) = None \<and> e = None then Some (s\<lparr>s_q := []\<rparr>)
       else (case start_file_transfer e (s\<lparr>s_q := q\<rparr>) of
         None \<Rightarrow> None
       | Some r \<Rightarrow> (case r of (ok, s1) \<Rightarrow> if ok then Some s1 else next_file s1)))"

declare next_file.simps [code]

definition want_file :: "session \<Rightarrow> bool" where
  "want_file s \<longleftrightarrow> \<not> s_local_EOB s \<and> s_q s \<noteq> [] \<and> t_f (s_out s) = None \<and> \<not> s_waiting_for_GOT s \<and>
     \<not> s_off_req_sent s \<and> s_state s \<noteq> P_NULL"

definition bin_version :: "session \<Rightarrow> int" where
  "bin_version s = s_major s * 100 + s_minor s"

definition send_EOB :: "session \<Rightarrow> session" where
  "send_EOB s =
    (if t_f (s_out s) = None \<and> s_q s = [] \<and> \<not> s_local_EOB s \<and> s_state s \<noteq> P_NULL \<and> s_sent_fls s = [] \<and>
        (s_delay_EOB s = 0 \<or> bin_version s > 100)
     then msg_send2 M_EOB [] [] (s\<lparr>s_local_EOB := True\<rparr>) else s)"

definition want_write :: "session \<Rightarrow> bool" where
  "want_write s \<longleftrightarrow> s_msgs s \<noteq> [] \<or> (t_f (s_out s) \<noteq> None \<and> \<not> s_off_req_sent s \<and> \<not> s_waiting_for_GOT s) \<or>
     s_obuf s \<noteq> [] \<or> s_send_eof s"

definition batch_over :: "session \<Rightarrow> bool" where
  "batch_over s \<longleftrightarrow> s_remote_EOB s \<and> s_sent_fls s = [] \<and> s_local_EOB s \<and> s_GET_FILE_balance s = 0 \<and>
     t_f (s_in s) = None \<and> t_f (s_out s) = None"

text \<open>No events are configured, so the list of received files only moves entries to the kill list.\<close>

definition end_batch :: "session \<Rightarrow> session" where
  "end_batch s = (if s_rcvdlist s = [] then s
     else case q_to_killlist (s_killlist s) (s_q s) of
       (k, q) \<Rightarrow> s\<lparr>s_killlist := k, s_q := q, s_rcvdlist := []\<rparr>)"

definition last_batch :: "session \<Rightarrow> bool" where
  "last_batch s \<longleftrightarrow> s_msgs_in_batch s \<le> 2 \<or> bin_version s \<le> 100"

definition scan_boxes :: "session \<Rightarrow> session" where
  "scan_boxes s = (case q_scan_boxes (take (s_nfa s) (s_fa s)) (s_to s \<noteq> None) (Q (s_q s), fs_cfg s) of
     (q, st) \<Rightarrow> set_fs_cfg st (s\<lparr>s_q := case q of Q es \<Rightarrow> es | SCAN_LISTED \<Rightarrow> []\<rparr>))"

definition next_batch :: "session \<Rightarrow> session" where
  "next_batch s0 = (let s = s0\<lparr>s_msgs_in_batch := 0, s_remote_EOB := False, s_local_EOB := False\<rparr>
     in if OK_SEND_FILES s then sort_q (scan_boxes s) else s)"

text \<open>What \<^verbatim>\<open>select\<close> reports, and what the calls on the ready sockets then do.\<close>

datatype select_result = Sel_timeout | Sel_error string | Sel_ready "recv_result option" "io_result option"

definition touch_busy :: "session \<Rightarrow> session" where
  "touch_busy s = (case bsy_touch (x_cfg s) (x_touch s) (x_w s) (x_bsy s) of (t, w) \<Rightarrow> s\<lparr>x_touch := t, x_w := w\<rparr>)"

definition loop_io :: "recv_result option \<Rightarrow> io_result option \<Rightarrow> session \<Rightarrow> (bool \<times> session) option" where
  "loop_io rd wr s =
    (case (case rd of None \<Rightarrow> Some (True, s) | Some r \<Rightarrow> recv_block r s) of
       None \<Rightarrow> None
     | Some (False, s1) \<Rightarrow> Some (False, s1)
     | Some (True, s1) \<Rightarrow> (case wr of
         None \<Rightarrow> Some (True, s1)
       | Some io \<Rightarrow> (case send_block io s1 of None \<Rightarrow> None | Some (r, s2) \<Rightarrow> Some (r \<noteq> SB_FAIL, s2))))"

definition loop_select :: "select_result \<Rightarrow> session \<Rightarrow> (bool \<times> session) option" where
  "loop_select sel s0 = (let s = touch_busy s0 in
     case sel of
       Sel_timeout \<Rightarrow> Some (False, note_bad_try ''Timeout!'' (s\<lparr>s_io_error := True\<rparr>))
     | Sel_error e \<Rightarrow> Some (False, io_failed e s)
     | Sel_ready rd wr \<Rightarrow> loop_io rd (if want_write s0 then wr else None) s)"

text \<open>One round of the loop; \<open>False\<close> when it is left.\<close>

definition loop_step :: "select_result \<Rightarrow> session \<Rightarrow> (bool \<times> session) option" where
  "loop_step sel s = (case (if want_file s then next_file s else Some s) of
     None \<Rightarrow> None
   | Some s1 \<Rightarrow>
       let s2 = send_EOB s1 in
       if batch_over s2 then
         let s3 = end_batch s2
         in Some (if last_batch s3 then (False, clear_status s3) else (True, next_batch s3))
       else loop_select sel s2)"

section \<open>After the loop\<close>

text \<open>The rest of the output; \<open>None\<close> when the given results of the socket do not suffice.\<close>

fun drain :: "io_result list \<Rightarrow> session \<Rightarrow> session option" where
  "drain ios s = (if s_io_error s \<or> (s_msgs s = [] \<and> s_obuf s = []) then Some s
     else case ios of
       [] \<Rightarrow> None
     | io # r \<Rightarrow> (case send_block io s of
         None \<Rightarrow> None | Some (SB_FAIL, s1) \<Rightarrow> Some s1 | Some (_, s1) \<Rightarrow> drain r s1))"

declare drain.simps [simp del]

definition session_ok :: "session \<Rightarrow> bool" where
  "session_ok s \<longleftrightarrow> s_local_EOB s \<and> s_remote_EOB s \<and> s_sent_fls s = [] \<and> s_GET_FILE_balance s = 0 \<and>
     t_f (s_in s) = None \<and> t_f (s_out s) = None"

definition good_end :: "session \<Rightarrow> session option" where
  "good_end s = (case inb_remove_partial (s\<lparr>x_w := process_killlist (s_killlist s) (CHR ''s'') (x_w s)\<rparr>) of
     None \<Rightarrow> None
   | Some s1 \<Rightarrow> Some (case s_to s1 of None \<Rightarrow> s1
       | Some n \<Rightarrow> s1\<lparr>x_w := good_try (x_junk s1) (n_fa n) ''CONNECT/BND'' (x_cfg s1) (x_w s1)\<rparr>))"

definition bad_end :: "session \<Rightarrow> session" where
  "bad_end s0 = (let s = s0\<lparr>x_w := process_killlist (s_killlist s0) NUL_char (x_w s0)\<rparr> in
     case s_to s of None \<Rightarrow> s
     | Some n \<Rightarrow> if tolower (s_maxflvr s) \<noteq> CHR ''h''
         then s\<lparr>x_w := snd (create_poll (n_fa n) (s_maxflvr s) (x_cfg s) (x_w s))\<rparr> else s)"

definition hold_if_skipped :: "session \<Rightarrow> session" where
  "hold_if_skipped s = (case s_to s of None \<Rightarrow> s
     | Some n \<Rightarrow> if s_r_skipped_flag s \<and> hold_skipped (x_cfg s) > 0
         then set_fs_cfg (hold_node (n_fa n) (w_time (x_w s) + hold_skipped (x_cfg s)) (fs_cfg s)) s else s)"

definition after_loop :: "bool \<Rightarrow> io_result list \<Rightarrow> session \<Rightarrow> (bool \<times> session) option" where
  "after_loop in_error ios s0 = (case drain ios (s0\<lparr>s_io_error := s_io_error s0 \<or> in_error\<rparr>) of
     None \<Rightarrow> None
   | Some s \<Rightarrow> (case (if session_ok s then good_end s else Some (bad_end s)) of
       None \<Rightarrow> None
     | Some s1 \<Rightarrow> map_option (Pair (session_ok s)) (deinit_protocol (hold_if_skipped s1))))"

text \<open>
  The whole session: \<open>sels\<close> is what happens in the rounds of the loop, \<open>in_error\<close> and \<open>ios\<close> what happens after
  it; \<open>full\<close> is whether too many servers run.
\<close>

fun run_loop :: "select_result list \<Rightarrow> session \<Rightarrow> session option" where
  "run_loop [] s = None"
| "run_loop (sel # sels) s = (case loop_step sel s of
     None \<Rightarrow> None | Some (False, s1) \<Rightarrow> Some s1 | Some (True, s1) \<Rightarrow> run_loop sels s1)"

definition protocol :: "FTN_NODE option \<Rightarrow> FTN_ADDR option \<Rightarrow> bool \<Rightarrow> string \<Rightarrow> bool \<Rightarrow> select_result list \<Rightarrow> bool \<Rightarrow>
    io_result list \<Rightarrow> session \<Rightarrow> (bool \<times> session) option" where
  "protocol to fa is_pipe ip full sels in_error ios e = (case banner (init_protocol to fa is_pipe ip e) of
     None \<Rightarrow> None
   | Some (False, s) \<Rightarrow> after_loop in_error ios s
   | Some (True, s) \<Rightarrow>
       if full \<and> to = None then after_loop in_error ios (msg_send2 M_BSY ''Too many servers'' [] s)
       else (case run_loop sels s of None \<Rightarrow> None | Some s1 \<Rightarrow> after_loop in_error ios s1))"

end
