(* ===== verification/Framing.thy ===== *)
theory Framing
  imports Recv
begin

text \<open>
  The byte stream between the two ends: what the sending half puts on the wire, and that the
  receiving half takes it apart again, however the network cuts it up.
\<close>

section \<open>Headers\<close>

lemma or_8000: "k < 0x8000 \<Longrightarrow> (k OR 0x8000 :: nat) = k + 0x8000"
proof -
  assume k: "k < 0x8000"
  have "k AND 0x8000 = 0"
  proof (rule bit_eqI)
    fix n show "bit (k AND 0x8000) n = bit (0 :: nat) n"
    proof (cases "n = 15")
      case True
      have "\<not> bit k 15" using k by (simp add: bit_iff_odd)
      then show ?thesis using True by (simp add: bit_simps)
    next
      case False
      have "(0x8000 :: nat) = 2 ^ 15" by simp
      then have "\<not> bit (0x8000 :: nat) n" using False by (simp only: bit_exp_iff) simp
      then show ?thesis by (simp add: bit_simps)
    qed
  qed
  then show ?thesis by (simp add: disjunctive_add_eq_or)
qed

lemma unat_byte_of_nat: "unat (word_of_nat n :: byte) = n mod 256"
  by (simp add: unat_of_nat)

text \<open>A header says of which kind the frame is and how long.\<close>

lemma data_header: "n \<le> MAX_BLKSIZE \<Longrightarrow> length (mkhdr n) = 2 \<and> \<not> hdr_imsg (mkhdr n) \<and> hdr_size (mkhdr n) = int n"
  by (auto simp: mkhdr_def hdr_imsg_def hdr_size_def unat_byte_of_nat)

lemma msg_header:
  assumes "n \<le> MAX_BLKSIZE"
  shows "length (mkhdr (n OR 0x8000)) = 2 \<and> hdr_imsg (mkhdr (n OR 0x8000)) \<and> hdr_size (mkhdr (n OR 0x8000)) = int n"
proof -
  have e: "n OR 0x8000 = n + 0x8000" using assms by (intro or_8000) simp
  have d: "(n + 0x8000) div 256 = n div 256 + 128" using div_mult_self2 [of 256 n 128] by simp
  have "n div 256 < 128" using assms by simp
  then have m: "(n div 256 + 128) mod 256 = n div 256 + 128" by simp
  have h: "hdr_imsg [a, b] = (128 \<le> unat a)" "hdr_size [a, b] = int (unat a mod 128 * 256 + unat b)" for a b
    by (simp_all add: hdr_imsg_def hdr_size_def)
  have "(n + 0x8000) mod 256 = n mod 256" using mod_mult_self2 [of n 256 128] by simp
  then have "unat (word_of_nat (n + 0x8000) :: byte) = n mod 256" by (simp only: unat_byte_of_nat)
  moreover have "unat (word_of_nat (n div 256 + 128) :: byte) = n div 256 + 128" by (simp only: unat_byte_of_nat m)
  moreover have "(n div 256 + 128) mod 128 = n div 256" using \<open>n div 256 < 128\<close> by simp
  moreover have "n div 256 * 256 + n mod 256 = n" by simp
  ultimately show ?thesis unfolding e mkhdr_def d by (simp only: h) simp
qed

section \<open>Output\<close>

text \<open>
  C6: Whatever calls queue messages and pump blocks, in whatever order and however much the socket takes at
  a time, the bytes on the wire are the beginning of the frames in the order they were made, in the
  cipher of the session; nothing is lost, doubled or reordered, and once the buffers are empty all of
  it has left.
\<close>

theorem output_in_order:
  assumes "outputs s fs s'"
  shows "(\<exists>rest. out_stream s @ coded s (wire_image fs) = x_wire s' @ rest \<and> (s_obuf s' = [] \<and> s_msgs s' = [] \<longrightarrow> rest = []))
    \<and> crypt_on s' = crypt_on s"
proof -
  have e: "emits s (wire_image fs) s'" using assms by (rule outputs_emits)
  then have "out_stream s @ coded s (wire_image fs) = x_wire s' @ (s_obuf s' @ pending (s_msgs s'))"
    by (simp add: emits_def out_stream_def)
  then show ?thesis using e by (intro conjI exI [of _ "s_obuf s' @ pending (s_msgs s')"]) (auto simp: emits_def)
qed

definition ex_queued :: session where
  "ex_queued = msg_send2 M_NUL ''hi'' [] sample_session"

lemma ex_queued_outputs: "outputs sample_session [Msg M_NUL ''hi''] ex_queued"
  using outputs.queue [OF outputs.start, of sample_session M_NUL "''hi''" "[]"] by (simp add: ex_queued_def)

theorem output_in_order_witness:
  "\<exists>rest. [0x80, 3, 0, 0x68, 0x69] = x_wire ex_queued @ rest \<and> \<not> crypt_on ex_queued"
proof -
  have "\<not> crypt_on sample_session" by (simp add: crypt_on_def sample_session_def)
  moreover have "(3 :: nat) OR 0x8000 = 0x8003" by (simp add: or_8000)
  then have "out_stream sample_session @ coded sample_session (wire_image [Msg M_NUL ''hi'']) = [0x80, 3, 0, 0x68, 0x69]"
    by (simp add: out_stream_def coded_def crypt_on_def sample_session_def msg_frame_def mkhdr_def bytes_of_def of_char_def numeral_3_eq_3)
  ultimately show ?thesis using output_in_order [OF ex_queued_outputs] by auto
qed

text \<open>
  C7: A file that is open for sending, when nothing else is to be sent and no addresses are shared, is sent
  completely: whatever number of bytes, but at least one, the socket takes in each round of \<^verbatim>\<open>send_block\<close>, after
  \<open>4 * n + 4\<close> rounds for \<open>n\<close> bytes left (or more) the wire has exactly the rest of the file in addition, as data
  blocks of at most the configured size, in order and in the cipher of the session; then the file is in the
  list of the sent ones, the buffers are empty and the next file can start.
\<close>

theorem file_sent_completely:
  assumes "sends s h d" "s_obuf s = []" "list_all moves ios" "4 * (length d - h_pos h) + 4 \<le> length ios"
  shows "\<exists>bs s' h'. send_rounds ios s = Some s' \<and> concat bs = bytes_of (drop (h_pos h) d) \<and>
    (\<forall>b\<in>set bs. length b \<le> nat (oblksize (x_cfg s))) \<and> x_wire s' = x_wire s @ coded s (wire_image (map Data bs)) \<and>
    s_out s' = TF_ZERO \<and> s_sent_fls s' = s_sent_fls s @ [s_out s\<lparr>t_f := Some h'\<rparr>] \<and> s_obuf s' = [] \<and> s_msgs s' = []"
proof -
  have n: "length (s_obuf s) + 4 * (length d - h_pos h) + 4 \<le> length ios" using assms(2,4) by simp
  obtain bs s' h' where r: "send_rounds ios s = Some s'" "emits s (wire_image (map Data bs)) s'"
      "concat bs = bytes_of (drop (h_pos h) d)" "\<forall>b\<in>set bs. length b \<le> nat (oblksize (x_cfg s))"
      "s_obuf s' = []" "sent_out s'" "s_sent_fls s' = s_sent_fls s @ [s_out s\<lparr>t_f := Some h'\<rparr>]"
    using rounds_send [OF assms(1,3) n] by (elim exE conjE)
  have "out_stream s' = out_stream s @ coded s (wire_image (map Data bs))" using r(2) by (simp add: emits_def)
  moreover have "s_msgs s' = []" "s_out s' = TF_ZERO" using r(6) by (simp_all add: sent_out_def)
  moreover have "s_msgs s = []" using assms(1) by (simp add: sends_def)
  ultimately show ?thesis using r assms(2) by (intro exI [of _ bs] exI [of _ s'] exI [of _ h']) (simp add: out_stream_def)
qed

definition ex_sending :: session where
  "ex_sending = sample_session\<lparr>x_w := fs_put ''/f'' (File ''abcde'' 0) empty_world, x_cfg := sample_cfg\<lparr>oblksize := 2\<rparr>,
     s_out := TF_ZERO\<lparr>t_f := Some \<lparr>h_path = ''/f'', h_pos = 1\<rparr>, t_size := 5, t_netname := ''f''\<rparr>\<rparr>"

lemma ex_sending_ready: "sends ex_sending \<lparr>h_path = ''/f'', h_pos = 1\<rparr> ''abcde''"
  by (simp add: sends_def ex_sending_def sample_session_def fopen_r_def stat_def fs_put_def empty_world_def sample_cfg_def)

theorem file_sent_completely_witness:
  "\<exists>bs s'. send_rounds (replicate 20 (Moved 1)) ex_sending = Some s' \<and> concat bs = bytes_of ''bcde'' \<and> (\<forall>b\<in>set bs. length b \<le> 2) \<and>
     x_wire s' = wire_image (map Data bs) \<and> length (s_sent_fls s') = 1"
proof -
  have e: "x_wire ex_sending = []" "s_sent_fls ex_sending = []" "oblksize (x_cfg ex_sending) = 2" "s_obuf ex_sending = []"
    "\<not> crypt_on ex_sending"
    by (simp_all add: ex_sending_def sample_session_def crypt_on_def)
  have m: "list_all moves (replicate 20 (Moved 1))" by (auto simp: list_all_iff moves_def)
  have n: "4 * (length ''abcde'' - h_pos \<lparr>h_path = ''/f'', h_pos = 1\<rparr>) + 4 \<le> length (replicate 20 (Moved 1))" by simp
  obtain bs and s' :: session and h' where "send_rounds (replicate 20 (Moved 1)) ex_sending = Some s'"
      "concat bs = bytes_of (drop (h_pos \<lparr>h_path = ''/f'', h_pos = 1\<rparr>) ''abcde'')"
      "\<forall>b\<in>set bs. length b \<le> nat (oblksize (x_cfg ex_sending))" "x_wire s' = x_wire ex_sending @ coded ex_sending (wire_image (map Data bs))"
      "s_sent_fls s' = s_sent_fls ex_sending @ [s_out ex_sending\<lparr>t_f := Some h'\<rparr>]"
    using file_sent_completely [OF ex_sending_ready e(4) m n] by (elim exE conjE)
  then show ?thesis using e by (intro exI [of _ bs] exI [of _ s']) (simp add: coded_def)
qed

section \<open>Input\<close>

text \<open>The input buffer: the size of a block fits the array, and fewer bytes are there than are waited for.\<close>

definition input_ok :: "session \<Rightarrow> bool" where
  "input_ok s \<longleftrightarrow> -1 \<le> s_isize s \<and> s_isize s \<le> int MAX_BLKSIZE \<and> length (s_ibuf s) < needed s"

text \<open>Between two frames.\<close>

definition at_boundary :: "session \<Rightarrow> bool" where
  "at_boundary s \<longleftrightarrow> s_isize s = -1 \<and> s_ibuf s = []"

lemma boundary_input_ok: "at_boundary s \<Longrightarrow> input_ok s"
  by (simp add: at_boundary_def input_ok_def needed_def)

text \<open>Decryption of received bytes.\<close>

definition decoded :: "session \<Rightarrow> byte list \<Rightarrow> byte list" where
  "decoded s bs = (if crypt_on s then fst (decrypt_buf (s_keys_in s) bs) else bs)"

definition took :: "session \<Rightarrow> byte list \<Rightarrow> session" where
  "took s bs = s\<lparr>s_ibuf := s_ibuf s @ decoded s bs,
     s_keys_in := if crypt_on s then snd (decrypt_buf (s_keys_in s) bs) else s_keys_in s\<rparr>"

lemma recv_bytes_took: "recv_bytes bs s =
   (let s1 = took s bs in
    if length (s_ibuf s1) \<noteq> needed s then Some (True, s1)
    else if s_isize s1 = -1 then
      (let s2 = take_header s1 in if s_isize s2 = 0 then got_block [] s2 else Some (True, s2\<lparr>s_ibuf := []\<rparr>))
    else got_block (s_ibuf s1) s1)"
  by (simp add: recv_bytes_def took_def decoded_def Let_def split_def)

lemma decoded_length [simp]: "length (decoded s bs) = length bs"
  by (simp add: decoded_def decrypt_buf_length)

lemma hdr_size_bounds: "0 \<le> hdr_size h \<and> hdr_size h \<le> int MAX_BLKSIZE"
proof -
  have "unat (h ! 1) < 256" using unsigned_less [of "h ! 1"] by simp
  moreover have "unat (h ! 0) mod 128 \<le> 127" using mod_less_divisor [of 128 "unat (h ! 0)"] by linarith
  ultimately have "unat (h ! 0) mod 128 * 256 + unat (h ! 1) \<le> 32767" by linarith
  then show ?thesis unfolding hdr_size_def by (metis of_nat_le_iff of_nat_0_le_iff of_nat_numeral)
qed

lemma got_block_True: "got_block blk s = Some (True, s') \<Longrightarrow> s_isize s' = -1 \<and> s_ibuf s' = []"
  by (auto simp: got_block_def split: option.splits prod.splits bool.splits if_splits)

lemma recv_bytes_input_ok:
  assumes "input_ok s" "bs \<noteq> []" "length bs \<le> needed s - length (s_ibuf s)" "recv_bytes bs s = Some (True, s')"
  shows "input_ok s'"
proof -
  let ?s1 = "took s bs"
  have n: "needed ?s1 = needed s" "s_isize ?s1 = s_isize s" by (simp_all add: took_def needed_def)
  have l: "length (s_ibuf ?s1) = length (s_ibuf s) + length bs" by (simp add: took_def)
  show ?thesis
  proof (cases "length (s_ibuf ?s1) = needed s")
    case False
    then have "s' = ?s1" using assms(4) by (simp add: recv_bytes_took Let_def)
    moreover have "length (s_ibuf ?s1) < needed s"
      using assms(1,3) False l unfolding input_ok_def by linarith
    ultimately show ?thesis using assms(1) n by (simp add: input_ok_def)
  next
    case True
    show ?thesis
    proof (cases "s_isize s = -1 \<and> hdr_size (s_ibuf ?s1) \<noteq> 0")
      case hdr: True
      then have "s' = (take_header ?s1)\<lparr>s_ibuf := []\<rparr>"
        using assms(4) True n by (simp add: recv_bytes_took Let_def take_header_def)
      then show ?thesis using hdr hdr_size_bounds [of "s_ibuf ?s1"] by (simp add: input_ok_def take_header_def needed_def)
    next
      case no_hdr: False
      then have "\<exists>blk t. got_block blk t = Some (True, s')"
        using assms(4) True n by (auto simp: recv_bytes_took Let_def take_header_def split: if_splits)
      then have "at_boundary s'" using got_block_True by (auto simp: at_boundary_def)
      then show ?thesis by (rule boundary_input_ok)
    qed
  qed
qed

section \<open>Delivery of a frame\<close>

text \<open>
  The socket holds the stream \<open>inp\<close>; the numbers \<open>ks\<close> are how many bytes are there at each read (at least
  one), of which \<^verbatim>\<open>recv_block\<close> takes no more than it asks for.
\<close>

fun feed :: "nat list \<Rightarrow> byte list \<Rightarrow> session \<Rightarrow> (bool \<times> byte list \<times> session) option" where
  "feed ks [] s = Some (True, [], s)"
| "feed [] inp s = Some (True, inp, s)"
| "feed (k # ks) inp s =
    (let n = min (Suc k) (needed s - length (s_ibuf s)) in
     case recv_block (Got (take n inp)) s of
       None \<Rightarrow> None
     | Some (False, s1) \<Rightarrow> Some (False, drop n inp, s1)
     | Some (True, s1) \<Rightarrow> feed ks (drop n inp) s1)"

lemma took_append: "took (took s as) bs = took s (as @ bs)"
proof -
  have "crypt_on (took s as) = crypt_on s" by (simp add: took_def crypt_on_def)
  then show ?thesis by (simp add: took_def decoded_def decrypt_buf_append Let_def split_def)
qed

text \<open>The state when a part of a frame has been read.\<close>

definition mid :: "session \<Rightarrow> byte list \<Rightarrow> session" where
  "mid s c = (let t = took s c in if length c < 2 then t
     else (take_header t)\<lparr>s_ibuf := drop 2 (s_ibuf t)\<rparr>)"

text \<open>The state in which the handler is called, the whole frame \<open>c\<close> read.\<close>

definition arrived :: "session \<Rightarrow> byte list \<Rightarrow> session" where
  "arrived s c = (let t = took s c; u = take_header t in
     if length c = 2 then u else u\<lparr>s_ibuf := drop 2 (s_ibuf t)\<rparr>)"

lemma took_ibuf: "s_ibuf s = [] \<Longrightarrow> s_ibuf (took s c) = decoded s c"
  by (simp add: took_def)

lemma took_frame [simp]: "crypt_on (took s a) = crypt_on s" "s_isize (took s a) = s_isize s"
  "s_keys_in (took s a) = (if crypt_on s then snd (decrypt_buf (s_keys_in s) a) else s_keys_in s)"
  by (simp_all add: took_def crypt_on_def)

lemma decoded_append: "decoded s (a @ b) = decoded s a @ decoded (took s a) b"
  by (simp add: decoded_def decrypt_buf_append Let_def split_def)

lemma hdr_take: "hdr_size (take 2 h) = hdr_size h \<and> hdr_imsg (take 2 h) = hdr_imsg h"
  by (simp add: hdr_size_def hdr_imsg_def)

lemma mid_step_header:
  assumes s: "at_boundary s" and d: "decoded s c = hdr @ body" "length hdr = 2" "hdr_size hdr = int (length body)"
    and c: "c = a @ bs @ rest" and bs: "bs \<noteq> []" "length bs \<le> needed (mid s a) - length (s_ibuf (mid s a))"
    and a: "length a < 2"
  shows "recv_block (Got bs) (mid s a) =
    (if rest = [] then got_block body (arrived s c) else Some (True, mid s (a @ bs)))"
proof -
  let ?t = "took s (a @ bs)"
  have e: "s_ibuf s = []" "s_isize s = -1" using s by (simp_all add: at_boundary_def)
  have m: "mid s a = took s a" "needed (took s a) = 2" "s_isize ?t = -1" "length (s_ibuf (took s a)) = length a"
    using a e by (simp_all add: mid_def Let_def needed_def took_def)
  then have len: "length a + length bs \<le> 2" using bs a by simp
  have r: "recv_block (Got bs) (mid s a) = recv_bytes bs (took s a)"
    using bs m by (simp add: recv_block_def)
  have lc: "length c = 2 + length body" using d(1,2) decoded_length [of s c] by simp
  have lt: "length (s_ibuf ?t) = length a + length bs" using e by (simp add: took_ibuf)
  have p: "decoded s c = s_ibuf ?t @ decoded ?t rest"
    using decoded_append [of s "a @ bs" rest] e by (simp add: c took_ibuf)
  show ?thesis
  proof (cases "length a + length bs = 2")
    case False
    then have "rest \<noteq> []" using lc len by (auto simp: c)
    moreover have "recv_block (Got bs) (mid s a) = Some (True, ?t)"
      using r m False lt by (simp add: recv_bytes_took took_append)
    ultimately show ?thesis using False len by (simp add: mid_def Let_def)
  next
    case True
    then have h: "s_ibuf ?t = hdr" using p d lt by (metis append_eq_append_conv)
    have "length a + length bs + length rest = 2 + length body" using lc by (simp add: c)
    then have "length rest = length body" using True by linarith
    then have b: "rest = [] \<longleftrightarrow> body = []" by (metis length_0_conv)
    have "recv_block (Got bs) (mid s a) =
        (if body = [] then got_block [] (take_header ?t) else Some (True, (take_header ?t)\<lparr>s_ibuf := []\<rparr>))"
      using r m True lt h d(3) by (simp add: recv_bytes_took took_append Let_def take_header_def)
    moreover have "rest = [] \<longrightarrow> arrived s c = take_header ?t" using True by (auto simp: arrived_def Let_def c)
    moreover have "mid s (a @ bs) = (take_header ?t)\<lparr>s_ibuf := []\<rparr>"
      using True h d(2) by (simp add: mid_def Let_def)
    ultimately show ?thesis using b by simp
  qed
qed

lemma header_seen:
  assumes "decoded s c = hdr @ body" "length hdr = 2" "hdr_size hdr = int (length body)"
    and "2 \<le> length x" "decoded s c = decoded s x @ y"
  shows "hdr_size (decoded s x) = int (length body) \<and> hdr_imsg (decoded s x) = hdr_imsg hdr"
proof -
  have "take 2 (decoded s x) = take 2 (decoded s c)" using assms(4,5) by simp
  also have "\<dots> = hdr" using assms(1,2) by simp
  finally show ?thesis using hdr_take [of "decoded s x"] assms(3) by simp
qed

text \<open>How many bytes are asked for in the middle of a frame.\<close>

lemma mid_room:
  assumes s: "at_boundary s" and d: "decoded s c = hdr @ body" "length hdr = 2" "hdr_size hdr = int (length body)"
    and c: "c = a @ inp" and inp: "inp \<noteq> []"
  shows "0 < needed (mid s a) - length (s_ibuf (mid s a))"
proof -
  have e: "s_ibuf s = []" "s_isize s = -1" using s by (simp_all add: at_boundary_def)
  have "length a + length inp = 2 + length body" using d(1,2) decoded_length [of s c] by (simp add: c)
  moreover obtain n where "length inp = Suc n" using inp by (cases inp) simp_all
  moreover have "needed (mid s a) - length (s_ibuf (mid s a)) = (if length a < 2 then 2 - length a else length body - (length a - 2))"
  proof (cases "length a < 2")
    case True
    then show ?thesis by (simp add: mid_def Let_def needed_def e took_ibuf)
  next
    case False
    then show ?thesis using header_seen [OF d, of a "decoded (took s a) inp"] decoded_append [of s a inp] e
      by (simp add: mid_def Let_def needed_def take_header_def took_ibuf c)
  qed
  ultimately show ?thesis by (auto split: if_splits)
qed

lemma mid_step_body:
  assumes s: "at_boundary s" and d: "decoded s c = hdr @ body" "length hdr = 2" "hdr_size hdr = int (length body)"
    and c: "c = a @ bs @ rest" and bs: "bs \<noteq> []" "length bs \<le> needed (mid s a) - length (s_ibuf (mid s a))"
    and a: "2 \<le> length a"
  shows "recv_block (Got bs) (mid s a) =
    (if rest = [] then got_block body (arrived s c) else Some (True, mid s (a @ bs)))"
proof -
  let ?m = "mid s a" and ?t = "took s (a @ bs)"
  have e: "s_ibuf s = []" "s_isize s = -1" using s by (simp_all add: at_boundary_def)
  have lc: "length c = 2 + length body" using d(1,2) decoded_length [of s c] by simp
  have pa: "decoded s c = decoded s a @ decoded (took s a) (bs @ rest)"
    using decoded_append [of s a "bs @ rest"] by (simp add: c)
  have pt: "decoded s c = s_ibuf ?t @ decoded ?t rest"
    using decoded_append [of s "a @ bs" rest] e by (simp add: c took_ibuf)
  note sz = header_seen [OF d]
  have l4: "length a + length bs + length rest = 2 + length body" using lc by (simp add: c)
  have "0 < length bs" using bs(1) by simp
  then have "0 < length body" using l4 a by linarith
  then have body: "body \<noteq> []" by simp
  have m: "s_isize ?m = int (length body)" "needed ?m = length body" "length (s_ibuf ?m) = length a - 2"
    using a sz [OF a pa] body e by (auto simp: mid_def Let_def needed_def take_header_def took_ibuf)
  let ?K = "\<lambda>x. if crypt_on s then snd (decrypt_buf (s_keys_in s) x) else s_keys_in s"
  have tk: "took s x = s\<lparr>s_ibuf := decoded s x, s_keys_in := ?K x\<rparr>" for x
    by (simp add: took_def e)
  have mx: "mid s x = s\<lparr>s_ibuf := drop 2 (decoded s x), s_keys_in := ?K x, s_imsg := hdr_imsg hdr, s_isize := int (length body)\<rparr>"
    if "2 \<le> length x" "decoded s c = decoded s x @ y" for x y
    using that sz [OF that] by (simp add: mid_def Let_def take_header_def tk)
  have pt': "decoded s c = decoded s (a @ bs) @ decoded ?t rest" using pt e by (simp add: took_ibuf)
  note ma = mx [OF a pa]
  have mab: "mid s (a @ bs) = s\<lparr>s_ibuf := drop 2 (decoded s (a @ bs)), s_keys_in := ?K (a @ bs), s_imsg := hdr_imsg hdr,
      s_isize := int (length body)\<rparr>"
    by (rule mx [OF _ pt']) (use a in simp)
  have k: "crypt_on ?m = crypt_on s" "s_keys_in ?m = ?K a" "s_ibuf ?m = drop 2 (decoded s a)"
    unfolding ma crypt_on_def by simp_all
  have "decoded ?m bs = decoded (took s a) bs" unfolding decoded_def k by simp
  then have b2: "s_ibuf ?m @ decoded ?m bs = drop 2 (decoded s (a @ bs))"
    using a by (simp add: k decoded_append)
  have k2: "(if crypt_on ?m then snd (decrypt_buf (s_keys_in ?m) bs) else s_keys_in ?m) = ?K (a @ bs)"
    unfolding k by (simp add: decrypt_buf_append Let_def split_def)
  have "took ?m bs = ?m\<lparr>s_ibuf := drop 2 (decoded s (a @ bs)), s_keys_in := ?K (a @ bs)\<rparr>"
    unfolding took_def b2 k2 ..
  then have tm: "took ?m bs = mid s (a @ bs)" unfolding ma mab by simp
  have n: "length (s_ibuf (mid s (a @ bs))) = length a + length bs - 2" "s_isize (mid s (a @ bs)) \<noteq> -1"
    using a unfolding mab by simp_all
  have "recv_block (Got bs) ?m = recv_bytes bs ?m" using bs m body by (simp add: recv_block_def)
  also have "\<dots> = (if rest \<noteq> [] then Some (True, mid s (a @ bs)) else got_block (s_ibuf (mid s (a @ bs))) (mid s (a @ bs)))"
  proof -
    have "length (s_ibuf (mid s (a @ bs))) \<noteq> length body \<longleftrightarrow> rest \<noteq> []"
      using n(1) l4 a by (cases rest) simp_all
    then show ?thesis using n m by (simp add: recv_bytes_took tm Let_def)
  qed
  also have "\<dots> = (if rest = [] then got_block body (arrived s c) else Some (True, mid s (a @ bs)))"
  proof (cases "rest = []")
    case True
    then have ab: "a @ bs = c" by (simp add: c)
    have "s_ibuf (mid s c) = body" using mab d(1,2) unfolding ab by simp
    moreover have "arrived s c = mid s c" using lc body by (simp add: arrived_def mid_def Let_def)
    ultimately show ?thesis using True ab by simp
  qed simp
  finally show ?thesis .
qed

lemma feed_mid:
  assumes s: "at_boundary s" and d: "decoded s c = hdr @ body" "length hdr = 2" "hdr_size hdr = int (length body)"
    and "c = a @ inp" "inp \<noteq> []" "length inp \<le> length ks"
  shows "feed ks inp (mid s a) = map_option (\<lambda>(ok, t). (ok, [], t)) (got_block body (arrived s c))"
  using assms(5-7)
proof (induction ks arbitrary: a inp)
  case (Cons k ks)
  let ?n = "min (Suc k) (needed (mid s a) - length (s_ibuf (mid s a)))"
  let ?bs = "take ?n inp" and ?rest = "drop ?n inp"
  have c: "c = a @ ?bs @ ?rest" using Cons.prems(1) by simp
  have n: "0 < ?n" using mid_room [OF s d Cons.prems(1,2)] by simp
  have bs: "?bs \<noteq> []" "length ?bs \<le> needed (mid s a) - length (s_ibuf (mid s a))"
    using n Cons.prems(2) by (auto simp: min_def)
  have step: "recv_block (Got ?bs) (mid s a) = (if ?rest = [] then got_block body (arrived s c) else Some (True, mid s (a @ ?bs)))"
    using mid_step_header [OF s d c bs] mid_step_body [OF s d c bs] by (cases "length a < 2") simp_all
  obtain i inp' where inp: "inp = i # inp'" using Cons.prems(2) by (cases inp) auto
  have un: "feed (k # ks) inp (mid s a) = (case recv_block (Got ?bs) (mid s a) of None \<Rightarrow> None
      | Some (False, s1) \<Rightarrow> Some (False, ?rest, s1) | Some (True, s1) \<Rightarrow> feed ks ?rest s1)"
    unfolding inp feed.simps Let_def ..
  show ?case
  proof (cases "?rest = []")
    case True
    then have "recv_block (Got ?bs) (mid s a) = got_block body (arrived s c)" using step by (simp only: if_True simp_thms)
    then show ?thesis unfolding un True by (auto split: option.split prod.split bool.split)
  next
    case False
    have "length ?rest \<le> length ks" using n Cons.prems(3) by simp
    then have "feed ks ?rest (mid s (a @ ?bs)) = map_option (\<lambda>(ok, t). (ok, [], t)) (got_block body (arrived s c))"
      using Cons.IH [of "a @ ?bs" ?rest] c False by simp
    moreover have "recv_block (Got ?bs) (mid s a) = Some (True, mid s (a @ ?bs))" using step by (simp only: False if_False)
    ultimately show ?thesis unfolding un by simp
  qed
qed simp

lemma arrived_frame: "arrived r c = r\<lparr>s_keys_in := s_keys_in (arrived r c), s_imsg := s_imsg (arrived r c),
    s_isize := s_isize (arrived r c), s_ibuf := s_ibuf (arrived r c)\<rparr>"
  by (cases "length c = 2") (simp_all add: arrived_def Let_def take_header_def took_def)

section \<open>From one side to the other\<close>

definition frame_ok :: "frame \<Rightarrow> bool" where
  "frame_ok f \<longleftrightarrow> (case f of
     Msg m txt \<Rightarrow> length txt < MAX_BLKSIZE \<and> CHR 0x00 \<notin> set txt
   | Data d \<Rightarrow> length d \<le> MAX_BLKSIZE)"

text \<open>What the receiver does with a frame.\<close>

definition handle :: "frame \<Rightarrow> session \<Rightarrow> (bool \<times> session) option" where
  "handle f s = (case f of
     Msg m txt \<Rightarrow> handle_msg m txt (s\<lparr>s_msgs_in_batch := s_msgs_in_batch s + 1\<rparr>)
   | Data d \<Rightarrow> recv_data d s)"

definition next_frame :: "session \<Rightarrow> session" where
  "next_frame s = s\<lparr>s_isize := -1, s_ibuf := []\<rparr>"

lemma msg_codes_code: "unat (msg_code m) < length msg_codes \<and> msg_codes ! unat (msg_code m) = m"
  by (cases m) (simp_all add: msg_codes_def)

lemma c_string_plain: "CHR 0x00 \<notin> set s \<Longrightarrow> c_string s = s"
  unfolding c_string_def takeWhile_eq_all_conv by blast

lemma recv_msg_plain:
  "CHR 0x00 \<notin> set txt \<Longrightarrow> recv_msg (msg_code m # bytes_of txt) s = handle_msg m txt (s\<lparr>s_msgs_in_batch := s_msgs_in_batch s + 1\<rparr>)"
  using msg_codes_code [of m] by (simp add: recv_msg_def c_string_plain)

lemma frame_bytes_parts:
  assumes "frame_ok f"
  obtains hdr body where "frame_bytes f = hdr @ body" "length hdr = 2" "hdr_size hdr = int (length body)"
    "\<And>s. s_imsg s = hdr_imsg hdr \<Longrightarrow> (if s_imsg s then recv_msg body s else recv_data body s) = handle f s"
proof (cases f)
  case (Msg m tx)
  have l: "length tx + 1 \<le> MAX_BLKSIZE" and n: "CHR 0x00 \<notin> set tx" using assms by (simp_all add: Msg frame_ok_def)
  note h = msg_header [OF l]
  show thesis
  proof (rule that [of "mkhdr ((length tx + 1) OR 0x8000)" "msg_code m # bytes_of tx"])
    show "frame_bytes f = mkhdr ((length tx + 1) OR 0x8000) @ msg_code m # bytes_of tx" by (simp add: Msg msg_frame_def)
    show "length (mkhdr ((length tx + 1) OR 0x8000)) = 2" using h by blast
    show "hdr_size (mkhdr ((length tx + 1) OR 0x8000)) = int (length (msg_code m # bytes_of tx))" using h by simp
    fix s :: session
    assume "s_imsg s = hdr_imsg (mkhdr ((length tx + 1) OR 0x8000))"
    then have "s_imsg s" using h by simp
    then show "(if s_imsg s then recv_msg (msg_code m # bytes_of tx) s else recv_data (msg_code m # bytes_of tx) s) = handle f s"
      using recv_msg_plain [OF n] by (simp add: Msg handle_def)
  qed
next
  case (Data d)
  have l: "length d \<le> MAX_BLKSIZE" using assms by (simp add: Data frame_ok_def)
  note h = data_header [OF l]
  show thesis
    by (rule that [of "mkhdr (length d)" d]) (use h in \<open>simp_all add: Data handle_def\<close>)
qed

text \<open>
  C5: A frame arrives as it was sent: whatever sizes the network delivers the bytes in, the receiving half
  collects, decrypts and recognises exactly the frame the sending half made, calls its handler once on
  its message or data, leaves nothing unread, and is ready for the next one; the keys of both ends
  agree again.
\<close>

theorem frame_delivered:
  assumes "at_boundary r" "frame_ok f" "crypt_on r = crypt_on s" "crypt_on s \<longrightarrow> s_keys_in r = s_keys_out s"
    and "length (frame_bytes f) \<le> length ks"
  shows "\<exists>r1. s_keys_in r1 = (if crypt_on s then snd (encrypt_buf (s_keys_out s) (frame_bytes f)) else s_keys_in r) \<and>
      (\<exists>i z b. r1 = r\<lparr>s_keys_in := s_keys_in r1, s_imsg := i, s_isize := z, s_ibuf := b\<rparr>) \<and>
      feed ks (coded s (frame_bytes f)) r = (case handle f r1 of None \<Rightarrow> None
        | Some (True, t) \<Rightarrow> Some (True, [], next_frame t)
        | Some (False, t) \<Rightarrow> Some (False, [], if s_imsg r1 then t\<lparr>s_ibuf := []\<rparr> else t))"
proof -
  let ?c = "coded s (frame_bytes f)"
  obtain hdr body where fb: "frame_bytes f = hdr @ body" "length hdr = 2" "hdr_size hdr = int (length body)"
    and hf: "\<And>s. s_imsg s = hdr_imsg hdr \<Longrightarrow> (if s_imsg s then recv_msg body s else recv_data body s) = handle f s"
    using frame_bytes_parts [OF assms(2)] by blast
  have d: "decoded r ?c = hdr @ body"
    using assms(3,4) by (simp add: decoded_def coded_def decrypt_encrypt fb(1))
  have len: "length ?c = length (frame_bytes f)" by (simp add: coded_def encrypt_buf_length)
  then have c: "?c = [] @ ?c" "?c \<noteq> []" "length ?c \<le> length ks" using fb(1,2) assms(5) by auto
  let ?r1 = "arrived r ?c"
  have e: "s_ibuf r = []" using assms(1) by (simp add: at_boundary_def)
  have start: "mid r [] = r" using e by (simp add: mid_def took_def decoded_def Let_def)
  have im: "s_imsg ?r1 = hdr_imsg hdr"
    using hdr_take [of "hdr @ body"] hdr_take [of hdr] fb(2) by (simp add: arrived_def take_header_def took_ibuf [OF e] d Let_def)
  have "feed ks ?c r = map_option (\<lambda>(ok, t). (ok, [], t)) (got_block body ?r1)"
    using feed_mid [OF assms(1) d fb(2,3) c] start by simp
  also have "\<dots> = (case handle f ?r1 of None \<Rightarrow> None
        | Some (True, t) \<Rightarrow> Some (True, [], next_frame t)
        | Some (False, t) \<Rightarrow> Some (False, [], if s_imsg ?r1 then t\<lparr>s_ibuf := []\<rparr> else t))"
    unfolding got_block_def hf [OF im] next_frame_def by (auto split: option.split prod.split bool.split)
  finally have "feed ks ?c r = \<dots>" .
  moreover have "s_keys_in ?r1 = (if crypt_on s then snd (encrypt_buf (s_keys_out s) (frame_bytes f)) else s_keys_in r)"
    using assms(3,4) by (simp add: arrived_def Let_def take_header_def coded_def decrypt_encrypt)
  moreover have "\<exists>i z b. ?r1 = r\<lparr>s_keys_in := s_keys_in ?r1, s_imsg := i, s_isize := z, s_ibuf := b\<rparr>"
    by (intro exI) (rule arrived_frame)
  ultimately show ?thesis by blast
qed

definition ex_crypt :: session where
  "ex_crypt = sample_session\<lparr>s_WE_CRYPT := False, s_YES_CRYPT := True\<rparr>"

theorem frame_delivered_witness:
  "\<exists>t. feed (replicate 5 0) (coded ex_crypt (frame_bytes (Data [1, 2, 3]))) ex_crypt = Some (True, [], t) \<and> at_boundary t"
proof -
  have b: "at_boundary ex_crypt" and ok: "frame_ok (Data [1, 2, 3])"
    and k: "s_keys_in ex_crypt = s_keys_out ex_crypt" and i: "t_f (s_in ex_crypt) = None"
    by (simp_all add: ex_crypt_def sample_session_def at_boundary_def frame_ok_def TF_ZERO_def)
  have l: "length (frame_bytes (Data [1, 2, 3])) \<le> length (replicate 5 (0 :: nat))" by (simp add: mkhdr_def)
  obtain r1 i z b where r1: "r1 = ex_crypt\<lparr>s_keys_in := s_keys_in r1, s_imsg := i, s_isize := z, s_ibuf := b\<rparr>"
    and f: "feed (replicate 5 0) (coded ex_crypt (frame_bytes (Data [1, 2, 3]))) ex_crypt = (case handle (Data [1, 2, 3]) r1 of None \<Rightarrow> None
        | Some (True, t) \<Rightarrow> Some (True, [], next_frame t)
        | Some (False, t) \<Rightarrow> Some (False, [], if s_imsg r1 then t\<lparr>s_ibuf := []\<rparr> else t))"
    using frame_delivered [OF b ok refl, of "replicate 5 0"] k l by blast
  have "s_in r1 = s_in ex_crypt" by (subst r1) simp
  then have "handle (Data [1, 2, 3]) r1 = Some (True, r1)" using i by (simp add: handle_def recv_data_def)
  then show ?thesis using f by (auto simp: next_frame_def at_boundary_def)
qed

end
