(* ===== verification/Frame.thy ===== *)
theory Frame
  imports Session
begin

text \<open>
  Most operations of a session leave its login alone: the state of the login and the password, the
  addresses of the remote and their locks, the cipher of the input and the input buffer.  This is
  what the invariants of the session are about, so each operation has one lemma here.
\<close>

section \<open>The fixed part of the configuration\<close>

text \<open>A session changes nothing of its configuration but the table of nodes.\<close>

definition base_cfg :: "BINKD_CONFIG \<Rightarrow> BINKD_CONFIG" where
  "base_cfg c = c\<lparr>pNod := [], nNodSorted := False\<rparr>"

lemma base_cfg_update [simp]: "base_cfg (c\<lparr>pNod := n\<rparr>) = base_cfg c" "base_cfg (c\<lparr>nNodSorted := b\<rparr>) = base_cfg c"
  "base_cfg (sort_nodes c) = base_cfg c" "base_cfg (add_node fa a now c) = base_cfg c" "base_cfg (set_node m c) = base_cfg c"
  by (simp_all add: base_cfg_def sort_nodes_def add_node_def set_node_def split: option.split)

lemma base_cfg_domains: "base_cfg c' = base_cfg c \<Longrightarrow> pDomains c' = pDomains c \<and> pAddr c' = pAddr c"
  by (drule arg_cong [of _ _ "\<lambda>x. (pDomains x, pAddr x)"]) (simp add: base_cfg_def)

lemma fold_same: "(\<And>x y. f (g x y) = f y) \<Longrightarrow> f (fold g xs y) = f y"
  by (induction xs arbitrary: y) simp_all

lemma base_node_index: "base_cfg (snd (get_node_index fa now c)) = base_cfg c"
  by (simp add: get_node_index_def get_defnode_info_def Let_def split: option.split)

lemma base_node_info: "get_node_info fa now c = (n, c') \<Longrightarrow> base_cfg c' = base_cfg c"
  using base_node_index [of fa now c] by (auto simp: get_node_info_def Let_def split: prod.splits option.splits)

lemma base_node_info_snd [simp]: "base_cfg (snd (get_node_info fa now c)) = base_cfg c"
  using base_node_info [of fa now c "fst (get_node_info fa now c)" "snd (get_node_info fa now c)"] by simp

lemma base_get_node [simp]: "base_cfg (snd (snd (get_node fa st))) = base_cfg (snd st)"
  by (simp add: get_node_def split_def)

lemma base_put_node [simp]: "base_cfg (snd (put_node n st)) = base_cfg (snd st)"
  by (simp add: put_node_def)

lemma get_nodeD: "get_node fa st = (n, st') \<Longrightarrow> base_cfg (snd st') = base_cfg (snd st)"
  using base_get_node [of fa st] by simp

lemma base_mark_node [simp]: "base_cfg (snd (mark_node fa f t st)) = base_cfg (snd st)"
  by (auto simp: mark_node_def split: prod.split option.split dest: get_nodeD)

lemma base_mark_shares [simp]: "base_cfg (snd (mark_shares d fa f t st)) = base_cfg (snd st)"
proof (induction d arbitrary: fa st)
  case (Suc d)
  then show ?case using fold_same [of "\<lambda>x. base_cfg (snd x)" "\<lambda>a. mark_shares d a f t"] by simp
qed simp

lemma base_q_add_file [simp]: "base_cfg (snd (snd (q_add_file q n fa f a t st))) = base_cfg (snd st)"
  by (auto simp: q_add_file_def split: queue.split option.split)

lemma base_box_entry: "base_cfg (snd (snd (box_entry fa dir f n x))) = base_cfg (snd (snd x))"
  by (cases x) (auto simp: box_entry_def Let_def split: prod.split dest: arg_cong [of _ _ "\<lambda>y. base_cfg (snd (snd y))"])

lemma base_scan_box [simp]: "base_cfg (snd (snd (q_scan_box fa b f d x))) = base_cfg (snd (snd x))"
proof -
  obtain q st where x: "x = (q, st)" by (cases x)
  have "base_cfg (snd (snd (fold (box_entry fa dir f) ns ((q, 0), st)))) = base_cfg (snd st)" for dir ns
    using fold_same [of "\<lambda>y. base_cfg (snd (snd y))" "box_entry fa dir f" ns "((q, 0), st)", OF base_box_entry] by simp
  then show ?thesis
    unfolding q_scan_box_def x Let_def by (auto split: prod.split dest: arg_cong [of _ _ "\<lambda>y. base_cfg (snd (snd y))"])
qed

lemma base_scan_boxes_addr: "base_cfg (snd (snd (scan_boxes_addr to fa x))) = base_cfg (snd (snd x))"
proof -
  obtain q st where x: "x = (q, st)" by (cases x)
  have b: "base_cfg (snd (snd (bfilebox_scan fa y))) = base_cfg (snd (snd y))" for y
    unfolding bfilebox_scan_def Let_def by (rule fold_same) (simp split: prod.split)
  have t: "base_cfg (snd (snd (tfilebox_scan fa y))) = base_cfg (snd (snd y))" for y
    by (simp add: tfilebox_scan_def Let_def)
  show ?thesis unfolding scan_boxes_addr_def x by (auto simp: Let_def b t split: prod.split option.split dest: get_nodeD)
qed

lemma base_q_scan_boxes [simp]: "base_cfg (snd (snd (q_scan_boxes fas to x))) = base_cfg (snd (snd x))"
  unfolding q_scan_boxes_def by (rule fold_same) (rule base_scan_boxes_addr)

lemma base_add_out_file: "base_cfg (snd (snd (add_out_file b e fa x))) = base_cfg (snd (snd x))"
  by (auto simp: add_out_file_def process_hld_def Let_def split: out_kind.split prod.split option.split dest: get_nodeD)

lemma base_process_bsy: "base_cfg (snd (process_bsy fa p st)) = base_cfg (snd st)"
  by (auto simp: process_bsy_def Let_def split: prod.split option.split dest: get_nodeD)

lemma base_dir_entry:
  assumes "\<And>b fa y. base_cfg (snd (snd (sub b fa y))) = base_cfg (snd (snd y))"
  shows "base_cfg (snd (snd (dir_entry sub dir fa1 n x))) = base_cfg (snd (snd x))"
proof -
  have n: "base_cfg (snd (snd (case get_node fa' st of (node, st2) \<Rightarrow> if P node then (q, st2) else add_out_file b e fa' (q, st2)))) =
      base_cfg (snd st)" for fa' st P q b e
    by (auto simp: base_add_out_file split: prod.split dest: get_nodeD)
  show ?thesis
    unfolding dir_entry_def Let_def
    by (simp only: if_distrib [of "\<lambda>y. base_cfg (snd (snd y))"] assms n base_add_out_file fst_conv snd_conv
        if_distrib [of "\<lambda>st. base_cfg (snd st)"] base_process_bsy if_cancel)
qed

lemma base_q_add_dir [simp]: "base_cfg (snd (snd (q_add_dir d dir fa x))) = base_cfg (snd (snd x))"
proof (induction d arbitrary: dir fa x)
  case (Suc d)
  have "base_cfg (snd (snd (fold (dir_entry (q_add_dir d) dir fa) ns x))) = base_cfg (snd (snd x))" for ns
    by (rule fold_same [of "\<lambda>y. base_cfg (snd (snd y))"]) (rule base_dir_entry, rule Suc)
  then show ?case by simp
qed simp

lemma base_scan_addr: "base_cfg (snd (snd (scan_addr to fa x))) = base_cfg (snd (snd x))"
  by (cases x) (auto simp: scan_addr_def split: prod.split option.split if_split dest!: get_nodeD)

lemma base_q_scan_addrs [simp]: "base_cfg (snd (snd (q_scan_addrs fas to x))) = base_cfg (snd (snd x))"
  unfolding q_scan_addrs_def base_q_scan_boxes by (rule fold_same) (rule base_scan_addr)

lemma base_hold_node [simp]: "base_cfg (snd (hold_node fa t st)) = base_cfg (snd st)"
  by (auto simp: hold_node_def Let_def split: prod.split bool.split option.split dest: get_nodeD)

lemma base_bad_try [simp]: "base_cfg (snd (bad_try j fa e st)) = base_cfg (snd st)"
  by (auto simp: bad_try_def split: prod.split dest: arg_cong [of _ _ "\<lambda>y. base_cfg (snd y)"])

section \<open>The login part of the state\<close>

definition core :: "session \<Rightarrow> (p_state \<times> FTN_NODE option \<times> string \<times> int \<times> byte list option) \<times>
    (FTN_ADDR list \<times> nat \<times> BSY_ADDR list) \<times> (bool \<times> bool \<times> bool \<times> u64 keys) \<times> (int \<times> byte list \<times> bool) \<times>
    BINKD_CONFIG" where
  "core s = ((s_state s, s_to s, s_expected_pwd s, s_MD_flag s, s_MD_challenge s), (s_fa s, s_nfa s, x_bsy s),
     (s_WE_CRYPT s, s_THEY_CRYPT s, s_YES_CRYPT s, s_keys_in s), (s_isize s, s_ibuf s, s_imsg s), base_cfg (x_cfg s))"

lemma core_update [simp]:
  "core (s\<lparr>s_pipe := v0\<rparr>) = core s" "core (s\<lparr>s_obuf := v1\<rparr>) = core s"
  "core (s\<lparr>s_msgs := v2\<rparr>) = core s" "core (s\<lparr>s_in := v3\<rparr>) = core s"
  "core (s\<lparr>s_out := v4\<rparr>) = core s" "core (s\<lparr>s_flo := v5\<rparr>) = core s"
  "core (s\<lparr>s_sent_fls := v6\<rparr>) = core s" "core (s\<lparr>s_q := v7\<rparr>) = core s"
  "core (s\<lparr>s_remote_fa := v8\<rparr>) = core s" "core (s\<lparr>s_pAddr := v9\<rparr>) = core s"
  "core (s\<lparr>s_maxflvr := v10\<rparr>) = core s" "core (s\<lparr>s_skip_all_flag := v11\<rparr>) = core s"
  "core (s\<lparr>s_r_skipped_flag := v12\<rparr>) = core s" "core (s\<lparr>s_listed_flag := v13\<rparr>) = core s"
  "core (s\<lparr>s_inbound := v14\<rparr>) = core s" "core (s\<lparr>s_ipaddr := v15\<rparr>) = core s"
  "core (s\<lparr>s_io_error := v16\<rparr>) = core s" "core (s\<lparr>s_msgs_in_batch := v17\<rparr>) = core s"
  "core (s\<lparr>s_minor := v18\<rparr>) = core s" "core (s\<lparr>s_major := v19\<rparr>) = core s"
  "core (s\<lparr>s_killlist := v20\<rparr>) = core s" "core (s\<lparr>s_rcvdlist := v21\<rparr>) = core s"
  "core (s\<lparr>s_nosendlist := v22\<rparr>) = core s" "core (s\<lparr>s_files_sent := v23\<rparr>) = core s"
  "core (s\<lparr>s_files_rcvd := v24\<rparr>) = core s" "core (s\<lparr>s_bytes_sent := v25\<rparr>) = core s"
  "core (s\<lparr>s_bytes_rcvd := v26\<rparr>) = core s" "core (s\<lparr>s_sysname := v27\<rparr>) = core s"
  "core (s\<lparr>s_sysop := v28\<rparr>) = core s" "core (s\<lparr>s_location := v29\<rparr>) = core s"
  "core (s\<lparr>s_local_EOB := v30\<rparr>) = core s" "core (s\<lparr>s_remote_EOB := v31\<rparr>) = core s"
  "core (s\<lparr>s_GET_FILE_balance := v32\<rparr>) = core s" "core (s\<lparr>s_off_req_sent := v33\<rparr>) = core s"
  "core (s\<lparr>s_state_ext := v34\<rparr>) = core s" "core (s\<lparr>s_WANT_NR := v35\<rparr>) = core s"
  "core (s\<lparr>s_WE_NR := v36\<rparr>) = core s" "core (s\<lparr>s_THEY_NR := v37\<rparr>) = core s"
  "core (s\<lparr>s_WE_ND := v38\<rparr>) = core s" "core (s\<lparr>s_THEY_ND := v39\<rparr>) = core s"
  "core (s\<lparr>s_CAN_NDA := v40\<rparr>) = core s" "core (s\<lparr>s_waiting_for_GOT := v41\<rparr>) = core s"
  "core (s\<lparr>s_send_eof := v42\<rparr>) = core s" "core (s\<lparr>s_in_complete := v43\<rparr>) = core s"
  "core (s\<lparr>s_ND_addr := v44\<rparr>) = core s" "core (s\<lparr>s_keys_out := v45\<rparr>) = core s"
  "core (s\<lparr>s_delay_ADR := v46\<rparr>) = core s" "core (s\<lparr>s_delay_EOB := v47\<rparr>) = core s"
  "core (s\<lparr>s_extcmd := v48\<rparr>) = core s" "core (s\<lparr>s_buggy_NR := v49\<rparr>) = core s"
  "core (s\<lparr>x_w := v50\<rparr>) = core s"
  "core (s\<lparr>x_wire := v52\<rparr>) = core s" "core (s\<lparr>x_rnd := v53\<rparr>) = core s"
  "core (s\<lparr>x_no_crypt := v54\<rparr>) = core s" "core (s\<lparr>x_no_MD5 := v55\<rparr>) = core s"
  "core (s\<lparr>x_exit := v56\<rparr>) = core s" "core (s\<lparr>x_junk := v57\<rparr>) = core s"
  "core (s\<lparr>x_free := v58\<rparr>) = core s" "core (s\<lparr>x_gai := v59\<rparr>) = core s"
  "core (s\<lparr>x_num := v60\<rparr>) = core s" "core (s\<lparr>x_port := v61\<rparr>) = core s"
  "core (s\<lparr>x_chal := v62\<rparr>) = core s" "core (s\<lparr>x_localtime := v63\<rparr>) = core s"
  "core (s\<lparr>x_uname := v64\<rparr>) = core s" "core (s\<lparr>x_touch := v65\<rparr>) = core s"
  by (simp_all add: core_def)

lemma coreD: "core s' = core s \<Longrightarrow> s_state s' = s_state s" "core s' = core s \<Longrightarrow> s_to s' = s_to s"
  "core s' = core s \<Longrightarrow> s_expected_pwd s' = s_expected_pwd s" "core s' = core s \<Longrightarrow> s_MD_flag s' = s_MD_flag s"
  "core s' = core s \<Longrightarrow> s_MD_challenge s' = s_MD_challenge s" "core s' = core s \<Longrightarrow> s_fa s' = s_fa s"
  "core s' = core s \<Longrightarrow> s_nfa s' = s_nfa s" "core s' = core s \<Longrightarrow> x_bsy s' = x_bsy s"
  "core s' = core s \<Longrightarrow> s_WE_CRYPT s' = s_WE_CRYPT s" "core s' = core s \<Longrightarrow> s_THEY_CRYPT s' = s_THEY_CRYPT s"
  "core s' = core s \<Longrightarrow> s_YES_CRYPT s' = s_YES_CRYPT s" "core s' = core s \<Longrightarrow> s_keys_in s' = s_keys_in s"
  "core s' = core s \<Longrightarrow> s_isize s' = s_isize s" "core s' = core s \<Longrightarrow> s_ibuf s' = s_ibuf s"
  "core s' = core s \<Longrightarrow> s_imsg s' = s_imsg s" "core s' = core s \<Longrightarrow> base_cfg (x_cfg s') = base_cfg (x_cfg s)"
  by (simp_all add: core_def)

section \<open>Sending\<close>

lemma core_x_cfg [simp]: "base_cfg c = base_cfg (x_cfg s) \<Longrightarrow> core (s\<lparr>x_cfg := c\<rparr>) = core s"
  by (simp add: core_def)

lemma core_set_fs_cfg [simp]: "base_cfg (snd st) = base_cfg (x_cfg s) \<Longrightarrow> core (set_fs_cfg st s) = core s"
  by (simp add: set_fs_cfg_def)

lemma snd_fs_cfg [simp]: "snd (fs_cfg s) = x_cfg s"
  by (simp add: fs_cfg_def)

lemma q_scan_addrsD: "q_scan_addrs fas to (q0, fs_cfg s) = (q, st) \<Longrightarrow> base_cfg (snd st) = base_cfg (x_cfg s)"
  using base_q_scan_addrs [of fas to "(q0, fs_cfg s)"] by simp

lemma q_scan_boxesD: "q_scan_boxes fas to (q0, fs_cfg s) = (q, st) \<Longrightarrow> base_cfg (snd st) = base_cfg (x_cfg s)"
  using base_q_scan_boxes [of fas to "(q0, fs_cfg s)"] by simp

lemma core_note_bad_try [simp]: "core (note_bad_try e s) = core s"
  by (simp add: note_bad_try_def split: option.split)

lemma core_node_of [simp]: "node_of fa s = (n, s') \<Longrightarrow> core s' = core s"
  by (auto simp: node_of_def split: prod.splits dest: base_node_info)

lemma core_seal [simp]: "seal bs s = (c, s') \<Longrightarrow> core s' = core s"
  by (auto simp: seal_def split: if_splits prod.splits)

lemma core_msg_send2 [simp]: "core (msg_send2 m a b s) = core s"
  by (simp add: msg_send2_def seal_eq)

lemma core_msg_sendf [simp]: "core (msg_sendf m t s) = core s"
  by (simp add: msg_sendf_def)

lemma core_sent [simp]: "core (current_file_was_sent s) = core s"
  by (simp add: current_file_was_sent_def)

lemma core_put_block [simp]: "core (put_block d s) = core s"
  by (simp add: put_block_def seal_eq)

lemma core_pkt_hack: "pkt_hack b s = Some (d, s') \<Longrightarrow> core s' = core s"
  by (auto simp: pkt_hack_def Let_def split: option.splits if_splits prod.splits)

lemma core_file_block: "file_block h s = Some (d, s') \<Longrightarrow> core s' = core s"
  by (auto simp: file_block_def Let_def split: option.splits if_splits prod.splits dest: core_pkt_hack)

lemma core_send_buffer: "send_buffer io s = (r, s') \<Longrightarrow> core s' = core s"
  by (auto simp: send_buffer_def Let_def split: io_result.splits if_splits)

lemma core_send_msgs: "send_msgs s = Some (r, s') \<Longrightarrow> core s' = core s"
  by (auto simp: send_msgs_def split: option.splits prod.splits)

lemma core_send_block: "send_block io s = Some (r, s') \<Longrightarrow> core s' = core s"
  by (auto simp: send_block_def next_block_def split: option.splits if_splits prod.splits
      dest: core_send_buffer core_send_msgs core_file_block)

section \<open>Spool\<close>

lemma core_perform_action [simp]: "core (perform_action p a s) = core s"
  by (simp add: perform_action_def split: prod.split bool.split)

lemma core_mark_flo: "mark_flo p f s = Some (m, s') \<Longrightarrow> core s' = core s"
  by (auto simp: mark_flo_def Let_def split: option.splits fentry.splits if_splits prod.splits)

lemma core_remove_from_spool [simp]: "core (snd (remove_from_spool p f a s)) = core s"
  by (auto simp: remove_from_spool_def split: option.splits if_splits prod.splits dest: core_mark_flo)

lemma core_remove_sent [simp]: "core (remove_from_sent_files_queue n s) = core s"
  by (simp add: remove_from_sent_files_queue_def Let_def)

lemma core_scan_link [simp]: "core (scan_link s) = core s"
  by (auto simp: scan_link_def split: prod.split dest: q_scan_addrsD)

lemma core_msg_send2_pow [simp]: "core ((msg_send2 m a b ^^ k) s) = core s"
  by (induction k) simp_all

lemma core_do_prescan [simp]: "core (do_prescan s) = core s"
  by (simp add: do_prescan_def Let_def split: prod.split)

section \<open>Inbound\<close>

lemma core_find_loop: "find_loop file base ns s = Some (r, s') \<Longrightarrow> core s' = core s"
  by (induction ns arbitrary: s) (auto simp: Let_def split: if_splits option.splits hr_act.splits)

lemma core_creat_tmp_name: "creat_tmp_name f i s = Some (p, s') \<Longrightarrow> core s' = core s"
  by (auto simp: creat_tmp_name_def split: option.splits)

lemma core_find_tmp_name: "find_tmp_name file s = Some (r, s') \<Longrightarrow> core s' = core s"
  by (auto simp: find_tmp_name_def Let_def split: if_splits option.splits find_result.splits
      dest!: core_find_loop core_creat_tmp_name)

lemma core_fopen_again: "fopen_again n buf s = Some (h, s') \<Longrightarrow> core s' = core s"
  by (induction n buf s arbitrary: h rule: fopen_again.induct)
    (auto split: option.splits prod.splits bool.splits if_splits)

lemma core_inb_fopen: "inb_fopen s = Some (h, s') \<Longrightarrow> core s' = core s"
  by (auto simp: inb_fopen_def split: option.splits tmp_result.splits dest!: core_find_tmp_name core_fopen_again)

lemma core_inb_reject: "inb_reject s = Some (b, s') \<Longrightarrow> core s' = core s"
  by (auto simp: inb_reject_def split: option.splits tmp_result.splits dest!: core_find_tmp_name)

lemma core_hc_flags: "hc_flags fas lc s = (r, s') \<Longrightarrow> core s' = core s"
  by (induction fas lc s arbitrary: r rule: hc_flags.induct)
    (auto split: prod.splits option.splits if_splits dest!: core_node_of)

lemma core_check_pkthdr: "check_pkthdr t r s = (n, s') \<Longrightarrow> core s' = core s"
  by (auto simp: check_pkthdr_def Let_def split: if_splits prod.splits option.splits dest!: core_hc_flags)

lemma core_move_file: "move_file f t s = Some (r, s') \<Longrightarrow> core s' = core s"
  by (auto simp: move_file_def Let_def split: if_splits prod.splits option.splits dest!: core_check_pkthdr)

lemma core_inb_done: "inb_done f s = Some (ok, s') \<Longrightarrow> core s' = core s"
  by (auto simp: inb_done_def Let_def split: if_splits prod.splits option.splits tmp_result.splits
      dest!: core_find_tmp_name core_move_file)

lemma core_inb_remove_partial: "inb_remove_partial s = Some s' \<Longrightarrow> core s' = core s"
  by (auto simp: inb_remove_partial_def dest: core_find_tmp_name)

section \<open>File messages\<close>

lemma core_close_partial: "close_partial s = Some s' \<Longrightarrow> core s' = core s"
  by (auto simp: close_partial_def Let_def split: option.splits if_splits dest!: core_inb_reject)

lemma core_finish_complete: "finish_complete s = Some (ok, s') \<Longrightarrow> core s' = core s"
  by (auto simp: finish_complete_def split: option.splits if_splits bool.splits dest!: core_inb_done)

lemma core_parse_msg_args: "parse_msg_args ac t i s = (r, s') \<Longrightarrow> core s' = core s"
  by (auto simp: parse_msg_args_def split: option.splits)

lemma core_announced [simp]: "core (announced argv s) = core s"
  by (simp add: announced_def)

lemma core_open_recv: "open_recv s = Some r \<Longrightarrow>
   (case r of Inl s' \<Rightarrow> core s' = core s | Inr (h, s') \<Rightarrow> core s' = core s)"
  by (auto simp: open_recv_def split: option.splits bool.splits if_splits dest!: core_inb_fopen)

lemma core_begin_recv: "begin_recv q off e h s = Some (ok, s') \<Longrightarrow> core s' = core s"
  by (auto simp: begin_recv_def Let_def split: option.splits if_splits)

lemma core_start_file_recv: "start_file_recv t s = Some (ok, s') \<Longrightarrow> core s' = core s"
  by (auto simp: start_file_recv_def Let_def split: prod.splits option.splits sum.splits bool.splits if_splits
      dest!: core_parse_msg_args core_close_partial core_finish_complete core_open_recv core_begin_recv)

lemma core_ND_set_status: "core (snd (ND_set_status t fa s)) = core s"
  by (simp add: ND_set_status_def Let_def split: prod.split)

lemma core_clear_status [simp]: "core (clear_status s) = core s"
  by (simp add: clear_status_def Let_def core_ND_set_status)

lemma core_recall_sent [simp]: "core (recall_sent argv s) = core s"
  by (simp add: recall_sent_def Let_def split: option.split)

lemma core_get_done [simp]: "core (get_done s) = core s"
  by (simp add: get_done_def Let_def)

lemma core_get_status: "get_status argv s = (b, s') \<Longrightarrow> core s' = core s"
  by (auto simp: get_status_def Let_def core_ND_set_status split: if_splits)

lemma core_get_file: "get_file argv e h s = Some (b, s') \<Longrightarrow> core s' = core s"
  by (auto simp: get_file_def Let_def split: option.splits if_splits)

lemma core_GET: "GET t s = Some (b, s') \<Longrightarrow> core s' = core s"
  by (auto simp: GET_def Let_def split: prod.splits option.splits bool.splits if_splits
      dest!: core_parse_msg_args core_get_status core_get_file)

lemma core_skip_sent: "core (fold (skip_sent argv) ns s) = core s"
  by (induction ns arbitrary: s) (simp_all add: skip_sent_def)

lemma core_SKIP: "SKIP t s = (b, s') \<Longrightarrow> core s' = core s"
  by (auto simp: SKIP_def Let_def core_skip_sent split: prod.splits option.splits if_splits dest!: core_parse_msg_args)

lemma core_set_status_if: "set_status_if t c s = (b, s') \<Longrightarrow> core s' = core s"
  using core_ND_set_status by (fastforce simp: set_status_if_def split: option.splits dest: arg_cong [of _ _ snd])

lemma core_got_out: "core (snd (got_out t s)) = core s"
  by (simp add: got_out_def Let_def split: prod.split) (auto dest: core_set_status_if)

lemma core_got_sent: "core (snd (got_sent t n s)) = core s"
  by (simp add: got_sent_def Let_def split: prod.split) (auto dest: core_set_status_if)

lemma core_GOT: "core (snd (GOT t s)) = core s"
  by (auto simp: GOT_def Let_def core_got_out core_got_sent core_ND_set_status split: prod.split option.split
      dest!: core_parse_msg_args)

lemma core_EOB: "EOB s = Some (b, s') \<Longrightarrow> core s' = core s"
  by (auto simp: EOB_def Let_def split: option.splits if_splits bool.splits
      dest!: core_inb_reject core_close_partial core_finish_complete)

section \<open>Receiving data\<close>

lemma core_file_received: "file_received s = Some (b, s') \<Longrightarrow> core s' = core s"
  by (auto simp: file_received_def Let_def split: option.splits if_splits bool.splits dest!: core_inb_done)

lemma core_recv_data: "recv_data blk s = Some (b, s') \<Longrightarrow> core s' = core s"
  by (auto simp: recv_data_def Let_def split: option.splits if_splits dest!: core_file_received)

section \<open>Login\<close>

lemma core_send_ADR [simp]: "core (send_ADR s) = core s"
  by (simp add: send_ADR_def Let_def)

lemma core_select_inbound: "select_inbound fa p s = (i, s') \<Longrightarrow> core s' = core s"
  by (auto simp: select_inbound_def Let_def split: option.splits prod.splits dest!: core_node_of)

lemma core_sort_q [simp]: "core (sort_q s) = core s"
  by (simp add: sort_q_def)

lemma core_auto_NR: "auto_NR s = Some s' \<Longrightarrow> core s' = core s"
  by (auto simp: auto_NR_def Let_def split: option.splits if_splits prod.splits dest!: core_select_inbound)

lemma core_RError [simp]: "core (snd (RError b s)) = core s"
  by (simp add: RError_def)

lemma core_BSY [simp]: "core (snd (BSY b s)) = core s"
  by (simp add: BSY_def)

section \<open>The loop\<close>

lemma core_open_entry: "open_entry e s = (r, s') \<Longrightarrow> core s' = core s"
  by (auto simp: open_entry_def Let_def split: option.splits if_splits prod.splits)

lemma core_flo_loop_snd: assumes "flo_loop e h s = Some y" shows "core (snd y) = core s"
proof (rule flo_loop.raw_induct [where P = "\<lambda>e h s y. core (snd y) = core s", OF _ assms])
  fix loop :: "FTNQ option \<Rightarrow> handle \<Rightarrow> session \<Rightarrow> ((string \<times> char \<times> handle \<times> int \<times> int) option \<times> session) option"
    and e h s y
  assume IH: "\<And>h s b y. loop h s b = Some y \<Longrightarrow> core (snd y) = core b"
    and eq: "(case read_flo_line (drop (h_pos h) (case fopen_r (h_path h) (x_w s) of None \<Rightarrow> [] | Some d \<Rightarrow> d)) of
     None \<Rightarrow> Some (None, (snd (remove_from_spool (t_path (s_flo s)) None NUL_char
                 (s\<lparr>s_flo := s_flo s\<lparr>t_f := None\<rparr>\<rparr>)))\<lparr>s_flo := TF_ZERO\<rparr>)
     | Some (path, action, rest) \<Rightarrow>
         (let d = (case fopen_r (h_path h) (x_w s) of None \<Rightarrow> [] | Some c \<Rightarrow> c);
              h' = h\<lparr>h_pos := length d - length rest\<rparr>;
              s1 = s\<lparr>s_flo := s_flo s\<lparr>t_f := Some h'\<rparr>\<rparr>;
              w = trans_flo_line path (rf_rules (x_cfg s));
              real = (case w of Some p \<Rightarrow> p | None \<Rightarrow> path);
              done = snd (remove_from_spool (t_path (s_flo s)) (Some path) NUL_char s1)
          in (case unsendable e w s1 of
                None \<Rightarrow> None
              | Some skip \<Rightarrow>
                  if skip then loop e h' done
                  else (case fstat real (x_w s1) of
                    None \<Rightarrow> loop e h' done
                  | Some st \<Rightarrow> Some (Some (path, action, \<lparr>h_path = real, h_pos = 0\<rparr>, fst st, snd st), s1))))) = Some y"
  show "core (snd y) = core s"
    using eq by (auto simp: Let_def split: option.splits prod.splits if_splits dest!: IH)
qed

lemma core_flo_loop: "flo_loop e h s = Some (r, s') \<Longrightarrow> core s' = core s"
  by (drule core_flo_loop_snd) simp

lemma core_name_file: "name_file s = Some s' \<Longrightarrow> core s' = core s"
  by (auto simp: name_file_def rnd_def split: if_splits option.splits prod.splits list.splits)

lemma core_send_FILE [simp]: "core (send_FILE s) = core s"
  by (simp add: send_FILE_def)

lemma core_offer_file: "offer_file s = Some (b, s') \<Longrightarrow> core s' = core s"
  by (auto simp: offer_file_def Let_def split: option.splits if_splits dest!: core_name_file)

lemma core_start_file_transfer: "start_file_transfer e s = Some (b, s') \<Longrightarrow> core s' = core s"
  by (auto simp: start_file_transfer_def Let_def split: option.splits if_splits prod.splits
      dest!: core_open_entry core_flo_loop core_offer_file)

lemma core_send_EOB [simp]: "core (send_EOB s) = core s"
  by (simp add: send_EOB_def)

lemma core_end_batch [simp]: "core (end_batch s) = core s"
  by (simp add: end_batch_def split: prod.split)

lemma core_scan_boxes [simp]: "core (scan_boxes s) = core s"
  by (auto simp: scan_boxes_def split: prod.split dest: q_scan_boxesD)

lemma core_next_batch [simp]: "core (next_batch s) = core s"
  by (simp add: next_batch_def Let_def)

lemma core_touch_busy [simp]: "core (touch_busy s) = core s"
  by (simp add: touch_busy_def split: prod.split)

lemma core_io_failed [simp]: "core (io_failed e s) = core s"
  by (simp add: io_failed_def Let_def)

lemma core_next_file: assumes "next_file s = Some s'" shows "core s' = core s"
proof (rule next_file.raw_induct [where P = "\<lambda>s s'. core s' = core s", OF _ assms])
  fix loop :: "session \<Rightarrow> session option" and s s'
  assume IH: "\<And>x y. loop x = Some y \<Longrightarrow> core y = core x"
    and eq: "(case (if t_f (s_flo s) \<noteq> None then (None, s_q s) else select_next_file (s_q s)) of (e, q) \<Rightarrow>
       if t_f (s_flo s) = None \<and> e = None then Some (s\<lparr>s_q := []\<rparr>)
       else (case start_file_transfer e (s\<lparr>s_q := q\<rparr>) of
         None \<Rightarrow> None
       | Some (ok, s1) \<Rightarrow> if ok then Some s1 else loop s1)) = Some s'"
  obtain e q where eq1: "(if t_f (s_flo s) \<noteq> None then (None, s_q s) else select_next_file (s_q s)) = (e, q)"
    by fastforce
  show "core s' = core s"
  proof (cases "t_f (s_flo s) = None \<and> e = None")
    case True
    then show ?thesis using eq eq1 by auto
  next
    case False
    then obtain ok s1 where t: "start_file_transfer e (s\<lparr>s_q := q\<rparr>) = Some (ok, s1)"
      using eq unfolding eq1 by (auto split: option.splits)
    then have "core s1 = core s" using core_start_file_transfer by fastforce
    moreover have "s' = s1 \<or> loop s1 = Some s'"
      using eq False unfolding eq1 by (auto simp: t split: if_splits)
    ultimately show ?thesis using IH by metis
  qed
qed

end
