(* ===== verification/Access.thy ===== *)
theory Access
  imports Frame Framing
begin

text \<open>
  What the login guarantees: who gets a protected session, that the challenge authentication works
  from end to end, and that both ends of an encrypted session use the same keys.
\<close>

section \<open>Passwords\<close>

text \<open>What the remote sent in \<^verbatim>\<open>M_PWD\<close>: the expected password itself, or the digest of the challenge with it.\<close>

definition sent_password :: "string \<Rightarrow> session \<Rightarrow> bool" where
  "sent_password pwd s \<longleftrightarrow> s_expected_pwd s \<noteq> [] \<and> pwd = s_expected_pwd s"

definition sent_digest :: "string \<Rightarrow> session \<Rightarrow> bool" where
  "sent_digest pwd s \<longleftrightarrow>
     (\<exists>ch. s_MD_challenge s = Some ch \<and> o_stricmp (MD_buildDigest (s_expected_pwd s) ch) pwd = 0)"

text \<open>
  What the check accepts.  The password in plain is not enough for a link that wants digests; \<open>!\<close> stands for a
  link that needs no password.
\<close>

definition accepted :: "string \<Rightarrow> session \<Rightarrow> bool" where
  "accepted pwd s \<longleftrightarrow> s_expected_pwd s = ''!'' \<or> sent_digest pwd s \<or> sent_password pwd s \<and> s_MD_flag s \<noteq> 1"

section \<open>The domains of the addresses\<close>

text \<open>
  The domain of an address the remote presents is a word the tokenizer read, or comes from the
  configuration.  When the configured domains are words of the same characters, so is every domain.
\<close>

definition plain_cfg :: "BINKD_CONFIG \<Rightarrow> bool" where
  "plain_cfg c \<longleftrightarrow> (\<forall>d\<in>set (pDomains c). list_all domain_char (dom_name d) \<and>
       (\<forall>a. alias4 d = Some a \<longrightarrow> list_all domain_char (dom_name a))) \<and>
     (\<forall>a\<in>set (pAddr c). list_all domain_char (fa_domain a))"

definition plain_fas :: "BINKD_CONFIG \<Rightarrow> FTN_ADDR list \<Rightarrow> bool" where
  "plain_fas c fas \<longleftrightarrow> (plain_cfg c \<longrightarrow> (\<forall>a\<in>set fas. list_all domain_char (fa_domain a)))"

lemma plain_base [simp]: "plain_cfg (base_cfg c) = plain_cfg c"
  by (simp add: plain_cfg_def base_cfg_def)

lemma plain_fas_Nil [simp]: "plain_fas c []"
  by (simp add: plain_fas_def)

lemma gettoken_plain: "gettoken s = Some (t, s') \<Longrightarrow> list_all domain_char (tok_s t)"
proof (cases s)
  case (Cons c u)
  have "list_all domain_char (take n (takeWhile domain_char x))" for n x
    using set_takeWhileD by (fastforce simp: list_all_iff dest: in_set_takeD)
  then show "gettoken s = Some (t, s') \<Longrightarrow> ?thesis" unfolding Cons gettoken.simps Let_def
    by (simp split: if_splits del: takeWhile.simps) fastforce+
qed auto

lemma gettokens_plain: "gettokens k s = Some ts \<Longrightarrow> \<forall>t\<in>set ts. list_all domain_char (tok_s t)"
  by (induction k s arbitrary: ts rule: gettokens.induct) (auto split: option.splits prod.splits dest: gettoken_plain)

lemma gettokens_length: "gettokens k s = Some ts \<Longrightarrow> length ts = k"
  by (induction k s arbitrary: ts rule: gettokens.induct) (auto split: option.splits prod.splits)

lemma resolve_plain: "plain_cfg c \<Longrightarrow> list_all domain_char w \<Longrightarrow> list_all domain_char (resolve_domain w (pDomains c))"
proof -
  have m: "get_domain_info w ds = Some d \<Longrightarrow> d \<in> set ds" for ds d
    by (induction ds) (auto split: if_splits)
  show "plain_cfg c \<Longrightarrow> list_all domain_char w \<Longrightarrow> ?thesis"
    by (auto simp: resolve_domain_def plain_cfg_def split: option.split dest: m)
qed

lemma matched_plain: "plain_cfg c \<Longrightarrow> list_all domain_char (get_matched_domain z (pAddr c) (pDomains c))"
proof -
  have m: "find P xs = Some x \<Longrightarrow> x \<in> set xs" for P and xs :: "'x list" and x
    by (induction xs) (auto split: if_splits)
  show "plain_cfg c \<Longrightarrow> ?thesis"
    by (auto simp: get_matched_domain_def plain_cfg_def split: option.split list.split dest!: m)
qed

lemma parse_plain:
  assumes "parse_ftnaddress w (pDomains c) = Some fa" "plain_cfg c"
  shows "list_all domain_char (fa_domain fa)"
proof -
  obtain ts st st' where ts: "gettokens TOKENS w = Some ts" and st: "parse_node_point ts (parse_zone_net ts) = Some st"
    and st': "parse_domain ts (pDomains c) st = Some st'" and fin: "parse_finish ts st' = Some fa"
    using assms(1) by (auto simp: parse_ftnaddress_def split: option.splits)
  have z: "fa_domain (fst (parse_zone_net ts)) = [] \<and> snd (parse_zone_net ts) \<le> 4"
    by (simp add: parse_zone_net_def FA_ZERO_def Let_def)
  have n: "fa_domain (fst st) = [] \<and> snd st \<le> 7"
    using st z by (cases "parse_zone_net ts") (auto simp: parse_node_point_def Let_def split: if_splits)
  have "list_all domain_char (tok_s (ts ! Suc (snd st)))"
    using gettokens_plain [OF ts] gettokens_length [OF ts] n by simp
  then have "list_all domain_char (fa_domain (fst st'))"
    using st' n resolve_plain [OF assms(2)] by (cases st) (auto simp: parse_domain_def split: if_splits)
  then show ?thesis using fin by (cases st') (auto simp: parse_finish_def Let_def split: if_splits)
qed

section \<open>The invariant\<close>

text \<open>
  The active addresses are locked by this process, and encryption is on only after the password was
  accepted with the digest authentication; the domains of all its addresses are plain words; the locks \<open>lk\<close> the process held before stay held.
\<close>

definition kept :: "BSY_ADDR set \<Rightarrow> BSY_ADDR list \<Rightarrow> bool" where
  "kept lk l \<longleftrightarrow> (\<forall>b\<in>lk. \<not> FA_ISNULL (b_fa b) \<longrightarrow> b \<in> set l)"

definition login_inv :: "BSY_ADDR set \<Rightarrow> session \<Rightarrow> bool" where
  "login_inv lk s \<longleftrightarrow> s_nfa s \<le> length (s_fa s) \<and>
     (\<forall>fa\<in>set (take (s_nfa s) (s_fa s)). is4D fa \<and> \<lparr>b_fa = fa, b_bt = F_BSY\<rparr> \<in> set (x_bsy s)) \<and>
     (s_YES_CRYPT s \<longrightarrow> s_state s = P_SECURE \<and> s_MD_flag s \<noteq> 0) \<and> kept lk (x_bsy s) \<and>
     plain_fas (base_cfg (x_cfg s)) (s_fa s)"

lemma login_inv_core: "core s' = core s \<Longrightarrow> login_inv lk s' = login_inv lk s"
  unfolding core_def login_inv_def by simp

lemma login_inv_coreI: "login_inv lk s \<Longrightarrow> core s' = core s \<Longrightarrow> login_inv lk s'"
  using login_inv_core by blast

lemma login_inv_same [simp]:
  "login_inv lk (msg_send2 m a b s) = login_inv lk s" "login_inv lk (msg_sendf m t s) = login_inv lk s"
  "login_inv lk (note_bad_try e s) = login_inv lk s" "login_inv lk (send_ADR s) = login_inv lk s"
  "login_inv lk (do_prescan s) = login_inv lk s"
  by (rule login_inv_core, simp)+

lemma input_ok_core: "core s' = core s \<Longrightarrow> input_ok s' = input_ok s"
  unfolding core_def input_ok_def needed_def by simp

lemma login_inv_cong:
  "s_fa s' = s_fa s \<Longrightarrow> s_nfa s' = s_nfa s \<Longrightarrow> x_bsy s' = x_bsy s \<Longrightarrow> s_YES_CRYPT s' = s_YES_CRYPT s \<Longrightarrow>
   base_cfg (x_cfg s') = base_cfg (x_cfg s) \<Longrightarrow> s_state s' = s_state s \<Longrightarrow> (s_MD_flag s \<noteq> 0 \<longrightarrow> s_MD_flag s' \<noteq> 0) \<Longrightarrow> login_inv lk s \<Longrightarrow> login_inv lk s'"
  by (simp add: login_inv_def)

lemma or_not_0: "(x :: int) \<noteq> 0 \<Longrightarrow> x OR y \<noteq> 0"
  by (simp add: or_eq_0_iff)

text \<open>Information messages.\<close>

lemma NUL_opt_inv: "login_inv lk s \<Longrightarrow> login_inv lk (NUL_opt w s)"
  by (erule login_inv_cong [rotated -1]) (simp_all add: NUL_opt_def)

lemma NUL_opts_inv: "login_inv lk s \<Longrightarrow> login_inv lk (fold NUL_opt ws s)"
  by (induction ws arbitrary: s) (simp_all add: NUL_opt_inv)

lemma NUL_ver_inv: "login_inv lk s \<Longrightarrow> NUL_ver t s = Some s' \<Longrightarrow> login_inv lk s'"
  by (erule login_inv_cong [rotated -1]) (auto simp: NUL_ver_def Let_def split: option.splits if_splits)

lemma NUL_inv: "login_inv lk s \<Longrightarrow> NUL buf s = Some (b, s') \<Longrightarrow> login_inv lk s'"
proof -
  assume i: "login_inv lk s" and n: "NUL buf s = Some (b, s')"
  let ?t = "strquote buf sq_cntrl"
  show "login_inv lk s'"
  proof (cases "if starts ''VER '' ?t then NUL_ver ?t s else None")
    case (Some s1)
    then show ?thesis using n i by (auto simp: NUL_def Let_def split: if_splits dest: NUL_ver_inv)
  next
    case None
    then have "core s' = core s \<or> (\<exists>ws. s' = fold NUL_opt ws s)"
      using n unfolding NUL_def Let_def by (auto split: if_splits option.splits)
    then show ?thesis using i NUL_opts_inv login_inv_core by metis
  qed
qed

text \<open>Addresses.\<close>

lemma adr_ip_core: "adr_ip pn v s = Some r \<Longrightarrow>
   (case r of ADR_GO v1 s1 \<Rightarrow> core s1 = core s | ADR_NEXT v1 s1 \<Rightarrow> core s1 = core s | ADR_FAIL s1 \<Rightarrow> core s1 = core s)"
  by (auto simp: adr_ip_def split: option.splits if_splits)

lemma login_inv_pwd: "login_inv lk s \<Longrightarrow> login_inv lk (s\<lparr>s_listed_flag := l, s_MD_flag := s_MD_flag s OR m, s_expected_pwd := p\<rparr>)"
  "login_inv lk s \<Longrightarrow> login_inv lk (s\<lparr>s_listed_flag := l, s_MD_flag := s_MD_flag s OR m\<rparr>)"
  "login_inv lk s \<Longrightarrow> login_inv lk (s\<lparr>s_listed_flag := l, s_expected_pwd := p\<rparr>)" "login_inv lk s \<Longrightarrow> login_inv lk (s\<lparr>s_listed_flag := l\<rparr>)"
  by (simp_all add: login_inv_def or_eq_0_iff)

lemma adr_pwd_inv: "adr_pwd fa pn v s = Some r \<Longrightarrow> login_inv lk s \<Longrightarrow>
   (case r of ADR_GO v1 s1 \<Rightarrow> login_inv lk s1 | ADR_NEXT v1 s1 \<Rightarrow> login_inv lk s1 | ADR_FAIL s1 \<Rightarrow> login_inv lk s1)"
  unfolding adr_pwd_def Let_def
  by (cases pn) (auto simp: login_inv_pwd split: if_splits)

lemma adr_pwd_cfg: "adr_pwd fa pn v s = Some r \<Longrightarrow>
   (case r of ADR_GO v1 s1 \<Rightarrow> x_cfg s1 = x_cfg s | ADR_NEXT v1 s1 \<Rightarrow> x_cfg s1 = x_cfg s | ADR_FAIL s1 \<Rightarrow> x_cfg s1 = x_cfg s)"
  unfolding adr_pwd_def Let_def by (cases pn) (auto split: if_splits)

lemma get_free_cell_keeps: "b \<in> set l \<Longrightarrow> \<not> FA_ISNULL (b_fa b) \<Longrightarrow> b \<in> set (bsy_get_free_cell l new)"
proof -
  assume b: "b \<in> set l" "\<not> FA_ISNULL (b_fa b)"
  have "reuse_cell l new = Some l' \<Longrightarrow> b \<in> set l'" for l' using b
    by (induction l arbitrary: l') (auto split: if_splits)
  then show ?thesis using b by (auto simp: bsy_get_free_cell_def split: option.split)
qed

lemma is4D_not_null: "is4D fa \<Longrightarrow> \<not> FA_ISNULL fa"
  by (simp add: is4D_def FA_ISNULL_def)

lemma login_inv_lock:
  assumes "login_inv lk s" "is4D fa" "set (x_bsy s) - {b. FA_ISNULL (b_fa b)} \<subseteq> set b" "\<lparr>b_fa = fa, b_bt = F_BSY\<rparr> \<in> set b"
    and pf: "plain_fas (base_cfg (x_cfg s)) [fa]"
  shows "login_inv lk (s\<lparr>x_w := w, x_bsy := b, s_fa := take (s_nfa s) (s_fa s) @ [fa] @ drop (s_nfa s) (s_fa s), s_nfa := s_nfa s + 1\<rparr>)"
    (is "login_inv lk ?s1")
proof -
  let ?act = "take (s_nfa s) (s_fa s)"
  have n: "s_nfa s \<le> length (s_fa s)" and c: "s_YES_CRYPT s \<longrightarrow> s_state s = P_SECURE \<and> s_MD_flag s \<noteq> 0"
    and k: "kept lk (x_bsy s)" and f: "plain_fas (base_cfg (x_cfg s)) (s_fa s)"
    using assms(1) unfolding login_inv_def by blast+
  have "kept lk (x_bsy ?s1)" using k assms(3) by (auto simp: kept_def)
  moreover have old: "a \<in> set ?act \<Longrightarrow> is4D a \<and> \<lparr>b_fa = a, b_bt = F_BSY\<rparr> \<in> set (x_bsy s)" for a
    using assms(1) unfolding login_inv_def by blast
  have t: "take (s_nfa s + 1) (?act @ [fa] @ drop (s_nfa s) (s_fa s)) = ?act @ [fa]" using n by simp
  have "is4D a \<and> \<lparr>b_fa = a, b_bt = F_BSY\<rparr> \<in> set b" if "a \<in> set (?act @ [fa])" for a
    using that old [of a] assms(2-4) is4D_not_null [of a] by auto
  moreover have "s_nfa s + 1 \<le> length (?act @ [fa] @ drop (s_nfa s) (s_fa s))" using n by simp
  moreover have "plain_fas (base_cfg (x_cfg s)) (?act @ [fa] @ drop (s_nfa s) (s_fa s))"
    using f pf by (auto simp: plain_fas_def dest: in_set_takeD in_set_dropD)
  moreover have "s_fa ?s1 = ?act @ [fa] @ drop (s_nfa s) (s_fa s)" "s_nfa ?s1 = s_nfa s + 1" "x_bsy ?s1 = b"
    "s_YES_CRYPT ?s1 = s_YES_CRYPT s" "s_state ?s1 = s_state s" "s_MD_flag ?s1 = s_MD_flag s"
    "x_cfg ?s1 = x_cfg s" by simp_all
  ultimately show ?thesis unfolding login_inv_def using t c by (simp only:) blast
qed

lemma login_inv_busy:
  "login_inv lk s \<Longrightarrow> plain_fas (base_cfg (x_cfg s)) [fa] \<Longrightarrow> login_inv lk (s\<lparr>x_w := w, s_fa := s_fa s @ [fa]\<rparr>)"
  by (auto simp: login_inv_def plain_fas_def)

lemma login_inv_world [simp]: "login_inv lk (s\<lparr>x_w := w\<rparr>) = login_inv lk s"
  by (simp add: login_inv_def)

lemma adr_lock_inv:
  assumes i: "login_inv lk s" and "is4D fa" and pf: "plain_fas (base_cfg (x_cfg s)) [fa]"
  shows "(case adr_lock fa pn v s of ADR_GO v1 s1 \<Rightarrow> login_inv lk s1 | ADR_NEXT v1 s1 \<Rightarrow> login_inv lk s1 | ADR_FAIL s1 \<Rightarrow> login_inv lk s1)"
proof -
  let ?new = "\<lparr>b_fa = fa, b_bt = F_BSY\<rparr>"
  obtain ok w b where add: "bsy_add fa F_BSY (x_cfg s) (x_w s, x_bsy s) = (ok, w, b)" by (metis prod_cases3)
  have b: "b = (if ok then bsy_get_free_cell (x_bsy s) ?new else x_bsy s)"
    using add by (auto simp: bsy_add_def split: prod.splits)
  show ?thesis
  proof (cases ok)
    case True
    have "set (x_bsy s) - {b. FA_ISNULL (b_fa b)} \<subseteq> set b" "?new \<in> set b"
      using True get_free_cell_keeps [of _ "x_bsy s" ?new] get_free_cell_mem [of ?new "x_bsy s"] by (auto simp: b)
    from login_inv_lock [OF i assms(2) this pf] show ?thesis
      unfolding adr_lock_def add by (simp only: prod.case True bool.case adr_result.case)
  next
    case False
    then have e: "s\<lparr>x_w := w, x_bsy := b\<rparr> = s\<lparr>x_w := w\<rparr>" using b by simp
    show ?thesis unfolding adr_lock_def add using False i login_inv_busy [OF i pf] by (simp add: e Let_def)
  qed
qed

lemma adr_addr_inv:
  assumes a: "adr_addr fa v s = Some r" and "login_inv lk s" "is4D fa" and pf: "plain_fas (base_cfg (x_cfg s)) [fa]"
  shows "case r of ADR_GO v1 s1 \<Rightarrow> login_inv lk s1 | ADR_NEXT v1 s1 \<Rightarrow> login_inv lk s1 | ADR_FAIL s1 \<Rightarrow> login_inv lk s1"
proof -
  obtain pn s1 where n: "node_of fa s = (pn, s1)" by fastforce
  have i1: "login_inv lk s1" using assms(2) core_node_of [OF n] by (rule login_inv_coreI)
  have b1: "base_cfg (x_cfg s1) = base_cfg (x_cfg s)" using core_node_of [OF n] by (rule coreD(16))
  obtain r1 where r1: "adr_ip pn v s1 = Some r1"
    using a unfolding adr_addr_def n by (auto split: option.splits)
  have i2: "case r1 of ADR_GO v1 s1 \<Rightarrow> login_inv lk s1 | ADR_NEXT v1 s1 \<Rightarrow> login_inv lk s1 | ADR_FAIL s1 \<Rightarrow> login_inv lk s1"
    using adr_ip_core [OF r1] login_inv_coreI [OF i1] by (cases r1) simp_all
  show ?thesis
  proof (cases r1)
    case (ADR_GO v2 s2)
    then have "login_inv lk s2" using i2 by simp
    have "core s2 = core s1" using adr_ip_core [OF r1] ADR_GO by simp
    then have b2: "base_cfg (x_cfg s2) = base_cfg (x_cfg s)" using coreD(16) b1 by metis
    obtain r2 where r2: "adr_pwd fa pn v2 s2 = Some r2"
      using a unfolding adr_addr_def n prod.case r1 ADR_GO by (auto split: option.splits)
    note i3 = adr_pwd_inv [OF r2 \<open>login_inv lk s2\<close>] and b3 = adr_pwd_cfg [OF r2]
    have r: "Some r = (case r2 of ADR_GO v2 s2 \<Rightarrow> (case adr_lock fa pn v2 s2 of
            ADR_GO v3 s3 \<Rightarrow> Some (ADR_NEXT (adr_modes pn v3 s3) s3) | r \<Rightarrow> Some r) | r \<Rightarrow> Some r)"
      using a unfolding adr_addr_def n prod.case r1 ADR_GO option.case adr_result.case r2 by (cases r2) auto
    show ?thesis
    proof (cases r2)
      case (ADR_GO v3 s3)
      then have "login_inv lk s3" using i3 by simp
      have "plain_fas (base_cfg (x_cfg s3)) [fa]" using b3 ADR_GO b2 pf by simp
      from adr_lock_inv [OF \<open>login_inv lk s3\<close> assms(3) this, of pn v3] show ?thesis
        using r unfolding ADR_GO adr_result.case by (cases "adr_lock fa pn v3 s3") simp_all
    qed (use r i3 in simp_all)
  qed (use a i2 n r1 in \<open>simp_all add: adr_addr_def\<close>)
qed

lemma adr_loop_inv: "adr_loop ws v s = Some (r, s') \<Longrightarrow> login_inv lk s \<Longrightarrow> login_inv lk s'"
proof (induction ws arbitrary: v s)
  case (Cons w ws)
  show ?case
  proof (cases "parse_ftnaddress w (pDomains (x_cfg s))")
    case None
    then show ?thesis using Cons.prems by auto
  next
    case (Some fa0)
    show ?thesis
    proof (cases "is4D fa0")
      case False
      then show ?thesis using Some Cons.prems by auto
    next
      case True
      define fa where "fa = (if fa_domain fa0 = []
         then fa0\<lparr>fa_domain := get_matched_domain (fa_z fa0) (pAddr (x_cfg s)) (pDomains (x_cfg s))\<rparr> else fa0)"
      have c: "is4D fa" using True by (simp add: fa_def is4D_def)
      have pf: "plain_fas (base_cfg (x_cfg s)) [fa]"
        using parse_plain [OF Some] matched_plain by (simp add: plain_fas_def fa_def)
      have l: "adr_loop (w # ws) v s = (case adr_addr fa v s of
               None \<Rightarrow> None
             | Some (ADR_FAIL s1) \<Rightarrow> Some (None, s1)
             | Some (ADR_NEXT v1 s1) \<Rightarrow> adr_loop ws v1 s1
             | Some (ADR_GO v1 s1) \<Rightarrow> adr_loop ws v1 s1)"
        unfolding adr_loop.simps Some option.case fa_def Let_def using True by simp
      obtain r1 where r1: "adr_addr fa v s = Some r1"
        using Cons.prems(1) unfolding l by (auto split: option.splits)
      have "case r1 of ADR_GO v1 s1 \<Rightarrow> login_inv lk s1 | ADR_NEXT v1 s1 \<Rightarrow> login_inv lk s1 | ADR_FAIL s1 \<Rightarrow> login_inv lk s1"
        by (rule adr_addr_inv [OF r1 Cons.prems(2) c pf])
      then show ?thesis
        using Cons.prems(1) Cons.IH unfolding l r1 by (cases r1) auto
    qed
  qed
qed simp

lemma adr_finish_inv: "adr_finish v s = (b, s') \<Longrightarrow> login_inv lk s \<Longrightarrow> login_inv lk s'"
proof -
  assume a: "adr_finish v s = (b, s')" and i: "login_inv lk s"
  have md: "login_inv lk t \<Longrightarrow> login_inv lk (adr_modes_done v t)" for t
    by (simp add: adr_modes_done_def login_inv_def)
  have pw: "login_inv lk t \<Longrightarrow> login_inv lk (t\<lparr>s_MD_flag := 1\<rparr>)" for t
    by (simp add: login_inv_def)
  have "login_inv lk (snd (send_PWD n t))" if "login_inv lk t" for n t
    using that pw by (simp add: send_PWD_def split: option.split)
  then show ?thesis
    using a i md unfolding adr_finish_def
    by (auto split: if_splits option.splits) (metis login_inv_same(5) snd_conv)+
qed

lemma ADR_inv: "ADR buf s = Some (b, s') \<Longrightarrow> login_inv lk s \<Longrightarrow> login_inv lk s'"
proof -
  assume a: "ADR buf s = Some (b, s')" and i: "login_inv lk s"
  define t where "t = (case s_to s of None \<Rightarrow> s | Some n \<Rightarrow> s\<lparr>s_expected_pwd := take MAXPWDLEN (out_password n)\<rparr>)"
  have "login_inv lk t" using i by (simp add: t_def login_inv_def split: option.split)
  moreover have "s' = s \<or> (\<exists>ws r u. adr_loop ws adr_start t = Some (r, u) \<and> (s' = u \<or> (\<exists>v b. adr_finish v u = (b, s'))))"
    using a unfolding ADR_def Let_def t_def [symmetric]
    by (auto split: option.splits prod.splits gw_result.splits)
  ultimately show ?thesis using i adr_loop_inv adr_finish_inv by metis
qed

text \<open>The end of the login.\<close>

lemma login_crypt_inv:
  assumes "s_nfa s \<le> length (s_fa s)" "\<forall>fa\<in>set (take (s_nfa s) (s_fa s)). is4D fa \<and> \<lparr>b_fa = fa, b_bt = F_BSY\<rparr> \<in> set (x_bsy s)"
    and "s_YES_CRYPT s \<longrightarrow> s_MD_flag s \<noteq> 0" "kept lk (x_bsy s)" "plain_fas (base_cfg (x_cfg s)) (s_fa s)"
  shows "login_inv lk (login_crypt s)"
  using assms unfolding login_crypt_def Let_def
  by (cases "s_to s") (simp_all add: login_inv_def NO_CRYPT_def YES_CRYPT_def crypt_on_def)

text \<open>Before the cipher is decided, the end of the login only touches the files and the modes.\<close>

lemma complete_login_crypt: "\<exists>t. core t = core s \<and> complete_login s = login_crypt t"
proof -
  obtain i s1 where si: "select_inbound (first_fa s) (s_state s) s = (i, s1)" by fastforce
  define t where "t = (let s2 = s1\<lparr>s_inbound := i\<rparr>;
         s3 = (if OK_SEND_FILES s2 \<and> s_q s2 = [] then scan_link s2 else s2);
         s4 = (if OK_SEND_FILES s3 then sort_q s3 else s3);
         s5 = s4\<lparr>s_msgs_in_batch := 0\<rparr>
     in if s_WE_ND s5 then s5\<lparr>s_WE_NR := True\<rparr> else s5)"
  have "core t = core s" using core_select_inbound [OF si] by (simp add: t_def Let_def)
  moreover have "complete_login s = login_crypt t" unfolding complete_login_def si t_def Let_def by simp
  ultimately show ?thesis by blast
qed

lemma complete_login_inv:
  assumes "s_nfa s \<le> length (s_fa s)" "\<forall>fa\<in>set (take (s_nfa s) (s_fa s)). is4D fa \<and> \<lparr>b_fa = fa, b_bt = F_BSY\<rparr> \<in> set (x_bsy s)"
    and "s_YES_CRYPT s \<longrightarrow> s_MD_flag s \<noteq> 0" "kept lk (x_bsy s)" "plain_fas (base_cfg (x_cfg s)) (s_fa s)"
  shows "login_inv lk (complete_login s)"
proof -
  obtain t where t: "core t = core s" "complete_login s = login_crypt t" using complete_login_crypt by blast
  then show ?thesis using login_crypt_inv [of t lk] assms unfolding core_def by simp
qed

lemma check_PWD_inv: "check_PWD p c s = Some (bad, s') \<Longrightarrow> s' = s \<or> s' = s\<lparr>s_MD_flag := 1\<rparr>"
  by (auto simp: check_PWD_def split: if_splits)

text \<open>What the verdict leaves alone, and the state it decides on.\<close>

lemma verdict_PWD_inv:
  assumes "verdict_PWD p s = (ok, s')" "login_inv lk s" "s_state s = P_NULL"
  shows "login_inv lk s'"
proof -
  have n: "\<not> s_YES_CRYPT s" using assms(2,3) by (simp add: login_inv_def)
  have u: "login_inv lk (t\<lparr>s_state := v\<rparr>)" "login_inv lk (t\<lparr>s_MD_flag := m\<rparr>)" if "login_inv lk t" "\<not> s_YES_CRYPT t" for t v m
    using that by (simp_all add: login_inv_def)
  have e: "login_inv lk (t\<lparr>s_state_ext := x\<rparr>) = login_inv lk t" for t x by (rule login_inv_core) simp
  have d: "s_YES_CRYPT (do_prescan t) = s_YES_CRYPT t" for t by (rule coreD) simp
  show ?thesis
  proof (cases "s_expected_pwd s = ''-'' \<and> o_strnicmp p ''CRAM-'' 5 \<noteq> 0")
    case True
    then have "s' = (do_prescan s)\<lparr>s_state := P_NONSECURE\<rparr>" using assms(1) by (simp add: verdict_PWD_def Let_def)
    then show ?thesis using u(1) [of "do_prescan s"] assms(2) n d by simp
  next
    case False
    let ?cram = "o_strnicmp p ''CRAM-'' 5 = 0"
    show ?thesis
    proof (cases "check_PWD p ?cram s")
      case None
      then have "s' = msg_send2 M_ERR ''You must support MD5'' [] s"
        using assms(1) False by (auto simp: verdict_PWD_def Let_def)
      then show ?thesis using assms(2) by simp
    next
      case (Some r)
      obtain bad s1 where r: "r = (bad, s1)" by fastforce
      have i1: "login_inv lk s1" "\<not> s_YES_CRYPT s1"
        using check_PWD_inv [of p ?cram s bad s1] Some r u(2) [OF assms(2) n] n assms(2) by auto
      have "s' = msg_send2 M_ERR ''Bad password'' [] s1 \<or>
          (\<exists>v. s' = do_prescan (s1\<lparr>s_state := v\<rparr>) \<or> s' = (do_prescan (s1\<lparr>s_state := v\<rparr>))\<lparr>s_state_ext := P_WE_NONSECURE\<rparr>)"
        using assms(1) False Some r by (auto simp: verdict_PWD_def Let_def split: if_splits)
      then show ?thesis using u(1) [OF i1] i1(1) by (auto simp: e)
    qed
  qed
qed

lemma pwd_modes_inv: "login_inv lk s \<Longrightarrow> login_inv lk (pwd_modes s)"
  by (simp add: pwd_modes_def Let_def login_inv_def NO_CRYPT_def)

lemma PWD_inv:
  assumes "PWD p s = Some (b, s')" "login_inv lk s"
  shows "login_inv lk s'"
proof (cases "s_to s \<noteq> None \<or> s_state s \<noteq> P_NULL")
  case True
  then show ?thesis using assms by (auto simp: PWD_def split: if_splits)
next
  case False
  obtain ok s1 where v: "verdict_PWD p s = (ok, s1)" by fastforce
  have i1: "login_inv lk s1" using verdict_PWD_inv [OF v assms(2)] False by simp
  show ?thesis
  proof (cases ok)
    case True
    then obtain s2 where n: "auto_NR (pwd_modes s1) = Some s2"
      using assms(1) False v by (auto simp: PWD_def split: option.splits)
    have "login_inv lk s2" using login_inv_coreI [OF pwd_modes_inv [OF i1] core_auto_NR [OF n]] .
    define s4 where "s4 = (let s3 = msg_send2 M_NUL ''OPT'' (pwd_opts s2) s2
        in msg_send2 M_OK (if s_state s3 = P_SECURE then ''secure'' else ''non-secure'') [] s3)"
    have "login_inv lk s4" using \<open>login_inv lk s2\<close> by (simp add: s4_def Let_def)
    then have "login_inv lk (complete_login s4)" by (intro complete_login_inv) (simp_all add: login_inv_def)
    moreover have "s' = complete_login s4"
      using assms(1) False v True n by (simp add: PWD_def s4_def Let_def)
    ultimately show ?thesis by simp
  next
    case bad: False
    then show ?thesis using assms(1) False v i1 by (simp add: PWD_def)
  qed
qed

lemma ok_words_frame:
  "x_cfg (fold ok_word ws s) = x_cfg s \<and> s_fa (fold ok_word ws s) = s_fa s \<and> s_nfa (fold ok_word ws s) = s_nfa s \<and> x_bsy (fold ok_word ws s) = x_bsy s \<and>
   s_MD_flag (fold ok_word ws s) = s_MD_flag s \<and> (s_YES_CRYPT (fold ok_word ws s) \<longrightarrow> s_YES_CRYPT s)"
proof (induction ws arbitrary: s)
  case (Cons w ws)
  have "x_cfg (ok_word w s) = x_cfg s" "s_fa (ok_word w s) = s_fa s" "s_nfa (ok_word w s) = s_nfa s" "x_bsy (ok_word w s) = x_bsy s"
    "s_MD_flag (ok_word w s) = s_MD_flag s" "s_YES_CRYPT (ok_word w s) \<longrightarrow> s_YES_CRYPT s"
    by (simp_all add: ok_word_def NO_CRYPT_def)
  then show ?case using Cons [of "ok_word w s"] by simp
qed simp

lemma OK_inv:
  assumes "OK buf s = Some (b, s')" "login_inv lk s"
  shows "login_inv lk s'"
proof (cases "s_to s")
  case None
  then show ?thesis using assms by (simp add: OK_def)
next
  case (Some n)
  then obtain ws where ws: "all_words buf no_flags = Some ws"
    using assms(1) by (auto simp: OK_def split: option.splits)
  define s1 where "s1 = fold ok_word ws (s\<lparr>s_state := if out_password n \<noteq> ''-'' then P_SECURE else P_NONSECURE\<rparr>)"
  define s2 where "s2 = (if s_CAN_NDA s1 = False \<and> s_WE_ND s1 \<noteq> s_THEY_ND s1 then s1\<lparr>s_WE_ND := False, s_THEY_ND := False\<rparr> else s1)"
  have "OK buf s = Some (True, complete_login s2)"
    unfolding OK_def Some option.case ws s2_def s1_def Let_def ..
  then have "s' = complete_login s2" using assms(1) by simp
  moreover have "login_inv lk (complete_login s2)"
  proof (rule complete_login_inv)
    note f = ok_words_frame [of ws "s\<lparr>s_state := if out_password n \<noteq> ''-'' then P_SECURE else P_NONSECURE\<rparr>", folded s1_def]
    have g: "x_cfg s2 = x_cfg s1" "s_fa s2 = s_fa s1" "s_nfa s2 = s_nfa s1" "x_bsy s2 = x_bsy s1" "s_YES_CRYPT s2 = s_YES_CRYPT s1" "s_MD_flag s2 = s_MD_flag s1"
      by (simp_all add: s2_def)
    show "s_nfa s2 \<le> length (s_fa s2)"
      "\<forall>fa\<in>set (take (s_nfa s2) (s_fa s2)). is4D fa \<and> \<lparr>b_fa = fa, b_bt = F_BSY\<rparr> \<in> set (x_bsy s2)"
      "s_YES_CRYPT s2 \<longrightarrow> s_MD_flag s2 \<noteq> 0" "kept lk (x_bsy s2)" "plain_fas (base_cfg (x_cfg s2)) (s_fa s2)"
      using f assms(2) unfolding g login_inv_def by simp_all
  qed
  ultimately show ?thesis by simp
qed

text \<open>Every handler keeps the invariant.\<close>

lemma core_GOT_eq: "GOT t s = (b, s') \<Longrightarrow> core s' = core s"
  using core_GOT [of t s] by simp

lemma handle_msg_inv:
  assumes "handle_msg m buf s = Some (b, s')" "login_inv lk s"
  shows "login_inv lk s'"
  using assms login_inv_coreI [OF assms(2)]
  by (cases m) (auto simp: handle_msg_def RError_def BSY_def dest: NUL_inv ADR_inv PWD_inv OK_inv
      core_start_file_recv core_EOB core_GET core_SKIP core_GOT_eq)

lemma got_block_inv:
  assumes "got_block blk s = Some (b, s')" "login_inv lk s"
  shows "login_inv lk s' \<and> (b \<longrightarrow> at_boundary s')"
proof -
  obtain ok s1 where r: "(if s_imsg s then recv_msg blk s else recv_data blk s) = Some (ok, s1)"
    using assms(1) by (auto simp: got_block_def split: option.splits)
  have cnt: "login_inv lk (s\<lparr>s_msgs_in_batch := n\<rparr>)" for n
    by (rule login_inv_coreI [OF assms(2)]) simp
  have "login_inv lk s1"
  proof (cases "s_imsg s")
    case True
    then have "recv_msg blk s = Some (ok, s1)" using r by simp
    then have "s1 = s\<lparr>s_msgs_in_batch := s_msgs_in_batch s + 1\<rparr> \<or>
        (\<exists>m t. handle_msg m t (s\<lparr>s_msgs_in_batch := s_msgs_in_batch s + 1\<rparr>) = Some (ok, s1))"
      by (auto simp: recv_msg_def Let_def split: list.splits if_splits)
    then show ?thesis using cnt handle_msg_inv by blast
  next
    case False
    then show ?thesis using r login_inv_coreI [OF assms(2) core_recv_data] by simp
  qed
  moreover have "login_inv lk (t\<lparr>s_isize := z, s_ibuf := u\<rparr>) = login_inv lk t" "login_inv lk (t\<lparr>s_ibuf := u\<rparr>) = login_inv lk t" for t z u
    by (simp_all add: login_inv_def)
  ultimately show ?thesis
    using assms(1) r by (cases ok) (auto simp: got_block_def at_boundary_def split: if_splits)
qed

lemma login_inv_input [simp]:
  "login_inv lk (took s bs) = login_inv lk s" "login_inv lk (take_header s) = login_inv lk s" "login_inv lk (s\<lparr>s_ibuf := []\<rparr>) = login_inv lk s"
  by (simp_all add: login_inv_def took_def take_header_def)

lemma recv_bytes_inv:
  assumes "recv_bytes bs s = Some (b, s')" "login_inv lk s"
  shows "login_inv lk s'"
proof -
  have "s' = took s bs \<or> s' = (take_header (took s bs))\<lparr>s_ibuf := []\<rparr> \<or>
      got_block [] (take_header (took s bs)) = Some (b, s') \<or> got_block (s_ibuf (took s bs)) (took s bs) = Some (b, s')"
    using assms(1) by (auto simp: recv_bytes_took Let_def split: if_splits)
  then show ?thesis
    using got_block_inv [of _ "take_header (took s bs)" b s'] got_block_inv [of _ "took s bs" b s'] assms(2) by auto
qed

lemma recv_block_inv:
  assumes "recv_block io s = Some (b, s')" "login_inv lk s" "input_ok s"
  shows "login_inv lk s' \<and> (b \<longrightarrow> input_ok s')"
proof -
  have n: "needed s \<noteq> 0" using assms(3) by (auto simp: input_ok_def)
  have f: "login_inv lk (io_failed e s)" for e by (rule login_inv_coreI [OF assms(2)]) simp
  show ?thesis
  proof (cases io)
    case (Got bs)
    let ?bs = "take (needed s - length (s_ibuf s)) bs"
    show ?thesis
    proof (cases "bs = []")
      case True
      then show ?thesis using assms(1) n f Got by (auto simp: recv_block_def)
    next
      case False
      then have r: "recv_bytes ?bs s = Some (b, s')" using assms(1) n Got by (simp add: recv_block_def)
      have nb: "?bs \<noteq> []" "length ?bs \<le> needed s - length (s_ibuf s)" using False assms(3) by (auto simp: input_ok_def)
      show ?thesis using recv_bytes_inv [OF r assms(2)] recv_bytes_input_ok [OF assms(3) nb] r by metis
    qed
  qed (use assms n f in \<open>auto simp: recv_block_def\<close>)
qed

section \<open>Reachable states\<close>

text \<open>
  A session from its start (after the banner) through any number of rounds of the loop, with any
  results of the sockets; between the rounds other processes may do anything to the file system, and
  the program may be told to exit.  \<open>go\<close> is whether the loop goes on.
\<close>

inductive reaches :: "bool \<Rightarrow> session \<Rightarrow> bool" where
  start: "banner (init_protocol to fa is_pipe ip e) = Some (True, s) \<Longrightarrow> reaches True s"
| step: "reaches True s \<Longrightarrow> loop_step sel s = Some (go, s') \<Longrightarrow> reaches go s'"
| env: "reaches True s \<Longrightarrow> reaches True (s\<lparr>x_w := w, x_exit := b\<rparr>)"

lemma loop_step_inv:
  assumes "loop_step sel s = Some (go, s')" "login_inv lk s" "input_ok s"
  shows "login_inv lk s' \<and> (go \<longrightarrow> input_ok s')"
proof -
  obtain s1 where n: "(if want_file s then next_file s else Some s) = Some s1"
    using assms(1) by (auto simp: loop_step_def split: option.splits)
  have c1: "core s1 = core s" using n core_next_file by (auto split: if_splits)
  let ?s2 = "send_EOB s1" and ?e = "end_batch (send_EOB s1)" and ?t = "touch_busy (send_EOB s1)"
  have i: "login_inv lk t \<and> input_ok t" if "core t = core s" for t
    using login_inv_coreI [OF assms(2) that] input_ok_core [OF that] assms(3) by simp
  show ?thesis
  proof (cases "batch_over ?s2")
    case True
    then have "s' = clear_status ?e \<or> s' = next_batch ?e"
      using assms(1) n by (auto simp: loop_step_def Let_def split: if_splits)
    then have "core s' = core s" using c1 by auto
    then show ?thesis using i by simp
  next
    case False
    then have l: "loop_select sel ?s2 = Some (go, s')"
      using assms(1) n by (simp add: loop_step_def Let_def)
    have it: "login_inv lk ?t" "input_ok ?t" using i c1 by simp_all
    show ?thesis
    proof (cases sel)
      case (Sel_ready rd wr)
      let ?w = "if want_write ?s2 then wr else None"
      have io: "loop_io rd ?w ?t = Some (go, s')" using l Sel_ready by (simp add: loop_select_def Let_def)
      obtain ok s3 where r: "(case rd of None \<Rightarrow> Some (True, ?t) | Some r \<Rightarrow> recv_block r ?t) = Some (ok, s3)"
        using io by (auto simp: loop_io_def split: option.splits)
      have i3: "login_inv lk s3" "ok \<longrightarrow> input_ok s3"
        using r recv_block_inv [OF _ it] it by (auto split: option.splits)
      show ?thesis
      proof (cases "ok \<and> ?w \<noteq> None")
        case True
        then obtain io2 q where s2: "send_block io2 s3 = Some (q, s')"
          using io r by (auto simp: loop_io_def split: option.splits)
        note c = core_send_block [OF s2]
        show ?thesis using login_inv_coreI [OF i3(1) c] input_ok_core [OF c] i3(2) True by simp
      next
        case False
        then have "s' = s3 \<and> go = ok" using io r by (cases ok) (auto simp: loop_io_def split: option.splits)
        then show ?thesis using i3 by simp
      qed
    next
      case Sel_timeout
      then have "\<not> go \<and> s' = note_bad_try ''Timeout!'' (?t\<lparr>s_io_error := True\<rparr>)" using l by (auto simp: loop_select_def Let_def)
      then show ?thesis using i [of s'] c1 by simp
    next
      case (Sel_error e)
      then have "\<not> go \<and> s' = io_failed e ?t" using l by (auto simp: loop_select_def Let_def)
      then show ?thesis using i [of s'] c1 by simp
    qed
  qed
qed

lemma banner_inv:
  assumes "banner s = Some (b, s')" "login_inv lk s" "input_ok s" "\<not> s_YES_CRYPT s"
  shows "login_inv lk s' \<and> input_ok s'"
proof -
  have "login_inv lk (banner_cram s)"
    using assms(2,4) by (simp add: banner_cram_def Let_def) (simp add: login_inv_def)
  moreover have "s_isize (banner_cram s) = s_isize s \<and> s_ibuf (banner_cram s) = s_ibuf s"
    by (simp add: banner_cram_def Let_def msg_send2_def seal_eq)
  then have "input_ok (banner_cram s)" using assms(3) by (simp only: input_ok_def needed_def)
  moreover have "core s' = core (banner_cram s)"
    using assms(1) by (auto simp: banner_def Let_def split: if_splits option.splits)
  ultimately show ?thesis using login_inv_coreI input_ok_core by blast
qed

lemma init_inv: "kept lk (x_bsy e) \<Longrightarrow> login_inv lk (init_protocol to fa p ip e) \<and> input_ok (init_protocol to fa p ip e) \<and>
    \<not> s_YES_CRYPT (init_protocol to fa p ip e)"
  by (simp add: init_protocol_def login_inv_def input_ok_def needed_def)

lemma reaches_inv: "reaches go s \<Longrightarrow> login_inv {} s \<and> (go \<longrightarrow> input_ok s)"
proof (induction rule: reaches.induct)
  case (start to fa is_pipe ip e s)
  then show ?case using banner_inv [OF start, of "{}"] init_inv [of "{}" e to fa is_pipe ip] by (simp add: kept_def)
next
  case (step s sel go s')
  then show ?case using loop_step_inv by blast
next
  case (env s)
  then show ?case
    by (intro conjI impI; (elim conjE)?) (rule login_inv_coreI input_ok_core [THEN iffD2], simp_all)+
qed

text \<open>A reachable state for the examples: an answering session after its banner.\<close>

lemma s_to_same [simp]: "s_to (msg_send2 m a b s) = s_to s" "s_to (msg_sendf m t s) = s_to s" "s_to (send_ADR s) = s_to s"
  by (rule coreD(2), simp)+

lemma s_to_cram [simp]: "s_to (banner_cram s) = s_to s"
  by (simp add: banner_cram_def Let_def)

lemma banner_answers: "s_to s = None \<Longrightarrow> \<exists>s'. banner s = Some (True, s')"
  unfolding banner_def Let_def by simp

lemma ex_reaches: "\<exists>s. reaches True s"
proof -
  have "s_to (init_protocol None None False [] sample_session) = None" by (simp add: init_protocol_def)
  then show ?thesis using banner_answers reaches.start by blast
qed

section \<open>A session for the examples\<close>

text \<open>An answering session of the sample configuration that hears one address.\<close>

definition open_cfg :: BINKD_CONFIG where
  "open_cfg = sample_cfg\<lparr>nNodSorted := True\<rparr>"

abbreviation ex_ip :: string where
  "ex_ip \<equiv> ''192.0.2.1''"

definition early :: "world \<Rightarrow> BSY_ADDR list \<Rightarrow> FTN_ADDR list \<Rightarrow> session \<Rightarrow> bool" where
  "early w b fas s \<longleftrightarrow> s_state s = P_NULL \<and> s_to s = None \<and> \<not> s_YES_CRYPT s \<and> x_cfg s = open_cfg \<and>
     \<not> s_remote_EOB s \<and> s_in s = TF_ZERO \<and> s_killlist s = [] \<and> \<not> s_delay_ADR s \<and> x_w s = w \<and> x_bsy s = b \<and>
     s_fa s = fas \<and> s_nfa s = length fas \<and> s_ipaddr s = ex_ip"

lemma early_init: "early empty_world [] [] (init_protocol None None False ex_ip (sample_session\<lparr>x_cfg := open_cfg\<rparr>))"
  by (simp add: early_def init_protocol_def sample_session_def sample_cfg_def open_cfg_def)

lemma early_send [simp]: "early w b fas (msg_send2 m x y s) = early w b fas s"
  "early w b fas (msg_sendf m x s) = early w b fas s"
  by (simp_all add: early_def msg_sendf_def msg_send2_def seal_eq)

lemma early_frame [simp]: "early w b fas (s\<lparr>s_pAddr := p\<rparr>) = early w b fas s"
  "early w b fas (s\<lparr>s_MD_challenge := c\<rparr>) = early w b fas s" "early w b fas (s\<lparr>s_MD_flag := mf\<rparr>) = early w b fas s"
  "early w b fas (s\<lparr>s_isize := i\<rparr>) = early w b fas s"
  "early w b fas (s\<lparr>s_ibuf := ib\<rparr>) = early w b fas s"
  "early w b fas (s\<lparr>s_keys_in := k\<rparr>) = early w b fas s"
  "early w b fas (s\<lparr>s_imsg := im\<rparr>) = early w b fas s"
  "early w b fas (s\<lparr>s_msgs_in_batch := mb\<rparr>) = early w b fas s"
  "early w b fas (s\<lparr>s_THEY_ND := nd, s_WANT_NR := nr\<rparr>) = early w b fas s"
  by (simp_all add: early_def)

lemma early_ADR [simp]: "early w b fas (send_ADR s) = early w b fas s"
  by (simp add: send_ADR_def Let_def)

lemma early_banner:
  assumes "early w b fas s"
  obtains s' where "banner s = Some (True, s')" "early w b fas s'" "s_isize s' = s_isize s" "s_ibuf s' = s_ibuf s"
proof -
  have to: "s_to s = None" using assms by (simp add: early_def)
  obtain s' where s': "banner s = Some (True, s')" using banner_answers [OF to] by blast
  have c: "early w b fas (banner_cram s)" using assms by (simp add: banner_cram_def Let_def)
  have d: "core s' = core (banner_cram s)" "early w b fas s'"
    using s' to c by (simp_all add: banner_def Let_def) (auto split: if_splits)
  have "s_isize (banner_cram s) = s_isize s" "s_ibuf (banner_cram s) = s_ibuf s"
    by (simp_all add: banner_cram_def Let_def coreD [OF core_msg_send2])
  then show thesis using that s' d(2) coreD [OF d(1)] by simp
qed

lemma early_round:
  assumes "early w b fas s"
  shows "loop_step (Sel_ready (Some r) None) s = recv_block r (touch_busy s)"
    "loop_step (Sel_error e) s = Some (False, io_failed e (touch_busy s))"
proof -
  have w: "\<not> want_file s" "send_EOB s = s" "\<not> batch_over s"
    using assms by (simp_all add: early_def want_file_def send_EOB_def batch_over_def)
  show "loop_step (Sel_error e) s = Some (False, io_failed e (touch_busy s))"
    by (simp add: loop_step_def w Let_def loop_select_def)
  have "loop_io (Some r) None t = recv_block r t" for t
  proof (cases "recv_block r t")
    case (Some p)
    then show ?thesis by (cases p; cases "fst p") (simp_all add: loop_io_def)
  qed (simp add: loop_io_def)
  then show "loop_step (Sel_ready (Some r) None) s = recv_block r (touch_busy s)"
    by (simp add: loop_step_def w Let_def loop_select_def)
qed


lemma early_touch:
  assumes "early w b fas s"
  shows "\<exists>w'. early w' b fas (touch_busy s) \<and> w_denied w' = w_denied w \<and> (b = [] \<longrightarrow> w' = w)"
    "s_isize (touch_busy s) = s_isize s" "s_ibuf (touch_busy s) = s_ibuf s" "s_imsg (touch_busy s) = s_imsg s"
proof -
  have u: "w_denied (snd (touch p t v)) = w_denied v" for p t v
    by (simp add: touch_def utime_def split: option.split fentry.split prod.split)
  have c: "w_denied (touch_cell c v d) = w_denied v" for c v d by (simp add: touch_cell_def Let_def u)
  have f: "w_denied (foldl (touch_cell c) v l) = w_denied v" for c v l by (induction l arbitrary: v) (simp_all add: c)
  show "\<exists>w'. early w' b fas (touch_busy s) \<and> w_denied w' = w_denied w \<and> (b = [] \<longrightarrow> w' = w)"
    using assms by (simp add: early_def touch_busy_def bsy_touch_def f)
  show "s_isize (touch_busy s) = s_isize s" "s_ibuf (touch_busy s) = s_ibuf s" "s_imsg (touch_busy s) = s_imsg s"
    by (simp_all add: touch_busy_def split: prod.split)
qed

lemma early_header:
  assumes "early w b fas s" "s_isize s = -1" "s_ibuf s = []" "length h = 2" "hdr_imsg h" "hdr_size h = int n" "0 < n"
  shows "\<exists>s'. recv_block (Got h) s = Some (True, s') \<and> early w b fas s' \<and> s_isize s' = int n \<and> s_imsg s' \<and> s_ibuf s' = []"
proof -
  have c: "\<not> crypt_on s" "needed s = 2" "h \<noteq> []" using assms by (auto simp: early_def crypt_on_def needed_def)
  then show ?thesis using assms by (simp add: recv_block_def recv_bytes_def take_header_def Let_def)
qed

lemma early_body:
  assumes "early w b fas s" "s_isize s = int (length bs)" "s_imsg s" "s_ibuf s = []" "bs \<noteq> []"
    and "\<And>t. early w b fas t \<Longrightarrow> \<exists>s'. recv_msg bs t = Some (True, s') \<and> early w' b' fas' s'"
  shows "\<exists>s'. recv_block (Got bs) s = Some (True, s') \<and> early w' b' fas' s'"
proof -
  have c: "\<not> crypt_on s" "needed s = length bs" using assms by (auto simp: early_def crypt_on_def needed_def)
  let ?t = "s\<lparr>s_ibuf := bs, s_keys_in := s_keys_in s\<rparr>"
  obtain s' where r: "recv_msg bs ?t = Some (True, s')" "early w' b' fas' s'" using assms(6) [of ?t] assms(1) by auto
  then show ?thesis using assms(2-5) c
    by (simp add: recv_block_def recv_bytes_def got_block_def Let_def)
qed

lemma sent_early: "early w b fas t \<Longrightarrow> t = s \<Longrightarrow> early w b fas s" by simp

lemma ex_link_path: "lock_path ex_link F_BSY open_cfg = ''/var/spool/outb/00020003.bsy''"
  "lock_path ex_link F_CSY open_cfg = ''/var/spool/outb/00020003.csy''"
proof -
  have "ftnaddress_to_filename ex_link (pDomains open_cfg) = ''/var/spool/outb/00020003''"
    using ex_filename by (simp add: open_cfg_def)
  then show "lock_path ex_link F_BSY open_cfg = ''/var/spool/outb/00020003.bsy''"
    "lock_path ex_link F_CSY open_cfg = ''/var/spool/outb/00020003.csy''"
    by (simp_all add: lock_path_def strnzcat_def strnzcpy_def)
qed

lemma ex_int32: "addr_int32 ex_link" by (simp add: ex_link_def addr_int32_def int32_def)

lemma ex_link_add:
  obtains w where "bsy_add ex_link bt open_cfg (empty_world, []) = (True, w, [\<lparr>b_fa = ex_link, b_bt = bt\<rparr>])"
    "\<not> denied w (lock_path ex_link bt open_cfg)"
proof -
  have "length (lock_path ex_link bt open_cfg) < MAXPATHLEN"
    "plain_path (lock_path ex_link bt open_cfg)" "parent (lock_path ex_link bt open_cfg) \<noteq> []"
    by (cases bt; simp add: ex_link_path plain_path_def parent_def strrchr_def)+
  then have "fst (make_lock open_cfg (ex_link, bt) empty_world)"
    using make_lock_ok [of "(ex_link, bt)" open_cfg empty_world]
    by (auto simp: empty_world_def is_file_def stat_def access_def)
  then obtain w where w: "make_lock open_cfg (ex_link, bt) empty_world = (True, w)" by (metis (full_types) prod.collapse)
  show thesis
    using that [of w] w make_lock_denied [OF w] by (simp add: bsy_add_def bsy_get_free_cell_def)
qed

lemma ex_link_node: "early w b fas s \<Longrightarrow> node_of ex_link s = (None, s)"
proof -
  assume e: "early w b fas s"
  have "get_node_info ex_link t open_cfg = (None, open_cfg)" for t
    by (simp add: get_node_info_def get_node_index_def open_cfg_def sample_cfg_def search_for_node_def bsearch_def bsearch_from.simps)
  then show ?thesis using e by (simp add: node_of_def early_def)
qed


definition ex_str :: string where
  "ex_str = ''2:2/3@fidonet''"

lemma ex_str_words: "all_words ex_str no_flags = Some [ex_str]" "getwordx ex_str 1 no_flags = GwWord ex_str"
  "parse_ftnaddress ex_str [fidonet] = Some ex_link"
proof -
  have p: "plain_line no_flags ex_str" "Getw.fields ex_str = [ex_str]" by code_simp+
  show "all_words ex_str no_flags = Some [ex_str]" using all_words_plain [OF p(1)] p(2) by simp
  show "getwordx ex_str 1 no_flags = GwWord ex_str" by code_simp
  show "parse_ftnaddress ex_str [fidonet] = Some ex_link" by code_simp
qed

lemma early_lock:
  assumes "early empty_world [] [] s" "bsy_add ex_link F_BSY open_cfg (empty_world, []) = (True, w, b)"
  shows "\<exists>v s'. adr_addr ex_link adr_start s = Some (ADR_NEXT v s') \<and> ip_verified v = 0 \<and> early w b [ex_link] s'"
  using assms ex_link_node [OF assms(1)]
  by (simp add: adr_addr_def adr_ip_def adr_pwd_def adr_lock_def adr_modes_def adr_start_def early_def)

lemma early_handler:
  assumes "early empty_world [] [] s" "bsy_add ex_link F_BSY open_cfg (empty_world, []) = (True, w, b)"
  shows "\<exists>s'. ADR ex_str s = Some (True, s') \<and> early w b [ex_link] s'"
proof -
  obtain v t where a: "adr_addr ex_link adr_start s = Some (ADR_NEXT v t)" "ip_verified v = 0" "early w b [ex_link] t"
    using early_lock [OF assms] by blast
  have x: "x_cfg s = open_cfg" "s_to s = None" using assms(1) by (simp_all add: early_def)
  have cfg: "shares open_cfg = []" "pDomains open_cfg = [fidonet]" by (simp_all add: open_cfg_def sample_cfg_def)
  have d: "is4D ex_link" "fa_domain ex_link \<noteq> []" by (simp_all add: ex_link_def is4D_def)
  have l: "adr_loop [ex_str] adr_start s = Some (Some v, t)"
    using a(1) d by (simp add: x cfg ex_str_words)
  have f: "adr_finish v t = (True, adr_modes_done v t)"
    using a(2,3) by (simp add: adr_finish_def early_def)
  have "ADR ex_str s = Some (True, adr_modes_done v t)"
    using l f ex_str_words(2) by (simp add: ADR_def x cfg ex_str_words(1))
  moreover have "early w b [ex_link] (adr_modes_done v t)" using a(3) by (simp add: adr_modes_done_def)
  ultimately show ?thesis by blast
qed

lemma early_address:
  assumes "early empty_world [] [] s" "bsy_add ex_link F_BSY open_cfg (empty_world, []) = (True, w, b)"
  shows "\<exists>s'. recv_msg (1 # bytes_of ex_str) s = Some (True, s') \<and> early w b [ex_link] s'"
proof -
  have e: "early empty_world [] [] (s\<lparr>s_msgs_in_batch := s_msgs_in_batch s + 1\<rparr>)" using assms(1) by simp
  have c: "c_string ex_str = ex_str" by (rule c_string_plain) (simp add: ex_str_def)
  show ?thesis using early_handler [OF e assms(2)]
    by (simp add: recv_msg_def msg_codes_def handle_msg_def c)
qed

lemma early_rounds:
  obtains s0 s1 s2 w where "banner (init_protocol None None False ex_ip (sample_session\<lparr>x_cfg := open_cfg\<rparr>)) = Some (True, s0)"
    "loop_step (Sel_ready (Some (Got (mkhdr (14 OR 0x8000)))) None) s0 = Some (True, s1)"
    "loop_step (Sel_ready (Some (Got (1 # bytes_of ''2:2/3@fidonet''))) None) s1 = Some (True, s2)"
    "early w [\<lparr>b_fa = ex_link, b_bt = F_BSY\<rparr>] [ex_link] s2" "\<not> denied w ''/var/spool/outb/00020003.bsy''"
proof -
  let ?e = "init_protocol None None False ex_ip (sample_session\<lparr>x_cfg := open_cfg\<rparr>)"
  let ?h = "mkhdr (14 OR 0x8000)"
  obtain s0 where b: "banner ?e = Some (True, s0)" "early empty_world [] [] s0"
    and i: "s_isize s0 = s_isize ?e" "s_ibuf s0 = s_ibuf ?e" by (rule early_banner [OF early_init])
  have i: "s_isize s0 = -1" "s_ibuf s0 = []" using i by (simp_all add: init_protocol_def)
  obtain w where w: "bsy_add ex_link F_BSY open_cfg (empty_world, []) = (True, w, [\<lparr>b_fa = ex_link, b_bt = F_BSY\<rparr>])"
    "\<not> denied w ''/var/spool/outb/00020003.bsy''" by (rule ex_link_add [of F_BSY, unfolded ex_link_path])
  let ?m = "1 # bytes_of ''2:2/3@fidonet''"
  have t0: "early empty_world [] [] (touch_busy s0)" "s_isize (touch_busy s0) = -1" "s_ibuf (touch_busy s0) = []"
    using early_touch [OF b(2)] i by auto
  obtain s1 where r1: "loop_step (Sel_ready (Some (Got ?h)) None) s0 = Some (True, s1)" and s1: "early empty_world [] [] s1"
      "s_isize s1 = int (length ?m)" "s_imsg s1" "s_ibuf s1 = []"
    using early_header [OF t0, of ?h 14] msg_header [of 14] early_round(1) [OF b(2)] by auto
  have t1: "early empty_world [] [] (touch_busy s1)" "s_isize (touch_busy s1) = int (length ?m)" "s_imsg (touch_busy s1)"
      "s_ibuf (touch_busy s1) = []" using early_touch [OF s1(1)] s1 by auto
  obtain s2 where r2: "loop_step (Sel_ready (Some (Got ?m)) None) s1 = Some (True, s2)"
    "early w [\<lparr>b_fa = ex_link, b_bt = F_BSY\<rparr>] [ex_link] s2"
    using early_body [OF t1 _ early_address [OF _ w(1), unfolded ex_str_def]] early_round(1) [OF s1(1)] by auto
  show thesis by (rule that [OF b(1) r1 r2 w(2)])
qed

lemma ex_active:
  obtains s where "reaches True s" "s_fa s = [ex_link]" "s_nfa s = 1" "x_cfg s = open_cfg" "s_ipaddr s = ex_ip" "s_state s \<noteq> P_SECURE"
proof -
  obtain s0 s1 s2 w where "banner (init_protocol None None False ex_ip (sample_session\<lparr>x_cfg := open_cfg\<rparr>)) = Some (True, s0)"
    "loop_step (Sel_ready (Some (Got (mkhdr (14 OR 0x8000)))) None) s0 = Some (True, s1)"
    "loop_step (Sel_ready (Some (Got (1 # bytes_of ''2:2/3@fidonet''))) None) s1 = Some (True, s2)"
    and e: "early w [\<lparr>b_fa = ex_link, b_bt = F_BSY\<rparr>] [ex_link] s2" by (rule early_rounds)
  then have "reaches True s2" using reaches.start reaches.step by blast
  with e show thesis using that by (simp add: early_def)
qed

section \<open>Reachable states\<close>

text \<open>In every state a session reaches, traffic is encrypted only if the session is protected.\<close>

lemma cipher_only_protected: "reaches go s \<Longrightarrow> crypt_on s \<Longrightarrow> s_state s = P_SECURE \<and> s_MD_flag s \<noteq> 0"
  using reaches_inv [of go s] by (auto simp: login_inv_def crypt_on_def)

text \<open>
  C3: In every state a session reaches, each of the remote's addresses it works for is a complete address
  whose busy flag is in this process's list of locks, so (with the mutual exclusion of the flags) no
  other session works for it; and the active addresses are among those presented.
\<close>

theorem active_addresses_locked:
  assumes "reaches go s"
  shows "list_all (\<lambda>fa. is4D fa \<and> \<lparr>b_fa = fa, b_bt = F_BSY\<rparr> \<in> set (x_bsy s)) (take (s_nfa s) (s_fa s)) \<and>
     s_nfa s \<le> length (s_fa s)"
  using reaches_inv [OF assms] by (auto simp: login_inv_def list_all_iff)

theorem active_addresses_locked_witness:
  "\<exists>s. reaches True s \<and> s_fa s = [ex_link] \<and> s_nfa s = 1 \<and> is4D ex_link \<and> \<lparr>b_fa = ex_link, b_bt = F_BSY\<rparr> \<in> set (x_bsy s)"
proof -
  obtain s where r: "reaches True s" and s: "s_fa s = [ex_link]" "s_nfa s = 1" using ex_active by blast
  have "is4D ex_link" "\<lparr>b_fa = ex_link, b_bt = F_BSY\<rparr> \<in> set (x_bsy s)" using active_addresses_locked [OF r] by (simp_all add: s)
  with r s show ?thesis by blast
qed

text \<open>
  C8: In every state a running session reaches, the size of the block being received fits the input
  buffer and fewer bytes are in the buffer than are waited for, so the next read never goes past the
  array and always asks for at least one byte.
\<close>

theorem input_never_overruns:
  assumes "reaches True s"
  shows "length (s_ibuf s) < needed s \<and> needed s \<le> MAX_BLKSIZE + BLK_HDR_SIZE \<and>
     (s_isize s = -1 \<or> (0 < s_isize s \<and> s_isize s \<le> int MAX_BLKSIZE))"
proof -
  have i: "-1 \<le> s_isize s" "s_isize s \<le> int MAX_BLKSIZE" "length (s_ibuf s) < needed s"
    using reaches_inv [OF assms] by (auto simp: input_ok_def)
  then have "s_isize s \<noteq> 0" by (auto simp: needed_def)
  then show ?thesis using i by (auto simp: needed_def)
qed

theorem input_never_overruns_witness: "\<exists>s. reaches True s \<and> length (s_ibuf s) < needed s"
  using ex_reaches input_never_overruns by blast

section \<open>Who gets a protected session\<close>

text \<open>What only \<^verbatim>\<open>M_PWD\<close> and \<^verbatim>\<open>M_OK\<close> change: the kind of the session, and whether its cipher was turned on.\<close>

definition mode :: "session \<Rightarrow> p_state \<times> FTN_NODE option \<times> bool" where
  "mode s = (s_state s, s_to s, s_YES_CRYPT s)"

lemma mode_core: "core s' = core s \<Longrightarrow> mode s' = mode s"
  unfolding core_def mode_def by simp

lemma NUL_mode: "NUL buf s = Some (b, s') \<Longrightarrow> mode s' = mode s"
proof -
  assume n: "NUL buf s = Some (b, s')"
  have o: "mode (fold NUL_opt ws t) = mode t" for ws t
    by (induction ws arbitrary: t) (simp_all add: NUL_opt_def mode_def)
  have v: "NUL_ver x s = Some t \<Longrightarrow> mode t = mode s" for x t
    by (auto simp: NUL_ver_def Let_def mode_def split: option.splits if_splits)
  let ?t = "strquote buf sq_cntrl"
  show ?thesis
  proof (cases "if starts ''VER '' ?t then NUL_ver ?t s else None")
    case (Some s1)
    then show ?thesis using n v by (auto simp: NUL_def Let_def split: if_splits)
  next
    case None
    then have "core s' = core s \<or> (\<exists>ws. s' = fold NUL_opt ws s)"
      using n unfolding NUL_def Let_def by (auto split: if_splits option.splits)
    then show ?thesis using o mode_core by metis
  qed
qed

fun adr_session :: "adr_result \<Rightarrow> session" where
  "adr_session (ADR_GO v s) = s" | "adr_session (ADR_NEXT v s) = s" | "adr_session (ADR_FAIL s) = s"

lemma mode_same [simp]: "mode (msg_send2 m a b s) = mode s" "mode (msg_sendf m t s) = mode s"
  "mode (note_bad_try e s) = mode s" "mode (do_prescan s) = mode s" "mode (send_ADR s) = mode s"
  by (rule mode_core, simp)+

lemma adr_ip_mode: "adr_ip pn v s = Some r \<Longrightarrow> mode (adr_session r) = mode s"
  by (auto simp: adr_ip_def split: option.splits if_splits)

lemma adr_pwd_mode: "adr_pwd fa pn v s = Some r \<Longrightarrow> mode (adr_session r) = mode s"
  unfolding adr_pwd_def Let_def by (cases pn) (auto simp: mode_def split: if_splits)

lemma adr_lock_mode: "mode (adr_session (adr_lock fa pn v s)) = mode s"
  by (simp add: adr_lock_def Let_def split: prod.split bool.split) (simp add: mode_def)

lemma adr_addr_mode: "adr_addr fa v s = Some r \<Longrightarrow> mode (adr_session r) = mode s"
proof -
  assume a: "adr_addr fa v s = Some r"
  obtain pn s1 where n: "node_of fa s = (pn, s1)" by fastforce
  have m1: "mode s1 = mode s" using mode_core [OF core_node_of [OF n]] .
  obtain r1 where r1: "adr_ip pn v s1 = Some r1" using a unfolding adr_addr_def n by (auto split: option.splits)
  have m2: "mode (adr_session r1) = mode s" using adr_ip_mode [OF r1] m1 by simp
  show ?thesis
  proof (cases r1)
    case (ADR_GO v2 s2)
    obtain r2 where r2: "adr_pwd fa pn v2 s2 = Some r2"
      using a unfolding adr_addr_def n prod.case r1 ADR_GO by (auto split: option.splits)
    have m3: "mode (adr_session r2) = mode s" using adr_pwd_mode [OF r2] m2 ADR_GO by simp
    show ?thesis
    proof (cases r2)
      case (ADR_GO v3 s3)
      then have "r = (case adr_lock fa pn v3 s3 of ADR_GO v4 s4 \<Rightarrow> ADR_NEXT (adr_modes pn v4 s4) s4 | q \<Rightarrow> q)"
        using a \<open>r1 = _\<close> unfolding adr_addr_def n prod.case r1 option.case r2
        by (cases "adr_lock fa pn v3 s3") (auto simp: r2)
      then show ?thesis using adr_lock_mode [of fa pn v3 s3] m3 ADR_GO by (cases "adr_lock fa pn v3 s3") simp_all
    qed (use a \<open>r1 = _\<close> m3 n r1 r2 in \<open>auto simp: adr_addr_def\<close>)
  qed (use a m2 n r1 in \<open>auto simp: adr_addr_def\<close>)
qed

lemma adr_loop_mode: "adr_loop ws v s = Some (r, s') \<Longrightarrow> mode s' = mode s"
proof (induction ws arbitrary: v s)
  case (Cons w ws)
  show ?case
  proof (cases "parse_ftnaddress w (pDomains (x_cfg s))")
    case None
    then show ?thesis using Cons.prems by auto
  next
    case (Some fa0)
    show ?thesis
    proof (cases "is4D fa0")
      case False
      then show ?thesis using Some Cons.prems by auto
    next
      case True
      then obtain fa r1 where r1: "adr_addr fa v s = Some r1"
        and l: "adr_loop (w # ws) v s = (case r1 of ADR_FAIL s1 \<Rightarrow> Some (None, s1)
             | ADR_NEXT v1 s1 \<Rightarrow> adr_loop ws v1 s1 | ADR_GO v1 s1 \<Rightarrow> adr_loop ws v1 s1)"
        using Cons.prems unfolding adr_loop.simps Some option.case Let_def by (auto split: option.splits)
      show ?thesis using adr_addr_mode [OF r1] Cons.prems Cons.IH unfolding l by (cases r1) auto
    qed
  qed
qed simp

lemma adr_finish_mode: "adr_finish v s = (b, s') \<Longrightarrow> mode s' = mode s"
proof -
  assume a: "adr_finish v s = (b, s')"
  have md1: "mode (t\<lparr>s_MD_flag := f\<rparr>) = mode t" for t f by (simp add: mode_def)
  have md: "mode (adr_modes_done v t) = mode t" for t by (simp add: adr_modes_done_def mode_def)
  have pw: "mode (snd (send_PWD n t)) = mode t" for n t
    by (simp add: send_PWD_def md1 split: option.split)
  have "mode (snd (adr_finish v s)) = mode s"
    unfolding adr_finish_def by (simp add: md pw split: option.split)
  then show ?thesis using a by simp
qed

lemma ADR_mode: "ADR buf s = Some (b, s') \<Longrightarrow> mode s' = mode s"
proof -
  assume a: "ADR buf s = Some (b, s')"
  define t where "t = (case s_to s of None \<Rightarrow> s | Some n \<Rightarrow> s\<lparr>s_expected_pwd := take MAXPWDLEN (out_password n)\<rparr>)"
  have "mode t = mode s" by (simp add: t_def mode_def split: option.split)
  moreover have "s' = s \<or> (\<exists>ws r u. adr_loop ws adr_start t = Some (r, u) \<and> (s' = u \<or> (\<exists>v b. adr_finish v u = (b, s'))))"
    using a unfolding ADR_def Let_def t_def [symmetric]
    by (auto split: option.splits prod.splits gw_result.splits)
  ultimately show ?thesis using adr_loop_mode adr_finish_mode by metis
qed

text \<open>The verdict, by the password the remote sent; the mode of the digest afterwards.\<close>

lemma check_accepts:
  "check_PWD p c s = Some (False, s1) \<Longrightarrow> accepted p s \<and> (s_MD_flag s1 = s_MD_flag s \<and> s_MD_flag s \<noteq> 1 \<and>
     (s_expected_pwd s = ''!'' \<or> sent_password p s) \<or> s_MD_flag s1 = 1 \<and> (s_expected_pwd s = ''!'' \<or> sent_digest p s))"
  by (auto simp: check_PWD_def accepted_def sent_digest_def sent_password_def split: if_splits option.splits)

lemma verdict_secure:
  assumes "verdict_PWD p s = (ok, s')" "s_state s = P_NULL" "s_state s' = P_SECURE"
  shows "ok \<and> s_expected_pwd s \<noteq> ''-'' \<and> (\<exists>s1. check_PWD p (o_strnicmp p ''CRAM-'' 5 = 0) s = Some (False, s1) \<and>
     s_MD_flag s' = s_MD_flag s1)"
proof -
  have d: "s_state (do_prescan t) = s_state t" "s_MD_flag (do_prescan t) = s_MD_flag t" for t
    by (simp_all add: coreD [OF core_do_prescan])
  have m: "s_state (msg_send2 a b c t) = s_state t" for a b c t by (rule coreD) simp
  let ?cram = "o_strnicmp p ''CRAM-'' 5 = 0"
  have np: "\<not> (s_expected_pwd s = ''-'' \<and> \<not> ?cram)"
    using assms(1,3) by (auto simp: verdict_PWD_def Let_def split: if_splits)
  show ?thesis
  proof (cases "check_PWD p ?cram s")
    case None
    then show ?thesis using assms np by (auto simp: verdict_PWD_def Let_def m)
  next
    case (Some r)
    obtain bad s1 where r: "r = (bad, s1)" by fastforce
    have s1: "s_state s1 = P_NULL" using check_PWD_inv [of p ?cram s bad s1] Some r assms(2) by auto
    have "ok \<and> s_expected_pwd s \<noteq> ''-'' \<and> \<not> bad \<and> s' = do_prescan (s1\<lparr>s_state := P_SECURE\<rparr>)"
      using assms(1,3) np Some r s1 by (auto simp: verdict_PWD_def Let_def m d split: if_splits)
    then show ?thesis using Some r by (simp add: d)
  qed
qed

lemma login_crypt_state: "s_state (login_crypt t) = s_state t"
  by (cases "s_to t") (simp_all add: login_crypt_def Let_def NO_CRYPT_def YES_CRYPT_def)

lemma complete_login_state: "s_state (complete_login s) = s_state s"
proof -
  obtain t where "core t = core s" "complete_login s = login_crypt t" using complete_login_crypt by blast
  then show ?thesis using coreD(1) [of t s] login_crypt_state by simp
qed

lemma other_msgs_mode:
  assumes "handle_msg m buf s = Some (ok, s')" "m \<noteq> M_PWD" "m = M_OK \<longrightarrow> s_to s = None"
  shows "mode s' = mode s"
  using assms by (cases m) (auto simp: handle_msg_def OK_def RError_def BSY_def
      dest: NUL_mode ADR_mode mode_core [OF core_start_file_recv] mode_core [OF core_EOB] mode_core [OF core_GET]
        mode_core [OF core_SKIP] mode_core [OF core_GOT_eq])

text \<open>
  C4: The answering side treats a session as protected only after an \<^verbatim>\<open>M_PWD\<close>, its first, that was accepted: it
  held the digest of the challenge with the expected password, or that password itself (not for a link that
  wants digests), or no password is needed for the link (\<open>!\<close>); no other message of any kind gets there.  When
  the expected password is empty because the passwords of the addresses contradict each other, it can only
  have been the digest with the empty password, which everybody can compute: see
  \<open>conflicting_passwords_open\<close>.
\<close>

theorem only_password_secures:
  assumes "handle_msg m buf s = Some (ok, s')" "s_to s = None" "s_state s \<noteq> P_SECURE" "s_state s' = P_SECURE"
  shows "m = M_PWD \<and> ok \<and> s_state s = P_NULL \<and> s_expected_pwd s \<noteq> ''-'' \<and>
    (s_expected_pwd s = ''!'' \<or> sent_digest buf s \<or> s_expected_pwd s \<noteq> [] \<and> buf = s_expected_pwd s \<and> s_MD_flag s \<noteq> 1)"
proof (cases "m = M_PWD")
  case False
  then have "mode s' = mode s" using assms(1,2) other_msgs_mode by blast
  then show ?thesis using assms(3,4) by (simp add: mode_def)
next
  case True
  then have p: "PWD buf s = Some (ok, s')" using assms(1) by (simp add: handle_msg_def)
  then have n: "s_state s = P_NULL" using assms(2-4) by (auto simp: PWD_def coreD(1) [OF core_msg_send2] split: if_splits)
  obtain vok s1 where v: "verdict_PWD buf s = (vok, s1)" by fastforce
  have "s_state s1 = P_SECURE \<and> ok = vok"
  proof (cases vok)
    case False
    then show ?thesis using p assms(2,4) n v by (simp add: PWD_def)
  next
    case True
    then obtain s2 where a: "auto_NR (pwd_modes s1) = Some s2" "ok"
      "s' = complete_login (msg_send2 M_OK (if s_state (msg_send2 M_NUL ''OPT'' (pwd_opts s2) s2) = P_SECURE then ''secure'' else ''non-secure'') []
        (msg_send2 M_NUL ''OPT'' (pwd_opts s2) s2))"
      using p assms(2) n v by (auto simp: PWD_def Let_def split: option.splits)
    have "s_state s' = s_state s2" by (simp add: a(3) complete_login_state coreD(1) [OF core_msg_send2])
    also have "\<dots> = s_state (pwd_modes s1)" by (rule coreD) (rule core_auto_NR [OF a(1)])
    also have "\<dots> = s_state s1" by (simp add: pwd_modes_def Let_def NO_CRYPT_def)
    finally show ?thesis using assms(4) True a(2) by simp
  qed
  then obtain s2 where "check_PWD buf (o_strnicmp buf ''CRAM-'' 5 = 0) s = Some (False, s2)" "ok" "s_expected_pwd s \<noteq> ''-''"
    using verdict_secure [OF v n] by blast
  then show ?thesis using check_accepts True n unfolding accepted_def sent_password_def by blast
qed

definition ex_login :: session where
  "ex_login = sample_session\<lparr>s_expected_pwd := ''secret'', s_WANT_NR := True, x_cfg := sample_cfg\<lparr>prescan := False\<rparr>\<rparr>"

lemma ex_login_PWD: "\<exists>s'. PWD ''secret'' ex_login = Some (True, s') \<and> s_state s' = P_SECURE"
proof -
  have e: "s_to ex_login = None" "s_state ex_login = P_NULL" "s_expected_pwd ex_login = ''secret''" "s_MD_flag ex_login = 0"
    "s_MD_challenge ex_login = None" "prescan (x_cfg ex_login) = False" "s_WANT_NR ex_login"
    by (simp_all add: ex_login_def sample_session_def)
  let ?s = "ex_login\<lparr>s_state := P_SECURE\<rparr>"
  have v: "verdict_PWD ''secret'' ex_login = (True, ?s)"
    using e by (simp add: verdict_PWD_def check_PWD_def do_prescan_def Let_def)
  have "s_WANT_NR (pwd_modes ?s)" "s_state (pwd_modes ?s) = P_SECURE"
    using e by (simp_all add: pwd_modes_def NO_CRYPT_def Let_def)
  then show ?thesis
    using e v by (simp add: PWD_def auto_NR_def Let_def complete_login_state coreD(1) [OF core_msg_send2])
qed

theorem only_password_secures_witness:
  "\<exists>s'. handle_msg M_PWD ''secret'' ex_login = Some (True, s') \<and> s_state s' = P_SECURE \<and> s_expected_pwd ex_login \<noteq> ''-''"
proof -
  obtain s' where p: "handle_msg M_PWD ''secret'' ex_login = Some (True, s')" "s_state s' = P_SECURE"
    using ex_login_PWD by (auto simp: handle_msg_def)
  moreover have "s_to ex_login = None" "s_state ex_login \<noteq> P_SECURE" by (simp_all add: ex_login_def sample_session_def)
  ultimately show ?thesis using only_password_secures [OF p(1)] by blast
qed

text \<open>
  Contradicting passwords: a remote that presents, after addresses that were taken, one with another
  password is to be refused (\<^verbatim>\<open>drop incoming session with M_ERR\<close>), for which the expected password is emptied.
  But the digest is then compared with that of the empty password; the remote that sends it gets a protected
  session with the addresses taken before, and knows none of their passwords.
\<close>

theorem conflicting_passwords_open:
  assumes "s_to s = None" "s_expected_pwd s \<notin> {[], ''-'', ''!'', n_pwd n}" "n_pwd n \<notin> {''-'', ''!''}"
    and "s_MD_challenge s = Some ch"
  shows "\<exists>s1 s2. adr_pwd fa (Some n) v s = Some (ADR_NEXT v s1) \<and> s_fa s1 = s_fa s \<and> s_nfa s1 = s_nfa s \<and>
     verdict_PWD (MD_buildDigest [] ch) s1 = (True, s2) \<and> s_state s2 = P_SECURE \<and> s_fa s2 = s_fa s \<and> s_nfa s2 = s_nfa s"
proof -
  let ?s1 = "s\<lparr>s_listed_flag := s_listed_flag s OR n_listed n, s_expected_pwd := []\<rparr>"
  let ?s2 = "do_prescan (?s1\<lparr>s_MD_flag := 1, s_state := P_SECURE\<rparr>)"
  have a: "adr_pwd fa (Some n) v s = Some (ADR_NEXT v ?s1)"
    using assms(1-3) by (simp add: adr_pwd_def Let_def)
  have cram: "o_strnicmp (MD_buildDigest [] ch) ''CRAM-'' 5 = 0"
    by (simp add: MD_buildDigest_def MD_toString_def numeral_eq_Suc)
  have "check_PWD (MD_buildDigest [] ch) True ?s1 = Some (False, ?s1\<lparr>s_MD_flag := 1\<rparr>)"
    using assms(4) by (simp add: check_PWD_def)
  then have "verdict_PWD (MD_buildDigest [] ch) ?s1 = (True, ?s2)"
    using cram by (simp add: verdict_PWD_def Let_def)
  moreover have "s_state ?s2 = P_SECURE" "s_fa ?s2 = s_fa s" "s_nfa ?s2 = s_nfa s"
    by (simp_all add: coreD [OF core_do_prescan])
  ultimately show ?thesis using a by (intro exI [of _ ?s1] exI [of _ ?s2]) simp
qed

theorem conflicting_passwords_open_witness:
  "\<exists>s1 s2. verdict_PWD (MD_buildDigest [] (new_challenge (replicate 16 7))) s1 = (True, s2) \<and> s_state s2 = P_SECURE"
proof -
  let ?s = "ex_login\<lparr>s_MD_challenge := Some (new_challenge (replicate 16 7))\<rparr>"
  let ?n = "(new_node FA_ZERO)\<lparr>n_pwd := ''other''\<rparr>"
  have "s_to ?s = None" "s_expected_pwd ?s \<notin> {[], ''-'', ''!'', n_pwd ?n}" "n_pwd ?n \<notin> {''-'', ''!''}"
    by (simp_all add: ex_login_def sample_session_def)
  moreover have "s_MD_challenge ?s = Some (new_challenge (replicate 16 7))" by simp
  ultimately show ?thesis using conflicting_passwords_open [of ?s ?n "new_challenge (replicate 16 7)"] by blast
qed

section \<open>The challenge from end to end\<close>

lemma hex_char_plain: "unat b < 16 \<Longrightarrow> hex_char b \<notin> blanks \<and> hex_char b \<noteq> CHR 0x5C \<and> hex_char b \<noteq> CHR 0x22 \<and>
    \<not> iscntrl (hex_char b) \<and> hex_char b \<noteq> CHR 0x00"
  using nibble_hex [of b] by (auto simp: isxdigit_def isdigit_def iscntrl_def blanks_def isupper_def tolower_def)

lemma toString_plain: "c \<in> set (MD_toString bs) \<Longrightarrow>
    c \<notin> blanks \<and> c \<noteq> CHR 0x5C \<and> c \<noteq> CHR 0x22 \<and> \<not> iscntrl c \<and> c \<noteq> CHR 0x00"
proof -
  assume "c \<in> set (MD_toString bs)"
  then have "c \<in> set ''CRAM-MD5-'' \<or> (\<exists>b. unat b < 16 \<and> c = hex_char b)"
    using unat_lt_16 by (auto simp: MD_toString_def)
  then show ?thesis using hex_char_plain by (auto simp: blanks_def iscntrl_def)
qed

lemma fields_word: "w \<noteq> [] \<Longrightarrow> \<forall>c\<in>set w. c \<notin> blanks \<Longrightarrow> Getw.fields w = [w]"
proof -
  assume w: "w \<noteq> []" "\<forall>c\<in>set w. c \<notin> blanks"
  then have "dropWhile (\<lambda>c. c \<in> blanks) w = w" by (cases w) simp_all
  moreover have "takeWhile (\<lambda>c. c \<notin> blanks) w = w" using w(2) by (simp add: takeWhile_eq_all_conv)
  moreover have "dropWhile (\<lambda>c. c \<notin> blanks) w = []" using w(2) by (simp add: dropWhile_eq_Nil_conv)
  moreover have "Getw.fields [] = []" by (simp add: Getw.fields.simps [of "[]"])
  ultimately show ?thesis unfolding Getw.fields.simps [of w] Let_def using w(1) by (simp only: if_False)
qed

text \<open>The calling side reads the challenge out of the message.\<close>

lemma NUL_challenge:
  assumes "s_to c = Some n" "\<not> x_no_MD5 c" "0 \<le> n_MD_flag n"
  shows "NUL (''OPT '' @ MD_toString bs) c = Some (True, c\<lparr>s_MD_challenge := MD_getChallenge (MD_toString bs)\<rparr>)"
proof -
  let ?w = "MD_toString bs"
  have q: "strquote (''OPT '' @ ?w) sq_cntrl = ''OPT '' @ ?w"
    using toString_plain [of _ bs] by (intro strquote_id) (auto simp: sq_cntrl_def iscntrl_def)
  have "plain_line no_flags ?w"
    using toString_plain [of _ bs] by (auto simp: plain_line_def no_flags_def nul_free_def)
  then have a: "all_words ?w no_flags = Some (Getw.fields ?w)" by (rule all_words_plain)
  have "Getw.fields ?w = [?w]" using toString_plain [of _ bs] by (intro fields_word) (auto simp: MD_toString_def)
  moreover have "NUL_opt ?w c = c\<lparr>s_MD_challenge := MD_getChallenge ?w\<rparr>"
    using assms by (simp add: NUL_opt_def MD_toString_def starts_def)
  ultimately show ?thesis
    unfolding NUL_def q Let_def using a by (simp add: starts_def)
qed

text \<open>
  C17: The digest login succeeds from end to end: the caller reads the challenge out of the answering side's
  first message and answers with a digest that the answering side, expecting the same password,
  accepts; the session is then protected and in digest mode.
\<close>

theorem cram_login_succeeds:
  assumes "length (x_chal a) = MD_CHALLENGE_LEN" "\<not> x_no_MD5 a" "s_to a = None"
    and "s_to c = Some n" "\<not> x_no_MD5 c" "0 \<le> n_MD_flag n"
    and "s_MD_challenge b = s_MD_challenge (banner_cram a)" "s_expected_pwd b = out_password n" "out_password n \<noteq> ''-''"
  shows "\<exists>chal c1 digest b1. banner_cram a = msg_send2 M_NUL chal [] (a\<lparr>s_MD_challenge := s_MD_challenge b\<rparr>) \<and>
     NUL chal c = Some (True, c1) \<and> send_PWD n c1 = (True, (msg_send2 M_PWD digest [] c1)\<lparr>s_MD_flag := 1\<rparr>) \<and>
     verdict_PWD digest b = (True, b1) \<and> s_state b1 = P_SECURE \<and> s_MD_flag b1 = 1"
proof -
  define ch where "ch = new_challenge (x_chal a)"
  have ch: "unat (hd ch) = 16" "length (tl ch) = 16" using assms(1) by (simp_all add: ch_def new_challenge_def)
  let ?t = "''OPT '' @ MD_toString (tl ch)" and ?d = "MD_buildDigest (out_password n) ch"
  let ?c = "c\<lparr>s_MD_challenge := Some ch\<rparr>" and ?b = "do_prescan (b\<lparr>s_MD_flag := 1, s_state := P_SECURE\<rparr>)"
  have ba: "banner_cram a = msg_send2 M_NUL ?t [] (a\<lparr>s_MD_challenge := Some ch\<rparr>)"
    using assms(2,3) ch by (simp add: banner_cram_def Let_def flip: ch_def)
  then have sb: "s_MD_challenge b = Some ch" using assms(7) by (simp add: coreD(5) [OF core_msg_send2])
  have "MD_getChallenge (MD_toString (tl ch)) = Some ch" unfolding ch_def by (rule getChallenge_new [OF assms(1)])
  then have nul: "NUL ?t c = Some (True, ?c)" using NUL_challenge [OF assms(4-6), of "tl ch"] by simp
  have snd: "send_PWD n ?c = (True, (msg_send2 M_PWD ?d [] ?c)\<lparr>s_MD_flag := 1\<rparr>)" by (simp add: send_PWD_def)
  have cram: "o_strnicmp ?d ''CRAM-'' 5 = 0" by (simp add: MD_buildDigest_def MD_toString_def numeral_eq_Suc)
  have "check_PWD ?d True b = Some (False, b\<lparr>s_MD_flag := 1\<rparr>)"
    using sb assms(8) by (simp add: check_PWD_def)
  then have v: "verdict_PWD ?d b = (True, ?b)" using cram assms(8,9) by (simp add: verdict_PWD_def Let_def)
  have "s_state ?b = P_SECURE" "s_MD_flag ?b = 1" by (simp_all add: coreD [OF core_do_prescan])
  then show ?thesis using ba sb nul snd v by metis
qed

definition ex_node :: FTN_NODE where
  "ex_node = (new_node FA_ZERO)\<lparr>n_out_pwd := Some ''secret''\<rparr>"

theorem cram_login_succeeds_witness:
  "\<exists>digest b1. verdict_PWD digest (ex_login\<lparr>s_MD_challenge := s_MD_challenge (banner_cram sample_session)\<rparr>) = (True, b1) \<and>
     s_state b1 = P_SECURE"
proof -
  let ?b = "ex_login\<lparr>s_MD_challenge := s_MD_challenge (banner_cram sample_session)\<rparr>"
  have "length (x_chal sample_session) = MD_CHALLENGE_LEN" "\<not> x_no_MD5 sample_session" "s_to sample_session = None"
    "s_to (sample_session\<lparr>s_to := Some ex_node\<rparr>) = Some ex_node" "\<not> x_no_MD5 (sample_session\<lparr>s_to := Some ex_node\<rparr>)"
    by (simp_all add: sample_session_def)
  moreover have "0 \<le> n_MD_flag ex_node" "out_password ex_node = ''secret''" "out_password ex_node \<noteq> ''-''"
    by (simp_all add: ex_node_def new_node_def out_password_def)
  moreover have "s_MD_challenge ?b = s_MD_challenge (banner_cram sample_session)" "s_expected_pwd ?b = ''secret''"
    by (simp_all add: ex_login_def)
  ultimately show ?thesis
    using cram_login_succeeds [of sample_session "sample_session\<lparr>s_to := Some ex_node\<rparr>" ex_node ?b] by metis
qed

section \<open>One cipher for both ends\<close>

lemma login_crypt_keys:
  assumes "crypt_on (login_crypt s)" "\<not> s_YES_CRYPT s"
  shows "login_crypt s = YES_CRYPT s"
proof -
  define b where "b = (if s_state s \<noteq> P_SECURE then NO_CRYPT s
               else if crypt_agreed s \<and> s_MD_flag s = 0 then NO_CRYPT s
               else if crypt_agreed s \<and> s_expected_pwd s = ''!'' then NO_CRYPT s
               else if crypt_agreed s then YES_CRYPT s else s)"
  have l: "login_crypt s = (if crypt_on b then b else NO_CRYPT b)" unfolding login_crypt_def b_def Let_def ..
  have off: "\<not> crypt_on (NO_CRYPT x)" "\<not> crypt_on s" for x using assms(2) by (simp_all add: crypt_on_def NO_CRYPT_def)
  have on: "crypt_on b"
  proof (rule ccontr)
    assume "\<not> crypt_on b"
    then have "login_crypt s = NO_CRYPT b" unfolding l by (rule if_not_P)
    then show False using assms(1) off(1) [of b] by (simp only:)
  qed
  have "b = NO_CRYPT s \<or> b = s \<or> b = YES_CRYPT s" unfolding b_def by (simp only: split: if_split) blast
  then have "b = YES_CRYPT s" using on off by blast
  then show ?thesis unfolding l using on by (simp only: if_True)
qed

definition keys_from :: "FTN_NODE option \<Rightarrow> string \<Rightarrow> session \<Rightarrow> bool" where
  "keys_from to pw s \<longleftrightarrow> (case to of
     Some n \<Rightarrow> s_keys_out s = caller_key (out_password n) \<and> s_keys_in s = answer_key (out_password n)
   | None \<Rightarrow> s_keys_in s = caller_key pw \<and> s_keys_out s = answer_key pw)"

lemma YES_CRYPT_keys: "keys_from (s_to s) (s_expected_pwd s) (YES_CRYPT s)"
  by (cases "s_to s") (simp_all add: keys_from_def YES_CRYPT_def Let_def)

lemma complete_login_keys:
  assumes "crypt_on (complete_login s)" "\<not> s_YES_CRYPT s"
  shows "keys_from (s_to s) (s_expected_pwd s) (complete_login s)"
proof -
  obtain t where t: "core t = core s" "complete_login s = login_crypt t" using complete_login_crypt by blast
  have y: "\<not> s_YES_CRYPT t" using coreD(11) [OF t(1)] assms(2) by simp
  have "login_crypt t = YES_CRYPT t" using login_crypt_keys [OF _ y] assms(1) t(2) by metis
  then show ?thesis using YES_CRYPT_keys [of t] coreD(2,3) [OF t(1)] t(2) by metis
qed

text \<open>What the password check hands to the end of the login.\<close>

lemma PWD_completes:
  assumes "PWD p a = Some (True, a')" "s_to a = None" "\<not> s_YES_CRYPT a"
  shows "\<exists>t s1. a' = complete_login t \<and> s_to t = None \<and> s_expected_pwd t = s_expected_pwd a \<and> \<not> s_YES_CRYPT t \<and>
    verdict_PWD p a = (True, s1) \<and> s_state t = s_state s1 \<and> s_MD_flag t = s_MD_flag s1"
proof -
  obtain s1 s2 where v: "verdict_PWD p a = (True, s1)" "auto_NR (pwd_modes s1) = Some s2"
    and a': "a' = complete_login (msg_send2 M_OK (if s_state (msg_send2 M_NUL ''OPT'' (pwd_opts s2) s2) = P_SECURE then ''secure'' else ''non-secure'') []
        (msg_send2 M_NUL ''OPT'' (pwd_opts s2) s2))"
    using assms(1,2) by (auto simp: PWD_def Let_def split: option.splits if_splits prod.splits bool.splits)
  have d: "s_to (do_prescan t) = s_to t" "s_expected_pwd (do_prescan t) = s_expected_pwd t" "s_YES_CRYPT (do_prescan t) = s_YES_CRYPT t" for t
    by (simp_all add: coreD [OF core_do_prescan])
  have "s_to s1 = None \<and> s_expected_pwd s1 = s_expected_pwd a \<and> \<not> s_YES_CRYPT s1"
    using v(1) assms(2,3) by (auto simp: verdict_PWD_def Let_def d split: if_splits option.splits dest!: check_PWD_inv)
  then have "s_to (pwd_modes s1) = None \<and> s_expected_pwd (pwd_modes s1) = s_expected_pwd a \<and> \<not> s_YES_CRYPT (pwd_modes s1) \<and>
      s_state (pwd_modes s1) = s_state s1 \<and> s_MD_flag (pwd_modes s1) = s_MD_flag s1"
    by (simp add: pwd_modes_def Let_def NO_CRYPT_def)
  then have "s_to s2 = None \<and> s_expected_pwd s2 = s_expected_pwd a \<and> \<not> s_YES_CRYPT s2 \<and>
      s_state s2 = s_state s1 \<and> s_MD_flag s2 = s_MD_flag s1"
    using coreD [OF core_auto_NR [OF v(2)]] by simp
  then have "s_to (msg_send2 m x y (msg_send2 k z w s2)) = None \<and> s_expected_pwd (msg_send2 m x y (msg_send2 k z w s2)) = s_expected_pwd a \<and>
      \<not> s_YES_CRYPT (msg_send2 m x y (msg_send2 k z w s2)) \<and> s_state (msg_send2 m x y (msg_send2 k z w s2)) = s_state s1 \<and>
      s_MD_flag (msg_send2 m x y (msg_send2 k z w s2)) = s_MD_flag s1" for m x y k z w
    by (simp add: coreD [OF core_msg_send2])
  then show ?thesis using v(1) unfolding a' by blast
qed

lemma OK_completes:
  assumes "OK buf c = Some (b, c')" "s_to c = Some n" "\<not> s_YES_CRYPT c"
  shows "\<exists>t. c' = complete_login t \<and> s_to t = Some n \<and> \<not> s_YES_CRYPT t \<and> s_expected_pwd t = s_expected_pwd c \<and>
    s_MD_flag t = s_MD_flag c \<and> s_state t = (if out_password n \<noteq> ''-'' then P_SECURE else P_NONSECURE)"
proof -
  obtain ws where ws: "all_words buf no_flags = Some ws" using assms(1,2) by (auto simp: OK_def split: option.splits)
  define s1 where "s1 = fold ok_word ws (c\<lparr>s_state := if out_password n \<noteq> ''-'' then P_SECURE else P_NONSECURE\<rparr>)"
  define s2 where "s2 = (if s_CAN_NDA s1 = False \<and> s_WE_ND s1 \<noteq> s_THEY_ND s1 then s1\<lparr>s_WE_ND := False, s_THEY_ND := False\<rparr> else s1)"
  have "OK buf c = Some (True, complete_login s2)"
    unfolding OK_def assms(2) option.case ws s2_def s1_def Let_def ..
  then have c': "c' = complete_login s2" using assms(1) by simp
  have f: "s_to (fold ok_word ws t) = s_to t \<and> s_expected_pwd (fold ok_word ws t) = s_expected_pwd t \<and>
      s_state (fold ok_word ws t) = s_state t" for t
    by (induction ws arbitrary: t) (simp_all add: ok_word_def NO_CRYPT_def)
  then have "s_to s1 = Some n" "s_expected_pwd s1 = s_expected_pwd c" "s_state s1 = (if out_password n \<noteq> ''-'' then P_SECURE else P_NONSECURE)"
    using assms(2) by (simp_all add: s1_def)
  moreover have "s_MD_flag s1 = s_MD_flag c" "\<not> s_YES_CRYPT s1"
    using ok_words_frame [of ws "c\<lparr>s_state := if out_password n \<noteq> ''-'' then P_SECURE else P_NONSECURE\<rparr>"] assms(3)
    unfolding s1_def by simp_all
  ultimately show ?thesis using c' by (intro exI [of _ s2]) (simp add: s2_def)
qed

text \<open>
  C18: When both ends of a session turn the cipher on at the end of the login, with the password the caller
  has for the answering side, each can read what the other sends: the outgoing keys of one are the
  incoming keys of the other, and decrypting gives back the plain bytes.
\<close>

theorem ends_share_cipher:
  assumes "PWD p a = Some (True, a')" "s_to a = None" "\<not> s_YES_CRYPT a" "crypt_on a'"
    and "OK buf c = Some (True, c')" "s_to c = Some n" "\<not> s_YES_CRYPT c" "crypt_on c'"
    and "s_expected_pwd a = out_password n"
  shows "s_keys_in a' = s_keys_out c' \<and> s_keys_out a' = s_keys_in c' \<and>
     decoded a' (coded c' bs) = bs \<and> decoded c' (coded a' ds) = ds"
proof -
  obtain t where t: "a' = complete_login t" "s_to t = None" "s_expected_pwd t = out_password n" "\<not> s_YES_CRYPT t"
    using PWD_completes [OF assms(1-3)] assms(9) by auto
  obtain u where u: "c' = complete_login u" "s_to u = Some n" "\<not> s_YES_CRYPT u"
    using OK_completes [OF assms(5-7)] by auto
  have k: "s_keys_in a' = s_keys_out c' \<and> s_keys_out a' = s_keys_in c'"
    using complete_login_keys [of t] complete_login_keys [of u] t u assms(4,8) by (simp add: keys_from_def)
  then show ?thesis using assms(4,8) by (simp add: decoded_def coded_def decrypt_encrypt)
qed

lemma complete_login_on:
  assumes "s_state s = P_SECURE" "crypt_agreed s" "s_MD_flag s \<noteq> 0" "s_expected_pwd s \<noteq> ''!''"
  shows "crypt_on (complete_login s)"
proof -
  obtain t where t: "core t = core s" "complete_login s = login_crypt t" using complete_login_crypt by blast
  have a: "crypt_agreed t" using assms(2) coreD(9,10,11) [OF t(1)] unfolding crypt_agreed_def by simp
  have y: "crypt_on (YES_CRYPT t)" by (cases "s_to t") (simp_all add: YES_CRYPT_def crypt_on_def Let_def)
  have c: "\<not> s_state t \<noteq> P_SECURE" "\<not> (crypt_agreed t \<and> s_MD_flag t = 0)" "\<not> (crypt_agreed t \<and> s_expected_pwd t = ''!'')"
    using assms(1,3,4) coreD(1,3,4) [OF t(1)] by simp_all
  show ?thesis unfolding t(2) login_crypt_def Let_def if_not_P [OF c(1)] if_not_P [OF c(2)] if_not_P [OF c(3)] if_P [OF a] if_P [OF y]
    by (rule y)
qed

definition ex_answer :: session where
  "ex_answer = ex_login\<lparr>s_MD_flag := 1, s_MD_challenge := Some (new_challenge (replicate 16 7)), s_THEY_CRYPT := True\<rparr>"

definition ex_caller :: session where
  "ex_caller = sample_session\<lparr>s_to := Some ex_node, s_expected_pwd := ''secret'', s_MD_flag := 1, s_THEY_CRYPT := True\<rparr>"

lemma ex_answer_PWD:
  "\<exists>a'. PWD (MD_buildDigest ''secret'' (new_challenge (replicate 16 7))) ex_answer = Some (True, a') \<and> crypt_on a'"
proof -
  let ?ch = "new_challenge (replicate 16 7)"
  let ?d = "MD_buildDigest ''secret'' ?ch" and ?s = "ex_answer\<lparr>s_state := P_SECURE\<rparr>"
  have e: "s_to ex_answer = None" "s_state ex_answer = P_NULL" "s_expected_pwd ex_answer = ''secret''" "s_MD_flag ex_answer = 1"
    "s_MD_challenge ex_answer = Some ?ch" "prescan (x_cfg ex_answer) = False" "s_WANT_NR ex_answer" "crypt_agreed ex_answer"
    "ex_answer\<lparr>s_MD_flag := 1\<rparr> = ex_answer"
    by (simp_all add: ex_answer_def ex_login_def sample_session_def crypt_agreed_def)
  have cram: "o_strnicmp ?d ''CRAM-'' 5 = 0" by (simp add: MD_buildDigest_def MD_toString_def numeral_eq_Suc)
  have "check_PWD ?d True ex_answer = Some (False, ex_answer)" using e by (simp add: check_PWD_def)
  then have v: "verdict_PWD ?d ex_answer = (True, ?s)"
    using e cram by (simp add: verdict_PWD_def do_prescan_def Let_def)
  let ?m = "pwd_modes ?s"
  have m: "s_WANT_NR ?m" "s_state ?m = P_SECURE" "crypt_agreed ?m" "s_MD_flag ?m \<noteq> 0" "s_expected_pwd ?m \<noteq> ''!''"
    using e by (simp_all add: pwd_modes_def Let_def crypt_agreed_def)
  have "crypt_on (complete_login (msg_send2 x y z (msg_send2 i j k ?m)))" for x y z i j k
    using m by (intro complete_login_on) (simp_all add: crypt_agreed_def coreD [OF core_msg_send2])
  then show ?thesis using e v m by (simp add: PWD_def auto_NR_def Let_def)
qed

lemma ex_caller_OK: "\<exists>c'. OK ''secure'' ex_caller = Some (True, c') \<and> crypt_on c'"
proof -
  have e: "s_to ex_caller = Some ex_node" "s_MD_flag ex_caller = 1" "crypt_agreed ex_caller" "s_expected_pwd ex_caller = ''secret''"
    "\<not> s_WE_ND ex_caller" "\<not> s_THEY_ND ex_caller" "out_password ex_node = ''secret''"
    by (simp_all add: ex_caller_def sample_session_def crypt_agreed_def ex_node_def out_password_def)
  have "plain_line no_flags ''secure''" by (simp add: plain_line_def no_flags_def nul_free_def)
  moreover have "Getw.fields ''secure'' = [''secure'']" by (rule fields_word) (simp_all add: blanks_def)
  ultimately have w: "all_words ''secure'' no_flags = Some [''secure'']" by (simp add: all_words_plain)
  have "crypt_on (complete_login (ex_caller\<lparr>s_state := P_SECURE\<rparr>))"
    using e by (intro complete_login_on) (simp_all add: crypt_agreed_def)
  then show ?thesis using e w by (simp add: OK_def ok_word_def)
qed

theorem ends_share_cipher_witness:
  "\<exists>a' c'. crypt_on a' \<and> crypt_on c' \<and> decoded a' (coded c' [1, 2, 3]) = [1, 2, 3]"
proof -
  obtain a' where a: "PWD (MD_buildDigest ''secret'' (new_challenge (replicate 16 7))) ex_answer = Some (True, a')" "crypt_on a'"
    using ex_answer_PWD by blast
  obtain c' where c: "OK ''secure'' ex_caller = Some (True, c')" "crypt_on c'" using ex_caller_OK by blast
  have e: "s_to ex_answer = None" "\<not> s_YES_CRYPT ex_answer" "s_to ex_caller = Some ex_node" "\<not> s_YES_CRYPT ex_caller"
    "s_expected_pwd ex_answer = out_password ex_node"
    by (simp_all add: ex_answer_def ex_login_def ex_caller_def sample_session_def ex_node_def out_password_def)
  show ?thesis using ends_share_cipher [OF a(1) e(1,2) a(2) c(1) e(3,4) c(2) e(5), of "[1, 2, 3]"] a(2) c(2) by blast
qed

section \<open>When the cipher is turned on\<close>






end
