(* ===== verification/Delivery.thy ===== *)
theory Delivery
  imports Inbound Spool
begin

text \<open>
  What the inbound does with a complete file: the search for a free name returns, it never overwrites
  or loses a file, and the file stays in the inbound directory.
\<close>

section \<open>The next name\<close>

text \<open>
  How many times a counter character is incremented before it carries.  A counter is read from the
  left, so the lists of these distances decrease lexicographically.
\<close>

definition top_char :: "renamestyletype \<Rightarrow> nat" where
  "top_char style = (if style = RENAME_EXTENSION then 122 else 102)"

definition dist :: "renamestyletype \<Rightarrow> char \<Rightarrow> nat" where
  "dist style c = (top_char style + 256 - ord c) mod 256"

lemma ord_less_256: "ord c < 256"
  by (rule nat_of_char_less_256)

lemma top_digit_iff:
  "style \<noteq> RENAME_POSTFIX \<Longrightarrow> top_digit style c \<longleftrightarrow> ord c = top_char style"
proof -
  assume s: "style \<noteq> RENAME_POSTFIX"
  have i: "c = d \<longleftrightarrow> ord c = ord d" for d :: char by (metis char_of_char)
  have "(c = CHR ''z'') = (ord c = 122)" "(c = CHR ''f'') = (ord c = 102)" by (simp_all only: i) simp_all
  then show ?thesis using s by (cases style) (auto simp: top_digit_def top_char_def)
qed

lemma dist_succ: "ord c \<noteq> top_char style \<Longrightarrow> dist style (char_of (Suc (ord c))) < dist style c"
proof -
  assume n: "ord c \<noteq> top_char style"
  have c: "ord c < 256" by (rule ord_less_256)
  have t: "top_char style = 122 \<or> top_char style = 102" by (simp add: top_char_def)
  have o: "ord (char_of (Suc (ord c)) :: char) = Suc (ord c) mod 256" by simp
  consider "ord c = 255" | "ord c < 255" using c by linarith
  then show ?thesis
  proof cases
    case 1
    then show ?thesis using t by (auto simp: dist_def)
  next
    case 2
    then have m: "ord (char_of (Suc (ord c)) :: char) = Suc (ord c)" using o mod_less [of "Suc (ord c)" 256] by linarith
    consider "ord c < top_char style" | "top_char style < ord c" using n by linarith
    then show ?thesis
    proof cases
      case 1
      have d: "(top_char style + 256 - x) mod 256 = top_char style - x" if x: "x \<le> top_char style" for x
      proof -
        have "top_char style + 256 - x = (top_char style - x) + 256" using x by linarith
        moreover have "top_char style - x < 256" using t by linarith
        ultimately show ?thesis by (simp only: mod_add_self2 mod_less)
      qed
      have "dist style c = top_char style - ord c" using d [of "ord c"] 1 by (simp add: dist_def)
      moreover have "dist style (char_of (Suc (ord c))) = top_char style - Suc (ord c)"
        using d [of "Suc (ord c)"] 1 unfolding dist_def m by linarith
      ultimately show ?thesis using 1 by linarith
    next
      case 2
      have d: "top_char style < x \<Longrightarrow> (top_char style + 256 - x) mod 256 = top_char style + 256 - x" for x
        by (intro mod_less) linarith
      have "dist style c = top_char style + 256 - ord c" using d [of "ord c"] 2 by (simp add: dist_def)
      moreover have "dist style (char_of (Suc (ord c))) = top_char style + 256 - Suc (ord c)"
        using d [of "Suc (ord c)"] 2 unfolding dist_def m by linarith
      ultimately show ?thesis using 2 c by linarith
    qed
  qed
qed

lemma dist_9: "dist style (CHR ''a'') < dist style (CHR ''9'')"
  by (auto simp: dist_def top_char_def)

text \<open>One step of the counter changes some character at or behind its start to a smaller distance, or
  the counter grows to the left.\<close>

lemma bump_step:
  assumes "bump style s f p = (ok, f', s')" "style \<noteq> RENAME_POSTFIX" "s \<le> p" "p < length f"
  shows "length f' = length f \<and> (ok \<longrightarrow> Suc s' = s \<or>
    (s' = s \<and> (\<exists>j. s \<le> j \<and> j \<le> p \<and> dist style (f' ! j) < dist style (f ! j) \<and> (\<forall>i<j. f' ! i = f ! i))))"
  using assms
proof (induction style s f p arbitrary: ok f' s' rule: bump.induct)
  case (1 style s f p)
  note st = 1(3,4,5)
  consider (nine) "f ! p = CHR ''9''" | (top) "f ! p \<noteq> CHR ''9''" "top_digit style (f ! p)"
    | (up) "f ! p \<noteq> CHR ''9''" "\<not> top_digit style (f ! p)" by blast
  then show ?case
  proof cases
    case nine
    then have "ok \<and> f' = f[p := CHR ''a''] \<and> s' = s" using 1(2) by (subst (asm) bump.simps) simp
    then show ?thesis using st nine by (auto simp: dist_9 intro!: exI [of _ p])
  next
    case up
    then have "ok \<and> f' = f[p := char_of (ord (f ! p) + 1)] \<and> s' = s" using 1(2) by (subst (asm) bump.simps) simp
    moreover have "ord (f ! p) \<noteq> top_char style" using up top_digit_iff st by blast
    ultimately show ?thesis using st by (auto simp: dist_succ intro!: exI [of _ p])
  next
    case top
    show ?thesis
    proof (cases p)
      case 0
      then show ?thesis using 1(2) top by (subst (asm) bump.simps) auto
    next
      case (Suc q)
      let ?f1 = "f[p := CHR ''0'']"
      have b: "bump style s f p = (if ?f1 ! q = CHR ''/'' \<or> ?f1 ! q = CHR ''.'' then (False, ?f1, s)
          else if p \<noteq> s then bump style s ?f1 q else (True, ?f1[q := CHR ''0''], q))"
        using top Suc by (subst bump.simps) (simp add: Let_def)
      show ?thesis
      proof (cases "?f1 ! q = CHR ''/'' \<or> ?f1 ! q = CHR ''.'' \<or> p = s")
        case True
        then show ?thesis using 1(2) b Suc by (auto split: if_splits)
      next
        case False
        then have r: "bump style s ?f1 q = (ok, f', s')" using 1(2) b by simp
        have "length f' = length ?f1 \<and> (ok \<longrightarrow> Suc s' = s \<or>
            (s' = s \<and> (\<exists>j. s \<le> j \<and> j \<le> q \<and> dist style (f' ! j) < dist style (?f1 ! j) \<and> (\<forall>i<j. f' ! i = ?f1 ! i))))"
          using 1(1) [OF top Suc refl _ _ r] False Suc st by auto
        then show ?thesis using Suc by (auto simp: nth_list_update)
      qed
    qed
  qed
qed

lemma lex_at:
  assumes "length ys = length xs" "j < length xs" "g (ys ! j) < g (xs ! j)" "\<forall>i<j. ys ! i = xs ! i"
  shows "(map g ys, map g xs) \<in> lex less_than"
proof -
  have "take j ys = take j xs" using assms by (intro nth_equalityI) auto
  then have "ys = take j xs @ ys ! j # drop (Suc j) ys" "xs = take j xs @ xs ! j # drop (Suc j) xs"
    using assms(1,2) by (metis id_take_nth_drop)+
  then have "map g ys = map g (take j xs) @ g (ys ! j) # map g (drop (Suc j) ys)"
    "map g xs = map g (take j xs) @ g (xs ! j) # map g (drop (Suc j) xs)"
    by (metis list.simps(9) map_append)+
  then show ?thesis using assms(1,3) by (auto simp: lex_conv)
qed

lemma lex_at_hd: "g y < g x \<Longrightarrow> (map g (y # xs), map g (x # xs)) \<in> lex less_than"
  by simp

lemma dist_dot: "dist RENAME_BODY (CHR ''0'') < dist RENAME_BODY (CHR ''.'')"
  by (simp add: dist_def top_char_def)

text \<open>The number behind the dot of a postfix.\<close>

section \<open>Searching a name returns\<close>

text \<open>Where the counter may start.\<close>

definition can_start :: "renamestyletype \<Rightarrow> string \<Rightarrow> nat \<Rightarrow> bool" where
  "can_start style real s \<longleftrightarrow> (case style of
     RENAME_POSTFIX \<Rightarrow> s \<le> length real
   | RENAME_EXTENSION \<Rightarrow> s \<le> length real \<and> real \<noteq> []
   | RENAME_BODY \<Rightarrow> s < length real)"

definition postfix_left :: "string \<Rightarrow> nat \<Rightarrow> nat" where
  "postfix_left real s = (if drop s real = [] then 20000 else nat (10001 - atoi (drop (Suc s) real)))"

definition name_order :: "((renamestyletype \<times> string \<times> nat) \<times> (renamestyletype \<times> string \<times> nat)) set" where
  "name_order = inv_image (less_than <*lex*> less_than <*lex*> less_than <*lex*> lex less_than)
     (\<lambda>(style, real, s). (if style = RENAME_POSTFIX then 0 else 1 :: nat,
        if style = RENAME_POSTFIX then postfix_left real s else 0, s, map (dist style) (drop s real)))"

lemma wf_name_order: "wf name_order"
  unfolding name_order_def by (intro wf_inv_image wf_lex_prod wf_lex wf_less_than)

lemma to_postfix: "style \<noteq> RENAME_POSTFIX \<Longrightarrow> ((RENAME_POSTFIX, f, i), (style, g, j)) \<in> name_order"
  by (simp add: name_order_def)

lemma takeWhile_less: "takeWhile P xs \<noteq> xs \<Longrightarrow> length (takeWhile P xs) < length xs"
  by (metis length_takeWhile_le nat_less_le takeWhile_eq_take take_all_iff)

lemma next_name_decreases:
  assumes "next_inb_filename style real s = (True, real', s')" "can_start style real s"
  shows "can_start style real' s' \<and> ((style, real', s'), (style, real, s)) \<in> name_order"
proof (cases "style = RENAME_POSTFIX")
  case True
  have s: "s \<le> length real" using assms(2) True by (simp add: can_start_def)
  show ?thesis
  proof (cases "drop s real = []")
    case nil: True
    then have "real' = real @ ''.1''" "s' = s" "s = length real"
      using assms(1) s True by (auto simp: next_inb_filename_def)
    moreover have "atoi ''1'' = 1" by code_simp
    ultimately show ?thesis using True nil by (simp add: can_start_def name_order_def postfix_left_def)
  next
    case False
    define n where "n = atoi (drop (Suc s) real)"
    have n: "0 < n" "n \<le> MAX_INB_RENAME" and r: "real' = take (Suc s) real @ dec_of_int (n + 1)" "s' = s"
      using assms(1) False True by (auto simp: next_inb_filename_def n_def Let_def drop_Suc tl_drop split: if_splits)
    have "drop (Suc s) real' = dec_of_int (n + 1)" and "s < length real'" using r False by auto
    moreover have "atoi (dec_of_int (n + 1)) = n + 1" using n by (intro atoi_dec) auto
    moreover have "drop s real' \<noteq> []" using \<open>s < length real'\<close> by simp
    ultimately have "postfix_left real' s' = nat (10001 - (n + 1))" using r(2) unfolding postfix_left_def by simp
    moreover have "postfix_left real s = nat (10001 - n)" using False by (simp add: postfix_left_def n_def)
    ultimately have "postfix_left real' s' < postfix_left real s" using n by simp
    then show ?thesis using True \<open>s < length real'\<close> r by (simp add: can_start_def name_order_def)
  qed
next
  case False
  define rest where "rest = drop s real"
  show ?thesis
  proof (cases "(style = RENAME_EXTENSION \<and> rest = []) \<or> (style = RENAME_BODY \<and> rest \<noteq> [] \<and> hd rest = CHR ''.'')")
    case True
    then have r: "real' = real[s - 1 := CHR ''0'']" "s' = s - 1"
      using assms(1) False by (auto simp: next_inb_filename_def rest_def)
    have c: "can_start style real' s'" using assms(2) r by (auto simp: can_start_def split: renamestyletype.splits)
    show ?thesis
    proof (cases "s = 0")
      case s0: True
      then have st: "style = RENAME_BODY" and "real \<noteq> []" "hd real = CHR ''.''"
        using True assms(2) by (auto simp: rest_def can_start_def)
      then obtain t where t: "real = CHR ''.'' # t" by (cases real) auto
      then have t': "real' = CHR ''0'' # t" using r s0 by simp
      have "(map (dist RENAME_BODY) real', map (dist RENAME_BODY) real) \<in> lex less_than"
        unfolding t t' by (rule lex_at_hd) (rule dist_dot)
      then show ?thesis using c s0 r(2) st by (simp add: name_order_def)
    next
      case s1: False
      then show ?thesis using c r False by (auto simp: name_order_def)
    qed
  next
    case bumped: False
    define p where "p = s + length (takeWhile isalnum (drop 1 rest))"
    have b: "bump style s real p = (True, real', s')"
      using assms(1) False bumped unfolding next_inb_filename_def Let_def rest_def [symmetric] p_def [symmetric]
      by auto
    have s: "s < length real"
      using assms(2) False bumped by (cases style) (auto simp: can_start_def rest_def)
    have p: "s \<le> p" "p < length real"
      using s length_takeWhile_le [of isalnum "drop 1 rest"] by (auto simp: p_def rest_def)
    have l: "length real' = length real" and m: "Suc s' = s \<or>
       (s' = s \<and> (\<exists>j. s \<le> j \<and> j \<le> p \<and> dist style (real' ! j) < dist style (real ! j) \<and> (\<forall>i<j. real' ! i = real ! i)))"
      using bump_step [OF b False p] by auto
    have "((style, real', s'), (style, real, s)) \<in> name_order"
    proof (cases "Suc s' = s")
      case True
      then show ?thesis using False by (simp add: name_order_def)
    next
      case same: False
      then obtain j where j: "s \<le> j" "j \<le> p" "dist style (real' ! j) < dist style (real ! j)" "\<forall>i<j. real' ! i = real ! i"
        and ss: "s' = s" using m by blast
      have "(map (dist style) (drop s real'), map (dist style) (drop s real)) \<in> lex less_than"
        using j l p by (intro lex_at [of _ _ "j - s"]) auto
      then show ?thesis using False ss by (simp add: name_order_def)
    qed
    moreover have "s' < length real'" using m l s by linarith
    then have "can_start style real' s'" using False by (cases style) (auto simp: can_start_def)
    ultimately show ?thesis by blast
  qed
qed

lemma rename_loop_returns:
  assumes "can_start style real s" "base \<le> length orig"
  shows "\<exists>r w'. rename_loop tmp orig base style real s w = Some (r, w')"
  using assms(1)
proof (induction "(style, real, s)" arbitrary: style real s w rule: wf_induct_rule [OF wf_name_order])
  case 1
  obtain e w1 where o: "o_rename tmp real w = (e, w1)" by (cases "o_rename tmp real w")
  obtain ok real' s' where n: "next_inb_filename style real s = (ok, real', s')" by (metis prod_cases3)
  have "\<exists>r w'. rename_loop tmp orig base style real' s' w1 = Some (r, w')" if ok
    using 1(1) [of style real' s'] next_name_decreases [OF _ 1(2), of real' s'] n that by auto
  moreover have "\<exists>r w'. rename_loop tmp orig base RENAME_POSTFIX orig base w1 = Some (r, w')" if "style = RENAME_EXTENSION"
  proof -
    have "can_start RENAME_POSTFIX orig base" using assms(2) by (simp add: can_start_def)
    moreover have "((RENAME_POSTFIX, orig, base), (style, real, s)) \<in> name_order" using that by (intro to_postfix) simp
    ultimately show ?thesis using 1(1) [of RENAME_POSTFIX orig base] by blast
  qed
  ultimately show ?case by (subst rename_loop.simps) (use n o in \<open>auto split: option.split\<close>)
qed

lemma test_loop_returns:
  assumes "can_start style fp s"
  shows "\<exists>b. test_loop style sz t fp s w = Some b"
  using assms
proof (induction "(style, fp, s)" arbitrary: style fp s rule: wf_induct_rule [OF wf_name_order])
  case 1
  obtain ok fp' s' where n: "next_inb_filename style fp s = (ok, fp', s')" by (metis prod_cases3)
  have "\<exists>b. test_loop style sz t fp' s' w = Some b" if ok
    using 1(1) [of style fp' s'] next_name_decreases [OF _ 1(2), of fp' s'] n that by auto
  then show ?case by (subst test_loop.simps) (auto simp: n split: option.split)
qed

subsection \<open>The real name\<close>

lemma in_dir_neq: "d \<noteq> [] \<Longrightarrow> in_dir d \<noteq> []"
  by (auto simp: in_dir_def strnzcpy_def strnzcat_def Let_def)

lemma wiped_prefix: "length dir \<le> length (wiped dir name) \<and> take (length dir) (wiped dir name) = dir"
proof -
  have "length dir \<le> length (strnzcat dir name MAXPATHLEN) \<and> take (length dir) (strnzcat dir name MAXPATHLEN) = dir"
    by (simp add: strnzcat_def)
  then show ?thesis by (simp add: wiped_def Let_def)
qed

lemma wiped_name: "CHR ''/'' \<notin> set (drop (length dir) (wiped dir name))"
proof -
  have "length (take (length dir) (strnzcat dir name MAXPATHLEN)) = length dir" by (simp add: strnzcat_def)
  then show ?thesis using strwipe_safe by (auto simp: wiped_def Let_def)
qed

lemma bad_ext_keeps: "real \<noteq> [] \<Longrightarrow> bad_ext bad real \<noteq> []"
  by (auto simp: bad_ext_def Let_def split: option.split)

lemma check_pkthdr_name: "check_pkthdr tmp real s = (real1, s1) \<Longrightarrow> real1 = real \<or> (pkthdr_bad (x_cfg s) \<noteq> [] \<and> real1 = bad_ext (pkthdr_bad (x_cfg s)) real)"
  by (auto simp: check_pkthdr_def Let_def split: if_splits option.splits prod.splits)

section \<open>The name stays below the inbound\<close>

definition below_dir :: "string \<Rightarrow> string \<Rightarrow> bool" where
  "below_dir dir real \<longleftrightarrow> length dir \<le> length real \<and> take (length dir) real = dir \<and> CHR ''/'' \<notin> set (drop (length dir) real)"

definition low_digit :: "renamestyletype \<Rightarrow> char \<Rightarrow> bool" where
  "low_digit style c \<longleftrightarrow> isdigit c \<or> (97 \<le> ord c \<and> ord c \<le> top_char style)"

lemma below_dir_update:
  assumes "below_dir dir f" "length dir \<le> p" "c \<noteq> CHR ''/''"
  shows "below_dir dir (f[p := c])"
proof -
  have "set (drop (length dir) (f[p := c])) \<subseteq> insert c (set (drop (length dir) f))"
    using assms(2) set_update_subset_insert [of "drop (length dir) f" "p - length dir" c] by (simp add: drop_update_swap)
  then show ?thesis using assms by (auto simp: below_dir_def)
qed

lemma below_dir_sep: "below_dir dir f \<Longrightarrow> dir \<noteq> [] \<Longrightarrow> last dir = CHR ''/'' \<Longrightarrow> f ! (length dir - 1) = CHR ''/''"
  by (metis below_dir_def diff_less last_conv_nth length_greater_0_conv nth_take zero_less_one)

lemma char_eq_ord: "c = d \<longleftrightarrow> ord c = ord d" for c d :: char
  by (metis char_of_char)

lemma succ_not_slash: "c \<noteq> CHR ''.'' \<Longrightarrow> char_of (Suc (ord c)) \<noteq> CHR ''/''"
proof -
  assume n: "c \<noteq> CHR ''.''"
  have c: "ord c < 256" by (rule ord_less_256)
  have "ord c = 46" if m: "Suc (ord c) mod 256 = 47"
  proof (cases "ord c = 255")
    case True
    then show ?thesis using m by simp
  next
    case False
    then have "Suc (ord c) mod 256 = Suc (ord c)" using c by (intro mod_less) linarith
    then show ?thesis using m by simp
  qed
  show ?thesis
  proof
    assume "char_of (Suc (ord c)) = CHR ''/''"
    then have "ord (char_of (Suc (ord c)) :: char) = ord (CHR ''/'')" by (rule arg_cong)
    then have "Suc (ord c) mod 256 = 47" by simp
    then have "ord c = ord (CHR ''.'')" using \<open>Suc (ord c) mod 256 = 47 \<Longrightarrow> ord c = 46\<close> by simp
    then show False using n by (simp only: char_eq_ord [symmetric])
  qed
qed

lemma low_digit_succ:
  "low_digit style c \<Longrightarrow> c \<noteq> CHR ''9'' \<Longrightarrow> ord c \<noteq> top_char style \<Longrightarrow> low_digit style (char_of (Suc (ord c)))"
  by (auto simp: low_digit_def isdigit_def char_eq_ord top_char_def split: if_splits)

lemma low_digit_alnum: "low_digit style c \<Longrightarrow> isalnum c"
  by (auto simp: low_digit_def ctype_simps top_char_def split: if_splits)

lemma alnum_not_dot: "isalnum c \<Longrightarrow> c \<noteq> CHR ''.''"
  by (auto simp: ctype_simps)

lemma bump_confined:
  assumes "bump style s f p = (ok, f', s')" "style \<noteq> RENAME_POSTFIX" "s \<le> p" "p < length f"
    and "below_dir dir f" "dir \<noteq> []" "last dir = CHR ''/''" "length dir \<le> s" "low_digit style (f ! s)"
    and "\<forall>i. s < i \<and> i \<le> p \<longrightarrow> isalnum (f ! i)"
  shows "below_dir dir f' \<and> (ok \<longrightarrow> length dir \<le> s' \<and> s' < length f' \<and> low_digit style (f' ! s'))"
  using assms
proof (induction style s f p arbitrary: ok f' s' rule: bump.induct)
  case (1 style s f p)
  note st = 1(3,4,5) and dir = 1(6,7,8,9) and dig = 1(10,11)
  have np: "f ! p \<noteq> CHR ''.''"
    using dig st low_digit_alnum alnum_not_dot by (cases "p = s") (blast, simp)
  consider (nine) "f ! p = CHR ''9''" | (top) "f ! p \<noteq> CHR ''9''" "top_digit style (f ! p)"
    | (up) "f ! p \<noteq> CHR ''9''" "\<not> top_digit style (f ! p)" by blast
  then show ?case
  proof cases
    case nine
    then have r: "ok \<and> f' = f[p := CHR ''a''] \<and> s' = s" using 1(2) by (subst (asm) bump.simps) simp
    have "low_digit style (CHR ''a'')" by (simp add: low_digit_def top_char_def)
    then have "low_digit style (f' ! s)" using r dig st by (cases "p = s") auto
    then show ?thesis using r dir st below_dir_update [OF dir(1), of p "CHR ''a''"] by simp
  next
    case up
    then have r: "ok \<and> f' = f[p := char_of (Suc (ord (f ! p)))] \<and> s' = s" using 1(2) by (subst (asm) bump.simps) simp
    have "ord (f ! p) \<noteq> top_char style" using up top_digit_iff st by blast
    then have "low_digit style (f' ! s)" using r dig st up low_digit_succ by (cases "p = s") auto
    then show ?thesis using r dir st below_dir_update [OF dir(1) _ succ_not_slash [OF np], of p] by simp
  next
    case top
    show ?thesis
    proof (cases p)
      case 0
      then show ?thesis using 1(2) top dir by (subst (asm) bump.simps) auto
    next
      case (Suc q)
      let ?f1 = "f[p := CHR ''0'']"
      have b: "bump style s f p = (if ?f1 ! q = CHR ''/'' \<or> ?f1 ! q = CHR ''.'' then (False, ?f1, s)
          else if p \<noteq> s then bump style s ?f1 q else (True, ?f1[q := CHR ''0''], q))"
        using top Suc by (subst bump.simps) (simp add: Let_def)
      have b1: "below_dir dir ?f1" using below_dir_update [OF dir(1), of p "CHR ''0''"] dir st by simp
      consider "?f1 ! q = CHR ''/'' \<or> ?f1 ! q = CHR ''.''" | "?f1 ! q \<noteq> CHR ''/'' \<and> ?f1 ! q \<noteq> CHR ''.''" "p = s"
        | "?f1 ! q \<noteq> CHR ''/'' \<and> ?f1 ! q \<noteq> CHR ''.''" "p \<noteq> s" by blast
      then show ?thesis
      proof cases
        case 1
        then show ?thesis using \<open>bump style s f p = (ok, f', s')\<close> b b1 by auto
      next
        case 2
        then have r: "f' = ?f1[q := CHR ''0''] \<and> s' = q" using \<open>bump style s f p = (ok, f', s')\<close> b by simp
        have "q \<noteq> length dir - 1" using 2 below_dir_sep [OF b1 dir(2,3)] by auto
        then have q: "length dir \<le> q" using dir(4) 2 Suc by linarith
        show ?thesis using r q b1 Suc st below_dir_update [OF b1, of q "CHR ''0''"]
          by (auto simp: low_digit_def isdigit_def)
      next
        case 3
        have r: "bump style s ?f1 q = (ok, f', s')" using \<open>bump style s f p = (ok, f', s')\<close> b 3 by simp
        have d: "low_digit style (?f1 ! s)" "\<forall>i. s < i \<and> i \<le> q \<longrightarrow> isalnum (?f1 ! i)" using dig 3 Suc by auto
        have "s \<le> q" "q < length ?f1" using 3 Suc st by auto
        then show ?thesis using 1(1) [OF top Suc refl _ _ r st(1) _ _ b1 dir(2-4) d] 3 by blast
      qed
    qed
  qed
qed

text \<open>Where the counter is: at its first digit, or before the first change just behind where it will be.\<close>

definition placed :: "renamestyletype \<Rightarrow> string \<Rightarrow> string \<Rightarrow> nat \<Rightarrow> bool" where
  "placed style dir real s \<longleftrightarrow> below_dir dir real \<and> length dir \<le> s \<and>
     (if style = RENAME_POSTFIX then s \<le> length real
      else (s < length real \<and> low_digit style (real ! s)) \<or>
        (length dir < s \<and> (if style = RENAME_EXTENSION then s = length real else s < length real \<and> real ! s = CHR ''.'')))"

lemma dec_of_int_no_slash: "0 \<le> i \<Longrightarrow> CHR ''/'' \<notin> set (dec_of_int i)"
  using dec_of_nat_digits [of "CHR ''/''" "nat i"] by (auto simp: dec_of_int_def isdigit_def)

lemma next_name_placed:
  assumes n: "next_inb_filename style real s = (True, real', s')" and pl: "placed style dir real s"
    and dir: "dir \<noteq> []" "last dir = CHR ''/''"
  shows "placed style dir real' s'"
proof (cases "style = RENAME_POSTFIX")
  case True
  have b: "below_dir dir real" "length dir \<le> s" "s \<le> length real" using pl True by (auto simp: placed_def)
  have "real' = real @ ''.1'' \<and> s' = s \<or> (\<exists>k\<ge>0. real' = take (Suc s) real @ dec_of_int k \<and> s' = s)"
    using n True by (auto simp: next_inb_filename_def Let_def split: if_splits intro!: exI [of _ "atoi (drop (Suc s) real) + 1"])
  moreover have "CHR ''/'' \<notin> set (take k (drop (length dir) real))" for k
    using b(1) set_take_subset by (fastforce simp: below_dir_def)
  ultimately show ?thesis using True b dec_of_int_no_slash
    by (auto simp: placed_def below_dir_def drop_take min_def)
next
  case False
  define rest where "rest = drop s real"
  have b: "below_dir dir real" "length dir \<le> s" using pl by (auto simp: placed_def)
  show ?thesis
  proof (cases "(style = RENAME_EXTENSION \<and> rest = []) \<or> (style = RENAME_BODY \<and> rest \<noteq> [] \<and> hd rest = CHR ''.'')")
    case True
    then have r: "real' = real[s - 1 := CHR ''0''] \<and> s' = s - 1"
      using n False by (auto simp: next_inb_filename_def rest_def)
    have "\<not> (s < length real \<and> low_digit style (real ! s))"
      using True low_digit_alnum alnum_not_dot by (auto simp: rest_def hd_drop_conv_nth)
    then have s: "length dir < s" "s \<le> length real" using pl False by (auto simp: placed_def split: if_splits)
    then have "below_dir dir real'" using r below_dir_update [OF b(1), of "s - 1" "CHR ''0''"] by simp
    then show ?thesis using r s False by (auto simp: placed_def low_digit_def isdigit_def)
  next
    case bumped: False
    define p where "p = s + length (takeWhile isalnum (drop 1 rest))"
    have bu: "bump style s real p = (True, real', s')"
      using n False bumped unfolding next_inb_filename_def Let_def rest_def [symmetric] p_def [symmetric]
      by auto
    have s: "s < length real" "low_digit style (real ! s)"
      using pl False bumped by (cases style; auto simp: placed_def rest_def hd_drop_conv_nth split: if_splits)+
    have p: "s \<le> p" "p < length real"
      using s length_takeWhile_le [of isalnum "drop 1 rest"] by (auto simp: p_def rest_def)
    have "isalnum (real ! i)" if i: "s < i" "i \<le> p" for i
    proof -
      have k: "i - Suc s < length (takeWhile isalnum (drop 1 rest))" using i by (simp add: p_def)
      have "isalnum (takeWhile isalnum (drop 1 rest) ! (i - Suc s))" using nth_mem [OF k] set_takeWhileD by metis
      then show ?thesis using takeWhile_nth [OF k] i p by (simp add: rest_def)
    qed
    then have "below_dir dir real' \<and> length dir \<le> s' \<and> s' < length real' \<and> low_digit style (real' ! s')"
      using bump_confined [OF bu False p b(1) dir b(2) s(2)] by blast
    then show ?thesis using False by (simp add: placed_def)
  qed
qed

section \<open>The loops of inb_done\<close>

text \<open>Whatever a terminating run of the loop gives, a relation between its arguments and its result that
  every exit establishes and every continuation keeps holds for it.\<close>

lemma rename_loop_rule:
  assumes "rename_loop tmp orig base style real s w = Some y"
    and "\<And>style real s w w1. o_rename tmp real w = (None, w1) \<Longrightarrow> P style real s w (Some real, w1)"
    and "\<And>style real s w w1 e. o_rename tmp real w = (Some e, w1) \<Longrightarrow> P style real s w (None, w1)"
    and "\<And>style real s w w1 e real' s' y. o_rename tmp real w = (Some e, w1) \<Longrightarrow>
      next_inb_filename style real s = (True, real', s') \<Longrightarrow> P style real' s' w1 y \<Longrightarrow> P style real s w y"
    and "\<And>real s w w1 e y. o_rename tmp real w = (Some e, w1) \<Longrightarrow> P RENAME_POSTFIX orig base w1 y \<Longrightarrow> P RENAME_EXTENSION real s w y"
  shows "P style real s w y"
proof -
  have "tmp = tmp \<and> orig = orig \<and> base = base \<longrightarrow> P style real s w y"
  proof (rule rename_loop.raw_induct [where P = "\<lambda>tmp0 orig0 base0 style real s w y.
       tmp0 = tmp \<and> orig0 = orig \<and> base0 = base \<longrightarrow> P style real s w y", OF _ assms(1)], intro impI, elim conjE, goal_cases)
    case (1 loop tmp0 orig0 base0 style real s w y)
    have IH: "loop tmp orig base style real s w = Some y \<Longrightarrow> P style real s w y" for style real s w y
      using 1(1) by blast
    obtain e w1 where o: "o_rename tmp real w = (e, w1)" by (cases "o_rename tmp real w")
    obtain ok real' s' where n: "next_inb_filename style real s = (ok, real', s')" by (metis prod_cases3)
    show ?case
    proof (cases e)
      case None
      then have "y = (Some real, w1)" using 1 o by simp
      then show ?thesis using assms(2) o None by simp
    next
      case (Some e')
      then consider "y = (None, w1)" | "ok" "loop tmp orig base style real' s' w1 = Some y"
        | "style = RENAME_EXTENSION" "loop tmp orig base RENAME_POSTFIX orig base w1 = Some y"
        using 1 o n by (auto split: if_splits)
      then show ?thesis
      proof cases
        case 1
        then show ?thesis using assms(3) o Some by simp
      next
        case 2
        then have "P style real' s' w1 y" using IH by blast
        then show ?thesis using assms(4) [of real w e' w1 style s real' s' y] o n 2 Some by simp
      next
        case 3
        then have "P RENAME_POSTFIX orig base w1 y" using IH by blast
        then show ?thesis using assms(5) o 3 Some by blast
      qed
    qed
  qed
  then show ?thesis by blast
qed

lemma rename_loop_safe:
  assumes "rename_loop tmp orig base style real s w = Some (r, w')" "stat w tmp = Some (File d t)"
  shows "(\<forall>x. r = Some x \<longrightarrow> stat w x = None \<and> stat w' x = Some (File d t) \<and> (denied w tmp \<or> stat w' tmp = None)) \<and>
    (r = None \<longrightarrow> stat w' tmp = Some (File d t)) \<and> (\<forall>q. q \<noteq> tmp \<longrightarrow> r \<noteq> Some q \<longrightarrow> stat w' q = stat w q)"
proof -
  define Q where "Q w y \<longleftrightarrow> (stat w tmp = Some (File d t) \<longrightarrow>
     (\<forall>x. fst y = Some x \<longrightarrow> stat w x = None \<and> stat (snd y) x = Some (File d t) \<and> (denied w tmp \<or> stat (snd y) tmp = None)) \<and>
     (fst y = None \<longrightarrow> stat (snd y) tmp = Some (File d t)) \<and>
     (\<forall>q. q \<noteq> tmp \<longrightarrow> fst y \<noteq> Some q \<longrightarrow> stat (snd y) q = stat w q))" for w and y :: "string option \<times> world"
  have keep: "Q w y" if o: "o_rename tmp x w = (Some e, w1)" and q: "Q w1 y" for w x e w1 y
  proof (cases "stat w tmp = Some (File d t)")
    case True
    have "\<forall>q. stat w1 q = stat w q" "w_denied w1 = w_denied w"
      using o_rename_result [OF True o] o_rename_denied [OF o] by auto
    then show ?thesis using q by (simp add: Q_def)
  qed (simp add: Q_def)
  have "Q w (r, w')"
    using assms(1)
  proof (rule rename_loop_rule)
    show "o_rename tmp real w = (None, w1) \<Longrightarrow> Q w (Some real, w1)" for real w w1
      using o_rename_result [of w tmp d t real None w1] by (auto simp: Q_def)
    show "o_rename tmp real w = (Some e, w1) \<Longrightarrow> Q w (None, w1)" for real w w1 e
      using o_rename_result [of w tmp d t real "Some e" w1] by (auto simp: Q_def)
    show "o_rename tmp real w = (Some e, w1) \<Longrightarrow> Q w1 y \<Longrightarrow> Q w y" for real w w1 e y by (rule keep)
    show "o_rename tmp real w = (Some e, w1) \<Longrightarrow> Q w1 y \<Longrightarrow> Q w y" for real w w1 e y by (rule keep)
  qed
  then show ?thesis using assms(2) by (simp add: Q_def)
qed

lemma rename_loop_placed:
  assumes "rename_loop tmp orig base style real s w = Some (r, w')" "placed style dir real s"
    and "dir \<noteq> []" "last dir = CHR ''/''" "below_dir dir orig" "base = length dir" "r = Some x"
  shows "below_dir dir x"
proof -
  define Q where "Q style real s y \<longleftrightarrow> (placed style dir real s \<longrightarrow> (\<forall>x. fst y = Some x \<longrightarrow> below_dir dir x))"
    for style real s and y :: "string option \<times> world"
  have "Q style real s (r, w')"
    using assms(1)
  proof (rule rename_loop_rule)
    show "Q style real s (Some real, w1)" for style real s w1 by (simp add: Q_def placed_def)
    show "Q style real s (None, w1)" for style real s w1 by (simp add: Q_def)
    show "next_inb_filename style real s = (True, real', s') \<Longrightarrow> Q style real' s' y \<Longrightarrow> Q style real s y" for style real s real' s' y
      using next_name_placed assms(3,4) by (auto simp: Q_def)
    have "placed RENAME_POSTFIX dir orig base" using assms(5,6) by (simp add: placed_def below_dir_def)
    then show "Q RENAME_POSTFIX orig base y \<Longrightarrow> Q RENAME_EXTENSION real s y" for real s y by (simp add: Q_def)
  qed
  then show ?thesis using assms(2,7) by (simp add: Q_def)
qed

section \<open>The complete file\<close>

lemma node_of_frame: "node_of fa s = (r, s1) \<Longrightarrow> x_w s1 = x_w s"
  by (auto simp: node_of_def split: prod.splits)

lemma hc_flags_frame: "x_w (snd (hc_flags fas lc s)) = x_w s"
proof (induction fas lc s rule: hc_flags.induct)
  case (2 fa fas lc s)
  obtain r s1 where n: "node_of fa s = (r, s1)" by (cases "node_of fa s")
  then show ?case using 2 node_of_frame [OF n] by (cases r) auto
qed simp

lemma check_pkthdr_frame: "x_w (snd (check_pkthdr tmp real s)) = x_w s"
proof (cases "pkthdr_bad (x_cfg s) = []")
  case False
  obtain r s1 where h: "hc_flags (s_fa s) (False, False) s = (r, s1)" by fastforce
  have "snd (check_pkthdr tmp real s) = s1"
    using False h by (cases r) (simp_all add: check_pkthdr_def Let_def split_def)
  then show ?thesis using hc_flags_frame [of "s_fa s" "(False, False)" s] h by simp
qed (simp add: check_pkthdr_def Let_def)

lemma set_world_twice: "s\<lparr>x_w := a, x_w := b\<rparr> = s\<lparr>x_w := b\<rparr>" for s :: session
  by simp

text \<open>The way of a file that is not to be overwritten.\<close>

definition overwrites :: "TFILE \<Rightarrow> session \<Rightarrow> bool" where
  "overwrites file s \<longleftrightarrow> mask_test (t_netname file) (overwrite (x_cfg s)) \<and> \<not> ispkt (t_netname file) \<and> \<not> isarcmail (t_netname file)"

lemma move_file_renames:
  assumes "move_file file tmp s = y" "\<not> overwrites file s"
  obtains real1 s1 style where "real1 = real_path (t_netname file) s \<or>
      (pkthdr_bad (x_cfg s) \<noteq> [] \<and> real1 = bad_ext (pkthdr_bad (x_cfg s)) (real_path (t_netname file) s))"
    and "x_w s1 = x_w s" and "body_style (t_netname file) \<longrightarrow> style = RENAME_BODY"
    and "\<not> body_style (t_netname file) \<longrightarrow> style = renamestyle (x_cfg s) \<and> real1 = real_path (t_netname file) s"
    and "y = (case rename_loop tmp (real_path (t_netname file) s) (length (in_dir (s_inbound s))) style real1
           (if body_style (t_netname file) then length real1 - 4 else length real1)
           (snd (touch tmp (t_time file) (x_w s1))) of
         None \<Rightarrow> None | Some (r, w) \<Rightarrow> Some (r, s1\<lparr>x_w := w\<rparr>))"
proof -
  define real s1' where "real = real_path (t_netname file) s" and "s1' = (if ispkt (t_netname file) then check_pkthdr tmp real s else (real, s))"
  obtain real1 s1 where s1: "s1' = (real1, s1)" by (cases s1')
  have a: "real1 = real \<or> (pkthdr_bad (x_cfg s) \<noteq> [] \<and> real1 = bad_ext (pkthdr_bad (x_cfg s)) real)" "x_w s1 = x_w s"
    and b: "\<not> body_style (t_netname file) \<longrightarrow> real1 = real \<and> s1 = s"
    using s1 check_pkthdr_name [of tmp real s] check_pkthdr_frame [of tmp real s] unfolding s1'_def
    by (auto simp: body_style_def split: if_splits)
  define style where "style = (if body_style (t_netname file) then RENAME_BODY else renamestyle (x_cfg s1))"
  have "y = (case rename_loop tmp real (length (in_dir (s_inbound s))) style real1
           (if body_style (t_netname file) then length real1 - 4 else length real1)
           (snd (touch tmp (t_time file) (x_w s1))) of
         None \<Rightarrow> None | Some (r, w) \<Rightarrow> Some (r, s1\<lparr>x_w := w\<rparr>))"
    unfolding assms(1) [symmetric] move_file_def Let_def real_def style_def
    by (simp only: if_not_P [OF assms(2) [unfolded overwrites_def]] s1 [unfolded s1'_def real_def] prod.case)
      (simp cong: option.case_cong)
  then show ?thesis using that [of real1 s1 style] a b by (auto simp: real_def style_def)
qed

lemma move_file_total:
  assumes "s_inbound s \<noteq> []" "renamestyle (x_cfg s) \<noteq> RENAME_BODY"
  shows "\<exists>r s'. move_file file tmp s = Some (r, s')"
proof (cases "overwrites file s")
  case True
  then show ?thesis unfolding move_file_def Let_def by (simp only: overwrites_def if_P) (simp split: prod.split)
next
  case False
  let ?real = "real_path (t_netname file) s"
  let ?at = "\<lambda>r. if body_style (t_netname file) then length r - 4 else length r"
  have dir: "in_dir (s_inbound s) \<noteq> []" using assms(1) by (rule in_dir_neq)
  have len: "length (in_dir (s_inbound s)) \<le> length ?real" using wiped_prefix by (simp add: real_path_def)
  have neq: "?real \<noteq> []" using dir len by auto
  show ?thesis
  proof (rule move_file_renames [OF refl False, of tmp], goal_cases)
    case (1 real1 s1 style)
    have ne1: "real1 \<noteq> []" using 1(1) neq bad_ext_keeps [OF neq, of "pkthdr_bad (x_cfg s)"] by (elim disjE) simp_all
    then have "can_start style real1 (?at real1)"
      using 1(3,4) assms(2) by (cases style) (auto simp: can_start_def)
    then obtain r w' where "rename_loop tmp ?real (length (in_dir (s_inbound s))) style real1 (?at real1)
        (snd (touch tmp (t_time file) (x_w s1))) = Some (r, w')"
      using rename_loop_returns [OF _ len] by blast
    then show ?case using 1(5) by simp
  qed
qed

lemma touch_tmp:
  assumes "stat w tmp = Some (File d t)"
  shows "(\<exists>t'. stat (snd (touch tmp tm w)) tmp = Some (File d t')) \<and> (\<forall>q. q \<noteq> tmp \<longrightarrow> stat (snd (touch tmp tm w)) q = stat w q)"
  using assms by (auto simp: touch_def utime_def)

text \<open>
  C25: A received file whose name matches no \<open>overwrite\<close> mask of the configuration never overwrites
  another one and is not lost in the renaming: on success the name it got was free before and now holds
  the received data; on failure the data is still in the temporary file; no other file changes.  A name
  that does match a mask is overwritten on purpose, and this is about one process: what another one that
  creates the same name in the middle of a renaming can do, on a file system without hard links, is the
  subject of \<open>o_rename_safe\<close>.
\<close>

theorem received_file_kept:
  assumes "move_file file tmp s = Some (r, s')" "\<not> overwrites file s" "stat (x_w s) tmp = Some (File d t)"
  shows "(case r of
        Some real \<Rightarrow> real \<noteq> tmp \<and> stat (x_w s) real = None \<and> (\<exists>t'. stat (x_w s') real = Some (File d t'))
      | None \<Rightarrow> \<exists>t'. stat (x_w s') tmp = Some (File d t')) \<and>
    list_all (\<lambda>q. q = tmp \<or> r = Some q \<or> stat (x_w s') q = stat (x_w s) q) qs"
proof (rule move_file_renames [OF refl assms(2), of tmp], goal_cases)
  case (1 real1 s1 style)
  let ?w = "snd (touch tmp (t_time file) (x_w s1))"
  obtain w' where l: "rename_loop tmp (real_path (t_netname file) s) (length (in_dir (s_inbound s))) style real1
      (if body_style (t_netname file) then length real1 - 4 else length real1) ?w = Some (r, w')" and s': "x_w s' = w'"
    using 1(5) assms(1) by (auto split: option.splits)
  obtain t' where t': "stat ?w tmp = Some (File d t')" and q: "\<And>q. q \<noteq> tmp \<Longrightarrow> stat ?w q = stat (x_w s) q"
    using touch_tmp [of "x_w s1" tmp d t] assms(3) 1(2) by metis
  note rs = rename_loop_safe [OF l t']
  have safe: "stat ?w x = None \<and> stat w' x = Some (File d t')" if "r = Some x" for x
    using conjunct1 [OF rs, rule_format, OF that] by simp
  have lost: "r = None \<Longrightarrow> stat w' tmp = Some (File d t')"
    using conjunct1 [OF conjunct2 [OF rs]] by (rule mp)
  have others: "q \<noteq> tmp \<Longrightarrow> r \<noteq> Some q \<Longrightarrow> stat w' q = stat ?w q" for q
    using conjunct2 [OF conjunct2 [OF rs]] by simp
  have ne: "r = Some x \<Longrightarrow> x \<noteq> tmp" for x using safe [of x] t' by auto
  have "list_all (\<lambda>q. q = tmp \<or> r = Some q \<or> stat (x_w s') q = stat (x_w s) q) qs"
    using others q s' by (auto simp: list_all_iff)
  moreover have "r = None \<Longrightarrow> \<exists>t'. stat (x_w s') tmp = Some (File d t')" using lost s' by blast
  moreover have "real \<noteq> tmp \<and> stat (x_w s) real = None \<and> (\<exists>t'. stat (x_w s') real = Some (File d t'))"
    if "r = Some real" for real using safe [OF that] ne [OF that] q [of real] s' by auto
  ultimately show ?case by (cases r) auto
qed

text \<open>A packet named by its extension only: when that name is taken, the first change overwrites the separator.\<close>

lemma bare_extension_leaves:
  "body_style ''.pkt'' \<and> next_inb_filename RENAME_BODY ''/in/.pkt'' (length ''/in/.pkt'' - 4) = (True, ''/in0.pkt'', 3) \<and>
   \<not> below_dir ''/in/'' ''/in0.pkt''"
  by code_simp

text \<open>
  C26: A received file stays directly in the inbound directory: its real name is the directory and a name
  without separators, for every name of the remote that has something in front of its extension (of the
  kinds of files that are renamed there) or is not empty (of all others).  A packet whose whole name is
  \<open>.pkt\<close> is not among them, and does leave the directory when it is renamed (\<open>bare_extension_leaves\<close>).  The
  configuration does not change the extension of packets of a wrong origin (\<open>pkthdr-bad\<close>), its renaming
  style for other files changes the extension or appends a postfix, and the inbound has a name that fits the buffer.
\<close>

theorem received_file_in_inbound:
  assumes "move_file file tmp s = Some (Some real, s')"
    and "s_inbound s \<noteq> []" "length (s_inbound s) < MAXPATHLEN - 1" "pkthdr_bad (x_cfg s) = []"
    and "renamestyle (x_cfg s) \<noteq> RENAME_BODY"
    and "let p = real_path (t_netname file) s; n = length (in_dir (s_inbound s)) in
      if body_style (t_netname file) then n + 4 < length p \<and> p ! (length p - 4) = CHR ''.'' else n < length p"
  shows "below_dir (in_dir (s_inbound s)) real"
proof (cases "overwrites file s")
  case True
  then have "real = real_path (t_netname file) s"
    using assms(1) unfolding move_file_def Let_def by (simp only: overwrites_def if_P) (simp split: prod.splits if_splits)
  then show ?thesis using wiped_prefix wiped_name by (simp add: below_dir_def real_path_def)
next
  case False
  let ?dir = "in_dir (s_inbound s)" and ?p = "real_path (t_netname file) s"
  have dir: "?dir \<noteq> []" "last ?dir = CHR ''/''"
    using assms(2,3) by (auto simp: in_dir_def strnzcpy_def strnzcat_def Let_def)
  have below: "below_dir ?dir ?p" using wiped_prefix wiped_name by (simp add: below_dir_def real_path_def)
  show ?thesis
  proof (rule move_file_renames [OF refl False, of tmp], goal_cases)
    case (1 real1 s1 style)
    have r: "real1 = ?p" using 1(1) assms(4) by simp
    let ?at = "if body_style (t_netname file) then length real1 - 4 else length real1"
    have "placed style ?dir real1 ?at"
      using 1(3,4) assms(5,6) below r by (cases style) (auto simp: placed_def Let_def split: if_splits)
    moreover obtain w' where "rename_loop tmp ?p (length ?dir) style real1 ?at
        (snd (touch tmp (t_time file) (x_w s1))) = Some (Some real, w')"
      using 1(5) assms(1) by (auto split: option.splits)
    ultimately show ?case using rename_loop_placed [OF _ _ dir below refl refl] by blast
  qed
qed

text \<open>A file that was received completely, and another one of its name in the inbound.\<close>

definition ex_received :: TFILE where
  "ex_received = TF_ZERO\<lparr>t_netname := ''x.zip''\<rparr>"

definition ex_arrived_world :: world where
  "ex_arrived_world = empty_world\<lparr>w_files := [(''/un'', Dir), (''/un/x.zip'', File ''old'' 0), (''/tmp/1.dt'', File ''new'' 0)]\<rparr>"

definition ex_arrived :: session where
  "ex_arrived = sample_session\<lparr>x_w := ex_arrived_world\<rparr>"

lemma ex_arrived_path: "real_path ''x.zip'' ex_arrived = ''/un/x.zip''" "in_dir ''/un'' = ''/un/''"
proof -
  have "wiped (in_dir ''/un'') (makeinboundcase (strdequote ''x.zip'') INB_SAVE) = ''/un/x.zip''" by code_simp
  then show "real_path ''x.zip'' ex_arrived = ''/un/x.zip''"
    by (simp add: real_path_def ex_arrived_def sample_session_def sample_cfg_def)
  show "in_dir ''/un'' = ''/un/''" by code_simp
qed

lemma ex_arrived_style: "\<not> body_style ''x.zip''" by code_simp

lemma ex_arrived_cfg:
  "s_inbound ex_arrived = ''/un''" "renamestyle (x_cfg ex_arrived) = RENAME_POSTFIX" "\<not> overwrites f ex_arrived"
  "pkthdr_bad (x_cfg ex_arrived) = []" "stat (x_w ex_arrived) ''/tmp/1.dt'' = Some (File ''new'' 0)"
  "stat (x_w ex_arrived) ''/un/x.zip'' = Some (File ''old'' 0)"
  by (simp_all add: ex_arrived_def sample_session_def sample_cfg_def overwrites_def mask_test_def stat_def ex_arrived_world_def)

lemma ex_arrived_moves: "\<exists>r s'. move_file ex_received ''/tmp/1.dt'' ex_arrived = Some (r, s')"
  by (rule move_file_total) (simp_all add: ex_arrived_cfg)

text \<open>
  C37: \<^verbatim>\<open>inb_done\<close> always gets to an end with the name of a received file, whatever the inbound contains, the
  names that are taken and the errors of the file system: every style of renaming runs out of
  candidates, and the fallback from extensions to postfixes happens once.
\<close>

theorem move_file_returns:
  assumes "s_inbound s \<noteq> []" "renamestyle (x_cfg s) \<noteq> RENAME_BODY"
  shows "\<exists>r s'. move_file file tmp s = Some (r, s')"
  using assms by (rule move_file_total)

theorem move_file_returns_witness: "move_file ex_received ''/tmp/1.dt'' ex_arrived \<noteq> None"
  using move_file_returns [of ex_arrived ex_received "''/tmp/1.dt''"] by (auto simp: ex_arrived_cfg)

theorem received_file_kept_witness:
  "\<exists>r s'. move_file ex_received ''/tmp/1.dt'' ex_arrived = Some (r, s') \<and> stat (x_w s') ''/un/x.zip'' = Some (File ''old'' 0) \<and>
     (\<exists>p t'. stat (x_w s') p = Some (File ''new'' t'))"
proof -
  obtain r s' where m: "move_file ex_received ''/tmp/1.dt'' ex_arrived = Some (r, s')" using ex_arrived_moves by blast
  have k: "(case r of
        Some real \<Rightarrow> real \<noteq> ''/tmp/1.dt'' \<and> stat (x_w ex_arrived) real = None \<and> (\<exists>t'. stat (x_w s') real = Some (File ''new'' t'))
      | None \<Rightarrow> \<exists>t'. stat (x_w s') ''/tmp/1.dt'' = Some (File ''new'' t')) \<and>
    list_all (\<lambda>q. q = ''/tmp/1.dt'' \<or> r = Some q \<or> stat (x_w s') q = stat (x_w ex_arrived) q) [''/un/x.zip'']"
    using received_file_kept [OF m _ ex_arrived_cfg(5)] ex_arrived_cfg(3) by blast
  then have "r \<noteq> Some ''/un/x.zip''" by (auto simp: ex_arrived_cfg)
  then have "stat (x_w s') ''/un/x.zip'' = Some (File ''old'' 0)" using k by (simp add: ex_arrived_cfg)
  moreover have "\<exists>p t'. stat (x_w s') p = Some (File ''new'' t')" using k by (cases r) auto
  ultimately show ?thesis using m by blast
qed

lemma ex_arrived_renamed: "\<exists>s'. move_file ex_received ''/tmp/1.dt'' ex_arrived = Some (Some ''/un/x.zip.1'', s')"
proof -
  let ?w = ex_arrived_world
  have "snd (touch ''/tmp/1.dt'' 0 ?w) = ?w" by code_simp
  then have w: "snd (touch ''/tmp/1.dt'' (t_time ex_received) (x_w ex_arrived)) = ?w"
    by (simp add: ex_arrived_def ex_received_def TF_ZERO_def)
  have o1: "o_rename ''/tmp/1.dt'' ''/un/x.zip'' ?w = (Some EEXIST, ?w)" by code_simp
  have "fst (o_rename ''/tmp/1.dt'' ''/un/x.zip.1'' ?w) = None" by code_simp
  then obtain w1 where o2: "o_rename ''/tmp/1.dt'' ''/un/x.zip.1'' ?w = (None, w1)" by (metis prod.collapse)
  have n: "next_inb_filename RENAME_POSTFIX ''/un/x.zip'' 9 = (True, ''/un/x.zip.1'', 9)" by code_simp
  have l: "rename_loop ''/tmp/1.dt'' ''/un/x.zip'' 4 RENAME_POSTFIX ''/un/x.zip'' 9 ?w = Some (Some ''/un/x.zip.1'', w1)"
    by (subst rename_loop.simps, subst rename_loop.simps) (simp add: o1 o2 n retry_errno_def)
  have nm: "t_netname ex_received = ''x.zip''" "\<not> ispkt ''x.zip''"
    using ex_arrived_style by (simp_all add: ex_received_def body_style_def)
  have "rename_loop ''/tmp/1.dt'' ''/un/x.zip'' (length ''/un/'') RENAME_POSTFIX ''/un/x.zip'' (length ''/un/x.zip'') ?w =
      Some (Some ''/un/x.zip.1'', w1)" using l by (simp add: eval_nat_numeral)
  note l' = this [simplified]
  have "overwrite (x_cfg ex_arrived) = []" by (simp add: ex_arrived_def sample_session_def sample_cfg_def)
  then show ?thesis unfolding move_file_def Let_def nm ex_arrived_path
    by (simp add: mask_test_def nm w l' ex_arrived_cfg ex_arrived_path ex_arrived_style)
qed

theorem received_file_in_inbound_witness:
  "\<exists>real s'. move_file ex_received ''/tmp/1.dt'' ex_arrived = Some (Some real, s') \<and> below_dir ''/un/'' real"
proof -
  obtain s' where m: "move_file ex_received ''/tmp/1.dt'' ex_arrived = Some (Some ''/un/x.zip.1'', s')"
    using ex_arrived_renamed by blast
  have "below_dir (in_dir (s_inbound ex_arrived)) ''/un/x.zip.1''"
    by (rule received_file_in_inbound [OF m])
      (simp_all add: ex_arrived_cfg ex_arrived_path ex_arrived_style ex_received_def Let_def)
  then show ?thesis using m by (simp add: ex_arrived_path ex_arrived_cfg)
qed

section \<open>Opening a partial file\<close>

lemma fopen_again_ends:
  assumes "\<And>d w. open_append buf (x_w s) = (Some d, w) \<Longrightarrow> int (length d) \<le> t_size (s_in s)"
  shows "\<exists>y. \<forall>n. fopen_again (Suc n) buf s = Some y"
proof -
  obtain r w where o: "open_append buf (x_w s) = (r, w)" by (cases "open_append buf (x_w s)")
  show ?thesis
  proof (cases r)
    case (Some d)
    then have "\<not> int (length d) > t_size (s_in s)" using assms o by fastforce
    then show ?thesis using o Some by simp
  qed (simp add: o)
qed

lemma open_append_file:
  "open_append p w = (Some d, w') \<Longrightarrow> \<exists>t. stat w' p = Some (File d t)"
  by (auto simp: open_append_def open_excl_def split: option.splits fentry.splits if_splits prod.splits)

lemma fopen_again_emptied:
  assumes "stat w buf = Some (File [] t) \<or> stat w buf = None" "0 \<le> t_size (s_in s)"
  shows "\<exists>y. \<forall>n. fopen_again (Suc n) buf (s\<lparr>x_w := w\<rparr>) = Some y"
proof (rule fopen_again_ends)
  fix d w' assume "open_append buf (x_w (s\<lparr>x_w := w\<rparr>)) = (Some d, w')"
  then have "d = []" using assms(1) by (auto simp: open_append_def split: option.splits fentry.splits if_splits prod.splits)
  then show "int (length d) \<le> t_size (s_in (s\<lparr>x_w := w\<rparr>))" using assms(2) by simp
qed

text \<open>
  Opening the file for received data returns: a partial file that is larger than the file the remote
  announced is emptied or removed at most once before the jump back, so the two attempts the model
  makes are enough, for every announced size that is not negative.
\<close>

theorem fopen_again_enough:
  assumes "0 \<le> t_size (s_in s)"
  shows "fopen_again 2 buf s \<noteq> None \<and> fopen_again (Suc (Suc n)) buf s = fopen_again 2 buf s"
proof -
  obtain r w where o: "open_append buf (x_w s) = (r, w)" by (cases "open_append buf (x_w s)")
  show ?thesis
  proof (cases "\<exists>d. r = Some d \<and> int (length d) > t_size (s_in s)")
    case False
    then have "\<exists>y. \<forall>n. fopen_again (Suc n) buf s = Some y" using o by (intro fopen_again_ends) fastforce
    then show ?thesis by (metis numeral_2_eq_2 option.distinct(1))
  next
    case True
    then obtain d where d: "r = Some d" "int (length d) > t_size (s_in s)" by blast
    obtain b w1 where t: "trunc_file buf w = (b, w1)" by (cases "trunc_file buf w")
    obtain c w2 where de: "delete buf w1 = (c, w2)" by (cases "delete buf w1")
    have "\<exists>y. \<forall>n. fopen_again (Suc (Suc n)) buf s = Some y"
    proof (cases b)
      case True
      then have "stat w1 buf = Some (File [] (w_time w))"
        using t by (auto simp: trunc_file_def split: option.splits fentry.splits if_splits)
      then have "\<exists>y. \<forall>n. fopen_again (Suc n) buf (s\<lparr>x_w := w1\<rparr>) = Some y" using assms fopen_again_emptied by blast
      moreover have "fopen_again (Suc (Suc n)) buf s = fopen_again (Suc n) buf (s\<lparr>x_w := w1\<rparr>)" for n
        by (subst fopen_again.simps) (simp only: o d(1) prod.case option.case if_P [OF d(2)] t True bool.case)
      ultimately show ?thesis by presburger
    next
      case nt: False
      show ?thesis
      proof (cases c)
        case True
        then have "stat w2 buf = None"
          using de by (auto simp: delete_def unlink_def split: option.splits fentry.splits if_splits prod.splits)
        then have "\<exists>y. \<forall>n. fopen_again (Suc n) buf (s\<lparr>x_w := w2\<rparr>) = Some y" using assms fopen_again_emptied by blast
        moreover have "fopen_again (Suc (Suc n)) buf s = fopen_again (Suc n) buf (s\<lparr>x_w := w2\<rparr>)" for n
          using nt True
          by (subst fopen_again.simps) (simp only: o d(1) prod.case option.case if_P [OF d(2)] t de bool.case not_False_eq_True)
        ultimately show ?thesis by presburger
      next
        case False
        then show ?thesis using o d t de nt by simp
      qed
    qed
    then show ?thesis by (metis numeral_2_eq_2 option.distinct(1))
  qed
qed

theorem fopen_again_enough_witness: "fopen_again 2 ''/un/x.zip'' ex_arrived \<noteq> None"
  using fopen_again_enough [of ex_arrived "''/un/x.zip''" 0]
  by (simp add: ex_arrived_def sample_session_def TF_ZERO_def)

lemma fopen_again_negative:
  assumes "t_size (s_in s) < 0" "stat (x_w s) buf = Some (File d t)" "\<not> denied (x_w s) buf"
  shows "fopen_again n buf s = None"
  using assms
proof (induction n arbitrary: s d t)
  case (Suc n)
  let ?w = "fs_put buf (File [] (w_time (x_w s))) (x_w s)"
  have "fopen_again (Suc n) buf s = fopen_again n buf (s\<lparr>x_w := ?w\<rparr>)"
    using Suc.prems by (simp add: open_append_def trunc_file_def)
  moreover have "fopen_again n buf (s\<lparr>x_w := ?w\<rparr>) = None"
  proof (rule Suc.IH)
    show "stat (x_w (s\<lparr>x_w := ?w\<rparr>)) buf = Some (File [] (w_time (x_w s)))" by simp
    show "\<not> denied (x_w (s\<lparr>x_w := ?w\<rparr>)) buf" using Suc.prems(3) by (simp add: fs_put_def)
  qed (use Suc.prems(1) in simp)
  ultimately show ?case by simp
qed simp

text \<open>
  C38: An announced size that is negative (the remote sent a number of \<open>2 ^ 63\<close> or more) makes the same loop
  run for ever: however many attempts are made, the emptied file is still larger than the size.
\<close>

theorem negative_size_never_opens:
  assumes "t_size (s_in s) < 0" "stat (x_w s) buf = Some (File d t)" "\<not> denied (x_w s) buf"
  shows "fopen_again n buf s = None"
  using assms by (rule fopen_again_negative)

theorem negative_size_never_opens_witness:
  "fopen_again 1000 ''/un/x.zip'' (ex_arrived\<lparr>s_in := TF_ZERO\<lparr>t_size := to_int64 (2 ^ 63)\<rparr>\<rparr>) = None"
  by (rule negative_size_never_opens [where d = "''old''" and t = 0])
    (simp_all add: to_int64_def ex_arrived_def stat_def ex_arrived_world_def empty_world_def)

section \<open>The line of an acknowledged file\<close>

definition marked :: "string \<Rightarrow> string \<Rightarrow> string" where
  "marked f l = (if l \<noteq> [] \<and> entry_of (Some f) l then CHR ''~'' # tl l else l)"

lemma mark_line:
  assumes "flo_line l"
  shows "mark_lines (Some f) (l @ CHR 0x0A # s) = (case mark_lines (Some f) s of (c, e, m) \<Rightarrow>
     (marked f l @ CHR 0x0A # c, e \<and> (marked f l = [] \<or> hd (marked f l) = CHR ''~''), m \<or> marked f l \<noteq> l \<or> (l \<noteq> [] \<and> entry_of (Some f) l)))"
proof -
  have g: "fgets MAXPATHLEN (l @ CHR 0x0A # s) = Some (l @ [CHR 0x0A], s)"
    using assms by (intro fgets_line) (auto simp: flo_line_def)
  have b: "strip_right (c_string (l @ [CHR 0x0A])) = l" using assms by (rule strip_line)
  consider "l = []" | c t where "l = c # t" by (cases l) auto
  then show ?thesis
  proof cases
    case 1
    then show ?thesis using g b by (subst mark_lines.simps) (simp add: marked_def split: prod.split)
  next
    case 2
    have "fgets MAXPATHLEN (t @ CHR 0x0A # s) = Some (t @ [CHR 0x0A], s)"
      using assms 2 by (intro fgets_line) (auto simp: flo_line_def)
    then show ?thesis using g b 2 by (subst mark_lines.simps) (auto simp: marked_def split: prod.split)
  qed
qed

lemma mark_text:
  assumes "list_all flo_line ls"
  shows "mark_lines (Some f) (flo_text ls) = (flo_text (map (marked f) ls),
     list_all (\<lambda>l. l = [] \<or> hd l = CHR ''~'') (map (marked f) ls), list_ex (\<lambda>l. l \<noteq> [] \<and> entry_of (Some f) l) ls)"
  using assms
proof (induction ls)
  case Nil
  then show ?case by (subst mark_lines.simps) (simp add: flo_text_def fgets_def)
next
  case (Cons l ls)
  have "flo_text (l # ls) = l @ CHR 0x0A # flo_text ls" "flo_text (map (marked f) (l # ls)) = marked f l @ CHR 0x0A # flo_text (map (marked f) ls)"
    by (simp_all add: flo_text_def)
  moreover have "marked f l \<noteq> l \<Longrightarrow> l \<noteq> [] \<and> entry_of (Some f) l" by (simp add: marked_def split: if_splits)
  ultimately show ?case using Cons mark_line [of l f "flo_text ls"] by auto
qed

text \<open>A name of a file, not one with an action prefix.\<close>

definition file_name :: "string \<Rightarrow> bool" where
  "file_name f \<longleftrightarrow> f \<noteq> [] \<and> hd f \<notin> set ''^#~''"

lemma entry_of_iff: "file_name f \<Longrightarrow> l \<noteq> [] \<Longrightarrow> entry_of (Some f) l \<longleftrightarrow> (\<exists>a. flo_entry l = Some (f, a))"
  by (cases l) (auto simp: file_name_def entry_of_def flo_entry_def)

lemma marked_entry: "file_name f \<Longrightarrow> flo_entry (marked f l) = (case flo_entry l of None \<Rightarrow> None | Some e \<Rightarrow> if fst e = f then None else Some e)"
proof (cases "l = []")
  case True
  then show ?thesis by (simp add: marked_def flo_entry_def)
next
  case False
  assume f: "file_name f"
  show ?thesis
  proof (cases "entry_of (Some f) l")
    case True
    then obtain a where "flo_entry l = Some (f, a)" using entry_of_iff [OF f False] by blast
    then show ?thesis using True False by (simp add: marked_def) (simp add: flo_entry_def)
  next
    case no: False
    then have "flo_entry l = Some e \<Longrightarrow> fst e \<noteq> f" for e using entry_of_iff [OF f False] by (cases e) auto
    then show ?thesis using no by (auto simp: marked_def split: option.split)
  qed
qed

lemma marked_done: "(marked f l = [] \<or> hd (marked f l) = CHR ''~'') \<longleftrightarrow> flo_entry (marked f l) = None"
  by (cases "marked f l") (auto simp: flo_entry_def)

lemma marked_line: "flo_line l \<Longrightarrow> flo_line (marked f l)"
  by (cases l) (auto simp: marked_def flo_line_def isspace_def)

text \<open>What the loop over the lines leaves.\<close>

lemma mark_lines_entries:
  assumes "list_all flo_line ls" "file_name f" "mark_lines (Some f) (flo_text ls) = (flo, nothing, found)"
  shows "flo_entries flo = filter (\<lambda>e. fst e \<noteq> f) (flo_entries (flo_text ls)) \<and>
    nothing = (flo_entries flo = []) \<and> found = list_ex (\<lambda>e. fst e = f) (flo_entries (flo_text ls))"
proof -
  have l: "\<forall>l\<in>set ls. flo_line l" "\<forall>l\<in>set (map (marked f) ls). flo_line l"
    using assms(1) marked_line by (auto simp: list_all_iff)
  have r: "flo = flo_text (map (marked f) ls)" "nothing = list_all (\<lambda>l. l = [] \<or> hd l = CHR ''~'') (map (marked f) ls)"
    "found = list_ex (\<lambda>l. l \<noteq> [] \<and> entry_of (Some f) l) ls"
    using mark_text [OF assms(1), of f] assms(3) by auto
  have e: "flo_entries flo = List.map_filter (\<lambda>l. flo_entry (marked f l)) ls"
    using flo_entries_text [OF l(2)] r(1) by (simp add: map_filter_def comp_def filter_map)
  have "List.map_filter (\<lambda>l. flo_entry (marked f l)) ls = filter (\<lambda>e. fst e \<noteq> f) (List.map_filter flo_entry ls)"
    by (induction ls) (simp_all add: map_filter_simps marked_entry [OF assms(2)] split: option.split)
  then have 1: "flo_entries flo = filter (\<lambda>e. fst e \<noteq> f) (flo_entries (flo_text ls))"
    using e flo_entries_text [OF l(1)] by simp
  have "nothing = list_all (\<lambda>l. flo_entry (marked f l) = None) ls" using r(2) marked_done by (simp add: list_all_iff)
  also have "\<dots> = (List.map_filter (\<lambda>l. flo_entry (marked f l)) ls = [])"
    by (induction ls) (auto simp: map_filter_simps split: option.split)
  finally have 2: "nothing = (flo_entries flo = [])" using e by simp
  have "list_ex (\<lambda>l. l \<noteq> [] \<and> entry_of (Some f) l) ls = list_ex (\<lambda>e. fst e = f) (List.map_filter flo_entry ls)"
  proof (induction ls)
    case (Cons l ls)
    have "(l \<noteq> [] \<and> entry_of (Some f) l) = (case flo_entry l of None \<Rightarrow> False | Some e \<Rightarrow> fst e = f)"
      using entry_of_iff [OF assms(2), of l] by (cases "l = []") (auto simp: flo_entry_def [of "[]"] split: option.split)
    then show ?case using Cons by (simp add: map_filter_simps split: option.split)
  qed (simp add: map_filter_simps)
  then show ?thesis using 1 2 r(3) flo_entries_text [OF l(1)] by simp
qed

text \<open>
  C33: When a file of a flow file was acknowledged, exactly its lines are marked as done: afterwards the flow
  file still asks for all the other files, with the same actions and in the same order, and for this
  one no more.  A flow file in which nothing is left to send is removed, unless it is the one being
  walked, which stays with all its lines done (and goes when the walk ends); no other file changes.
\<close>

theorem acknowledged_entry_marked:
  assumes "list_all flo_line ls" "file_name f" "stat (x_w s) p = Some (File (flo_text ls) t)"
    and "mark_flo p (Some f) s = Some (found, s')"
  shows "found = list_ex (\<lambda>e. fst e = f) (flo_entries (flo_text ls)) \<and>
    (let rest = filter (\<lambda>e. fst e \<noteq> f) (flo_entries (flo_text ls)); walked = (t_f (s_flo s) \<noteq> None \<and> t_path (s_flo s) = p) in
     if rest = [] \<and> \<not> walked then stat (x_w s') p = None
     else \<exists>flo t'. stat (x_w s') p = Some (File flo t') \<and> flo_entries flo = rest) \<and>
    (\<forall>q. q \<noteq> p \<longrightarrow> stat (x_w s') q = stat (x_w s) q)"
proof -
  define walked where "walked = (t_f (s_flo s) \<noteq> None \<and> t_path (s_flo s) = p)"
  obtain flo nothing m where k: "mark_lines (Some f) (flo_text ls) = (flo, nothing, m)" by (metis prod_cases3)
  note e = mark_lines_entries [OF assms(1,2) k]
  let ?w1 = "if m then fs_put p (File flo (w_time (x_w s))) (x_w s) else x_w s"
  have d: "walked \<or> \<not> denied (x_w s) p" and r: "found = m"
    and w: "x_w s' = (if \<not> walked \<and> nothing then snd (delete p ?w1) else ?w1)"
    using assms(4) unfolding mark_flo_def walked_def [symmetric] Let_def
    by (auto simp: assms(3) k split: if_splits)
  have same: "\<not> m \<Longrightarrow> flo_entries (flo_text ls) = flo_entries flo" using e by (auto simp: list_ex_iff filter_id_conv)
  then have w1: "\<exists>c t'. stat ?w1 p = Some (File c t') \<and> flo_entries c = flo_entries flo" using assms(3) by auto
  have q: "q \<noteq> p \<Longrightarrow> stat ?w1 q = stat (x_w s) q" for q by simp
  have "denied ?w1 p = denied (x_w s) p" by (simp add: fs_put_def)
  then have gone: "\<not> walked \<Longrightarrow> stat (snd (delete p ?w1)) p = None"
    using w1 d by (intro delete_gone) (auto simp: is_file_def)
  have "\<forall>q. q \<noteq> p \<longrightarrow> stat (x_w s') q = stat (x_w s) q"
    unfolding w using q by (simp add: delete_frame)
  moreover have "if flo_entries flo = [] \<and> \<not> walked then stat (x_w s') p = None
     else \<exists>c t'. stat (x_w s') p = Some (File c t') \<and> flo_entries c = flo_entries flo"
    unfolding w using e gone w1 by simp
  moreover have "filter (\<lambda>e. fst e \<noteq> f) (flo_entries (flo_text ls)) = flo_entries flo" "found = list_ex (\<lambda>e. fst e = f) (flo_entries (flo_text ls))"
    using e r by simp_all
  ultimately show ?thesis unfolding walked_def [symmetric] Let_def by (simp only:)
qed

lemma mark_flo_returns:
  assumes "stat (x_w s) p = Some (File d t)" "t_f (s_flo s) = None" "\<not> denied (x_w s) p"
  shows "\<exists>m s'. mark_flo p f s = Some (m, s')"
proof -
  obtain c e m where "mark_lines f d = (c, e, m)" by (metis prod_cases3)
  then show ?thesis using assms by (simp add: mark_flo_def Let_def)
qed

theorem acknowledged_entry_marked_witness:
  "\<exists>s'. mark_flo ''/o/f.flo'' (Some ''/o/a'')
      (sample_session\<lparr>x_w := empty_world\<lparr>w_files := [(''/o/f.flo'', File (flo_text [''^/o/a'']) 0)]\<rparr>\<rparr>) = Some (True, s') \<and>
    stat (x_w s') ''/o/f.flo'' = None"
proof -
  let ?s = "sample_session\<lparr>x_w := empty_world\<lparr>w_files := [(''/o/f.flo'', File (flo_text [''^/o/a'']) 0)]\<rparr>\<rparr>"
  have l: "list_all flo_line [''^/o/a'']" "file_name ''/o/a''" by (simp_all add: flo_line_def isspace_def file_name_def)
  have f: "stat (x_w ?s) ''/o/f.flo'' = Some (File (flo_text [''^/o/a'']) 0)" by (simp add: stat_def)
  have n: "t_f (s_flo ?s) = None" "\<not> denied (x_w ?s) ''/o/f.flo''"
    by (simp_all add: sample_session_def TF_ZERO_def empty_world_def)
  obtain m s' where k: "mark_flo ''/o/f.flo'' (Some ''/o/a'') ?s = Some (m, s')"
    using mark_flo_returns [OF f n] by blast
  have "flo_entries (flo_text [''^/o/a'']) = [(''/o/a'', CHR ''d'')]"
    using l(1) by (subst flo_entries_text) (auto simp: flo_entry_def map_filter_simps list_all_iff)
  then have "m \<and> stat (x_w s') ''/o/f.flo'' = None"
    using acknowledged_entry_marked [OF l f k] n(1) by simp
  then show ?thesis using k by (intro exI [of _ s']) simp
qed

end
