(* ===== verification/Readcfg.thy ===== *)
theory Readcfg
  imports Ftnq Getw Readflo
begin

text \<open>
  Reading the configuration (\<^verbatim>\<open>readcfg.c\<close>): the table of keywords, a reader for each kind of value, the
  parser with its nested includes, the password file, the checks of a complete configuration, and the
  reload after a change.
\<close>

section \<open>Data\<close>

abbreviation MAXINCLUDELEVEL :: nat where "MAXINCLUDELEVEL \<equiv> 8"
abbreviation MAXCFGLINE :: nat where "MAXCFGLINE \<equiv> 1024"
abbreviation MAX_WORDS_ON_LINE :: nat where "MAX_WORDS_ON_LINE \<equiv> 64"
abbreviation MAXSERVNAME :: nat where "MAXSERVNAME \<equiv> 32"
abbreviation CFG_NAMELEN :: nat where "CFG_NAMELEN \<equiv> 120"
abbreviation MIN_BLKSIZE :: int where "MIN_BLKSIZE \<equiv> 128"
abbreviation MAX_OBLKSIZE :: int where "MAX_OBLKSIZE \<equiv> 32767"
abbreviation DONT_CHECK :: int where "DONT_CHECK \<equiv> 0x7fffffff"
abbreviation A_ALL :: int where "A_ALL \<equiv> -1"

record EVT_FLAG =
  ev_path :: "string option"
  ev_command :: "string option"
  ev_pattern :: string
  ev_imm :: bool

record listenchain =
  l_addr :: string
  l_port :: string

text \<open>
  The structure being filled, \<^verbatim>\<open>work_config\<close>: the part the other components read, and the rest.
\<close>

record WORK =
  c_cfg :: BINKD_CONFIG
  c_iport :: string
  c_oport :: string
  c_connect_timeout :: int
  c_call_delay :: int
  c_no_call_delay :: bool
  c_rescan_delay :: int
  c_max_servers :: int
  c_max_clients :: int
  c_backresolv :: bool
  c_loglevel :: int
  c_conlog :: int
  c_printq :: bool
  c_percents :: bool
  c_tzoff :: int
  c_config_list :: "(string \<times> int) list"
  c_nolog :: "string list"
  c_evt_flags :: "EVT_FLAG list"
  c_listen :: "listenchain list"
  c_bindaddr :: string
  c_logpath :: string
  c_binlogpath :: string
  c_fdinhist :: string
  c_fdouthist :: string
  c_pid_file :: string
  c_passwords :: string
  c_syslog_facility :: int

definition upd_cfg :: "(BINKD_CONFIG \<Rightarrow> BINKD_CONFIG) \<Rightarrow> WORK \<Rightarrow> WORK" where
  "upd_cfg f c = c\<lparr>c_cfg := f (c_cfg c)\<rparr>"

text \<open>
  What the reader asks the system: the files, the variables of the environment, the services
  \<^verbatim>\<open>getaddrinfo\<close> knows, the device a directory is on, the names of the syslog facilities; and the
  switches \<^verbatim>\<open>-q\<close> and \<^verbatim>\<open>-v\<close> of the command line.
\<close>

record cfg_env =
  e_w :: world
  e_getenv :: "string \<Rightarrow> string option"
  e_service :: "string \<Rightarrow> bool"
  e_dev :: "string \<Rightarrow> int"
  e_facility :: "string \<Rightarrow> int option"
  e_quiet :: bool
  e_verbose :: nat

text \<open>
  A reader returns the structure or fails: with the text \<^verbatim>\<open>ConfigError\<close> prints, or because the code
  reads past the end of a string.
\<close>

datatype cfg_error = ConfigError string | Past_the_end

type_synonym 'a cres = "cfg_error + 'a"

definition cbind :: "'a cres \<Rightarrow> ('a \<Rightarrow> 'b cres) \<Rightarrow> 'b cres" where
  "cbind r f = (case r of Inl e \<Rightarrow> Inl e | Inr x \<Rightarrow> f x)"

lemma cbind_simps [simp]: "cbind (Inl e) f = Inl e" "cbind (Inr x) f = f x"
  by (simp_all add: cbind_def)

lemma cbind_Inr: "cbind r f = Inr y \<longleftrightarrow> (\<exists>x. r = Inr x \<and> f x = Inr y)"
  by (cases r) auto

definition need :: "bool \<Rightarrow> string \<Rightarrow> 'a cres \<Rightarrow> 'a cres" where
  "need b msg r = (if b then r else Inl (ConfigError msg))"

lemma need_Inr: "need b msg r = Inr x \<longleftrightarrow> b \<and> r = Inr x"
  by (simp add: need_def)

section \<open>Values\<close>

definition isArgCount :: "nat \<Rightarrow> string list \<Rightarrow> 'a cres \<Rightarrow> 'a cres" where
  "isArgCount n ws r = need (length ws = n) (dec_of_nat n @ '' argument(s) required'') r"

definition SyntaxError :: "string \<Rightarrow> 'a cres" where
  "SyntaxError key = Inl (ConfigError (''the syntax is incorrect for '' @ key))"

definition is_slash :: "char \<Rightarrow> bool" where
  "is_slash c \<longleftrightarrow> c = CHR ''/'' \<or> c = CHR 0x5C"

definition check_dir_path :: "string \<Rightarrow> string" where
  "check_dir_path s = rev (dropWhile is_slash (rev s))"

definition in_range :: "int \<Rightarrow> int \<Rightarrow> int \<Rightarrow> bool" where
  "in_range o1 o2 v \<longleftrightarrow> \<not> ((o1 \<noteq> DONT_CHECK \<and> v < o1) \<or> (o2 \<noteq> DONT_CHECK \<and> v > o2))"

text \<open>\<^verbatim>\<open>read_int\<close>: digits, or a minus sign and digits.\<close>

definition int_chars :: "string \<Rightarrow> bool" where
  "int_chars s \<longleftrightarrow> list_all isdigit (if s \<noteq> [] \<and> hd s = CHR ''-'' then tl s else s)"

definition read_int :: "int \<Rightarrow> int \<Rightarrow> string list \<Rightarrow> int cres" where
  "read_int o1 o2 ws = isArgCount 1 ws (let s = hd ws; v = atoi s in
     need (int_chars s) (s @ '': expecting a number'')
       (need (in_range o1 o2 v) (dec_of_int v @ '': incorrect value'') (Inr v)))"

text \<open>
  \<^verbatim>\<open>read_time\<close>: numbers with a unit, the last one may go without.  \<open>-1\<close> in \<open>curnum\<close> means that no digit
  was seen; sums and products wrap to 32 bits.
\<close>

definition unit_secs :: "char \<Rightarrow> int option" where
  "unit_secs c = (let t = tolower c in
     if t = CHR ''w'' then Some 604800 else if t = CHR ''d'' then Some 86400 else if t = CHR ''h'' then Some 3600
     else if t = CHR ''m'' then Some 60 else if t = CHR ''s'' then Some 1 else None)"

fun time_loop :: "string \<Rightarrow> int \<Rightarrow> int \<Rightarrow> int option" where
  "time_loop [] cur acc = Some (if cur \<noteq> -1 then to_int32 (acc + cur) else acc)"
| "time_loop (c # s) cur acc =
    (if isdigit c then
       time_loop s (to_int32 ((if cur = -1 then 0 else to_int32 (cur * 10)) + int (digit_val c))) acc
     else if cur = -1 then None
     else case unit_secs c of
       None \<Rightarrow> None
     | Some u \<Rightarrow> time_loop s (-1) (to_int32 (acc + to_int32 (cur * u))))"

definition read_time :: "int \<Rightarrow> int \<Rightarrow> string list \<Rightarrow> int cres" where
  "read_time o1 o2 ws = isArgCount 1 ws (let s = hd ws; neg = (s \<noteq> [] \<and> hd s = CHR ''-'') in
     case time_loop (if neg then tl s else s) (-1) 0 of
       None \<Rightarrow> Inl (ConfigError (s @ '': expecting a time interval''))
     | Some v \<Rightarrow> let v' = (if neg then to_int32 (- v) else v)
                in need (in_range o1 o2 v') (s @ '': incorrect value'') (Inr v'))"

text \<open>A string, a file name or the name of a directory.\<close>

datatype skind = S_plain nat | S_file | S_dir

definition read_string :: "skind \<Rightarrow> string list \<Rightarrow> cfg_env \<Rightarrow> string cres" where
  "read_string k ws e = isArgCount 1 ws (case k of
     S_plain n \<Rightarrow> Inr (strnzcpy (hd ws) n)
   | S_file \<Rightarrow> let t = strnzcpy (hd ws) MAXPATHLEN in
       need (t = [] \<or> \<not> is_slash (last t)) (''unexpected separator at the end of filename'') (Inr t)
   | S_dir \<Rightarrow> let t = check_dir_path (strnzcpy (hd ws) MAXPATHLEN) in
       need (stat (e_w e) t = Some Dir) (t @ '': incorrect directory'') (Inr t))"

definition read_bool :: "string \<Rightarrow> string list \<Rightarrow> bool cres" where
  "read_bool key ws = (if ws \<noteq> [] then SyntaxError key else Inr True)"

definition read_inboundcase :: "string \<Rightarrow> string list \<Rightarrow> inbcasetype cres" where
  "read_inboundcase key ws = isArgCount 1 ws (let w = hd ws in
     if o_stricmp w ''save'' = 0 then Inr INB_SAVE else if o_stricmp w ''upper'' = 0 then Inr INB_UPPER
     else if o_stricmp w ''lower'' = 0 then Inr INB_LOWER else if o_stricmp w ''mixed'' = 0 then Inr INB_MIXED
     else SyntaxError key)"

definition read_dontsendempty :: "string \<Rightarrow> string list \<Rightarrow> dontsendemptytype cres" where
  "read_dontsendempty key ws = isArgCount 1 ws (let w = hd ws in
     if o_stricmp w ''no'' = 0 then Inr EMPTY_NO else if o_stricmp w ''arcmail'' = 0 then Inr EMPTY_ARCMAIL
     else if o_stricmp w ''yes'' = 0 then Inr EMPTY_ALL else SyntaxError key)"

text \<open>The second name is spelled like this in the source.\<close>

definition read_renamestyle :: "string \<Rightarrow> string list \<Rightarrow> renamestyletype cres" where
  "read_renamestyle key ws = isArgCount 1 ws (let w = hd ws in
     if o_stricmp w ''postfix'' = 0 then Inr RENAME_POSTFIX
     else if o_stricmp w ''extenstion'' = 0 then Inr RENAME_EXTENSION else SyntaxError key)"

definition parse_addrtype :: "string \<Rightarrow> addrtype" where
  "parse_addrtype w = (if o_stricmp w ''all'' = 0 then A_ALL else if o_stricmp w ''secure'' = 0 then 4
     else if o_stricmp w ''unsecure'' = 0 then 8 else if o_stricmp w ''listed'' = 0 then 1
     else if o_stricmp w ''unlisted'' = 0 then 2 else 0)"

text \<open>\<^verbatim>\<open>find_port\<close> of \<^verbatim>\<open>iptools.c\<close>.\<close>

definition find_port :: "cfg_env \<Rightarrow> string \<Rightarrow> string option" where
  "find_port e s = (if s = [] then Some (if e_service e ''binkp'' then ''binkp'' else ''24554'')
     else if e_service e s then Some s else None)"

definition read_port :: "string list \<Rightarrow> cfg_env \<Rightarrow> string cres" where
  "read_port ws e = isArgCount 1 ws (case find_port e (hd ws) of
     None \<Rightarrow> Inl (ConfigError (hd ws @ '': bad port number'')) | Some p \<Rightarrow> Inr (take MAXSERVNAME p))"

text \<open>
  The test of the number of arguments is negated in the source: exactly one argument is refused.  In C the
  value goes to a global variable outside the configuration, so that a reload that fails later has changed
  it already; only the log uses it, and the model keeps it with the other values.
\<close>

definition read_syslog_facility :: "string list \<Rightarrow> cfg_env \<Rightarrow> int cres" where
  "read_syslog_facility ws e = (if length ws = 1 then Inl (ConfigError [])
     else if ws = [] then Inl Past_the_end
     else case e_facility e (hd ws) of
       None \<Rightarrow> Inl (ConfigError (hd ws @ '': incorrect facility name'')) | Some v \<Rightarrow> Inr v)"

section \<open>Lists\<close>

definition read_rfrule :: "string list \<Rightarrow> RF_RULE cres" where
  "read_rfrule ws = isArgCount 2 ws (Inr \<lparr>rf_from = ws ! 0, rf_to = ws ! 1\<rparr>)"

definition read_mask :: "string \<Rightarrow> string list \<Rightarrow> string list cres" where
  "read_mask key ws = (if ws = [] then SyntaxError key else Inr ws)"

definition Config_ParseAddress :: "string \<Rightarrow> BINKD_CONFIG \<Rightarrow> FTN_ADDR cres" where
  "Config_ParseAddress s c = (case parse_ftnaddress s (pDomains c) of
     None \<Rightarrow> Inl (ConfigError (s @ '': the address cannot be parsed'')) | Some a \<Rightarrow> Inr a)"

text \<open>An address with what is missing taken from the main one; without one the program exits.\<close>

definition full_address :: "string \<Rightarrow> BINKD_CONFIG \<Rightarrow> FTN_ADDR cres" where
  "full_address s c = cbind (Config_ParseAddress s c) (\<lambda>a.
     need (pAddr c \<noteq> []) ''you should define your address right after domains''
       (Inr (exp_ftnaddress a (pAddr c) (pDomains c))))"

definition read_akachain :: "aka_act \<Rightarrow> string list \<Rightarrow> BINKD_CONFIG \<Rightarrow> akachain cres" where
  "read_akachain act ws c = isArgCount 2 ws (cbind (full_address (ws ! 0) c) (\<lambda>fa.
     let m = ws ! 1; neg = (m \<noteq> [] \<and> hd m = CHR ''!'')
     in Inr \<lparr>aka_fa = fa, aka_mask = (if neg then tl m else m), aka_type = act, aka_not = neg\<rparr>))"

text \<open>\<^verbatim>\<open>read_aka_list\<close>: the own addresses; a duplicate is ignored.\<close>

definition read_aka :: "string \<Rightarrow> BINKD_CONFIG \<Rightarrow> BINKD_CONFIG cres" where
  "read_aka w c = cbind (Config_ParseAddress w c) (\<lambda>a.
     need (is4D a) (w @ '': must be at least a 4D address'')
       (need (fa_domain a \<noteq> [] \<or> pDomains c \<noteq> []) ''at least one domain must be defined first''
         (let a1 = (if fa_domain a = [] then a\<lparr>fa_domain := get_matched_domain (fa_z a) (pAddr c) (pDomains c)\<rparr> else a)
          in Inr (if \<exists>b\<in>set (pAddr c). ftnaddress_cmp a1 b = 0 then c else c\<lparr>pAddr := pAddr c @ [a1]\<rparr>))))"

fun aka_loop :: "string list \<Rightarrow> BINKD_CONFIG \<Rightarrow> BINKD_CONFIG cres" where
  "aka_loop [] c = Inr c"
| "aka_loop (w # ws) c = cbind (read_aka w c) (aka_loop ws)"

definition read_aka_list :: "string \<Rightarrow> string list \<Rightarrow> BINKD_CONFIG \<Rightarrow> BINKD_CONFIG cres" where
  "read_aka_list key ws c = (if ws = [] then SyntaxError key else aka_loop ws c)"

text \<open>\<^verbatim>\<open>read_domain_info\<close>.  An alias has no directory.\<close>

definition split_outbound :: "string \<Rightarrow> string \<times> string" where
  "split_outbound w = (let p = check_dir_path w in case last_slash p of
     None \<Rightarrow> (''.'', p) | Some i \<Rightarrow> (check_dir_path (take i p), drop (Suc i) p))"

definition zone_word :: "string \<Rightarrow> bool" where
  "zone_word w \<longleftrightarrow> (let r = dropWhile isdigit w in r = [] \<or> isspace (hd r)) \<and> atoi w > 0"

definition read_domain_info :: "string list \<Rightarrow> BINKD_CONFIG \<Rightarrow> BINKD_CONFIG cres" where
  "read_domain_info ws c =
    need (length ws = 3 \<or> length ws = 4) ''3 or 4 arguments required''
     (need (get_domain_info (ws ! 0) (pDomains c) = None) (ws ! 0 @ '': duplicate domain'')
       (let name = strnzcpy (ws ! 0) (MAX_DOMAIN + 1);
            add = (\<lambda>d. Inr (c\<lparr>pDomains := pDomains c @ [d]\<rparr>))
        in if o_stricmp (ws ! 1) ''alias-for'' = 0 then
             (case get_domain_info (ws ! 2) (pDomains c) of
                None \<Rightarrow> Inl (ConfigError (ws ! 2 @ '': undefined domain''))
              | Some d \<Rightarrow> isArgCount 3 ws (add (Domain name [] [] 0 None (Some d))))
           else need (zone_word (ws ! 2)) (ws ! 2 @ '': invalid zone'')
             (case split_outbound (ws ! 1) of (path, dir) \<Rightarrow>
               need (CHR ''.'' \<notin> set dir) ''there should be no extension for the base outbound name''
                 (add (Domain name path dir (atoi (ws ! 2)) (if length ws = 4 then Some (ws ! 3) else None) None)))))"

text \<open>\<^verbatim>\<open>read_listen\<close>: an address, a port, or both, the address in brackets when it has colons.\<close>

definition char_pos :: "char \<Rightarrow> string \<Rightarrow> nat option" where
  "char_pos c s = (if c \<in> set s then Some (length (takeWhile (\<lambda>x. x \<noteq> c) s)) else None)"

definition cut_at :: "char \<Rightarrow> nat \<Rightarrow> string \<Rightarrow> string" where
  "cut_at c k s = (case char_pos c s of None \<Rightarrow> s | Some i \<Rightarrow> take (i + k) s)"

definition listen_entry :: "string \<Rightarrow> listenchain" where
  "listen_entry w = (let a = take 41 w in
     if w \<noteq> [] \<and> hd w = CHR ''['' then
       (case char_pos (CHR '']'') w of
          Some i \<Rightarrow> if Suc i < length w \<and> w ! Suc i = CHR '':''
                     then \<lparr>l_addr = cut_at (CHR '']'') 1 a, l_port = take MAXSERVNAME (drop (i + 2) w)\<rparr>
                     else \<lparr>l_addr = a, l_port = []\<rparr>
        | None \<Rightarrow> \<lparr>l_addr = a, l_port = []\<rparr>)
     else (case char_pos (CHR '':'') w of
          Some i \<Rightarrow> \<lparr>l_addr = cut_at (CHR '':'') 0 a, l_port = take MAXSERVNAME (drop (Suc i) w)\<rparr>
        | None \<Rightarrow> \<lparr>l_addr = a, l_port = []\<rparr>))"

fun listen_loop :: "string list \<Rightarrow> cfg_env \<Rightarrow> listenchain list cres" where
  "listen_loop [] e = Inr []"
| "listen_loop (w # ws) e = (let l = listen_entry w in
     need (find_port e (l_port l) \<noteq> None) (l_port l @ '': bad port number'')
       (cbind (listen_loop ws e) (\<lambda>ls. Inr ((if l_addr l = ''*'' then l\<lparr>l_addr := []\<rparr> else l) # ls))))"

definition read_listen :: "string \<Rightarrow> string list \<Rightarrow> cfg_env \<Rightarrow> listenchain list cres" where
  "read_listen key ws e = (if ws = [] then SyntaxError key else listen_loop ws e)"

text \<open>
  \<^verbatim>\<open>read_skip\<close>: the state of its loop is the type of address, the size, whether to destroy, and how far
  the line is (0: type or size, 1: masks only, 2: a mask was seen); \<open>old\<close> is the keyword \<^verbatim>\<open>skipmask\<close>.
\<close>

definition skip_size :: "int \<Rightarrow> int" where
  "skip_size sz = (if sz > 0 then to_int64 (sz * 1024) else sz)"

fun skip_loop :: "bool \<Rightarrow> nat \<Rightarrow> string list \<Rightarrow> addrtype \<times> int \<times> bool \<times> nat \<Rightarrow> skipchain list cres" where
  "skip_loop old i [] (at, sz, destr, m) = need (m = 2) ''expecting at least one filemask'' (Inr [])"
| "skip_loop old i (w # ws) (at, sz, destr, m) =
    (if i = 0 \<and> w \<noteq> [] \<and> isalpha (hd w) \<and> \<not> old then
       need (parse_addrtype w \<noteq> 0) (''incorrect address type '' @ w) (skip_loop old 1 ws (parse_addrtype w, sz, destr, m))
     else if i < 2 \<and> m = 0 \<and> \<not> old then
       (if w = ''-'' then skip_loop old (Suc i) ws (at, -1, destr, m)
        else let neg = (w \<noteq> [] \<and> hd w = CHR ''!''); w' = (if neg then tl w else w) in
          need (w' \<noteq> [] \<and> isdigit (hd w')) (w' @ '': expecting a number'')
            (skip_loop old (Suc i) ws (at, to_int64 (int (strtoumax w')), destr \<or> neg, 1)))
     else cbind (skip_loop old (Suc i) ws (at, sz, destr, 2))
       (\<lambda>es. Inr (\<lparr>sk_mask = w, sk_atype = at, sk_size = skip_size sz, sk_destr = destr\<rparr> # es)))"

definition read_skip :: "bool \<Rightarrow> string list \<Rightarrow> skipchain list cres" where
  "read_skip old ws = skip_loop old 0 ws (A_ALL, 0, old, 0)"

text \<open>\<^verbatim>\<open>read_check_pkthdr\<close>: an optional type and the extension of bad packets.\<close>

definition drop_dot :: "string \<Rightarrow> string" where
  "drop_dot w = (if w \<noteq> [] \<and> hd w = CHR ''.'' then tl w else w)"

definition read_check_pkthdr :: "string \<Rightarrow> string list \<Rightarrow> (addrtype \<times> string) cres" where
  "read_check_pkthdr key ws = (if ws = [] then SyntaxError key
     else let t = parse_addrtype (ws ! 0) in
       if t \<noteq> 0 then isArgCount 2 ws (Inr (t, drop_dot (ws ! 1)))
       else isArgCount 1 ws (Inr (A_ALL, drop_dot (ws ! 0))))"

text \<open>\<^verbatim>\<open>read_flag_exec_info\<close>: one event for every pattern.\<close>

definition read_flag_exec_info :: "bool \<Rightarrow> string \<Rightarrow> string list \<Rightarrow> EVT_FLAG list cres" where
  "read_flag_exec_info is_flag key ws = (if length ws < 2 then SyntaxError key
     else let p = hd ws; imm = (p \<noteq> [] \<and> hd p = CHR ''!''); body = (if imm then tl p else p) in
       Inr (map (\<lambda>pat. \<lparr>ev_path = (if is_flag then Some body else None), ev_command = (if is_flag then None else Some body),
          ev_pattern = pat, ev_imm = imm\<rparr>) (tl ws)))"

section \<open>Nodes\<close>

text \<open>\<^verbatim>\<open>split_passwords\<close>: the session password, and those for packets and for outgoing calls.\<close>

definition non_empty :: "string \<Rightarrow> string option" where
  "non_empty s = (if s = [] then None else Some s)"

definition split_passwords :: "string option \<Rightarrow> string option \<times> string option \<times> string option" where
  "split_passwords p = (case p of None \<Rightarrow> (None, None, None)
     | Some s \<Rightarrow> (case char_pos (CHR '','') s of
         None \<Rightarrow> (Some s, None, None)
       | Some i \<Rightarrow> let r = drop (Suc i) s in (case char_pos (CHR '','') r of
           None \<Rightarrow> (Some (take i s), non_empty r, None)
         | Some j \<Rightarrow> (Some (take i s), non_empty (take j r), non_empty (drop (Suc j) r)))))"

abbreviation AF_INET :: int where "AF_INET \<equiv> 2"
abbreviation AF_INET6 :: int where "AF_INET6 \<equiv> 10"

definition no_node_args :: node_args where
  "no_node_args = \<lparr>a_hosts = None, a_pwd = None, a_pkt_pwd = None, a_out_pwd = None, a_obox_flvr = CHR ''-'',
     a_obox = None, a_ibox = None, a_NR_flag = NR_USE_OLD, a_ND_flag = ND_USE_OLD, a_MD_flag = MD_USE_OLD,
     a_restrictIP = RIP_USE_OLD, a_HC_flag = HC_USE_OLD, a_NP_flag = NP_USE_OLD, a_NC_flag = NC_USE_OLD,
     a_pipe = None, a_IP_afamily = AF_USE_OLD\<rparr>"

text \<open>One option without a parameter; \<open>None\<close> for an unknown one.  A repeated \<^verbatim>\<open>-4\<close> or \<^verbatim>\<open>-6\<close> is only warned of.\<close>

definition node_option :: "string \<Rightarrow> node_args \<Rightarrow> node_args option" where
  "node_option w a =
    (if o_stricmp w ''-md'' = 0 then Some (a\<lparr>a_MD_flag := 1\<rparr>)
     else if o_stricmp w ''-nomd'' = 0 then Some (a\<lparr>a_MD_flag := -1\<rparr>)
     else if o_stricmp w ''-nr'' = 0 then Some (a\<lparr>a_NR_flag := 1\<rparr>)
     else if o_stricmp w ''-nd'' = 0 then Some (a\<lparr>a_NR_flag := 1, a_ND_flag := 1\<rparr>)
     else if o_stricmp w ''-ip'' = 0 then Some (a\<lparr>a_restrictIP := 1\<rparr>)
     else if o_stricmp w ''-sip'' = 0 then Some (a\<lparr>a_restrictIP := 2\<rparr>)
     else if o_stricmp w ''-crypt'' = 0 then Some a
     else if o_stricmp w ''-hc'' = 0 then Some (a\<lparr>a_HC_flag := 1\<rparr>)
     else if o_stricmp w ''-nohc'' = 0 then Some (a\<lparr>a_HC_flag := -1\<rparr>)
     else if o_stricmp w ''-noproxy'' = 0 then Some (a\<lparr>a_NP_flag := 1\<rparr>)
     else if o_stricmp w ''-nc'' = 0 then Some (a\<lparr>a_NC_flag := 1\<rparr>)
     else if o_stricmp w ''-4'' = 0 then Some (if a_IP_afamily a \<le> 0 then a\<lparr>a_IP_afamily := AF_INET\<rparr> else a)
     else if o_stricmp w ''-6'' = 0 then Some (if a_IP_afamily a \<le> 0 then a\<lparr>a_IP_afamily := AF_INET6\<rparr> else a)
     else None)"

text \<open>The loop over the words: the positional ones (\<open>None\<close> for a dash) and the options.\<close>

fun node_words :: "string list \<Rightarrow> string option list \<Rightarrow> node_args \<Rightarrow> (string option list \<times> node_args) cres" where
  "node_words [] w a = Inr (w, a)"
| "node_words (t # ts) w a =
    (if t \<noteq> [] \<and> hd t = CHR ''-'' \<and> tl t \<noteq> [] then
       (if o_stricmp t ''-pipe'' = 0 then
          (case ts of [] \<Rightarrow> Inr (w, a\<lparr>a_pipe := None\<rparr>) | p # ts' \<Rightarrow> node_words ts' w (a\<lparr>a_pipe := Some p\<rparr>))
        else case node_option t a of
          None \<Rightarrow> Inl (ConfigError (t @ '': unknown option for `node' keyword''))
        | Some a' \<Rightarrow> node_words ts w a')
     else need (length w < 6) ''too many argumets for `node' keyword''
       (node_words ts (w @ [if t \<noteq> [] \<and> hd t = CHR ''-'' then None else Some t]) a))"

definition word_at :: "string option list \<Rightarrow> nat \<Rightarrow> string option" where
  "word_at w i = (if i < length w then w ! i else None)"

definition set_listed :: "FTN_ADDR \<Rightarrow> (int \<Rightarrow> int) \<Rightarrow> BINKD_CONFIG \<Rightarrow> BINKD_CONFIG" where
  "set_listed fa f c = (case find_index (\<lambda>pn. ftnaddress_cmp (n_fa pn) fa = 0) (pNod c) of
     None \<Rightarrow> c | Some i \<Rightarrow> c\<lparr>pNod := (pNod c)[i := (pNod c ! i)\<lparr>n_listed := f (n_listed (pNod c ! i))\<rparr>]\<rparr>)"

definition read_node_info :: "bool \<Rightarrow> string list \<Rightarrow> int \<Rightarrow> BINKD_CONFIG \<Rightarrow> BINKD_CONFIG cres" where
  "read_node_info is_def ws now c0 =
    (let c = (if is_def then c0\<lparr>havedefnode := True\<rparr> else c0);
         w0 = (if is_def then [Some ''0:0/0.0@defnode''] else [])
     in cbind (node_words ws w0 (no_node_args\<lparr>a_pipe := Some []\<rparr>)) (\<lambda>(w, a).
       case word_at w 0 of
         None \<Rightarrow> Inl (ConfigError ''missing node address'')
       | Some addr \<Rightarrow> cbind (full_address addr c) (\<lambda>fa.
           need (word_at w 2 \<noteq> Some []) ''empty password''
             (need (case word_at w 3 of None \<Rightarrow> True | Some f \<Rightarrow> f \<noteq> [] \<and> hd f \<in> set prio) ''incorrect flavour''
               (case split_passwords (word_at w 2) of (pwd, pkt, out) \<Rightarrow>
                 Inr (set_listed fa (\<lambda>l. NL_NODE)
                   (add_node fa (a\<lparr>a_hosts := word_at w 1, a_pwd := pwd, a_pkt_pwd := pkt, a_out_pwd := out,
                      a_obox_flvr := (case word_at w 3 of None \<Rightarrow> CHR ''-'' | Some f \<Rightarrow> hd f),
                      a_obox := map_option check_dir_path (word_at w 4),
                      a_ibox := map_option check_dir_path (word_at w 5)\<rparr>) now c)))))))"

text \<open>\<^verbatim>\<open>read_shares\<close>; the shared address becomes a node.\<close>

fun addr_loop :: "string list \<Rightarrow> BINKD_CONFIG \<Rightarrow> FTN_ADDR list cres" where
  "addr_loop [] c = Inr []"
| "addr_loop (w # ws) c = cbind (full_address w c) (\<lambda>a. cbind (addr_loop ws c) (\<lambda>as. Inr (a # as)))"

definition read_shares :: "string \<Rightarrow> string list \<Rightarrow> int \<Rightarrow> BINKD_CONFIG \<Rightarrow> BINKD_CONFIG cres" where
  "read_shares key ws now c = (if length ws < 2 then SyntaxError key
     else cbind (full_address (hd ws) c) (\<lambda>a.
       cbind (read_node_info False [hd ws] now c) (\<lambda>c1.
         cbind (addr_loop (tl ws) c1) (\<lambda>as. Inr (c1\<lparr>shares := shares c1 @ [\<lparr>sha = a, sfa = as\<rparr>]\<rparr>)))))"

section \<open>Keywords\<close>

text \<open>
  What a keyword does with its arguments: \<^verbatim>\<open>callback\<close> with its \<^verbatim>\<open>var\<close> and options.  A variable is the pair
  of the functions that read and store it.  The log keywords only set their variable here: the log is
  not modelled.
\<close>

type_synonym 'a var = "(WORK \<Rightarrow> 'a) \<times> ('a \<Rightarrow> WORK \<Rightarrow> WORK)"

datatype callback =
    Cb_include
  | Cb_string skind "string var"
  | Cb_int int int "int var"
  | Cb_time int int "int var"
  | Cb_bool "bool var"
  | Cb_port "string var"
  | Cb_mask "string list var"
  | Cb_akachain aka_act
  | Cb_flag_exec bool
  | Cb_skip bool
  | Cb_node bool
  | Cb_domain | Cb_address | Cb_listen | Cb_syslog | Cb_ftrans | Cb_inboundcase | Cb_dontsendempty
  | Cb_renamestyle | Cb_share | Cb_check_pkthdr

record KEYWORD =
  kw_key :: string
  kw_callback :: callback

definition kw :: "string \<Rightarrow> callback \<Rightarrow> KEYWORD" where
  "kw k c = \<lparr>kw_key = k, kw_callback = c\<rparr>"

definition keyword_table :: "KEYWORD list" where
  "keyword_table =
   [kw ''include'' Cb_include,
    kw ''passwords'' (Cb_string S_file (c_passwords, \<lambda>v c. c\<lparr>c_passwords := v\<rparr>)),
    kw ''log'' (Cb_string S_file (c_logpath, \<lambda>v c. c\<lparr>c_logpath := v\<rparr>)),
    kw ''loglevel'' (Cb_int 0 DONT_CHECK (c_loglevel, \<lambda>v c. c\<lparr>c_loglevel := v\<rparr>)),
    kw ''conlog'' (Cb_int 0 DONT_CHECK (c_conlog, \<lambda>v c. c\<lparr>c_conlog := v\<rparr>)),
    kw ''binlog'' (Cb_string S_file (c_binlogpath, \<lambda>v c. c\<lparr>c_binlogpath := v\<rparr>)),
    kw ''fdinhist'' (Cb_string S_file (c_fdinhist, \<lambda>v c. c\<lparr>c_fdinhist := v\<rparr>)),
    kw ''fdouthist'' (Cb_string S_file (c_fdouthist, \<lambda>v c. c\<lparr>c_fdouthist := v\<rparr>)),
    kw ''tzoff'' (Cb_time (- 43200) 43200 (c_tzoff, \<lambda>v c. c\<lparr>c_tzoff := v\<rparr>)),
    kw ''domain'' Cb_domain,
    kw ''address'' Cb_address,
    kw ''sysname'' (Cb_string (S_plain CFG_NAMELEN) (sysname \<circ> c_cfg, \<lambda>v. upd_cfg (\<lambda>c. c\<lparr>sysname := v\<rparr>))),
    kw ''bindaddr'' (Cb_string (S_plain 42) (c_bindaddr, \<lambda>v c. c\<lparr>c_bindaddr := v\<rparr>)),
    kw ''listen'' Cb_listen,
    kw ''sysop'' (Cb_string (S_plain CFG_NAMELEN) (sysop \<circ> c_cfg, \<lambda>v. upd_cfg (\<lambda>c. c\<lparr>sysop := v\<rparr>))),
    kw ''location'' (Cb_string (S_plain CFG_NAMELEN) (location \<circ> c_cfg, \<lambda>v. upd_cfg (\<lambda>c. c\<lparr>location := v\<rparr>))),
    kw ''nodeinfo'' (Cb_string (S_plain CFG_NAMELEN) (nodeinfo \<circ> c_cfg, \<lambda>v. upd_cfg (\<lambda>c. c\<lparr>nodeinfo := v\<rparr>))),
    kw ''iport'' (Cb_port (c_iport, \<lambda>v c. c\<lparr>c_iport := v\<rparr>)),
    kw ''oport'' (Cb_port (c_oport, \<lambda>v c. c\<lparr>c_oport := v\<rparr>)),
    kw ''rescan-delay'' (Cb_time 1 DONT_CHECK (c_rescan_delay, \<lambda>v c. c\<lparr>c_rescan_delay := v\<rparr>)),
    kw ''call-delay'' (Cb_time 1 DONT_CHECK (c_call_delay, \<lambda>v c. c\<lparr>c_call_delay := v\<rparr>)),
    kw ''no-call-delay'' (Cb_bool (c_no_call_delay, \<lambda>v c. c\<lparr>c_no_call_delay := v\<rparr>)),
    kw ''timeout'' (Cb_time 1 DONT_CHECK (nettimeout \<circ> c_cfg, \<lambda>v. upd_cfg (\<lambda>c. c\<lparr>nettimeout := v\<rparr>))),
    kw ''oblksize'' (Cb_int MIN_BLKSIZE MAX_OBLKSIZE (oblksize \<circ> c_cfg, \<lambda>v. upd_cfg (\<lambda>c. c\<lparr>oblksize := v\<rparr>))),
    kw ''maxservers'' (Cb_int 0 DONT_CHECK (c_max_servers, \<lambda>v c. c\<lparr>c_max_servers := v\<rparr>)),
    kw ''maxclients'' (Cb_int 0 DONT_CHECK (c_max_clients, \<lambda>v c. c\<lparr>c_max_clients := v\<rparr>)),
    kw ''inbound'' (Cb_string S_dir (inbound \<circ> c_cfg, \<lambda>v. upd_cfg (\<lambda>c. c\<lparr>inbound := v\<rparr>))),
    kw ''inbound-nonsecure'' (Cb_string S_dir (inbound_nonsecure \<circ> c_cfg, \<lambda>v. upd_cfg (\<lambda>c. c\<lparr>inbound_nonsecure := v\<rparr>))),
    kw ''temp-inbound'' (Cb_string S_dir (temp_inbound \<circ> c_cfg, \<lambda>v. upd_cfg (\<lambda>c. c\<lparr>temp_inbound := v\<rparr>))),
    kw ''node'' (Cb_node False),
    kw ''defnode'' (Cb_node True),
    kw ''kill-dup-partial-files'' (Cb_bool (kill_dup_partial_files \<circ> c_cfg, \<lambda>v. upd_cfg (\<lambda>c. c\<lparr>kill_dup_partial_files := v\<rparr>))),
    kw ''kill-old-partial-files'' (Cb_time 1 DONT_CHECK (kill_old_partial_files \<circ> c_cfg, \<lambda>v. upd_cfg (\<lambda>c. c\<lparr>kill_old_partial_files := v\<rparr>))),
    kw ''kill-old-bsy'' (Cb_time 1 DONT_CHECK (kill_old_bsy \<circ> c_cfg, \<lambda>v. upd_cfg (\<lambda>c. c\<lparr>kill_old_bsy := v\<rparr>))),
    kw ''percents'' (Cb_bool (c_percents, \<lambda>v c. c\<lparr>c_percents := v\<rparr>)),
    kw ''minfree'' (Cb_int 0 DONT_CHECK (minfree \<circ> c_cfg, \<lambda>v. upd_cfg (\<lambda>c. c\<lparr>minfree := v\<rparr>))),
    kw ''minfree-nonsecure'' (Cb_int 0 DONT_CHECK (minfree_nonsecure \<circ> c_cfg, \<lambda>v. upd_cfg (\<lambda>c. c\<lparr>minfree_nonsecure := v\<rparr>))),
    kw ''flag'' (Cb_flag_exec True),
    kw ''exec'' (Cb_flag_exec False),
    kw ''printq'' (Cb_bool (c_printq, \<lambda>v c. c\<lparr>c_printq := v\<rparr>)),
    kw ''try'' (Cb_int 0 0xffff (tries \<circ> c_cfg, \<lambda>v. upd_cfg (\<lambda>c. c\<lparr>tries := v\<rparr>))),
    kw ''hold'' (Cb_time 0 DONT_CHECK (hold \<circ> c_cfg, \<lambda>v. upd_cfg (\<lambda>c. c\<lparr>hold := v\<rparr>))),
    kw ''hold-skipped'' (Cb_time 0 DONT_CHECK (hold_skipped \<circ> c_cfg, \<lambda>v. upd_cfg (\<lambda>c. c\<lparr>hold_skipped := v\<rparr>))),
    kw ''backresolv'' (Cb_bool (c_backresolv, \<lambda>v c. c\<lparr>c_backresolv := v\<rparr>)),
    kw ''pid-file'' (Cb_string S_file (c_pid_file, \<lambda>v c. c\<lparr>c_pid_file := v\<rparr>)),
    kw ''remove-try-files'' (Cb_bool (remove_try_files \<circ> c_cfg, \<lambda>v. upd_cfg (\<lambda>c. c\<lparr>remove_try_files := v\<rparr>))),
    kw ''syslog'' Cb_syslog,
    kw ''ftrans'' Cb_ftrans,
    kw ''send-if-pwd'' (Cb_bool (send_if_pwd \<circ> c_cfg, \<lambda>v. upd_cfg (\<lambda>c. c\<lparr>send_if_pwd := v\<rparr>))),
    kw ''root-domain'' (Cb_string (S_plain BINKD_FQDNLEN) (root_domain \<circ> c_cfg, \<lambda>v. upd_cfg (\<lambda>c. c\<lparr>root_domain := v\<rparr>))),
    kw ''prescan'' (Cb_bool (prescan \<circ> c_cfg, \<lambda>v. upd_cfg (\<lambda>c. c\<lparr>prescan := v\<rparr>))),
    kw ''connect-timeout'' (Cb_time 0 DONT_CHECK (c_connect_timeout, \<lambda>v c. c\<lparr>c_connect_timeout := v\<rparr>)),
    kw ''filebox'' (Cb_string S_dir (tfilebox \<circ> c_cfg, \<lambda>v. upd_cfg (\<lambda>c. c\<lparr>tfilebox := v\<rparr>))),
    kw ''brakebox'' (Cb_string S_dir (bfilebox \<circ> c_cfg, \<lambda>v. upd_cfg (\<lambda>c. c\<lparr>bfilebox := v\<rparr>))),
    kw ''deletebox'' (Cb_bool (deleteablebox \<circ> c_cfg, \<lambda>v. upd_cfg (\<lambda>c. c\<lparr>deleteablebox := v\<rparr>))),
    kw ''skip'' (Cb_skip False),
    kw ''skipmask'' (Cb_skip True),
    kw ''inboundcase'' Cb_inboundcase,
    kw ''deletedirs'' (Cb_bool (deletedirs \<circ> c_cfg, \<lambda>v. upd_cfg (\<lambda>c. c\<lparr>deletedirs := v\<rparr>))),
    kw ''overwrite'' (Cb_mask (overwrite \<circ> c_cfg, \<lambda>v. upd_cfg (\<lambda>c. c\<lparr>overwrite := v\<rparr>))),
    kw ''dont-send-empty'' Cb_dontsendempty,
    kw ''rename-style'' Cb_renamestyle,
    kw ''share'' Cb_share,
    kw ''check-pkthdr'' Cb_check_pkthdr,
    kw ''nolog'' (Cb_mask (c_nolog, \<lambda>v c. c\<lparr>c_nolog := v\<rparr>)),
    kw ''hide-aka'' (Cb_akachain ACT_HIDE),
    kw ''present-aka'' (Cb_akachain ACT_PRESENT)]"

text \<open>One keyword on its arguments; \<open>inc\<close> reads an included file.\<close>

definition lift_cfg :: "('a \<Rightarrow> BINKD_CONFIG \<Rightarrow> BINKD_CONFIG) \<Rightarrow> WORK \<Rightarrow> 'a cres \<Rightarrow> WORK cres" where
  "lift_cfg f c r = cbind r (\<lambda>v. Inr (upd_cfg (f v) c))"

definition run_callback :: "(string \<Rightarrow> WORK \<Rightarrow> WORK cres) \<Rightarrow> cfg_env \<Rightarrow> KEYWORD \<Rightarrow> string list \<Rightarrow> WORK \<Rightarrow> WORK cres" where
  "run_callback inc e k ws c = (let key = kw_key k; now = w_time (e_w e) in case kw_callback k of
     Cb_include \<Rightarrow> isArgCount 1 ws (inc (hd ws) c)
   | Cb_string sk f \<Rightarrow> cbind (read_string sk ws e) (\<lambda>v. Inr (snd f v c))
   | Cb_int a b f \<Rightarrow> cbind (read_int a b ws) (\<lambda>v. Inr (snd f v c))
   | Cb_time a b f \<Rightarrow> cbind (read_time a b ws) (\<lambda>v. Inr (snd f v c))
   | Cb_bool f \<Rightarrow> cbind (read_bool key ws) (\<lambda>v. Inr (snd f v c))
   | Cb_port f \<Rightarrow> cbind (read_port ws e) (\<lambda>v. Inr (snd f v c))
   | Cb_mask f \<Rightarrow> cbind (read_mask key ws) (\<lambda>v. Inr (snd f (fst f c @ v) c))
   | Cb_akachain act \<Rightarrow> lift_cfg (\<lambda>v b. b\<lparr>akamask := akamask b @ [v]\<rparr>) c (read_akachain act ws (c_cfg c))
   | Cb_flag_exec fl \<Rightarrow> cbind (read_flag_exec_info fl key ws) (\<lambda>v. Inr (c\<lparr>c_evt_flags := c_evt_flags c @ v\<rparr>))
   | Cb_skip old \<Rightarrow> lift_cfg (\<lambda>v b. b\<lparr>skipmask := skipmask b @ v\<rparr>) c (read_skip old ws)
   | Cb_node d \<Rightarrow> lift_cfg (\<lambda>v b. v) c (read_node_info d ws now (c_cfg c))
   | Cb_domain \<Rightarrow> lift_cfg (\<lambda>v b. v) c (read_domain_info ws (c_cfg c))
   | Cb_address \<Rightarrow> lift_cfg (\<lambda>v b. v) c (read_aka_list key ws (c_cfg c))
   | Cb_listen \<Rightarrow> cbind (read_listen key ws e) (\<lambda>v. Inr (c\<lparr>c_listen := c_listen c @ v\<rparr>))
   | Cb_syslog \<Rightarrow> cbind (read_syslog_facility ws e) (\<lambda>v. Inr (c\<lparr>c_syslog_facility := v\<rparr>))
   | Cb_ftrans \<Rightarrow> lift_cfg (\<lambda>v b. b\<lparr>rf_rules := rf_rules b @ [v]\<rparr>) c (read_rfrule ws)
   | Cb_inboundcase \<Rightarrow> lift_cfg (\<lambda>v b. b\<lparr>inboundcase := v\<rparr>) c (read_inboundcase key ws)
   | Cb_dontsendempty \<Rightarrow> lift_cfg (\<lambda>v b. b\<lparr>dontsendempty := v\<rparr>) c (read_dontsendempty key ws)
   | Cb_renamestyle \<Rightarrow> lift_cfg (\<lambda>v b. b\<lparr>renamestyle := v\<rparr>) c (read_renamestyle key ws)
   | Cb_share \<Rightarrow> lift_cfg (\<lambda>v b. v) c (read_shares key ws now (c_cfg c))
   | Cb_check_pkthdr \<Rightarrow> lift_cfg (\<lambda>v b. b\<lparr>pkthdr_type := fst v, pkthdr_bad := snd v\<rparr>) c (read_check_pkthdr key ws))"

section \<open>Files\<close>

text \<open>The words of a line, at most 64; the flags of the macro \<^verbatim>\<open>getword\<close>.\<close>

definition cfg_flags :: gwx_flags where
  "cfg_flags = \<lparr>GWX_SUBST = True, GWX_HASH = True, GWX_NOESC = False\<rparr>"

fun line_words :: "cfg_env \<Rightarrow> string \<Rightarrow> nat \<Rightarrow> nat \<Rightarrow> string list cres" where
  "line_words e s i 0 = Inr []"
| "line_words e s i (Suc k) = (case getwordx2 s i cfg_flags blanks blanks (e_getenv e) of
     GwOob \<Rightarrow> Inl Past_the_end
   | GwNull \<Rightarrow> Inr []
   | GwWord w \<Rightarrow> cbind (line_words e s (Suc i) k) (\<lambda>ws. Inr (w # ws)))"

definition find_keyword :: "string \<Rightarrow> KEYWORD option" where
  "find_keyword w = find (\<lambda>k. o_stricmp (kw_key k) w = 0) keyword_table"

definition read_line :: "(string \<Rightarrow> WORK \<Rightarrow> WORK cres) \<Rightarrow> cfg_env \<Rightarrow> string \<Rightarrow> WORK \<Rightarrow> WORK cres" where
  "read_line inc e s c = cbind (line_words e s 1 MAX_WORDS_ON_LINE) (\<lambda>ws. case ws of
     [] \<Rightarrow> Inr c
   | w # args \<Rightarrow> (case find_keyword w of
       None \<Rightarrow> Inl (ConfigError (w @ '': unknown keyword''))
     | Some k \<Rightarrow> run_callback inc e k args c))"

fun read_lines :: "(string \<Rightarrow> WORK \<Rightarrow> WORK cres) \<Rightarrow> cfg_env \<Rightarrow> string list \<Rightarrow> WORK \<Rightarrow> WORK cres" where
  "read_lines inc e [] c = Inr c"
| "read_lines inc e (s # ls) c = cbind (read_line inc e (c_string s) c) (read_lines inc e ls)"

definition add_to_config_list :: "string \<Rightarrow> cfg_env \<Rightarrow> WORK \<Rightarrow> WORK" where
  "add_to_config_list path e c = c\<lparr>c_config_list := c_config_list c @
     [(path, case stat (e_w e) path of Some (File d t) \<Rightarrow> t | _ \<Rightarrow> 0)]\<rparr>"

definition read_file :: "(string \<Rightarrow> WORK \<Rightarrow> WORK cres) \<Rightarrow> cfg_env \<Rightarrow> string \<Rightarrow> WORK \<Rightarrow> WORK cres" where
  "read_file inc e path c = (case fopen_r path (e_w e) of
     None \<Rightarrow> Inl (ConfigError (''cannot open '' @ path))
   | Some d \<Rightarrow> read_lines inc e (file_lines (MAXCFGLINE + 1) d) (add_to_config_list path e c))"

text \<open>\<^verbatim>\<open>readcfg0\<close> with the number of further levels of \<^verbatim>\<open>include\<close>.\<close>

fun readcfg0 :: "nat \<Rightarrow> cfg_env \<Rightarrow> string \<Rightarrow> WORK \<Rightarrow> WORK cres" where
  "readcfg0 0 e = read_file (\<lambda>_ _. Inl (ConfigError ''too many nested include commands'')) e"
| "readcfg0 (Suc n) e = read_file (readcfg0 n e) e"

section \<open>The password file\<close>

text \<open>\<^verbatim>\<open>strtok\<close> with blanks, newlines and tabs: the words of a line.\<close>

definition tok_space :: "char \<Rightarrow> bool" where
  "tok_space c \<longleftrightarrow> c = CHR '' '' \<or> c = CHR 0x0A \<or> c = CHR 0x09"

function tokens :: "string \<Rightarrow> string list" where
  "tokens s = (let t = dropWhile tok_space s in
     if t = [] then [] else takeWhile (\<lambda>c. \<not> tok_space c) t # tokens (dropWhile (\<lambda>c. \<not> tok_space c) t))"
  by pat_completeness auto

lemma dropWhile_tok: "dropWhile tok_space s \<noteq> [] \<Longrightarrow>
   length (dropWhile (\<lambda>c. \<not> tok_space c) (dropWhile tok_space s)) < length s"
proof -
  assume n: "dropWhile tok_space s \<noteq> []"
  obtain c t where t: "dropWhile tok_space s = c # t" using n by (cases "dropWhile tok_space s") auto
  then have "\<not> tok_space c" by (metis dropWhile_eq_Cons_conv)
  moreover have "length (dropWhile (\<lambda>c. \<not> tok_space c) t) \<le> length t" by (rule length_dropWhile_le)
  moreover have "length (c # t) \<le> length s" using t length_dropWhile_le [of tok_space s] by simp
  ultimately show ?thesis using t by simp
qed

termination tokens
  by (relation "measure length") (auto simp: dropWhile_tok)

declare tokens.simps [simp del]

text \<open>A line: the address of a node and its passwords; a line without them is skipped.\<close>

definition password_words :: "string \<Rightarrow> (string \<times> string) option" where
  "password_words s = (case tokens s of
     [] \<Rightarrow> None
   | t # ts \<Rightarrow> (case (if o_stricmp t ''password'' = 0 then ts else t # ts) of
       node # password # r \<Rightarrow> Some (node, password) | _ \<Rightarrow> None))"

definition password_line :: "int \<Rightarrow> string \<Rightarrow> BINKD_CONFIG \<Rightarrow> BINKD_CONFIG cres" where
  "password_line now s c = (case password_words s of
     None \<Rightarrow> Inr c
   | Some (node, password) \<Rightarrow> (case parse_ftnaddress node (pDomains c) of
       None \<Rightarrow> Inr c
     | Some a \<Rightarrow>
         need (pAddr c \<noteq> []) ''you should define your address right after domains''
           (let fa = exp_ftnaddress a (pAddr c) (pDomains c) in
            case split_passwords (Some password) of (pwd, pkt, out) \<Rightarrow>
              Inr (set_listed fa (\<lambda>l. if l = 0 then 2 else l)
                (add_node fa (no_node_args\<lparr>a_pwd := pwd, a_pkt_pwd := pkt, a_out_pwd := out\<rparr>) now c)))))"

fun password_lines :: "int \<Rightarrow> string list \<Rightarrow> BINKD_CONFIG \<Rightarrow> BINKD_CONFIG cres" where
  "password_lines now [] c = Inr c"
| "password_lines now (s # ls) c = cbind (password_line now (c_string s) c) (password_lines now ls)"

definition read_passwords :: "string \<Rightarrow> cfg_env \<Rightarrow> WORK \<Rightarrow> WORK cres" where
  "read_passwords path e c = (case fopen_r path (e_w e) of
     None \<Rightarrow> Inl (ConfigError (''unable to open password file '' @ path))
   | Some d \<Rightarrow> let c1 = add_to_config_list path e c in
       lift_cfg (\<lambda>v b. v) c1 (password_lines (w_time (e_w e)) (file_lines (MAXCFGLINE + 1) d) (c_cfg c1)))"

section \<open>Checks\<close>

definition check_outbox :: "string \<Rightarrow> BINKD_CONFIG \<Rightarrow> bool" where
  "check_outbox obox c \<longleftrightarrow> (\<exists>d\<in>set (pDomains c). alias4 d = None \<and> take (length (dom_path d)) obox = dom_path d \<and>
     (let s = drop (length (dom_path d)) obox in s \<noteq> [] \<and> is_slash (hd s) \<and> o_stricmp (tl s) (dom_dir d) = 0))"

definition is_dir :: "cfg_env \<Rightarrow> string \<Rightarrow> bool" where
  "is_dir e p \<longleftrightarrow> stat (e_w e) p = Some Dir"

definition box_of :: "string option \<Rightarrow> string" where
  "box_of b = (case b of None \<Rightarrow> [] | Some p \<Rightarrow> p)"

text \<open>\<^verbatim>\<open>check_boxes\<close> for one node; \<open>dev\<close> is the device of the temporary inbound.\<close>

definition check_boxes :: "cfg_env \<Rightarrow> int option \<Rightarrow> BINKD_CONFIG \<Rightarrow> FTN_NODE \<Rightarrow> bool" where
  "check_boxes e dev c n \<longleftrightarrow>
     (box_of (n_obox n) = [] \<or> (is_dir e (box_of (n_obox n)) \<and> \<not> check_outbox (box_of (n_obox n)) c)) \<and>
     (box_of (n_ibox n) = [] \<or> (is_dir e (box_of (n_ibox n)) \<and> (dev = None \<or> dev = Some (e_dev e (box_of (n_ibox n))))))"

text \<open>
  A temporary inbound that is not there leaves the device of the structure on the stack undefined;
  \<open>e_dev\<close> stands for what is found in it.
\<close>

definition check_config :: "cfg_env \<Rightarrow> BINKD_CONFIG \<Rightarrow> BINKD_CONFIG cres" where
  "check_config e c =
    (let t = temp_inbound c; elsewhere = (\<lambda>p. stat (e_w e) p \<noteq> None \<and> e_dev e p \<noteq> e_dev e t);
         there = (t \<noteq> [] \<and> stat (e_w e) t \<noteq> None);
         dev = (if t \<noteq> [] then Some (e_dev e t) else None)
     in need (\<not> (there \<and> elsewhere (inbound c))) ''Inbound and temp-inbound must be in the same partition''
       (need (\<not> (there \<and> elsewhere (inbound_nonsecure c))) ''Unsecure-inbound and temp-inbound must be in the same partition''
         (case foreach_node (\<lambda>n u. (if check_boxes e dev c n then 0 else 1, n, u)) (w_time (e_w e)) c () of
            (rc, c', u) \<Rightarrow> need (rc = 0) ''wrong box of a link'' (Inr c'))))"

section \<open>The whole configuration\<close>

definition empty_cfg :: BINKD_CONFIG where
  "empty_cfg = \<lparr>pAddr = [], pNod = [], nNodSorted = False, q_present = False, oblksize = 4096, nettimeout = 300,
    kill_dup_partial_files = False, kill_old_partial_files = 0, kill_old_bsy = 0, minfree = -1, minfree_nonsecure = -1,
    tries = 0, hold = 0, hold_skipped = 3600, send_if_pwd = False, remove_try_files = False, prescan = False,
    inboundcase = INB_SAVE, deletedirs = False, havedefnode = False, dontsendempty = EMPTY_NO,
    renamestyle = RENAME_POSTFIX, pkthdr_type = 0, pkthdr_bad = [], pDomains = [], overwrite = [], skipmask = [],
    rf_rules = [], akamask = [], shares = [], root_domain = ''binkp.net'', sysname = [], sysop = [], location = [],
    nodeinfo = [], inbound = ''.'', inbound_nonsecure = [], temp_inbound = [], tfilebox = [], bfilebox = [],
    deleteablebox = False\<rparr>"

text \<open>The defaults \<^verbatim>\<open>lock_config_structure\<close> sets in a structure of zeros.\<close>

definition lock_config_structure :: "cfg_env \<Rightarrow> WORK" where
  "lock_config_structure e = (let p = take MAXSERVNAME (the (find_port e [])) in
    \<lparr>c_cfg = empty_cfg, c_iport = p, c_oport = p, c_connect_timeout = 0, c_call_delay = 60, c_no_call_delay = False,
     c_rescan_delay = 60, c_max_servers = 100, c_max_clients = 100, c_backresolv = False, c_loglevel = 4, c_conlog = 1,
     c_printq = False, c_percents = False, c_tzoff = -1, c_config_list = [], c_nolog = [], c_evt_flags = [],
     c_listen = [], c_bindaddr = [], c_logpath = [], c_binlogpath = [], c_fdinhist = [], c_fdouthist = [],
     c_pid_file = [], c_passwords = [], c_syslog_facility = -1\<rparr>)"

definition isDefined :: "string \<Rightarrow> string \<Rightarrow> 'a cres \<Rightarrow> 'a cres" where
  "isDefined v name r = need (v \<noteq> []) (name @ '' must be defined'') r"

definition quiet_overrides :: "cfg_env \<Rightarrow> WORK \<Rightarrow> WORK" where
  "quiet_overrides e c = (if e_quiet e then c\<lparr>c_percents := False, c_conlog := 0, c_printq := False\<rparr> else c)"

definition verbose_overrides :: "cfg_env \<Rightarrow> WORK \<Rightarrow> WORK" where
  "verbose_overrides e c = (if e_verbose e = 0 then c
     else let l = (if e_verbose e = 1 then 4 else 6) in
       c\<lparr>c_percents := True, c_printq := True, c_loglevel := l, c_conlog := l\<rparr>)"

text \<open>The address to listen on by default, and the port of the entries without one.\<close>

definition default_listen :: "WORK \<Rightarrow> WORK" where
  "default_listen c = (let ls = (if c_listen c = [] then [\<lparr>l_addr = [], l_port = []\<rparr>] else c_listen c)
     in c\<lparr>c_listen := map (\<lambda>l. if l_port l = [] then l\<lparr>l_port := take MAXSERVNAME (c_iport c)\<rparr> else l) ls\<rparr>)"

definition default_inbound :: "WORK \<Rightarrow> WORK" where
  "default_inbound c = upd_cfg (\<lambda>b. if inbound_nonsecure b = [] then b\<lparr>inbound_nonsecure := inbound b\<rparr> else b) c"

definition complete_cfg :: "cfg_env \<Rightarrow> WORK \<Rightarrow> WORK cres" where
  "complete_cfg e c =
    need (pAddr (c_cfg c) \<noteq> []) ''your address should be defined''
     (need (pDomains (c_cfg c) \<noteq> []) ''at least one domain should be defined''
       (let c1 = default_inbound (default_listen (verbose_overrides e (quiet_overrides e c)))
        in cbind (if c_passwords c1 \<noteq> [] then read_passwords (c_passwords c1) e c1 else Inr c1) (\<lambda>c2.
          lift_cfg (\<lambda>v b. v) c2 (check_config e (c_cfg c2)))))"

definition readcfg :: "cfg_env \<Rightarrow> string \<Rightarrow> WORK cres" where
  "readcfg e path = cbind (readcfg0 MAXINCLUDELEVEL e path (lock_config_structure e)) (\<lambda>c.
     isDefined (sysname (c_cfg c)) ''sysname'' (isDefined (sysop (c_cfg c)) ''sysop''
       (isDefined (location (c_cfg c)) ''location'' (isDefined (nodeinfo (c_cfg c)) ''nodeinfo''
         (complete_cfg e c)))))"

section \<open>Reload\<close>

text \<open>
  \<^verbatim>\<open>checkcfg\<close>: the modification times of the files of the current configuration are compared and
  brought up to date; a first known time is not a change.
\<close>

definition recheck_file :: "world \<Rightarrow> string \<times> int \<Rightarrow> bool \<times> (string \<times> int)" where
  "recheck_file w pc = (case stat w (fst pc) of
     None \<Rightarrow> (False, pc)
   | Some en \<Rightarrow> let t = snd (file_size en) in (snd pc \<noteq> 0 \<and> snd pc \<noteq> t, (fst pc, t)))"

text \<open>The result is the configuration then in use, and whether it is a new one.\<close>

definition checkcfg :: "bool \<Rightarrow> bool \<Rightarrow> cfg_env \<Rightarrow> WORK \<Rightarrow> bool \<times> WORK" where
  "checkcfg checkcfg_flag got_sighup e cur =
    (if \<not> checkcfg_flag \<and> \<not> got_sighup then (False, cur)
     else let rs = map (recheck_file (e_w e)) (c_config_list cur);
              cur1 = cur\<lparr>c_config_list := map snd rs\<rparr>
          in if \<not> got_sighup \<and> \<not> list_ex fst rs then (False, cur1)
             else case readcfg e (fst (hd (c_config_list cur1))) of
                 Inl err \<Rightarrow> (False, cur1) | Inr c \<Rightarrow> (True, c))"

end
