(* ===== verification/Config.thy ===== *)
theory Config
  imports Readcfg
begin

text \<open>
  What the configuration reader guarantees: every configuration it returns is well-formed (the ranges
  and lengths the program relies on, complete addresses, directories that exist), whatever the files
  say; and what it prints of a time is read back as the same time.
\<close>

section \<open>Well-formed configurations\<close>

text \<open>Numbers in their ranges and strings that fit their arrays.\<close>

definition limits_ok :: "BINKD_CONFIG \<Rightarrow> bool" where
  "limits_ok b \<longleftrightarrow> MIN_BLKSIZE \<le> oblksize b \<and> oblksize b \<le> MAX_OBLKSIZE \<and> 1 \<le> nettimeout b \<and>
     0 \<le> kill_old_partial_files b \<and> 0 \<le> kill_old_bsy b \<and> -1 \<le> minfree b \<and> -1 \<le> minfree_nonsecure b \<and>
     0 \<le> tries b \<and> tries b \<le> 65535 \<and> 0 \<le> hold b \<and> 0 \<le> hold_skipped b \<and> renamestyle b \<noteq> RENAME_BODY \<and>
     length (sysname b) < CFG_NAMELEN \<and> length (sysop b) < CFG_NAMELEN \<and> length (location b) < CFG_NAMELEN \<and>
     length (nodeinfo b) < CFG_NAMELEN \<and> length (root_domain b) < BINKD_FQDNLEN \<and>
     list_all (\<lambda>s. sk_atype s \<noteq> 0) (skipmask b)"

text \<open>Domains have a positive zone and a directory without extension; an alias names an earlier domain.\<close>

definition domain_ok :: "FTN_DOMAIN list \<Rightarrow> FTN_DOMAIN \<Rightarrow> bool" where
  "domain_ok ds d \<longleftrightarrow> 0 \<le> dom_z d \<and> length (dom_name d) \<le> MAX_DOMAIN \<and>
     (case alias4 d of None \<Rightarrow> 0 < dom_z d \<and> CHR ''.'' \<notin> set (dom_dir d)
      | Some a \<Rightarrow> 0 \<le> dom_z a \<and> a \<in> set ds)"

definition domains_ok :: "BINKD_CONFIG \<Rightarrow> bool" where
  "domains_ok b \<longleftrightarrow> list_all (domain_ok (pDomains b)) (pDomains b)"

text \<open>Own addresses are complete, and none is given twice.\<close>

definition addrs_ok :: "BINKD_CONFIG \<Rightarrow> bool" where
  "addrs_ok b \<longleftrightarrow> list_all is4D (pAddr b) \<and> sorted_wrt (\<lambda>x y. ftnaddress_cmp y x \<noteq> 0) (pAddr b)"

text \<open>Nodes: one entry for an address, which is complete, with passwords that fit.\<close>

definition node_ok :: "FTN_NODE \<Rightarrow> bool" where
  "node_ok n \<longleftrightarrow> is4D (n_fa n) \<and> length (n_pwd n) \<le> MAXPWDLEN"

definition nodes_wf :: "BINKD_CONFIG \<Rightarrow> bool" where
  "nodes_wf b \<longleftrightarrow> list_all node_ok (pNod b) \<and> distinct (map n_fa (pNod b))"

text \<open>The lists that refer to nodes.\<close>

definition links_ok :: "BINKD_CONFIG \<Rightarrow> bool" where
  "links_ok b \<longleftrightarrow> list_all (\<lambda>k. is4D (aka_fa k)) (akamask b) \<and>
     list_all (\<lambda>s. is4D (sha s) \<and> list_all is4D (sfa s) \<and> sfa s \<noteq> []) (shares b)"

text \<open>Directories that were given exist.\<close>

definition dir_ok :: "cfg_env \<Rightarrow> string \<Rightarrow> bool" where
  "dir_ok e p \<longleftrightarrow> stat (e_w e) p = Some Dir"

definition dirs_ok :: "cfg_env \<Rightarrow> BINKD_CONFIG \<Rightarrow> bool" where
  "dirs_ok e b \<longleftrightarrow> (inbound b = ''.'' \<or> dir_ok e (inbound b)) \<and>
     (inbound_nonsecure b = [] \<or> inbound_nonsecure b = ''.'' \<or> dir_ok e (inbound_nonsecure b)) \<and>
     (temp_inbound b = [] \<or> dir_ok e (temp_inbound b)) \<and>
     (tfilebox b = [] \<or> dir_ok e (tfilebox b)) \<and> (bfilebox b = [] \<or> dir_ok e (bfilebox b))"

definition cfg_wf :: "cfg_env \<Rightarrow> BINKD_CONFIG \<Rightarrow> bool" where
  "cfg_wf e b \<longleftrightarrow> limits_ok b \<and> domains_ok b \<and> addrs_ok b \<and> nodes_wf b \<and> links_ok b \<and> dirs_ok e b"

text \<open>The rest of the structure.\<close>

definition rest_ok :: "WORK \<Rightarrow> bool" where
  "rest_ok c \<longleftrightarrow> c_iport c \<noteq> [] \<and> length (c_iport c) \<le> MAXSERVNAME \<and>
     c_oport c \<noteq> [] \<and> length (c_oport c) \<le> MAXSERVNAME \<and>
     0 \<le> c_connect_timeout c \<and> 1 \<le> c_call_delay c \<and> 1 \<le> c_rescan_delay c \<and> 0 \<le> c_max_servers c \<and>
     0 \<le> c_max_clients c \<and> 0 \<le> c_loglevel c \<and> 0 \<le> c_conlog c \<and> -43200 \<le> c_tzoff c \<and> c_tzoff c \<le> 43200 \<and>
     length (c_bindaddr c) < 42 \<and>
     list_all (\<lambda>l. length (l_addr l) \<le> 41 \<and> length (l_port l) \<le> MAXSERVNAME) (c_listen c)"

definition work_wf :: "cfg_env \<Rightarrow> WORK \<Rightarrow> bool" where
  "work_wf e c \<longleftrightarrow> cfg_wf e (c_cfg c) \<and> rest_ok c"

section \<open>What the readers return\<close>

lemma isArgCount_Inr [simp]: "isArgCount n ws r = Inr x \<longleftrightarrow> length ws = n \<and> r = Inr x"
  by (simp add: isArgCount_def need_Inr)

lemma SyntaxError_Inr [simp]: "SyntaxError k \<noteq> Inr x"
  by (simp add: SyntaxError_def)

lemma read_int_range: "read_int a b ws = Inr v \<Longrightarrow> in_range a b v"
  by (auto simp: read_int_def need_Inr Let_def)

lemma read_time_range: "read_time a b ws = Inr v \<Longrightarrow> in_range a b v"
  by (auto simp: read_time_def need_Inr Let_def split: option.splits)

lemma read_plain_length: "read_string (S_plain n) ws e = Inr v \<Longrightarrow> 0 < n \<Longrightarrow> length v < n"
  by (auto simp: read_string_def strnzcpy_def)

lemma read_dir_exists: "read_string S_dir ws e = Inr v \<Longrightarrow> dir_ok e v"
  by (auto simp: read_string_def need_Inr Let_def dir_ok_def)

lemma find_port_not_empty: "find_port e s = Some p \<Longrightarrow> p \<noteq> []"
  by (auto simp: find_port_def split: if_splits)

lemma read_port_fits: "read_port ws e = Inr v \<Longrightarrow> v \<noteq> [] \<and> length v \<le> MAXSERVNAME"
  by (auto simp: read_port_def dest: find_port_not_empty split: option.splits)

lemma read_renamestyle_not_body: "read_renamestyle k ws = Inr v \<Longrightarrow> v \<noteq> RENAME_BODY"
  by (auto simp: read_renamestyle_def Let_def split: if_splits)

lemma skip_loop_types: "skip_loop old i ws (at, sz, d, m) = Inr es \<Longrightarrow> at \<noteq> 0 \<Longrightarrow> list_all (\<lambda>s. sk_atype s \<noteq> 0) es"
proof (induction ws arbitrary: i at sz d m es)
  case Nil
  then show ?case by (simp add: need_Inr)
next
  case (Cons w ws)
  show ?case using Cons.prems by (auto simp: need_Inr cbind_Inr Let_def split: if_splits dest: Cons.IH intro: Cons.IH)
qed

lemma read_skip_types: "read_skip old ws = Inr es \<Longrightarrow> list_all (\<lambda>s. sk_atype s \<noteq> 0) es"
  by (auto simp: read_skip_def intro: skip_loop_types)

lemma listen_entry_fits: "length (l_addr (listen_entry w)) \<le> 41 \<and> length (l_port (listen_entry w)) \<le> MAXSERVNAME"
  by (auto simp: listen_entry_def Let_def cut_at_def split: option.splits)

lemma listen_loop_fits: "listen_loop ws e = Inr ls \<Longrightarrow>
   list_all (\<lambda>l. length (l_addr l) \<le> 41 \<and> length (l_port l) \<le> MAXSERVNAME) ls"
  by (induction ws arbitrary: ls) (auto simp: need_Inr cbind_Inr Let_def listen_entry_fits)

lemma read_listen_fits: "read_listen k ws e = Inr ls \<Longrightarrow>
   list_all (\<lambda>l. length (l_addr l) \<le> 41 \<and> length (l_port l) \<le> MAXSERVNAME) ls"
  by (auto simp: read_listen_def listen_loop_fits split: if_splits)

section \<open>Addresses\<close>

lemma token_num: "is_num ts i \<Longrightarrow> tok_n (ts ! i) \<noteq> -1"
  by (auto simp: is_num_def token_type_def split: if_splits)

text \<open>A parsed address has a point, and no hole behind what it has.\<close>

lemma parse_finish_p: "parse_finish ts st = Some a \<Longrightarrow> fa_p a \<noteq> -1"
  by (auto simp: parse_finish_def split: prod.splits if_splits)

lemma parse_p: "parse_ftnaddress s ds = Some a \<Longrightarrow> fa_p a \<noteq> -1"
  by (auto simp: parse_ftnaddress_def dest: parse_finish_p split: option.splits)

lemma get_domain_info_mem: "get_domain_info n ds = Some d \<Longrightarrow> d \<in> set ds"
  by (induction ds) (auto split: if_splits)

lemma full_address_4D:
  assumes r: "full_address s b = Inr a" and d: "domains_ok b" and p: "addrs_ok b"
  shows "is4D a"
proof -
  obtain f where f: "parse_ftnaddress s (pDomains b) = Some f" and n: "pAddr b \<noteq> []"
    and a: "a = exp_ftnaddress f (pAddr b) (pDomains b)"
    using r by (auto simp: full_address_def cbind_Inr need_Inr Config_ParseAddress_def split: option.splits)
  have m: "is4D (hd (pAddr b))" using p n by (cases "pAddr b") (simp_all add: addrs_ok_def)
  have z: "\<And>x. get_domain_info (fa_domain f) (pDomains b) = Some x \<Longrightarrow>
     (case alias4 x of Some y \<Rightarrow> dom_z y | None \<Rightarrow> dom_z x) \<noteq> -1"
    using d by (auto simp: domains_ok_def list_all_iff domain_ok_def dest!: get_domain_info_mem split: option.splits)
  have "fa_p f \<noteq> -1" by (rule parse_p [OF f])
  moreover have "(case get_domain_info (fa_domain f) (pDomains b) of
       Some d \<Rightarrow> (case alias4 d of Some a \<Rightarrow> dom_z a | None \<Rightarrow> dom_z d) | None \<Rightarrow> fa_z (hd (pAddr b))) \<noteq> -1"
    using z m by (simp add: is4D_def split: option.splits)
  ultimately show ?thesis using m by (simp add: a exp_ftnaddress_def Let_def is4D_def)
qed

section \<open>Operations that only touch the node table\<close>

text \<open>Lookups, insertions and walks change the table and its sorted flag, nothing else.\<close>

definition only_nodes :: "BINKD_CONFIG \<Rightarrow> BINKD_CONFIG \<Rightarrow> bool" where
  "only_nodes b b' \<longleftrightarrow> b' = b\<lparr>pNod := pNod b', nNodSorted := nNodSorted b'\<rparr>"

lemma only_nodes_refl [simp]: "only_nodes b b"
  by (simp add: only_nodes_def)

lemma only_nodes_trans: "only_nodes b1 b2 \<Longrightarrow> only_nodes b2 b3 \<Longrightarrow> only_nodes b1 b3"
proof -
  assume "only_nodes b1 b2" "only_nodes b2 b3"
  then obtain x y x' y' where "b2 = b1\<lparr>pNod := x, nNodSorted := y\<rparr>" "b3 = b2\<lparr>pNod := x', nNodSorted := y'\<rparr>"
    unfolding only_nodes_def by blast
  then show ?thesis by (simp add: only_nodes_def)
qed

lemma only_nodesI: "b' = b\<lparr>pNod := x, nNodSorted := y\<rparr> \<Longrightarrow> only_nodes b b'"
  by (simp add: only_nodes_def)

lemma only_nodes_pNod [simp]: "only_nodes b (b\<lparr>pNod := x\<rparr>)" "only_nodes b (b\<lparr>pNod := x, nNodSorted := y\<rparr>)"
  by (simp_all add: only_nodes_def)

lemma only_nodes_wf:
  assumes "only_nodes b b'" "cfg_wf e b" "nodes_wf b'"
  shows "cfg_wf e b'"
proof -
  obtain x y where "b' = b\<lparr>pNod := x, nNodSorted := y\<rparr>" using assms(1) unfolding only_nodes_def by blast
  then show ?thesis
    using assms(2,3) by (simp add: cfg_wf_def limits_ok_def domains_ok_def addrs_ok_def links_ok_def dirs_ok_def)
qed

text \<open>An operation on the table keeps it well-formed and touches nothing else.\<close>

definition table_step :: "BINKD_CONFIG \<Rightarrow> BINKD_CONFIG \<Rightarrow> bool" where
  "table_step b b' \<longleftrightarrow> only_nodes b b' \<and> (nodes_wf b \<longrightarrow> nodes_wf b')"

lemma table_step_refl [simp]: "table_step b b"
  by (simp add: table_step_def)

lemma table_step_trans: "table_step b1 b2 \<Longrightarrow> table_step b2 b3 \<Longrightarrow> table_step b1 b3"
  by (auto simp: table_step_def intro: only_nodes_trans)

lemma table_step_wf: "table_step b b' \<Longrightarrow> cfg_wf e b \<Longrightarrow> cfg_wf e b'"
  by (rule only_nodes_wf [of b]) (auto simp: table_step_def cfg_wf_def)

lemma table_sort: "table_step b (sort_nodes b)"
proof -
  have "mset (qsort node_cmp (pNod b)) = mset (pNod b)" by (rule nodes.mset_qsort)
  then have m: "set (qsort node_cmp (pNod b)) = set (pNod b)"
    "mset (map n_fa (qsort node_cmp (pNod b))) = mset (map n_fa (pNod b))"
    by (auto dest: mset_eq_setD mset_map_key)
  have "distinct (map n_fa (qsort node_cmp (pNod b))) = distinct (map n_fa (pNod b))"
    by (rule mset_eq_imp_distinct_iff [OF m(2)])
  then show ?thesis using m(1)
    by (auto simp: table_step_def sort_nodes_def nodes_wf_def list_all_iff)
qed

text \<open>Changing one entry without its address.\<close>

lemma table_update:
  assumes "i < length (pNod b)" "n_fa n = n_fa (pNod b ! i)" "node_ok (pNod b ! i) \<Longrightarrow> node_ok n"
  shows "table_step b (b\<lparr>pNod := (pNod b)[i := n]\<rparr>)"
proof -
  have "map n_fa ((pNod b)[i := n]) = map n_fa (pNod b)"
    by (metis assms(1,2) map_update list_update_id nth_map)
  then show ?thesis
    using assms by (auto simp: table_step_def nodes_wf_def list_all_length nth_list_update)
qed

lemma cmp_refl [simp]: "ftnaddress_cmp a a = 0"
  by (simp add: ftnaddress_cmp_def Let_def)

lemma n_pwd_boxes: "n_pwd (set_boxes a n) = n_pwd n"
  by (simp add: set_boxes_def)

lemma n_pwd_flags: "n_pwd (set_flags a now n) = n_pwd n"
  by (simp add: set_flags_def)

lemma n_pwd_passwords: "n_pwd (set_passwords a n) = n_pwd n \<or> length (n_pwd (set_passwords a n)) \<le> MAXPWDLEN"
  by (simp add: set_passwords_def strnzcpy_def Let_def split: option.splits)

lemma edit_pwd: "length (n_pwd n) \<le> MAXPWDLEN \<Longrightarrow> length (n_pwd (edit_node a now n)) \<le> MAXPWDLEN"
  using n_pwd_passwords [of a "set_flags a now n"] by (auto simp: edit_node_def n_pwd_boxes n_pwd_flags)

lemma table_add:
  assumes "is4D fa"
  shows "table_step b (add_node fa a now b)"
proof (cases "find_index (\<lambda>pn. ftnaddress_cmp (n_fa pn) fa = 0) (pNod b)")
  case None
  have "n_fa n \<noteq> fa" if "n \<in> set (pNod b)" for n using find_index_None [OF None] that by force
  moreover have "node_ok (edit_node a now (new_node fa))"
    using assms edit_pwd [of "new_node fa" a now] by (simp add: node_ok_def new_node_def)
  ultimately show ?thesis using None
    by (auto simp: table_step_def add_node_def nodes_wf_def new_node_def)
next
  case (Some i)
  have "table_step b (b\<lparr>pNod := (pNod b)[i := edit_node a now (pNod b ! i)]\<rparr>)"
    using find_index_Some [OF Some] by (intro table_update) (auto simp: node_ok_def edit_pwd)
  then show ?thesis using Some by (simp add: add_node_def)
qed

lemma table_listed: "table_step b (set_listed fa f b)"
proof (cases "find_index (\<lambda>pn. ftnaddress_cmp (n_fa pn) fa = 0) (pNod b)")
  case (Some i)
  then show ?thesis
    using find_index_Some [OF Some] table_update [of i b "(pNod b ! i)\<lparr>n_listed := f (n_listed (pNod b ! i))\<rparr>"]
    by (simp add: set_listed_def node_ok_def)
qed (simp add: set_listed_def)

text \<open>The lookup and the walk over all nodes.\<close>

lemma bsearch_from_bound: "bsearch_from f xs l u = Some i \<Longrightarrow> i < u"
proof (induction f xs l u arbitrary: i rule: bsearch_from.induct)
  case (1 f xs l u)
  let ?m = "(l + u) div 2"
  from "1.prems" have lu: "l < u"
    by (subst (asm) bsearch_from.simps) (simp split: if_splits)
  have "bsearch_from f xs l u = (if f (xs ! ?m) < 0 then bsearch_from f xs l ?m
      else if 0 < f (xs ! ?m) then bsearch_from f xs (Suc ?m) u else Some ?m)"
    by (subst bsearch_from.simps) (simp add: lu Let_def)
  with "1.prems" lu "1.IH"(1) [OF lu refl refl] "1.IH"(2) [OF lu refl refl]
  show ?case by (fastforce split: if_splits)
qed

lemma search_bound: "search_for_node fa b = Some i \<Longrightarrow> i < length (pNod b)"
  by (auto simp: search_for_node_def bsearch_def dest: bsearch_from_bound)

lemma get_defnode_bound: "get_defnode_info fa on now b = (Some i, b') \<Longrightarrow>
   (\<And>j. on = Some j \<Longrightarrow> j < length (pNod b)) \<Longrightarrow> i < length (pNod b')"
  by (auto simp: get_defnode_info_def Let_def dest: search_bound split: option.splits)

lemma table_defnode:
  assumes g: "get_defnode_info fa on now b = (r, b')" and fa: "is4D fa"
    and on: "\<And>j. on = Some j \<Longrightarrow> j < length (pNod b)"
  shows "table_step b b'"
proof (cases "search_for_node defnode_addr b")
  case None
  then show ?thesis using g by (simp add: get_defnode_info_def)
next
  case (Some d)
  note d = Some
  show ?thesis
  proof (cases on)
    case None
    then have "b' = sort_nodes (add_node fa (defnode_args (pNod b ! d)) now b)"
      using g d by (simp add: get_defnode_info_def Let_def)
    then show ?thesis using table_step_trans [OF table_add [OF fa] table_sort] by simp
  next
    case (Some i)
    then have "b' = b\<lparr>pNod := (pNod b)[i := copy_defnode (pNod b ! d) (pNod b ! i)]\<rparr>"
      using g d by (simp add: get_defnode_info_def Let_def)
    then show ?thesis
      using table_update [OF on [OF Some], of "copy_defnode (pNod b ! d) (pNod b ! i)"]
      by (simp add: copy_defnode_def node_ok_def)
  qed
qed

lemma get_index_sorted:
  "table_step b (if nNodSorted b then b else sort_nodes b)"
  by (simp add: table_sort)

lemma table_index:
  assumes g: "get_node_index fa now b = (r, b')" and fa: "is4D fa"
  shows "table_step b b' \<and> (\<forall>i. r = Some i \<longrightarrow> i < length (pNod b'))"
proof -
  define c where "c = (if nNodSorted b then b else sort_nodes b)"
  define np where "np = search_for_node fa c"
  have c: "table_step b c" unfolding c_def by (rule get_index_sorted)
  have np: "\<And>j. np = Some j \<Longrightarrow> j < length (pNod c)" unfolding np_def by (rule search_bound)
  have "(r, b') = get_defnode_info fa np now c \<or> (r, b') = (np, c)"
    using g unfolding get_node_index_def Let_def c_def [symmetric] np_def [symmetric] by (metis (full_types))
  then show ?thesis
  proof
    assume d: "(r, b') = get_defnode_info fa np now c"
    have "table_step c b'" by (rule table_defnode [OF d [symmetric] fa np])
    moreover have "\<forall>i. r = Some i \<longrightarrow> i < length (pNod b')" using get_defnode_bound [OF _ np] d by auto
    ultimately show ?thesis using table_step_trans [OF c] by blast
  next
    assume "(r, b') = (np, c)"
    then show ?thesis using c np by simp
  qed
qed

lemma table_info:
  assumes g: "get_node_info fa now b = (r, b')" and fa: "is4D fa"
  shows "table_step b b' \<and> (\<forall>n. r = Some n \<longrightarrow> n \<in> set (pNod b'))"
proof -
  obtain x c where x: "get_node_index fa now b = (x, c)" by fastforce
  note t = table_index [OF x fa]
  show ?thesis
  proof (cases x)
    case None
    then show ?thesis using g t x by (simp add: get_node_info_def)
  next
    case (Some i)
    define n where "n = (let n = pNod c ! i in if n_hosts n = None then n\<lparr>n_hosts := Some ''-''\<rparr> else n)"
    have i: "i < length (pNod c)" using t Some by simp
    have e: "r = Some n" "b' = c\<lparr>pNod := (pNod c)[i := n]\<rparr>"
      using g x Some by (simp_all add: get_node_info_def n_def Let_def)
    have "table_step c b'" unfolding e(2)
      by (rule table_update [OF i]) (auto simp: n_def Let_def node_ok_def)
    then show ?thesis using t table_step_trans e i set_update_memI [OF i] by auto
  qed
qed

lemma table_set_node:
  assumes "node_ok n \<or> \<not> nodes_wf b"
  shows "table_step b (set_node n b)"
proof -
  have "map n_fa (map (\<lambda>m. if n_fa m = n_fa n then n else m) (pNod b)) = map n_fa (pNod b)"
    by simp
  then show ?thesis using assms
    by (auto simp: table_step_def set_node_def nodes_wf_def list_all_iff simp del: map_map)
qed

lemma foreach_boxes_table:
  assumes "foreach_loop (\<lambda>n u. (g n, n, u)) now fas b s = (rc, b', s')" "list_all is4D fas"
  shows "table_step b b'"
  using assms
proof (induction fas arbitrary: b)
  case Nil
  then show ?case by simp
next
  case (Cons fa fas)
  define look where "look = (case find (\<lambda>n. n_fa n = fa) (pNod b) of None \<Rightarrow> (None, b)
     | Some n \<Rightarrow> if n_hosts n = None then get_node_info fa now b else (Some n, b))"
  obtain r b1 where l: "look = (r, b1)" by (cases look)
  have lk: "table_step b b1 \<and> (\<forall>n. r = Some n \<longrightarrow> n \<in> set (pNod b1))"
  proof (cases "find (\<lambda>n. n_fa n = fa) (pNod b)")
    case None
    then show ?thesis using l by (simp add: look_def)
  next
    case (Some n)
    then have "n \<in> set (pNod b)" by (auto simp: find_Some_iff)
    then show ?thesis using Some l table_info Cons.prems(2) by (auto simp: look_def split: if_splits)
  qed
  show ?case
  proof (cases r)
    case None
    then show ?thesis
      using Cons.IH [of b1] Cons.prems lk l table_step_trans by (auto simp flip: look_def)
  next
    case (Some n)
    have "node_ok n \<or> \<not> nodes_wf b1" using lk Some by (auto simp: nodes_wf_def list_all_iff)
    note t = table_step_trans [OF conjunct1 [OF lk] table_set_node [OF this]]
    show ?thesis
    proof (cases "g n = 0")
      case True
      then have "foreach_loop (\<lambda>n u. (g n, n, u)) now fas (set_node n b1) s = (rc, b', s')"
        using Cons.prems(1) l Some by (simp flip: look_def)
      then show ?thesis using Cons.IH Cons.prems(2) t table_step_trans by fastforce
    next
      case False
      then show ?thesis using Cons.prems(1) l Some t by (simp flip: look_def)
    qed
  qed
qed

lemma table_foreach:
  assumes "foreach_node (\<lambda>n u. (g n, n, u)) now b s = (rc, b', s')" "nodes_wf b"
  shows "table_step b b'"
proof -
  define c where "c = (if nNodSorted b then b else sort_nodes b)"
  have c: "table_step b c" unfolding c_def by (rule get_index_sorted)
  then have "list_all is4D (map n_fa (pNod c))"
    using assms(2) by (auto simp: table_step_def nodes_wf_def node_ok_def list_all_iff)
  then have "table_step c b'"
    using assms(1) by (intro foreach_boxes_table) (simp_all add: foreach_node_def c_def Let_def)
  then show ?thesis using c table_step_trans by blast
qed

section \<open>Every keyword keeps the structure well-formed\<close>

lemma cfg_wf_parts: "cfg_wf e b \<Longrightarrow> domains_ok b" "cfg_wf e b \<Longrightarrow> addrs_ok b" "cfg_wf e b \<Longrightarrow> nodes_wf b"
  by (simp_all add: cfg_wf_def)

lemma cfg_wf_pAddr: "cfg_wf e b \<Longrightarrow> addrs_ok (b\<lparr>pAddr := x\<rparr>) \<Longrightarrow> cfg_wf e (b\<lparr>pAddr := x\<rparr>)"
  by (simp add: cfg_wf_def limits_ok_def domains_ok_def nodes_wf_def links_ok_def dirs_ok_def)

lemma cfg_wf_pDomains: "cfg_wf e b \<Longrightarrow> domains_ok (b\<lparr>pDomains := x\<rparr>) \<Longrightarrow> cfg_wf e (b\<lparr>pDomains := x\<rparr>)"
  by (simp add: cfg_wf_def limits_ok_def addrs_ok_def nodes_wf_def links_ok_def dirs_ok_def)

lemma cfg_wf_havedefnode: "cfg_wf e (b\<lparr>havedefnode := x\<rparr>) = cfg_wf e b"
  by (simp add: cfg_wf_def limits_ok_def domains_ok_def addrs_ok_def nodes_wf_def links_ok_def dirs_ok_def)

lemma cfg_wf_links: "cfg_wf e b \<Longrightarrow> links_ok (b\<lparr>shares := x\<rparr>) \<Longrightarrow> cfg_wf e (b\<lparr>shares := x\<rparr>)"
  "cfg_wf e b \<Longrightarrow> links_ok (b\<lparr>akamask := y\<rparr>) \<Longrightarrow> cfg_wf e (b\<lparr>akamask := y\<rparr>)"
  by (simp_all add: cfg_wf_def limits_ok_def domains_ok_def addrs_ok_def nodes_wf_def dirs_ok_def)

lemma links_ok_parts: "cfg_wf e b \<Longrightarrow> list_all (\<lambda>k. is4D (aka_fa k)) (akamask b)"
  "cfg_wf e b \<Longrightarrow> list_all (\<lambda>s. is4D (sha s) \<and> list_all is4D (sfa s) \<and> sfa s \<noteq> []) (shares b)"
  by (simp_all add: cfg_wf_def links_ok_def)

lemma full_address_wf: "full_address s b = Inr a \<Longrightarrow> cfg_wf e b \<Longrightarrow> is4D a"
  by (rule full_address_4D) (auto dest: cfg_wf_parts)

text \<open>\<^verbatim>\<open>address\<close>\<close>

lemma is4D_domain [simp]: "is4D (a\<lparr>fa_domain := d\<rparr>) = is4D a"
  by (simp add: is4D_def)

lemma read_aka_wf:
  assumes "read_aka w b = Inr b'" "cfg_wf e b"
  shows "cfg_wf e b'"
proof -
  obtain a0 where a0: "is4D a0" and r: "(let a = (if fa_domain a0 = [] then
        a0\<lparr>fa_domain := get_matched_domain (fa_z a0) (pAddr b) (pDomains b)\<rparr> else a0)
      in Inr (if \<exists>x\<in>set (pAddr b). ftnaddress_cmp a x = 0 then b else b\<lparr>pAddr := pAddr b @ [a]\<rparr>)) = (Inr b' :: BINKD_CONFIG cres)"
    using assms(1) unfolding read_aka_def cbind_Inr need_Inr by (elim exE conjE)
  define a where "a = (if fa_domain a0 = [] then a0\<lparr>fa_domain := get_matched_domain (fa_z a0) (pAddr b) (pDomains b)\<rparr> else a0)"
  have a: "is4D a" using a0 by (simp add: a_def)
  have b': "b' = (if \<exists>x\<in>set (pAddr b). ftnaddress_cmp a x = 0 then b else b\<lparr>pAddr := pAddr b @ [a]\<rparr>)"
    using r unfolding Let_def a_def [symmetric] by simp
  show ?thesis
  proof (cases "\<exists>x\<in>set (pAddr b). ftnaddress_cmp a x = 0")
    case True
    then show ?thesis using assms(2) b' by (simp only: if_True)
  next
    case False
    then have "addrs_ok (b\<lparr>pAddr := pAddr b @ [a]\<rparr>)"
      using cfg_wf_parts(2) [OF assms(2)] a by (auto simp: addrs_ok_def sorted_wrt_append)
    then show ?thesis using False b' cfg_wf_pAddr [OF assms(2)] by (simp only: if_False)
  qed
qed

lemma aka_loop_wf: "aka_loop ws b = Inr b' \<Longrightarrow> cfg_wf e b \<Longrightarrow> cfg_wf e b'"
  by (induction ws arbitrary: b) (auto simp: cbind_Inr intro: read_aka_wf)

lemma read_aka_list_wf: "read_aka_list k ws b = Inr b' \<Longrightarrow> cfg_wf e b \<Longrightarrow> cfg_wf e b'"
  by (auto simp: read_aka_list_def split: if_splits intro: aka_loop_wf)

text \<open>\<^verbatim>\<open>domain\<close>\<close>

lemma domain_ok_mono: "domain_ok ds d \<Longrightarrow> set ds \<subseteq> set es \<Longrightarrow> domain_ok es d"
  by (auto simp: domain_ok_def split: option.splits)

lemma domains_ok_add:
  assumes "domains_ok b" "domain_ok (pDomains b) d"
  shows "domains_ok (b\<lparr>pDomains := pDomains b @ [d]\<rparr>)"
  using assms domain_ok_mono [of "pDomains b" _ "pDomains b @ [d]"]
  by (auto simp: domains_ok_def list_all_iff)

lemma domain_info_new:
  assumes "read_domain_info ws b = Inr b'" "domains_ok b"
  shows "\<exists>d. domain_ok (pDomains b) d \<and> b' = b\<lparr>pDomains := pDomains b @ [d]\<rparr>"
proof (cases "o_stricmp (ws ! 1) ''alias-for'' = 0")
  case True
  obtain t where t: "get_domain_info (ws ! 2) (pDomains b) = Some t"
    and b': "b' = b\<lparr>pDomains := pDomains b @ [Domain (strnzcpy (ws ! 0) (MAX_DOMAIN + 1)) [] [] 0 None (Some t)]\<rparr>"
    using assms(1) True unfolding read_domain_info_def need_Inr Let_def by (auto split: option.splits)
  have "t \<in> set (pDomains b)" by (rule get_domain_info_mem [OF t])
  moreover from this have "0 \<le> dom_z t" using assms(2) by (auto simp: domains_ok_def list_all_iff domain_ok_def)
  ultimately have "domain_ok (pDomains b) (Domain (strnzcpy (ws ! 0) (MAX_DOMAIN + 1)) [] [] 0 None (Some t))"
    by (simp add: domain_ok_def strnzcpy_def)
  then show ?thesis using b' by blast
next
  case False
  obtain path dir where sp: "split_outbound (ws ! 1) = (path, dir)" by (cases "split_outbound (ws ! 1)")
  have "zone_word (ws ! 2)" "CHR ''.'' \<notin> set dir"
    "b' = b\<lparr>pDomains := pDomains b @ [Domain (strnzcpy (ws ! 0) (MAX_DOMAIN + 1)) path dir (atoi (ws ! 2))
        (if length ws = 4 then Some (ws ! 3) else None) None]\<rparr>"
    using assms(1) False unfolding read_domain_info_def need_Inr Let_def by (simp_all add: need_Inr sp [unfolded One_nat_def])
  moreover from this have "domain_ok (pDomains b) (Domain (strnzcpy (ws ! 0) (MAX_DOMAIN + 1)) path dir (atoi (ws ! 2))
        (if length ws = 4 then Some (ws ! 3) else None) None)"
    by (simp add: domain_ok_def strnzcpy_def zone_word_def Let_def)
  ultimately show ?thesis by blast
qed

lemma read_domain_info_wf: "read_domain_info ws b = Inr b' \<Longrightarrow> cfg_wf e b \<Longrightarrow> cfg_wf e b'"
  by (metis cfg_wf_pDomains cfg_wf_parts(1) domain_info_new domains_ok_add)

text \<open>\<^verbatim>\<open>node\<close>, \<^verbatim>\<open>defnode\<close>, \<^verbatim>\<open>share\<close>\<close>

lemma add_listed_wf: "cfg_wf e b \<Longrightarrow> is4D fa \<Longrightarrow> cfg_wf e (set_listed fa f (add_node fa a now b))"
  by (rule table_step_wf [OF table_step_trans [OF table_add table_listed]])

lemma read_node_info_wf:
  assumes "read_node_info d ws now b = Inr b'" "cfg_wf e b"
  shows "cfg_wf e b'"
proof -
  define c where "c = (if d then b\<lparr>havedefnode := True\<rparr> else b)"
  have c: "cfg_wf e c" using assms(2) by (simp add: c_def cfg_wf_havedefnode)
  obtain fa a addr where fa: "full_address addr c = Inr fa" and b': "b' = set_listed fa (\<lambda>l. NL_NODE) (add_node fa a now c)"
  proof -
    obtain w a where r: "(case word_at w 0 of None \<Rightarrow> Inl (ConfigError ''missing node address'')
       | Some addr \<Rightarrow> cbind (full_address addr c) (\<lambda>fa. need (word_at w 2 \<noteq> Some []) ''empty password''
           (need (case word_at w 3 of None \<Rightarrow> True | Some f \<Rightarrow> f \<noteq> [] \<and> hd f \<in> set prio) ''incorrect flavour''
             (case split_passwords (word_at w 2) of (pwd, pkt, out) \<Rightarrow>
               Inr (set_listed fa (\<lambda>l. NL_NODE)
                 (add_node fa (a\<lparr>a_hosts := word_at w 1, a_pwd := pwd, a_pkt_pwd := pkt, a_out_pwd := out,
                    a_obox_flvr := (case word_at w 3 of None \<Rightarrow> CHR ''-'' | Some f \<Rightarrow> hd f),
                    a_obox := map_option check_dir_path (word_at w 4),
                    a_ibox := map_option check_dir_path (word_at w 5)\<rparr>) now c)))))) = (Inr b' :: BINKD_CONFIG cres)"
      using assms(1) unfolding read_node_info_def c_def [symmetric] Let_def cbind_Inr by (elim exE conjE) (simp add: case_prod_beta)
    obtain pwd pkt out where p: "split_passwords (word_at w 2) = (pwd, pkt, out)" by (cases "split_passwords (word_at w 2)")
    obtain addr where "word_at w 0 = Some addr" using r by (cases "word_at w 0") simp_all
    with r p show thesis by (auto simp: cbind_Inr need_Inr intro: that)
  qed
  show ?thesis unfolding b' by (rule add_listed_wf [OF c full_address_wf [OF fa c]])
qed

lemma addr_loop_4D: "addr_loop ws b = Inr as \<Longrightarrow> cfg_wf e b \<Longrightarrow> list_all is4D as \<and> length as = length ws"
  by (induction ws arbitrary: as) (auto simp: cbind_Inr intro: full_address_wf)

lemma read_shares_wf:
  assumes "read_shares k ws now b = Inr b'" "cfg_wf e b"
  shows "cfg_wf e b'"
proof -
  obtain a c as where a: "full_address (hd ws) b = Inr a" and c: "read_node_info False [hd ws] now b = Inr c"
    and as: "addr_loop (tl ws) c = Inr as" and b': "b' = c\<lparr>shares := shares c @ [\<lparr>sha = a, sfa = as\<rparr>]\<rparr>"
    and l: "2 \<le> length ws"
    using assms(1) unfolding read_shares_def by (auto simp: cbind_Inr split: if_splits)
  have w: "cfg_wf e c" by (rule read_node_info_wf [OF c assms(2)])
  have "is4D a" by (rule full_address_wf [OF a assms(2)])
  moreover have "list_all is4D as" "as \<noteq> []" using addr_loop_4D [OF as w] l by auto
  ultimately show ?thesis unfolding b' using links_ok_parts [OF w]
    by (intro cfg_wf_links(1) [OF w]) (simp add: links_ok_def)
qed

lemma read_akachain_wf: "read_akachain act ws b = Inr k \<Longrightarrow> cfg_wf e b \<Longrightarrow> cfg_wf e (b\<lparr>akamask := akamask b @ [k]\<rparr>)"
  by (intro cfg_wf_links(2))
    (auto simp: links_ok_def read_akachain_def Let_def cbind_Inr dest: full_address_wf links_ok_parts)

text \<open>The variables of the other keywords.\<close>

definition kw_ok :: "cfg_env \<Rightarrow> KEYWORD \<Rightarrow> bool" where
  "kw_ok e k \<longleftrightarrow> (case kw_callback k of
     Cb_string sk f \<Rightarrow> (\<forall>ws v c. read_string sk ws e = Inr v \<longrightarrow> work_wf e c \<longrightarrow> work_wf e (snd f v c))
   | Cb_int a b f \<Rightarrow> (\<forall>v c. in_range a b v \<longrightarrow> work_wf e c \<longrightarrow> work_wf e (snd f v c))
   | Cb_time a b f \<Rightarrow> (\<forall>v c. in_range a b v \<longrightarrow> work_wf e c \<longrightarrow> work_wf e (snd f v c))
   | Cb_bool f \<Rightarrow> (\<forall>v c. work_wf e c \<longrightarrow> work_wf e (snd f v c))
   | Cb_port f \<Rightarrow> (\<forall>v c. v \<noteq> [] \<and> length v \<le> MAXSERVNAME \<longrightarrow> work_wf e c \<longrightarrow> work_wf e (snd f v c))
   | Cb_mask f \<Rightarrow> (\<forall>v c. work_wf e c \<longrightarrow> work_wf e (snd f v c))
   | _ \<Rightarrow> True)"

lemmas cfg_wf_defs = cfg_wf_def limits_ok_def domains_ok_def addrs_ok_def nodes_wf_def links_ok_def dirs_ok_def

lemma kw_ok_simps:
  "kw_ok e (kw n (Cb_string sk s)) \<longleftrightarrow> (\<forall>ws v c. read_string sk ws e = Inr v \<longrightarrow> work_wf e c \<longrightarrow> work_wf e (snd s v c))"
  "kw_ok e (kw n (Cb_int a b f)) \<longleftrightarrow> (\<forall>v c. in_range a b v \<longrightarrow> work_wf e c \<longrightarrow> work_wf e (snd f v c))"
  "kw_ok e (kw n (Cb_time a b f)) \<longleftrightarrow> (\<forall>v c. in_range a b v \<longrightarrow> work_wf e c \<longrightarrow> work_wf e (snd f v c))"
  "kw_ok e (kw n (Cb_bool t)) \<longleftrightarrow> (\<forall>v c. work_wf e c \<longrightarrow> work_wf e (snd t v c))"
  "kw_ok e (kw n (Cb_port s)) \<longleftrightarrow> (\<forall>v c. v \<noteq> [] \<and> length v \<le> MAXSERVNAME \<longrightarrow> work_wf e c \<longrightarrow> work_wf e (snd s v c))"
  "kw_ok e (kw n (Cb_mask g)) \<longleftrightarrow> (\<forall>v c. work_wf e c \<longrightarrow> work_wf e (snd g v c))"
  "kw_ok e (kw n Cb_include)" "kw_ok e (kw n (Cb_akachain act))" "kw_ok e (kw n (Cb_flag_exec x))"
  "kw_ok e (kw n (Cb_skip x))" "kw_ok e (kw n (Cb_node x))" "kw_ok e (kw n Cb_domain)" "kw_ok e (kw n Cb_address)"
  "kw_ok e (kw n Cb_listen)" "kw_ok e (kw n Cb_syslog)" "kw_ok e (kw n Cb_ftrans)" "kw_ok e (kw n Cb_inboundcase)"
  "kw_ok e (kw n Cb_dontsendempty)" "kw_ok e (kw n Cb_renamestyle)" "kw_ok e (kw n Cb_share)" "kw_ok e (kw n Cb_check_pkthdr)"
  by (simp_all add: kw_ok_def kw_def)

lemma keywords_ok: "k \<in> set keyword_table \<Longrightarrow> kw_ok e k"
proof -
  have "list_all (kw_ok e) keyword_table"
    unfolding keyword_table_def list.pred_inject
    by (intro conjI TrueI, simp_all only: kw_ok_simps snd_conv,
        simp_all add: work_wf_def upd_cfg_def rest_ok_def in_range_def cfg_wf_defs read_plain_length)
      (auto dest: read_plain_length read_dir_exists)
  then show "k \<in> set keyword_table \<Longrightarrow> kw_ok e k" by (simp add: list_all_iff)
qed

lemma lift_cfg_Inr: "lift_cfg f c r = Inr c' \<longleftrightarrow> (\<exists>v. r = Inr v \<and> c' = upd_cfg (f v) c)"
  by (auto simp: lift_cfg_def cbind_Inr)

lemma work_wf_upd: "work_wf e c \<Longrightarrow> cfg_wf e (f (c_cfg c)) \<Longrightarrow> work_wf e (upd_cfg f c)"
  by (simp add: work_wf_def upd_cfg_def rest_ok_def)

lemma work_wf_cfg: "work_wf e c \<Longrightarrow> cfg_wf e (c_cfg c)"
  by (simp add: work_wf_def)

lemma cfg_wf_lists:
  "cfg_wf e b \<Longrightarrow> list_all (\<lambda>s. sk_atype s \<noteq> 0) v \<Longrightarrow> cfg_wf e (b\<lparr>skipmask := skipmask b @ v\<rparr>)"
  "cfg_wf e (b\<lparr>rf_rules := x1\<rparr>) = cfg_wf e b"
  "cfg_wf e (b\<lparr>inboundcase := x2\<rparr>) = cfg_wf e b"
  "cfg_wf e (b\<lparr>dontsendempty := x3\<rparr>) = cfg_wf e b"
  "cfg_wf e (b\<lparr>pkthdr_type := x5, pkthdr_bad := x6\<rparr>) = cfg_wf e b"
  "cfg_wf e b \<Longrightarrow> x4 \<noteq> RENAME_BODY \<Longrightarrow> cfg_wf e (b\<lparr>renamestyle := x4\<rparr>)"
  by (simp_all add: cfg_wf_defs)

lemma work_wf_rest:
  "work_wf e (c\<lparr>c_evt_flags := x1\<rparr>) = work_wf e c"
  "work_wf e (c\<lparr>c_syslog_facility := x2\<rparr>) = work_wf e c"
  "work_wf e (c\<lparr>c_config_list := x3\<rparr>) = work_wf e c"
  "work_wf e c \<Longrightarrow> list_all (\<lambda>l. length (l_addr l) \<le> 41 \<and> length (l_port l) \<le> MAXSERVNAME) ls \<Longrightarrow>
     work_wf e (c\<lparr>c_listen := c_listen c @ ls\<rparr>)"
  by (simp_all add: work_wf_def rest_ok_def)

lemma run_callback_wf:
  assumes k: "kw_ok e k" and r: "run_callback inc e k ws c = Inr c'" and c: "work_wf e c"
    and inc: "\<And>p. inc p c = Inr c' \<Longrightarrow> work_wf e c'"
  shows "work_wf e c'"
proof (cases "kw_callback k")
  case Cb_include
  then have "inc (hd ws) c = Inr c'" using r by (simp add: run_callback_def)
  then show ?thesis by (rule inc)
next
  case (Cb_string sk f)
  then show ?thesis using k r c by (auto simp: run_callback_def kw_ok_def cbind_Inr)
next
  case (Cb_int a b f)
  then show ?thesis using k r c by (auto simp: run_callback_def kw_ok_def cbind_Inr dest: read_int_range)
next
  case (Cb_time a b f)
  then show ?thesis using k r c by (auto simp: run_callback_def kw_ok_def cbind_Inr dest: read_time_range)
next
  case (Cb_bool f)
  then show ?thesis using k r c by (auto simp: run_callback_def kw_ok_def cbind_Inr)
next
  case (Cb_port f)
  then show ?thesis using k r c by (auto simp: run_callback_def kw_ok_def cbind_Inr dest: read_port_fits)
next
  case (Cb_mask f)
  then show ?thesis using k r c by (auto simp: run_callback_def kw_ok_def cbind_Inr)
next
  case (Cb_akachain act)
  then show ?thesis using r c
    by (auto simp: run_callback_def lift_cfg_Inr intro!: work_wf_upd read_akachain_wf dest: work_wf_cfg)
next
  case (Cb_flag_exec x)
  then show ?thesis using r c by (auto simp: run_callback_def cbind_Inr work_wf_rest)
next
  case (Cb_skip old)
  then show ?thesis using r c
    by (auto simp: run_callback_def lift_cfg_Inr intro!: work_wf_upd cfg_wf_lists dest: work_wf_cfg read_skip_types)
next
  case (Cb_node d)
  then show ?thesis using r c
    by (auto simp: run_callback_def lift_cfg_Inr intro!: work_wf_upd dest: work_wf_cfg read_node_info_wf)
next
  case Cb_domain
  then show ?thesis using r c
    by (auto simp: run_callback_def lift_cfg_Inr intro!: work_wf_upd dest: work_wf_cfg read_domain_info_wf)
next
  case Cb_address
  then show ?thesis using r c
    by (auto simp: run_callback_def lift_cfg_Inr intro!: work_wf_upd dest: work_wf_cfg read_aka_list_wf)
next
  case Cb_listen
  then show ?thesis using r c by (auto simp: run_callback_def cbind_Inr intro!: work_wf_rest dest: read_listen_fits)
next
  case Cb_syslog
  then show ?thesis using r c by (auto simp: run_callback_def cbind_Inr work_wf_rest)
next
  case Cb_ftrans
  then show ?thesis using r c
    by (auto simp: run_callback_def lift_cfg_Inr cfg_wf_lists intro!: work_wf_upd dest: work_wf_cfg)
next
  case Cb_inboundcase
  then show ?thesis using r c
    by (auto simp: run_callback_def lift_cfg_Inr cfg_wf_lists intro!: work_wf_upd dest: work_wf_cfg)
next
  case Cb_dontsendempty
  then show ?thesis using r c
    by (auto simp: run_callback_def lift_cfg_Inr cfg_wf_lists intro!: work_wf_upd dest: work_wf_cfg)
next
  case Cb_renamestyle
  then show ?thesis using r c
    by (auto simp: run_callback_def lift_cfg_Inr intro!: work_wf_upd cfg_wf_lists(6)
      dest: work_wf_cfg read_renamestyle_not_body)
next
  case Cb_share
  then show ?thesis using r c
    by (auto simp: run_callback_def lift_cfg_Inr intro!: work_wf_upd dest: work_wf_cfg read_shares_wf)
next
  case Cb_check_pkthdr
  then show ?thesis using r c
    by (auto simp: run_callback_def lift_cfg_Inr cfg_wf_lists intro!: work_wf_upd dest: work_wf_cfg)
qed

section \<open>Reading the files\<close>

text \<open>
  A property that every keyword but \<^verbatim>\<open>include\<close> keeps, and the list of files does not matter for, is
  kept by reading a file with everything it includes.
\<close>

locale reader_invariant =
  fixes e :: cfg_env and I :: "WORK \<Rightarrow> bool"
  assumes keyword_step: "k \<in> set keyword_table \<Longrightarrow> run_callback inc e k ws c = Inr c' \<Longrightarrow> I c \<Longrightarrow>
      (\<And>p. inc p c = Inr c' \<Longrightarrow> I c') \<Longrightarrow> I c'"
    and config_list_step: "I c \<Longrightarrow> I (c\<lparr>c_config_list := x\<rparr>)"
begin

lemma line_step:
  assumes "read_line inc e s c = Inr c'" "I c" "\<And>p c c'. inc p c = Inr c' \<Longrightarrow> I c \<Longrightarrow> I c'"
  shows "I c'"
proof -
  obtain ws where w: "(case ws of [] \<Rightarrow> Inr c | w # args \<Rightarrow> (case find_keyword w of
       None \<Rightarrow> Inl (ConfigError (w @ '': unknown keyword'')) | Some k \<Rightarrow> run_callback inc e k args c)) = (Inr c' :: WORK cres)"
    using assms(1) unfolding read_line_def cbind_Inr by (elim exE conjE)
  show ?thesis
  proof (cases ws)
    case Nil
    then show ?thesis using w assms(2) by simp
  next
    case (Cons v args)
    then obtain k where k: "find_keyword v = Some k" and r: "run_callback inc e k args c = Inr c'"
      using w by (cases "find_keyword v") simp_all
    have "k \<in> set keyword_table" using k by (auto simp: find_keyword_def find_Some_iff)
    then show ?thesis by (rule keyword_step [OF _ r assms(2)]) (rule assms(3) [OF _ assms(2)])
  qed
qed

lemma lines_step: "read_lines inc e ls c = Inr c' \<Longrightarrow> I c \<Longrightarrow> (\<And>p c c'. inc p c = Inr c' \<Longrightarrow> I c \<Longrightarrow> I c') \<Longrightarrow> I c'"
proof (induction ls arbitrary: c)
  case Nil
  then show ?case by simp
next
  case (Cons s ls)
  obtain c1 where 1: "read_line inc e (c_string s) c = Inr c1" "read_lines inc e ls c1 = Inr c'"
    using Cons.prems(1) by (auto simp: cbind_Inr)
  have "I c1" by (rule line_step [OF 1(1) Cons.prems(2,3)])
  then show ?case by (rule Cons.IH [OF 1(2) _ Cons.prems(3)])
qed

lemma file_step:
  assumes "read_file inc e path c = Inr c'" "I c" "\<And>p c c'. inc p c = Inr c' \<Longrightarrow> I c \<Longrightarrow> I c'"
  shows "I c'"
proof -
  obtain d where "read_lines inc e (file_lines (MAXCFGLINE + 1) d) (add_to_config_list path e c) = Inr c'"
    using assms(1) by (auto simp: read_file_def split: option.splits)
  then show ?thesis by (rule lines_step) (use assms(2,3) in \<open>auto simp: add_to_config_list_def intro: config_list_step\<close>)
qed

lemma files_step: "readcfg0 n e path c = Inr c' \<Longrightarrow> I c \<Longrightarrow> I c'"
proof (induction n arbitrary: path c c')
  case 0
  then show ?case by (auto intro: file_step)
next
  case (Suc n)
  have "read_file (readcfg0 n e) e path c = Inr c'" using Suc.prems(1) by simp
  then show ?case by (rule file_step [OF _ Suc.prems(2)]) (rule Suc.IH)
qed

end

interpretation wf: reader_invariant e "work_wf e" for e
  by unfold_locales (auto intro: run_callback_wf keywords_ok simp: work_wf_rest)

lemma password_line_table:
  assumes "password_line now s b = Inr b'" "cfg_wf e b"
  shows "table_step b b'"
proof (cases "password_words s")
  case None
  then show ?thesis using assms(1) by (simp add: password_line_def)
next
  case (Some np)
  note w = Some
  obtain node password where np: "np = (node, password)" by (cases np)
  show ?thesis
  proof (cases "parse_ftnaddress node (pDomains b)")
    case None
    then show ?thesis using assms(1) w np by (simp add: password_line_def)
  next
    case (Some a)
    define fa where "fa = exp_ftnaddress a (pAddr b) (pDomains b)"
    obtain pwd pkt out where p: "split_passwords (Some password) = (pwd, pkt, out)"
      by (cases "split_passwords (Some password)")
    have n: "pAddr b \<noteq> []" and b': "b' = set_listed fa (\<lambda>l. if l = 0 then 2 else l)
        (add_node fa (no_node_args\<lparr>a_pwd := pwd, a_pkt_pwd := pkt, a_out_pwd := out\<rparr>) now b)"
      using assms(1) w np Some p by (simp_all add: password_line_def need_Inr Let_def fa_def)
    have "full_address node b = Inr fa"
      using n Some by (simp add: full_address_def Config_ParseAddress_def need_def fa_def)
    then show ?thesis unfolding b'
      by (intro table_step_trans [OF table_add table_listed] full_address_wf [OF _ assms(2)])
  qed
qed

lemma password_lines_table: "password_lines now ls b = Inr b' \<Longrightarrow> cfg_wf e b \<Longrightarrow> table_step b b'"
proof (induction ls arbitrary: b)
  case Nil
  then show ?case by simp
next
  case (Cons s ls)
  obtain b1 where 1: "password_line now (c_string s) b = Inr b1" "password_lines now ls b1 = Inr b'"
    using Cons.prems(1) by (auto simp: cbind_Inr)
  note t = password_line_table [OF 1(1) Cons.prems(2)]
  show ?case by (rule table_step_trans [OF t Cons.IH [OF 1(2) table_step_wf [OF t Cons.prems(2)]]])
qed

lemma read_passwords_table:
  assumes "read_passwords path e c = Inr c'" "work_wf e c"
  shows "\<exists>x b'. c' = (c\<lparr>c_config_list := x\<rparr>)\<lparr>c_cfg := b'\<rparr> \<and> table_step (c_cfg c) b'"
proof -
  have w: "cfg_wf e (c_cfg c)" by (rule work_wf_cfg [OF assms(2)])
  show ?thesis using assms(1)
    by (auto simp: read_passwords_def Let_def lift_cfg_Inr add_to_config_list_def upd_cfg_def
        dest!: password_lines_table [OF _ w] split: option.splits)
qed

lemma check_config_table:
  assumes "check_config e b = Inr b'" "cfg_wf e b"
  shows "table_step b b'"
proof -
  define dev where "dev = (if temp_inbound b \<noteq> [] then Some (e_dev e (temp_inbound b)) else None)"
  define F where "F = foreach_node (\<lambda>n u. (if check_boxes e dev b n then 0 else 1, n, u)) (w_time (e_w e)) b ()"
  have f: "F = (fst F, fst (snd F), ())" by (cases F) simp
  have "(case F of (rc, c', u) \<Rightarrow> need (rc = 0) ''wrong box of a link'' (Inr c')) = (Inr b' :: BINKD_CONFIG cres)"
    using assms(1) unfolding check_config_def Let_def need_Inr dev_def [symmetric] F_def [symmetric] by (elim conjE)
  then have "b' = fst (snd F)" by (simp add: case_prod_beta need_Inr)
  moreover have "table_step b (fst (snd F))"
    by (rule table_foreach [OF f [unfolded F_def] cfg_wf_parts(3) [OF assms(2)], folded F_def])
  ultimately show ?thesis by (simp only:)
qed

section \<open>The configuration that is returned\<close>

lemma empty_cfg_wf: "cfg_wf e empty_cfg"
  by (simp add: cfg_wf_defs empty_cfg_def)

lemma default_port: "\<exists>p. find_port e [] = Some p \<and> p \<noteq> []"
  by (simp add: find_port_def)

lemma initial_wf: "work_wf e (lock_config_structure e)"
proof -
  obtain p where "find_port e [] = Some p" "p \<noteq> []" using default_port by blast
  then show ?thesis by (simp add: work_wf_def empty_cfg_wf lock_config_structure_def rest_ok_def Let_def)
qed

text \<open>What a complete configuration has beyond that.\<close>

definition complete :: "WORK \<Rightarrow> bool" where
  "complete c \<longleftrightarrow> pAddr (c_cfg c) \<noteq> [] \<and> pDomains (c_cfg c) \<noteq> [] \<and> sysname (c_cfg c) \<noteq> [] \<and> sysop (c_cfg c) \<noteq> [] \<and>
     location (c_cfg c) \<noteq> [] \<and> nodeinfo (c_cfg c) \<noteq> [] \<and> inbound_nonsecure (c_cfg c) \<noteq> [] \<and>
     c_listen c \<noteq> [] \<and> list_all (\<lambda>l. l_port l \<noteq> []) (c_listen c)"

text \<open>A step on the table keeps both.\<close>

lemma table_complete:
  assumes "table_step (c_cfg c) b'" "work_wf e c" "complete c"
  shows "work_wf e (c\<lparr>c_cfg := b'\<rparr>) \<and> complete (c\<lparr>c_cfg := b'\<rparr>)"
proof -
  have "cfg_wf e b'" by (rule table_step_wf [OF assms(1) work_wf_cfg [OF assms(2)]])
  moreover obtain x y where "b' = (c_cfg c)\<lparr>pNod := x, nNodSorted := y\<rparr>"
    using assms(1) unfolding table_step_def only_nodes_def by blast
  ultimately show ?thesis using assms(2,3) by (simp add: complete_def work_wf_def rest_ok_def)
qed

text \<open>The overrides of the command line and the defaults.\<close>

lemma quiet_wf: "work_wf e c \<Longrightarrow> work_wf e (quiet_overrides e c) \<and> c_cfg (quiet_overrides e c) = c_cfg c"
  by (simp add: quiet_overrides_def work_wf_def rest_ok_def)

lemma verbose_wf: "work_wf e c \<Longrightarrow> work_wf e (verbose_overrides e c) \<and> c_cfg (verbose_overrides e c) = c_cfg c"
  by (simp add: verbose_overrides_def work_wf_def rest_ok_def Let_def)

lemma listen_wf: "work_wf e c \<Longrightarrow> work_wf e (default_listen c) \<and> c_cfg (default_listen c) = c_cfg c \<and>
    c_listen (default_listen c) \<noteq> [] \<and> list_all (\<lambda>l. l_port l \<noteq> []) (c_listen (default_listen c))"
  by (auto simp: default_listen_def work_wf_def rest_ok_def Let_def list_all_iff)

lemma inbound_wf: "work_wf e c \<Longrightarrow> work_wf e (default_inbound c) \<and> c_listen (default_inbound c) = c_listen c \<and>
    c_cfg (default_inbound c) = (c_cfg c)\<lparr>inbound_nonsecure := inbound_nonsecure (c_cfg (default_inbound c))\<rparr> \<and>
    (inbound_nonsecure (c_cfg (default_inbound c)) = [] \<longrightarrow> inbound (c_cfg c) = [])"
  by (auto simp: default_inbound_def work_wf_def rest_ok_def upd_cfg_def cfg_wf_defs)

lemma defaults_complete:
  assumes w: "work_wf e c" and root: "stat (e_w e) [] \<noteq> Some Dir"
    and d: "pAddr (c_cfg c) \<noteq> []" "pDomains (c_cfg c) \<noteq> []" "sysname (c_cfg c) \<noteq> []" "sysop (c_cfg c) \<noteq> []"
      "location (c_cfg c) \<noteq> []" "nodeinfo (c_cfg c) \<noteq> []"
  shows "work_wf e (default_inbound (default_listen (verbose_overrides e (quiet_overrides e c)))) \<and>
    complete (default_inbound (default_listen (verbose_overrides e (quiet_overrides e c))))"
proof -
  define c1 where "c1 = default_listen (verbose_overrides e (quiet_overrides e c))"
  have c1: "work_wf e c1" "c_cfg c1 = c_cfg c" "c_listen c1 \<noteq> []" "list_all (\<lambda>l. l_port l \<noteq> []) (c_listen c1)"
    using quiet_wf [OF w] verbose_wf [of e "quiet_overrides e c"] listen_wf [of e "verbose_overrides e (quiet_overrides e c)"]
    by (simp_all add: c1_def)
  have "inbound (c_cfg c1) \<noteq> []"
    using work_wf_cfg [OF c1(1)] root by (auto simp: cfg_wf_def dirs_ok_def dir_ok_def)
  moreover obtain x where "c_cfg (default_inbound c1) = (c_cfg c1)\<lparr>inbound_nonsecure := x\<rparr>"
    using inbound_wf [OF c1(1)] by blast
  ultimately show ?thesis using inbound_wf [OF c1(1)] c1 d
    by (simp add: complete_def flip: c1_def)
qed

lemma readcfg_well_formed_aux:
  assumes "readcfg e path = Inr c" "stat (e_w e) [] \<noteq> Some Dir"
  shows "work_wf e c \<and> complete c"
proof -
  obtain c0 where r: "readcfg0 MAXINCLUDELEVEL e path (lock_config_structure e) = Inr c0"
    and s: "sysname (c_cfg c0) \<noteq> []" "sysop (c_cfg c0) \<noteq> []" "location (c_cfg c0) \<noteq> []" "nodeinfo (c_cfg c0) \<noteq> []"
    and f: "complete_cfg e c0 = Inr c"
    using assms(1) unfolding readcfg_def cbind_Inr isDefined_def need_Inr by (elim exE conjE)
  define c1 where "c1 = default_inbound (default_listen (verbose_overrides e (quiet_overrides e c0)))"
  obtain c2 where p: "pAddr (c_cfg c0) \<noteq> []" "pDomains (c_cfg c0) \<noteq> []"
    and c2: "(if c_passwords c1 \<noteq> [] then read_passwords (c_passwords c1) e c1 else Inr c1) = Inr c2"
    and c: "lift_cfg (\<lambda>v b. v) c2 (check_config e (c_cfg c2)) = Inr c"
    using f unfolding complete_cfg_def need_Inr Let_def c1_def [symmetric] cbind_Inr by (elim exE conjE)
  have w1: "work_wf e c1 \<and> complete c1"
    unfolding c1_def by (rule defaults_complete [OF wf.files_step [OF r initial_wf] assms(2) p s])
  have w2: "work_wf e c2 \<and> complete c2"
  proof (cases "c_passwords c1 = []")
    case True
    then show ?thesis using c2 w1 by simp
  next
    case False
    then obtain x b' where e: "c2 = (c1\<lparr>c_config_list := x\<rparr>)\<lparr>c_cfg := b'\<rparr>" "table_step (c_cfg c1) b'"
      using c2 read_passwords_table [OF _ conjunct1 [OF w1]] by (simp only: if_True simp_thms) blast
    have "work_wf e (c1\<lparr>c_config_list := x\<rparr>) \<and> complete (c1\<lparr>c_config_list := x\<rparr>)"
      using w1 by (simp add: work_wf_rest complete_def)
    then show ?thesis unfolding e(1) by (intro table_complete) (simp_all add: e(2))
  qed
  obtain b where b: "check_config e (c_cfg c2) = Inr b" "c = c2\<lparr>c_cfg := b\<rparr>"
    using c by (auto simp: lift_cfg_Inr upd_cfg_def)
  show ?thesis unfolding b(2)
    by (rule table_complete [OF check_config_table [OF b(1) work_wf_cfg [OF conjunct1 [OF w2]]] conjunct1 [OF w2] conjunct2 [OF w2]])
qed

text \<open>
  C27: whatever the files contain, a configuration the reader returns is well-formed and complete: numbers
  in their ranges, strings within their arrays, addresses without holes, no address or node twice,
  domains with zones, directories that exist, ports to listen on.
\<close>

theorem readcfg_well_formed:
  assumes "readcfg e path = Inr c" "stat (e_w e) [] \<noteq> Some Dir"
  shows "work_wf e c \<and> complete c"
  using assms by (rule readcfg_well_formed_aux)

text \<open>A small file.\<close>

definition sample_text :: string where
  "sample_text = concat (map (\<lambda>l. l @ [CHR 0x0A]) [''domain fidonet outb 2'', ''address 2:5020/79'', ''sysname S'',
     ''sysop J'', ''location M'', ''nodeinfo B'', ''timeout 1h''])"

definition sample_env :: cfg_env where
  "sample_env = \<lparr>e_w = empty_world\<lparr>w_files := [(''c'', File sample_text 7)]\<rparr>, e_getenv = (\<lambda>_. None), e_service = (\<lambda>_. False),
     e_dev = (\<lambda>_. 0), e_facility = (\<lambda>_. None), e_quiet = False, e_verbose = 0\<rparr>"

lemma sample_root: "stat (e_w sample_env) [] \<noteq> Some Dir"
  by (simp add: sample_env_def stat_def)

definition timeout_of :: "WORK cres \<Rightarrow> int" where
  "timeout_of r = (case r of Inr c \<Rightarrow> nettimeout (c_cfg c) | Inl err \<Rightarrow> 0)"

lemma sample_read: "timeout_of (readcfg sample_env ''c'') = 3600"
  by code_simp

theorem readcfg_well_formed_witness:
  "\<exists>c. readcfg sample_env ''c'' = Inr c \<and> nettimeout (c_cfg c) = 3600 \<and> work_wf sample_env c \<and> complete c"
proof (cases "readcfg sample_env ''c''")
  case (Inl err)
  then show ?thesis using sample_read by (simp add: timeout_of_def)
next
  case (Inr c)
  then show ?thesis using sample_read readcfg_well_formed [OF Inr sample_root] by (simp add: timeout_of_def)
qed

section \<open>Reload\<close>

lemma recheck_again: "recheck_file w (snd (recheck_file w pc)) = (False, snd (recheck_file w pc))"
  by (cases pc) (auto simp: recheck_file_def Let_def split: option.splits)

lemma recheck_path: "fst (snd (recheck_file w pc)) = fst pc"
  by (simp add: recheck_file_def Let_def split: option.splits)

text \<open>The list of files with its times brought up to date.\<close>

definition rechecked :: "cfg_env \<Rightarrow> WORK \<Rightarrow> WORK" where
  "rechecked e cur = cur\<lparr>c_config_list := map (snd \<circ> recheck_file (e_w e)) (c_config_list cur)\<rparr>"

lemma checkcfg_cases:
  "checkcfg flag hup e cur = (r, c') \<Longrightarrow>
    (\<not> r \<and> c' = cur \<and> \<not> flag) \<or> (\<not> r \<and> c' = rechecked e cur) \<or>
    (r \<and> readcfg e (fst (hd (c_config_list (rechecked e cur)))) = Inr c')"
  by (auto simp: checkcfg_def rechecked_def Let_def comp_def split: if_splits sum.splits)

lemma rechecked_quiet:
  "checkcfg True False e (rechecked e cur) = (False, rechecked e cur)"
proof -
  have "map (recheck_file (e_w e)) (c_config_list (rechecked e cur)) = map (\<lambda>p. (False, p)) (c_config_list (rechecked e cur))"
    by (simp add: rechecked_def recheck_again)
  then have "\<not> list_ex fst (map (recheck_file (e_w e)) (c_config_list (rechecked e cur)))"
    "map snd (map (recheck_file (e_w e)) (c_config_list (rechecked e cur))) = c_config_list (rechecked e cur)"
    by (simp_all only: list_ex_iff) (auto simp: comp_def)
  then show ?thesis by (simp add: checkcfg_def Let_def del: map_map)
qed

text \<open>
  C28: a reload puts a new configuration in use only when the files gave a well-formed one; otherwise the
  old one stays, only the times noted for its files change, and the next check does not try again
  until a file changes.
\<close>

theorem reload_keeps_good_config:
  assumes "checkcfg True hup e cur = (changed, c')" "stat (e_w e) [] \<noteq> Some Dir"
  shows "if changed then work_wf e c' \<and> complete c'
    else c' = cur\<lparr>c_config_list := c_config_list c'\<rparr> \<and> map fst (c_config_list c') = map fst (c_config_list cur) \<and>
      checkcfg True False e c' = (False, c')"
proof (cases changed)
  case True
  then show ?thesis using checkcfg_cases [OF assms(1)] readcfg_well_formed_aux [OF _ assms(2)] by auto
next
  case False
  then have c': "c' = rechecked e cur" using checkcfg_cases [OF assms(1)] by auto
  have "map fst (c_config_list c') = map fst (c_config_list cur)" "c' = cur\<lparr>c_config_list := c_config_list c'\<rparr>"
    by (simp_all add: c' rechecked_def recheck_path)
  then show ?thesis using False rechecked_quiet [of e cur] by (simp add: c')
qed

theorem reload_keeps_good_config_witness:
  "\<exists>c c'. readcfg sample_env ''c'' = Inr c \<and>
     checkcfg True True (sample_env\<lparr>e_w := empty_world\<rparr>) c = (False, c') \<and> nettimeout (c_cfg c') = 3600"
proof (cases "readcfg sample_env ''c''")
  case (Inl err)
  then show ?thesis using sample_read by (simp add: timeout_of_def)
next
  case (Inr c)
  let ?e = "sample_env\<lparr>e_w := empty_world\<rparr>"
  obtain r c' where k: "checkcfg True True ?e c = (r, c')" by (cases "checkcfg True True ?e c")
  have gone: "stat (e_w ?e) p = None" for p by (simp add: stat_def empty_world_def)
  have "readcfg ?e p = Inl (ConfigError (''cannot open '' @ p))" for p
    by (simp add: readcfg_def numeral_eq_Suc read_file_def fopen_r_def stat_def empty_world_def)
  then have r: "\<not> r" using checkcfg_cases [OF k] by auto
  have "c' = c\<lparr>c_config_list := c_config_list c'\<rparr>"
    using reload_keeps_good_config [OF k] r gone by simp
  then have "nettimeout (c_cfg c') = nettimeout (c_cfg (c\<lparr>c_config_list := c_config_list c'\<rparr>))"
    by (rule arg_cong [where f = "\<lambda>c. nettimeout (c_cfg c)"])
  also have "\<dots> = nettimeout (c_cfg c)" by simp
  finally have "nettimeout (c_cfg c') = nettimeout (c_cfg c)" .
  then show ?thesis using Inr k r sample_read by (auto simp: timeout_of_def)
qed

end
