(* ===== verification/Showcfg.thy ===== *)
theory Showcfg
  imports Config
begin

text \<open>
  The listing of the configuration (\<^verbatim>\<open>debug_readcfg\<close> of \<^verbatim>\<open>readcfg.c\<close>), keyword by keyword, and the proof
  that the numbers and times it prints are read back as the values they came from.
\<close>

section \<open>Values as text\<close>

text \<open>A time, in the units it is divided into.\<close>

fun show_units :: "(int \<times> char) list \<Rightarrow> int \<Rightarrow> string \<times> int" where
  "show_units [] i = ([], i)"
| "show_units ((u, c) # us) i = (case show_units us (if u \<le> i then i mod u else i) of
     (s, r) \<Rightarrow> ((if u \<le> i then dec_of_int (i div u) @ [c] else []) @ s, r))"

definition time_units :: "(int \<times> char) list" where
  "time_units = [(604800, CHR ''w''), (86400, CHR ''d''), (3600, CHR ''h''), (60, CHR ''m'')]"

definition show_time :: "int \<Rightarrow> string" where
  "show_time v = (let i = (if v < 0 then to_int32 (- v) else v) in case show_units time_units i of
     (s, r) \<Rightarrow> (if v < 0 then ''-'' else []) @ s @ (if r > 0 \<or> v = 0 then dec_of_int r @ ''s'' else []))"

definition describe_addrtype :: "addrtype \<Rightarrow> string" where
  "describe_addrtype a = (if a = A_ALL then ''all'' else if a = 4 then ''secure'' else if a = 8 then ''unsecure''
     else if a = 1 then ''listed'' else if a = 2 then ''unlisted'' else ''???'')"

definition show_inboundcase :: "inbcasetype \<Rightarrow> string" where
  "show_inboundcase v = (case v of INB_SAVE \<Rightarrow> ''save'' | INB_UPPER \<Rightarrow> ''upper'' | INB_LOWER \<Rightarrow> ''lower'' | INB_MIXED \<Rightarrow> ''mixed'')"

definition show_renamestyle :: "renamestyletype \<Rightarrow> string" where
  "show_renamestyle v = (case v of RENAME_POSTFIX \<Rightarrow> ''postfix'' | RENAME_EXTENSION \<Rightarrow> ''extenstion'' | _ \<Rightarrow> ''???'')"

section \<open>Lists\<close>

abbreviation item :: string where
  "item \<equiv> CHR 0x0A # ''    ''"

abbreviation quoted :: "string \<Rightarrow> string" where
  "quoted s \<equiv> [CHR 0x22] @ s @ [CHR 0x22]"

definition show_domain :: "FTN_DOMAIN \<Rightarrow> string" where
  "show_domain d = (case alias4 d of
     Some a \<Rightarrow> item @ dom_name d @ '' alias-for '' @ dom_name a
   | None \<Rightarrow> item @ dom_name d @ '' '' @ dom_path d @ ''/'' @ dom_dir d @ '' '' @ dec_of_int (dom_z d))"

definition show_event :: "bool \<Rightarrow> EVT_FLAG \<Rightarrow> string" where
  "show_event is_flag v = (case (if is_flag then ev_path v else ev_command v) of
     None \<Rightarrow> []
   | Some s \<Rightarrow> item @ (if ev_imm v then ''[Imm] '' else []) @ quoted s @ '' on '' @ quoted (ev_pattern v))"

definition show_skip :: "skipchain \<Rightarrow> string" where
  "show_skip k = item @ describe_addrtype (sk_atype k) @ '' '' @ (if sk_destr k then ''!'' else '' '') @
     dec_of_int (if sk_size k < 0 then sk_size k else sk_size k div 1024) @ '' '' @ quoted (sk_mask k)"

definition show_aka :: "akachain \<Rightarrow> string" where
  "show_aka k = item @ (case aka_type k of ACT_HIDE \<Rightarrow> ''hide-aka'' | ACT_PRESENT \<Rightarrow> ''present-aka'') @ '' '' @
     ftnaddress_to_str (aka_fa k) @ '' '' @ (if aka_not k then ''!'' else '' '') @ aka_mask k"

definition show_share :: "SHARED_CHAIN \<Rightarrow> string" where
  "show_share s = item @ ftnaddress_to_str (sha s) @ concat (map (\<lambda>a. '' '' @ ftnaddress_to_str a) (sfa s))"

section \<open>The listing\<close>

text \<open>
  What stands behind a keyword.  \<open>nodes\<close> is the text of the node table: it tells a password that was
  given from one that defaults to the session password by the pointer, which the model does not keep.
\<close>

definition show_value :: "string \<Rightarrow> WORK \<Rightarrow> KEYWORD \<Rightarrow> string" where
  "show_value nodes w k = (let b = c_cfg w in case kw_callback k of
     Cb_string sk f \<Rightarrow> if kw_key k = ''passwords'' then ''[this item cannot be displayed]'' else quoted (fst f w)
   | Cb_port f \<Rightarrow> quoted (fst f w)
   | Cb_int x y f \<Rightarrow> dec_of_int (fst f w)
   | Cb_bool f \<Rightarrow> (if fst f w then ''[yes]'' else ''<not defined>'')
   | Cb_time x y f \<Rightarrow> show_time (fst f w)
   | Cb_include \<Rightarrow> concat (map (\<lambda>c. item @ fst c) (c_config_list w))
   | Cb_domain \<Rightarrow> concat (map show_domain (pDomains b))
   | Cb_address \<Rightarrow> concat (map (\<lambda>a. item @ ftnaddress_to_str a) (pAddr b))
   | Cb_node d \<Rightarrow> if d then (if havedefnode b then ''[see 0:0/0@defnode]'' else ''<not defined>'') else nodes
   | Cb_flag_exec fl \<Rightarrow> concat (map (show_event fl) (c_evt_flags w))
   | Cb_ftrans \<Rightarrow> concat (map (\<lambda>r. item @ quoted (rf_from r) @ '' => '' @ quoted (rf_to r)) (rf_rules b))
   | Cb_inboundcase \<Rightarrow> show_inboundcase (inboundcase b)
   | Cb_renamestyle \<Rightarrow> show_renamestyle (renamestyle b)
   | Cb_skip old \<Rightarrow> concat (map show_skip (skipmask b))
   | Cb_mask f \<Rightarrow> concat (map (\<lambda>m. item @ quoted m) (fst f w))
   | Cb_akachain act \<Rightarrow> (case act of
       ACT_HIDE \<Rightarrow> item @ ''[see present-aka]'' | ACT_PRESENT \<Rightarrow> concat (map show_aka (akamask b)))
   | Cb_check_pkthdr \<Rightarrow> (if pkthdr_type b = 0 then ''<disabled>''
       else describe_addrtype (pkthdr_type b) @ '' '' @ pkthdr_bad b)
   | Cb_share \<Rightarrow> concat (map show_share (shares b))
   | _ \<Rightarrow> ''[this item cannot be displayed]'')"

definition pad :: "nat \<Rightarrow> string \<Rightarrow> string" where
  "pad n s = s @ replicate (n - length s) (CHR '' '')"

definition debug_readcfg :: "string \<Rightarrow> WORK \<Rightarrow> string" where
  "debug_readcfg nodes w = concat (map (\<lambda>k. pad 24 (kw_key k) @ '' '' @ show_value nodes w k @ [CHR 0x0A]) keyword_table)"

section \<open>Times are read back\<close>

lemma to_int32_add: "0 \<le> y \<Longrightarrow> y < 2 ^ 31 \<Longrightarrow> to_int32 (to_int32 x + y) = to_int32 (x + y)"
  using signed_take_bit_add [of 31 x y] to_int32_id [of y] by (simp add: to_int32_def)

lemma time_loop_digits:
  assumes "\<forall>c\<in>set ds. isdigit c" "cur \<noteq> -1"
    "\<And>i. i < length ds \<Longrightarrow> foldl num_step cur (take (Suc i) ds) \<noteq> -1"
  shows "time_loop (ds @ t) cur acc = time_loop t (foldl num_step cur ds) acc"
  using assms
proof (induction ds arbitrary: cur)
  case Nil
  then show ?case by simp
next
  case (Cons c ds)
  have d: "isdigit c" using Cons.prems(1) by simp
  have s: "to_int32 (to_int32 (cur * 10) + int (digit_val c)) = num_step cur c"
  proof -
    have v: "int (digit_val c) = int (ord c) - 48" "digit_val c < 10"
      using d by (auto simp: isdigit_def digit_val_def of_nat_diff)
    then have "to_int32 (to_int32 (cur * 10) + int (digit_val c)) = to_int32 (cur * 10 + int (digit_val c))"
      by (intro to_int32_add) auto
    then show ?thesis by (simp add: num_step_def v(1) add_diff_eq)
  qed
  have "num_step cur c \<noteq> -1" using Cons.prems(3) [of 0] by simp
  moreover have "\<And>i. i < length ds \<Longrightarrow> foldl num_step (num_step cur c) (take (Suc i) ds) \<noteq> -1"
    using Cons.prems(3) [of "Suc _"] by simp
  ultimately show ?case using Cons.IH [of "num_step cur c"] Cons.prems(1,2) d s by simp
qed


text \<open>A number without overflow.\<close>

lemma foldl_digits_mono: "n \<le> foldl (\<lambda>n c. n * 10 + digit_val c) n ds"
proof (induction ds arbitrary: n)
  case (Cons d ds)
  have "n \<le> n * 10 + digit_val d" by simp
  then show ?case using Cons.IH [of "n * 10 + digit_val d"] by (simp add: le_trans)
qed simp

lemma time_loop_number:
  assumes "n < 2 ^ 31"
  shows "time_loop (dec_of_nat n @ t) (-1) acc = time_loop t (int n) acc"
proof -
  obtain c cs where c: "dec_of_nat n = c # cs" "isdigit c" using dec_of_nat_Cons by blast
  have digits: "\<forall>x\<in>set (c # cs). isdigit x" using dec_of_nat_digits [of _ n] c by auto
  have total: "foldl (\<lambda>n c. n * 10 + digit_val c) 0 (c # cs) = n"
    using dec_value_dec_of_nat [of n] c by (simp add: dec_value_def)
  have part: "foldl num_step 0 (take i (c # cs)) = int (foldl (\<lambda>n c. n * 10 + digit_val c) 0 (take i (c # cs)))" for i
  proof -
    have "foldl (\<lambda>n c. n * 10 + digit_val c) 0 (take i (c # cs)) \<le> n"
      using foldl_digits_mono [of "foldl (\<lambda>n c. n * 10 + digit_val c) 0 (take i (c # cs))" "drop i (c # cs)"] total
      by (metis append_take_drop_id foldl_append)
    then have "foldl (\<lambda>n c. n * 10 + digit_val c) 0 (take i (c # cs)) < 2 ^ 31" using assms by linarith
    moreover have "\<forall>x\<in>set (take i (c # cs)). isdigit x" using digits in_set_takeD by fast
    ultimately show ?thesis using foldl_num_step [of "take i (c # cs)" 0] by simp
  qed
  have first: "time_loop ((c # cs) @ t) (-1) acc = time_loop (cs @ t) (num_step 0 c) acc"
    using c(2) by (simp add: num_step_def isdigit_def digit_val_def of_nat_diff algebra_simps)
  have "num_step 0 c \<noteq> -1" using part [of 1] by simp
  moreover have "\<And>i. i < length cs \<Longrightarrow> foldl num_step (num_step 0 c) (take (Suc i) cs) \<noteq> -1"
    using part [of "Suc (Suc _)"] by simp
  ultimately have "time_loop (cs @ t) (num_step 0 c) acc = time_loop t (foldl num_step (num_step 0 c) cs) acc"
    using digits by (intro time_loop_digits) auto
  moreover have "foldl num_step (num_step 0 c) cs = int n"
    using part [of "length (c # cs)"] total by simp
  ultimately show ?thesis using first c(1) by simp
qed

lemma time_loop_unit:
  assumes "0 \<le> n" "0 \<le> acc" "acc + n * u < 2 ^ 31" "0 < u" "unit_secs c = Some u" "\<not> isdigit c"
  shows "time_loop (dec_of_int n @ c # t) (-1) acc = time_loop t (-1) (acc + n * u)"
proof -
  have "n \<le> n * u" using assms(1,4) by (simp add: mult_le_cancel_left1)
  then have n: "nat n < 2 ^ 31" using assms by auto
  have "time_loop (dec_of_nat (nat n) @ c # t) (-1) acc = time_loop (c # t) n acc"
    using time_loop_number [OF n] assms(1) by simp
  also have "\<dots> = time_loop t (-1) (acc + n * u)"
  proof -
    have "0 \<le> n * u" "n * u < 2 ^ 31" using assms(1-4) by auto
    then have "to_int32 (acc + to_int32 (n * u)) = acc + n * u" using assms(2,3) by (simp add: to_int32_id)
    then show ?thesis using assms(1,5,6) by simp
  qed
  finally show ?thesis using assms(1) by (simp add: dec_of_int_def)
qed

lemma show_units_loop:
  assumes "show_units us i = (s, r)" "0 \<le> i" "0 \<le> acc" "acc + i < 2 ^ 31"
    "list_all (\<lambda>(u, c). 0 < u \<and> unit_secs c = Some u \<and> \<not> isdigit c) us"
  shows "0 \<le> r \<and> r \<le> i \<and> time_loop (s @ t) (-1) acc = time_loop t (-1) (acc + (i - r))"
  using assms
proof (induction us arbitrary: i s acc)
  case Nil
  then show ?case by simp
next
  case (Cons x us)
  obtain u c where x: "x = (u, c)" by (cases x)
  define i1 where "i1 = (if u \<le> i then i mod u else i)"
  define acc1 where "acc1 = acc + (i - i1)"
  obtain s1 where s1: "show_units us i1 = (s1, r)" "s = (if u \<le> i then dec_of_int (i div u) @ [c] else []) @ s1"
    using Cons.prems(1) x by (auto simp: i1_def split: prod.splits)
  have u: "0 < u" "unit_secs c = Some u" "\<not> isdigit c" using Cons.prems(5) x by simp_all
  have i1: "0 \<le> i1" "i1 \<le> i" "i - i1 = (if u \<le> i then i div u * u else 0)"
    using Cons.prems(2) u(1) minus_mod_eq_div_mult [of i u] by (auto simp: i1_def zmod_le_nonneg_dividend)
  have "time_loop (s @ t) (-1) acc = time_loop (s1 @ t) (-1) acc1"
  proof (cases "u \<le> i")
    case True
    have "time_loop (dec_of_int (i div u) @ c # s1 @ t) (-1) acc = time_loop (s1 @ t) (-1) (acc + i div u * u)"
      using Cons.prems(2-4) u i1 True by (intro time_loop_unit) (auto simp: pos_imp_zdiv_nonneg_iff)
    then show ?thesis using True s1(2) i1(3) by (simp add: acc1_def)
  next
    case False
    then show ?thesis using s1(2) i1(3) by (simp add: acc1_def)
  qed
  moreover have "0 \<le> r \<and> r \<le> i1 \<and> time_loop (s1 @ t) (-1) acc1 = time_loop t (-1) (acc1 + (i1 - r))"
    using Cons.IH [OF s1(1) i1(1)] Cons.prems(2-5) i1 by (simp add: acc1_def)
  moreover have "acc1 + (i1 - r) = acc + (i - r)" by (simp add: acc1_def)
  ultimately show ?case using i1(2) by simp
qed

lemma dec_of_int_hd: "0 \<le> n \<Longrightarrow> \<exists>c cs. dec_of_int n = c # cs \<and> isdigit c"
  using dec_of_nat_Cons [of "nat n"] by (simp add: dec_of_int_def)

lemma show_units_hd:
  "show_units us i = (s, r) \<Longrightarrow> 0 \<le> i \<Longrightarrow> list_all (\<lambda>(u, c). 0 < u) us \<Longrightarrow> s = [] \<or> isdigit (hd s)"
proof (induction us arbitrary: i s)
  case (Cons x us)
  obtain u c where x: "x = (u, c)" by (cases x)
  define i1 where "i1 = (if u \<le> i then i mod u else i)"
  obtain s1 where s1: "show_units us i1 = (s1, r)" "s = (if u \<le> i then dec_of_int (i div u) @ [c] else []) @ s1"
    using Cons.prems(1) x by (auto simp: i1_def split: prod.splits)
  have "0 < u" using Cons.prems(3) x by simp
  then have "0 \<le> i1" "0 \<le> i div u" using Cons.prems(2) by (auto simp: i1_def pos_imp_zdiv_nonneg_iff)
  then show ?case using Cons.IH [OF s1(1)] Cons.prems(3) s1(2) dec_of_int_hd [of "i div u"] by auto
qed simp

lemma time_units_ok: "list_all (\<lambda>(u, c). 0 < u \<and> unit_secs c = Some u \<and> \<not> isdigit c) time_units"
  by code_simp

lemma show_time_loop:
  assumes "- (2 ^ 31) < v" "v < 2 ^ 31"
  shows "\<exists>s. show_time v = (if v < 0 then ''-'' else []) @ s \<and> time_loop s (-1) 0 = Some \<bar>v\<bar> \<and> (s = [] \<or> hd s \<noteq> CHR ''-'')"
proof -
  define i where "i = \<bar>v\<bar>"
  have i: "(if v < 0 then to_int32 (- v) else v) = i" "0 \<le> i" "i < 2 ^ 31"
    using assms by (auto simp: i_def to_int32_id)
  obtain s r where s: "show_units time_units i = (s, r)" by (cases "show_units time_units i")
  define t where "t = (if r > 0 \<or> v = 0 then dec_of_int r @ ''s'' else [])"
  have st: "show_time v = (if v < 0 then ''-'' else []) @ s @ t"
    by (simp add: show_time_def i(1) s t_def)
  have r: "0 \<le> r" "r \<le> i" "time_loop (s @ t) (-1) 0 = time_loop t (-1) (0 + (i - r))"
    using show_units_loop [OF s i(2) order.refl _ time_units_ok] i(3) by simp_all
  have "time_loop t (-1) (i - r) = Some i"
  proof (cases "r > 0 \<or> v = 0")
    case True
    have "time_loop (dec_of_int r @ CHR ''s'' # []) (-1) (i - r) = time_loop [] (-1) (i - r + r * 1)"
      using r i by (intro time_loop_unit) (simp_all add: unit_secs_def tolower_def isupper_def isdigit_def)
    then show ?thesis using True by (simp add: t_def)
  next
    case False
    then show ?thesis using r by (simp add: t_def)
  qed
  moreover have "s @ t = [] \<or> hd (s @ t) \<noteq> CHR ''-''"
  proof -
    have "s = [] \<or> isdigit (hd s)"
      using show_units_hd [OF s i(2)] time_units_ok by (simp add: list_all_iff case_prod_beta)
    moreover have "t = [] \<or> isdigit (hd t)" using dec_of_int_hd [OF r(1)] by (auto simp: t_def)
    moreover have "\<not> isdigit (CHR ''-'')" by code_simp
    ultimately show ?thesis by (cases s) auto
  qed
  ultimately show ?thesis using st r(3) unfolding i_def by auto
qed

section \<open>Numbers and times of the listing are read back\<close>

lemma int_chars_dec: "int_chars (dec_of_int v)"
proof (cases "v < 0")
  case True
  then show ?thesis using dec_of_nat_digits [of _ "nat (- v)"] by (auto simp: int_chars_def dec_of_int_def list_all_iff)
next
  case False
  obtain c cs where c: "dec_of_nat (nat v) = c # cs" "isdigit c" using dec_of_nat_Cons by blast
  then have "c \<noteq> CHR ''-''" by (auto simp: isdigit_not_special)
  then show ?thesis using False c dec_of_nat_digits [of _ "nat v"] by (auto simp: int_chars_def dec_of_int_def list_all_iff)
qed

lemma read_int_dec:
  "in_range a b v \<Longrightarrow> - (2 ^ 31) \<le> v \<Longrightarrow> v < 2 ^ 31 \<Longrightarrow> read_int a b [dec_of_int v] = Inr v"
  by (simp add: read_int_def isArgCount_def need_def int_chars_dec atoi_dec Let_def)

lemma read_time_show:
  assumes "in_range a b v" "- (2 ^ 31) < v" "v < 2 ^ 31"
  shows "read_time a b [show_time v] = Inr v"
proof -
  obtain s where s: "show_time v = (if v < 0 then ''-'' else []) @ s" "time_loop s (-1) 0 = Some \<bar>v\<bar>"
    "s = [] \<or> hd s \<noteq> CHR ''-''"
    using show_time_loop [OF assms(2,3)] by blast
  show ?thesis
  proof (cases "v < 0")
    case True
    then show ?thesis using s assms by (simp add: read_time_def isArgCount_def need_def to_int32_id)
  next
    case False
    then show ?thesis using s assms by (auto simp: read_time_def isArgCount_def need_def)
  qed
qed

text \<open>
  the number or time \<^verbatim>\<open>debug_readcfg\<close> prints for a keyword is accepted by that keyword, and gives its
  variable the value that was printed.
\<close>

theorem listed_number_read_back:
  assumes "kw_callback k = Cb_int a b f \<or> kw_callback k = Cb_time a b f"
    and "in_range a b (fst f w)" "- (2 ^ 31) < fst f w" "fst f w < 2 ^ 31"
  shows "run_callback inc e k [show_value nodes w k] c = Inr (snd f (fst f w) c)"
  using assms read_int_dec [of a b "fst f w"] read_time_show [of a b "fst f w"]
  by (auto simp: run_callback_def show_value_def)

theorem listed_number_read_back_witness:
  "\<exists>k. k \<in> set keyword_table \<and> kw_key k = ''tzoff'' \<and>
     show_value [] ((lock_config_structure sample_env)\<lparr>c_tzoff := -9000\<rparr>) k = ''-2h30m'' \<and>
     run_callback (\<lambda>p. Inr) sample_env k [''-2h30m''] (lock_config_structure sample_env) = Inr ((lock_config_structure sample_env)\<lparr>c_tzoff := -9000\<rparr>)"
proof -
  let ?f = "(c_tzoff, \<lambda>v c. c\<lparr>c_tzoff := v\<rparr>)" and ?w = "(lock_config_structure sample_env)\<lparr>c_tzoff := -9000\<rparr>"
  let ?k = "kw ''tzoff'' (Cb_time (- 43200) 43200 ?f)"
  have s: "show_value [] ?w ?k = ''-2h30m''"
  proof -
    have "show_time (-9000) = ''-2h30m''" by code_simp
    then show ?thesis by (simp add: show_value_def kw_def)
  qed
  have "run_callback (\<lambda>p. Inr) sample_env ?k [show_value [] ?w ?k] (lock_config_structure sample_env) = Inr ?w"
    using listed_number_read_back [of ?k "-43200" 43200 ?f ?w] by (simp add: kw_def in_range_def)
  then have "run_callback (\<lambda>p. Inr) sample_env ?k [''-2h30m''] (lock_config_structure sample_env) = Inr ?w" by (simp only: s)
  moreover have "?k \<in> set keyword_table" by (simp add: keyword_table_def)
  moreover have "kw_key ?k = ''tzoff''" by (simp add: kw_def)
  ultimately show ?thesis using s by blast
qed

end
