(* ===== verification/Srif.thy ===== *)
theory Srif
  imports Readcfg State
begin

text \<open>
  Events and file requests (\<^verbatim>\<open>srif.c\<close>): flag files and external commands for received files, at once or
  after the session, and the exchange of a request with an external program.

  What a command does to the files is an argument, \<open>ext\<close>.  \<open>None\<close> is a read of memory that was never
  written: an address list of a session without addresses.
\<close>

section \<open>State\<close>

text \<open>The queue of a session, its delayed events, its list of received requests, and the commands the shell got.\<close>

record evt_st =
  ev_w :: world
  ev_q :: "FTNQ list"
  ev_queue :: "(char \<times> string) list"
  ev_rcvd :: "string list"
  ev_runs :: "string list"

definition run :: "(string \<Rightarrow> world \<Rightarrow> world) \<Rightarrow> string \<Rightarrow> evt_st \<Rightarrow> evt_st" where
  "run ext cmd s = s\<lparr>ev_w := ext cmd (ev_w s), ev_runs := ev_runs s @ [cmd]\<rparr>"

section \<open>Events\<close>

definition evt_queue :: "(char \<times> string) list \<Rightarrow> char \<Rightarrow> string \<Rightarrow> (char \<times> string) list" where
  "evt_queue eq evt_type path = (if (evt_type, path) \<in> set eq then eq else (evt_type, path) # eq)"

definition set_flag :: "string \<Rightarrow> world \<Rightarrow> world" where
  "set_flag path w = (case create_empty_sem_file path w of
     (True, w1) \<Rightarrow> w1 | (False, w1) \<Rightarrow> snd (touch path (w_time w1) w1))"

text \<open>\<^verbatim>\<open>evt_test\<close>: the flags are set or queued, the result tells whether there is a command.\<close>

fun evt_test :: "EVT_FLAG list \<Rightarrow> string \<Rightarrow> evt_st \<Rightarrow> bool \<times> evt_st" where
  "evt_test [] filename s = (False, s)"
| "evt_test (f # fs) filename s =
    (if \<not> pmatch_ncase (ev_pattern f) filename then evt_test fs filename s
     else case ev_path f of
       Some path \<Rightarrow> evt_test fs filename
         (if ev_imm f then s\<lparr>ev_w := set_flag path (ev_w s)\<rparr> else s\<lparr>ev_queue := evt_queue (ev_queue s) CHR ''f'' path\<rparr>)
     | None \<Rightarrow> (case evt_test fs filename s of (rc, s') \<Rightarrow> (rc \<or> ev_command f \<noteq> None, s')))"

fun evt_set :: "(string \<Rightarrow> world \<Rightarrow> world) \<Rightarrow> (char \<times> string) list \<Rightarrow> evt_st \<Rightarrow> evt_st" where
  "evt_set ext [] s = s"
| "evt_set ext ((t, path) # eq) s =
    evt_set ext eq (if t = CHR ''e'' then run ext path s else s\<lparr>ev_w := set_flag path (ev_w s)\<rparr>)"

section \<open>Requests\<close>

definition mksrifpaths :: "FTN_ADDR \<Rightarrow> BINKD_CONFIG \<Rightarrow> (string \<times> string) option" where
  "mksrifpaths fa cfg = (let srf = ftnaddress_to_filename fa (pDomains cfg) in
     if srf \<noteq> [] then Some (strnzcat srf ''.srf'' MAXPATHLEN, strnzcat (strnzcpy srf MAXPATHLEN) ''.rsp'' MAXPATHLEN)
     else None)"

text \<open>A line with its newline; \<^verbatim>\<open>printf\<close> shows a NULL pointer as \<open>(null)\<close>.\<close>

abbreviation text_line :: "string \<Rightarrow> string" where
  "text_line s \<equiv> s @ [CHR 0x0A]"

definition srif_text :: "FTN_ADDR list \<Rightarrow> string \<Rightarrow> string \<Rightarrow> bool \<Rightarrow> bool \<Rightarrow> string option \<Rightarrow> string \<Rightarrow> string" where
  "srif_text fas req rsp prot listed peer_name peer_sysop =
     text_line (''Sysop '' @ peer_sysop) @ concat (map (\<lambda>a. text_line (''AKA '' @ ftnaddress_to_str a)) fas) @
     text_line ''Baud 115200'' @ text_line ''Time -1'' @ text_line (''RequestList '' @ req) @ text_line (''ResponseList '' @ rsp) @
     text_line (''RemoteStatus '' @ (if prot then ''PROTECTED'' else ''UNPROTECTED'')) @
     text_line (''SystemStatus '' @ (if listed then ''LISTED'' else ''UNLISTED'')) @
     text_line (''CallerID '' @ (case peer_name of None \<Rightarrow> ''(null)'' | Some n \<Rightarrow> n)) @ text_line ''SessionType OTHER''"

definition srif_fill :: "string \<Rightarrow> string \<Rightarrow> string \<Rightarrow> string option \<Rightarrow> session \<Rightarrow> world \<Rightarrow> bool \<times> world" where
  "srif_fill path req rsp peer_name s w =
     write_file path (srif_text (take (s_nfa s) (s_fa s)) req rsp (s_state s = P_SECURE) (s_listed_flag s \<noteq> 0) peer_name (s_sysop s)) w"

text \<open>A line of the response: the first character tells what to do with the file once it was sent.\<close>

definition response_line :: "FTN_ADDR \<Rightarrow> world \<Rightarrow> string \<Rightarrow> FTNQ list \<Rightarrow> FTNQ list" where
  "response_line fa w line q = (let b = takeWhile (\<lambda>c. \<not> isspace c) (c_string line) in
     case b of
       [] \<Rightarrow> q
     | c # file \<Rightarrow>
         if c = CHR ''='' then q_add_last_file q file fa CHR ''h'' CHR ''d'' NUL_char w
         else if c = CHR ''+'' then q_add_last_file q file fa CHR ''h'' NUL_char NUL_char w
         else if c = CHR ''-'' then q_add_last_file q file fa CHR ''h'' CHR ''a'' NUL_char w
         else q)"

definition parse_response :: "FTNQ list \<Rightarrow> string \<Rightarrow> FTN_ADDR \<Rightarrow> world \<Rightarrow> FTNQ list" where
  "parse_response q rsp fa w = (case fopen_r rsp w of
     None \<Rightarrow> q | Some d \<Rightarrow> fold (response_line fa w) (file_lines MAXPATHLEN d) q)"

section \<open>Command lines\<close>

definition valid_filename_char :: "char \<Rightarrow> bool" where
  "valid_filename_char c \<longleftrightarrow> isalnum c \<or> c \<in> set ''.-_:/@'' \<or> c = CHR 0x5C"

definition shown_name :: "string \<Rightarrow> string" where
  "shown_name filename = (if list_all valid_filename_char filename then filename else ''-'')"

definition shown_peer :: "string option \<Rightarrow> string \<Rightarrow> string" where
  "shown_peer peer_name ipaddr = (let pn = box_of peer_name in
     if pn = [] \<or> \<not> list_all valid_filename_char pn then ipaddr else pn)"

text \<open>What a star is replaced with: the pattern for \<^verbatim>\<open>ed\<close>, the value, and whether it is the file name.\<close>

datatype star = Star_none | Star_undefined | Star string string bool

definition char_at :: "string \<Rightarrow> nat \<Rightarrow> char" where
  "char_at s i = (if i < length s then s ! i else NUL_char)"

fun join :: "string list \<Rightarrow> string" where
  "join [] = []"
| "join [x] = x"
| "join (x # xs) = x @ '' '' @ join xs"

definition star_aka :: "session \<Rightarrow> char \<Rightarrow> star" where
  "star_aka s d =
    (if d = CHR ''@'' \<or> d = CHR ''*'' then
       (if s_nfa s = 0 then Star_undefined
        else Star (''*A'' @ [d]) (join (map ftnaddress_to_str (take (s_nfa s) (s_fa s)))) False)
     else let i = (if isdigit d then digit_val d else 0);
              adr = (if i < s_nfa s then ftnaddress_to_str (s_fa s ! i) else ''-'');
              c = (if d = NUL_char then [] else [d])
          in Star (''*A'' @ c) (adr @ (if isdigit d then [] else c)) False)"

definition star_value :: "session \<Rightarrow> string \<Rightarrow> string \<Rightarrow> string \<Rightarrow> nat \<Rightarrow> star" where
  "star_value s fn pn w l = (let c = toupper (char_at w (l + 1)) in
     if c = CHR ''N'' then Star ''*N'' fn True
     else if c = CHR ''F'' then Star ''*F'' fn True
     else if c = CHR ''A'' then star_aka s (char_at w (l + 2))
     else if c = CHR ''P'' then Star ''*P'' (if s_state s = P_SECURE then ''1'' else ''0'') False
     else if c = CHR ''L'' then Star ''*L'' (if s_listed_flag s \<noteq> 0 then ''1'' else ''0'') False
     else if c = CHR ''H'' then Star ''*H'' pn False
     else Star_none)"

definition next_star :: "string \<Rightarrow> nat \<Rightarrow> nat option" where
  "next_star w l = map_option ((+) l) (char_pos (CHR ''*'') (drop l w))"

partial_function (option) args_loop ::
  "session \<Rightarrow> string \<Rightarrow> string \<Rightarrow> string \<Rightarrow> nat \<Rightarrow> bool \<Rightarrow> (string \<times> bool) option" where
  "args_loop s fn pn w l use_fn = (case next_star w l of
     None \<Rightarrow> Some (w, use_fn)
   | Some p \<Rightarrow> (case star_value s fn pn w p of
       Star_none \<Rightarrow> args_loop s fn pn w (p + 1) use_fn
     | Star_undefined \<Rightarrow> None
     | Star a b u \<Rightarrow> args_loop s fn pn (ed w a b) (p + 1) (use_fn \<or> u)))"

declare args_loop.simps [code]

text \<open>\<^verbatim>\<open>run_args\<close>: a command that would show an invalid name is not executed.\<close>

definition run_args :: "(string \<Rightarrow> world \<Rightarrow> world) \<Rightarrow> string \<Rightarrow> string \<Rightarrow> string option \<Rightarrow> session \<Rightarrow> bool \<Rightarrow> evt_st \<Rightarrow> evt_st option" where
  "run_args ext cmd filename peer_name s imm es =
    (let fn = shown_name filename; pn = shown_peer peer_name (s_ipaddr s) in
     case args_loop s fn pn cmd 0 False of
       None \<Rightarrow> None
     | Some (w, use_fn) \<Rightarrow>
         Some (if fn \<noteq> filename \<and> use_fn then es
               else if imm then run ext w es
               else es\<lparr>ev_queue := evt_queue (ev_queue es) CHR ''e'' w\<rparr>))"

section \<open>The handler of a received file\<close>

definition wants_srif :: "string \<Rightarrow> bool" where
  "wants_srif cmd \<longleftrightarrow> list_ex (\<lambda>i. take 2 (drop i cmd) = ''*S'' \<or> take 2 (drop i cmd) = ''*s'') [0..<length cmd]"

text \<open>
  A request: the exchange of files with the program that answers it.  \<^verbatim>\<open>run_args\<close> got no queue and
  returns none, so the request is always deleted.
\<close>

definition srif_request :: "(string \<Rightarrow> world \<Rightarrow> world) \<Rightarrow> string \<Rightarrow> string \<Rightarrow> string option \<Rightarrow> session \<Rightarrow> evt_st \<Rightarrow> evt_st option" where
  "srif_request ext cmd filename peer_name s es = (case s_fa s of
     [] \<Rightarrow> None
   | fa # fas \<Rightarrow> (case mksrifpaths fa (x_cfg s) of
       None \<Rightarrow> Some es
     | Some (srf, rsp) \<Rightarrow>
         (case srif_fill srf filename rsp peer_name s (ev_w es) of (ok, w1) \<Rightarrow>
           (case (if ok then map_option (\<lambda>e. e\<lparr>ev_w := snd (delete filename (ev_w e))\<rparr>)
                    (run_args ext (ed cmd ''*S'' srf) filename peer_name s True (es\<lparr>ev_w := w1\<rparr>))
                  else Some (es\<lparr>ev_w := w1\<rparr>)) of
              None \<Rightarrow> None
            | Some e2 \<Rightarrow> Some (e2\<lparr>ev_q := parse_response (ev_q e2) rsp fa (ev_w e2),
                ev_w := snd (delete rsp (snd (delete srf (ev_w e2))))\<rparr>)))))"

fun evt_run :: "(string \<Rightarrow> world \<Rightarrow> world) \<Rightarrow> EVT_FLAG list \<Rightarrow> string \<Rightarrow> bool \<Rightarrow> string option \<Rightarrow> session \<Rightarrow> evt_st \<Rightarrow> evt_st option" where
  "evt_run ext [] filename imm_freq peer_name s es = Some es"
| "evt_run ext (f # fs) filename imm_freq peer_name s es =
    (case (case ev_command f of
       None \<Rightarrow> Some es
     | Some cmd \<Rightarrow>
         if \<not> pmatch_ncase (ev_pattern f) filename then Some es
         else if wants_srif cmd then
           (if imm_freq then srif_request ext cmd filename peer_name s es
            else Some (es\<lparr>ev_rcvd := add_to_rcvdlist (ev_rcvd es) filename\<rparr>))
         else run_args ext cmd filename peer_name s (ev_imm f) es) of
       None \<Rightarrow> None
     | Some es' \<Rightarrow> evt_run ext fs filename imm_freq peer_name s es')"

text \<open>\<^verbatim>\<open>process_rcvdlist\<close> of \<^verbatim>\<open>protocol.c\<close>: the requests that were put off.\<close>

fun process_rcvdlist :: "(string \<Rightarrow> world \<Rightarrow> world) \<Rightarrow> EVT_FLAG list \<Rightarrow> string list \<Rightarrow> string option \<Rightarrow> session \<Rightarrow> evt_st \<Rightarrow> evt_st option" where
  "process_rcvdlist ext fs [] peer_name s es = Some es"
| "process_rcvdlist ext fs (n # ns) peer_name s es = (case evt_run ext fs n True peer_name s es of
     None \<Rightarrow> None | Some es' \<Rightarrow> process_rcvdlist ext fs ns peer_name s es')"

text \<open>
  The session: what \<^verbatim>\<open>inb_done\<close> does with a received file, \<open>imm\<close> being whether the end of the batch is
  delayed for a request; the requests put off, at the end of a batch; and the delayed events at the end
  of the session.  What the handler reads in \<open>s\<close>, the addresses, the status and the names of the remote, the
  login has set; the rest of \<open>s\<close> it does not look at.
\<close>

datatype evt_step = Received string bool | Batch_end

definition file_events :: "(string \<Rightarrow> world \<Rightarrow> world) \<Rightarrow> EVT_FLAG list \<Rightarrow> string option \<Rightarrow> session \<Rightarrow> string \<Rightarrow> bool \<Rightarrow> evt_st \<Rightarrow> evt_st option" where
  "file_events ext fs peer_name s real_name imm es = (case evt_test fs real_name es of (rc, es1) \<Rightarrow>
     if rc then evt_run ext fs real_name imm peer_name s es1 else Some es1)"

definition batch_events :: "(string \<Rightarrow> world \<Rightarrow> world) \<Rightarrow> EVT_FLAG list \<Rightarrow> string option \<Rightarrow> session \<Rightarrow> evt_st \<Rightarrow> evt_st option" where
  "batch_events ext fs peer_name s es = (if ev_rcvd es = [] then Some es
     else map_option (\<lambda>e. e\<lparr>ev_rcvd := []\<rparr>) (process_rcvdlist ext fs (ev_rcvd es) peer_name s es))"

fun session_events :: "(string \<Rightarrow> world \<Rightarrow> world) \<Rightarrow> EVT_FLAG list \<Rightarrow> string option \<Rightarrow> session \<Rightarrow> evt_step list \<Rightarrow> evt_st \<Rightarrow> evt_st option" where
  "session_events ext fs peer_name s [] es = Some es"
| "session_events ext fs peer_name s (x # xs) es =
    (case (case x of Received n imm \<Rightarrow> file_events ext fs peer_name s n imm es | Batch_end \<Rightarrow> batch_events ext fs peer_name s es) of
       None \<Rightarrow> None
     | Some es' \<Rightarrow> session_events ext fs peer_name s xs es')"

definition end_events :: "(string \<Rightarrow> world \<Rightarrow> world) \<Rightarrow> evt_st \<Rightarrow> evt_st" where
  "end_events ext es = (evt_set ext (ev_queue es) es)\<lparr>ev_queue := []\<rparr>"

end
