(* ===== verification/Events.thy ===== *)
theory Events
  imports Srif Access
begin

text \<open>
  The commands of events: the expansion of a command line ends, what reaches the shell has exactly the
  special characters of the configured command, and a delayed event happens once.
\<close>

section \<open>Replacing in a string\<close>

lemma set_replace_all: "set (replace_all a b s) \<subseteq> set s \<union> set b"
proof (induction a b s rule: replace_all.induct)
  case (1 a b s)
  show ?case
  proof (cases "a = [] \<or> s = []")
    case True
    then show ?thesis by (subst replace_all.simps) auto
  next
    case False
    then have "set (tl s) \<subseteq> set s" "hd s \<in> set s" "set (drop (length a) s) \<subseteq> set s"
      by (auto dest: in_set_dropD list.set_sel(2))
    then show ?thesis using 1 False by (subst replace_all.simps) auto
  qed
qed

lemma set_ed: "set (ed w a b) \<subseteq> set w \<union> set b"
  by (simp add: ed_replace set_replace_all)

lemma count_drop_le: "count_list (drop n s) c \<le> count_list s c"
  by (metis append_take_drop_id count_list_append le_add2)

lemma tolower_star: "tolower c = CHR ''*'' \<Longrightarrow> c = CHR ''*''"
  by (auto simp: tolower_def isupper_def split: if_splits dest!: arg_cong [of _ _ ord])

text \<open>When the value has no star, every replacement removes one.\<close>

lemma count_replace_all:
  "CHR ''*'' \<notin> set b \<Longrightarrow> count_list (replace_all (CHR ''*'' # a) b s) CHR ''*'' \<le> count_list s CHR ''*''"
proof (induction "CHR ''*'' # a" b s rule: replace_all.induct)
  case (1 b s)
  show ?case
  proof (cases "s = []")
    case True
    then show ?thesis by (subst replace_all.simps) simp
  next
    case False
    then obtain c t where s: "s = c # t" by (cases s) auto
    show ?thesis
      using 1 s count_drop_le [of "length a" t "CHR ''*''"] by (subst replace_all.simps) auto
  qed
qed

lemma count_replace_less:
  "CHR ''*'' \<notin> set b \<Longrightarrow> p < length s \<Longrightarrow> ci_prefix (CHR ''*'' # a) (drop p s) \<Longrightarrow>
   count_list (replace_all (CHR ''*'' # a) b s) CHR ''*'' < count_list s CHR ''*''"
proof (induction "CHR ''*'' # a" b s arbitrary: p rule: replace_all.induct)
  case (1 b s)
  obtain c t where s: "s = c # t" using "1.prems"(2) by (cases s) auto
  show ?case
  proof (cases "ci_prefix (CHR ''*'' # a) s")
    case True
    then have "tolower c = CHR ''*''" using s by (auto simp: ci_prefix_def strlower_def tolower_def isupper_def)
    then have c: "c = CHR ''*''" by (rule tolower_star)
    have "replace_all (CHR ''*'' # a) b s = b @ replace_all (CHR ''*'' # a) b (drop (length a) t)"
      using True s by (subst replace_all.simps) simp
    moreover have "count_list (replace_all (CHR ''*'' # a) b (drop (length a) t)) CHR ''*'' \<le> count_list t CHR ''*''"
      using count_replace_all [OF "1.prems"(1)] count_drop_le le_trans by metis
    ultimately show ?thesis using "1.prems"(1) s c by simp
  next
    case False
    then have "p \<noteq> 0" using "1.prems"(3) by (cases p) auto
    then obtain q where p: "p = Suc q" by (cases p) auto
    have "count_list (replace_all (CHR ''*'' # a) b t) CHR ''*'' < count_list t CHR ''*''"
      using "1.hyps"(2) [of q] False s p "1.prems" by simp
    moreover have "replace_all (CHR ''*'' # a) b s = c # replace_all (CHR ''*'' # a) b t"
      using False s by (subst replace_all.simps) simp
    ultimately show ?thesis using s by simp
  qed
qed

text \<open>A value with the special characters of the pattern leaves those of the text as they are.\<close>

lemma filter_strlower:
  assumes "\<And>c d. tolower c = tolower d \<Longrightarrow> P c \<Longrightarrow> c = d"
  shows "strlower x = strlower y \<Longrightarrow> filter P x = filter P y"
proof (induction x arbitrary: y)
  case (Cons c x)
  then obtain d z where y: "y = d # z" and cd: "tolower c = tolower d" and z: "strlower x = strlower z"
    by (cases y) (auto simp: strlower_def)
  have "P c = P d" "P c \<Longrightarrow> c = d" using assms [OF cd] assms [OF cd [symmetric]] by blast+
  then show ?case using Cons.IH [OF z] y by (cases "P c") simp_all
qed (simp add: strlower_def)

lemma filter_replace_all:
  assumes low: "\<And>c d. tolower c = tolower d \<Longrightarrow> P c \<Longrightarrow> c = d" and "filter P b = filter P a"
  shows "filter P (replace_all a b s) = filter P s"
  using assms(2)
proof (induction a b s rule: replace_all.induct)
  case (1 a b s)
  consider "a = [] \<or> s = []" | "a \<noteq> []" "s \<noteq> []" "ci_prefix a s" | "a \<noteq> []" "s \<noteq> []" "\<not> ci_prefix a s" by blast
  then show ?case
  proof cases
    case 1
    then show ?thesis by (subst replace_all.simps) auto
  next
    case 2
    then have "strlower (take (length a) s) = strlower a" by (simp add: ci_prefix_def)
    from filter_strlower [OF low this] have t: "filter P (take (length a) s) = filter P a" by blast
    have r: "replace_all a b s = b @ replace_all a b (drop (length a) s)" using 2 by (subst replace_all.simps) simp
    have "filter P (replace_all a b (drop (length a) s)) = filter P (drop (length a) s)" using 1 2 by blast
    then have "filter P (replace_all a b s) = filter P (take (length a) s) @ filter P (drop (length a) s)"
      unfolding r filter_append t using 1(3) by simp
    then show ?thesis by (simp only: filter_append [symmetric] append_take_drop_id)
  next
    case 3
    then obtain c t where "s = c # t" by (cases s) auto
    moreover have "replace_all a b s = hd s # replace_all a b (tl s)" using 3 by (subst replace_all.simps) simp
    moreover have "filter P (replace_all a b (tl s)) = filter P (tl s)" using 1 3 by blast
    ultimately show ?thesis by simp
  qed
qed

section \<open>Values\<close>

text \<open>
  The characters a value may bring in: those of file names, and the space between the addresses of a list.
  The table of \<^verbatim>\<open>run_args\<close> has the backslash among them, so \<open>bs\<close> tells whether one may come from the file
  or host name of the remote.  All others but the star are special.
\<close>

definition safe_char :: "bool \<Rightarrow> char \<Rightarrow> bool" where
  "safe_char bs c \<longleftrightarrow> valid_filename_char c \<and> (c = CHR 0x5C \<longrightarrow> bs) \<or> c = CHR '' ''"

definition shell_char :: "bool \<Rightarrow> char \<Rightarrow> bool" where
  "shell_char bs c \<longleftrightarrow> \<not> safe_char bs c \<and> c \<noteq> CHR ''*''"

definition backslash :: "string \<Rightarrow> string option \<Rightarrow> bool" where
  "backslash filename peer_name \<longleftrightarrow> CHR 0x5C \<in> set filename \<or> CHR 0x5C \<in> set (box_of peer_name)"

text \<open>The address the system gave and the domains of the addresses of the remote are made of such characters.\<close>

definition plain_session :: "session \<Rightarrow> bool" where
  "plain_session s \<longleftrightarrow> list_all (safe_char False) (s_ipaddr s) \<and>
     (\<forall>a\<in>set (take (s_nfa s) (s_fa s)). list_all (safe_char False) (fa_domain a)) \<and> s_nfa s \<le> length (s_fa s)"

lemma shell_char_same: "tolower c = tolower d \<Longrightarrow> shell_char bs c \<Longrightarrow> c = d"
proof -
  assume l: "tolower c = tolower d" and s: "shell_char bs c"
  have "\<not> isalnum c"
  proof
    assume "isalnum c"
    moreover from this have "c \<noteq> CHR 0x5C" by (auto simp: ctype_simps)
    ultimately show False using s by (simp add: shell_char_def safe_char_def valid_filename_char_def)
  qed
  then have n: "\<not> isupper c" "\<not> islower c" by (simp_all add: isalnum_def isalpha_def)
  then have c: "tolower d = c" using l by (simp add: tolower_def)
  have "\<not> isupper d"
  proof
    assume d: "isupper d"
    then have "ord c = ord d + 32" using c by (auto simp: tolower_def isupper_def)
    then show False using n d by (simp add: isupper_def islower_def)
  qed
  then show "c = d" using c by (simp add: tolower_def)
qed

lemma safe_not_star: "safe_char bs c \<Longrightarrow> c \<noteq> CHR ''*''"
  by (auto simp: safe_char_def valid_filename_char_def ctype_simps)

lemma safe_filter: "list_all (safe_char bs) s \<Longrightarrow> filter (shell_char bs) s = []"
  by (auto simp: shell_char_def list_all_iff filter_empty_conv)

lemma safe_weak: "list_all (safe_char False) s \<Longrightarrow> list_all (safe_char bs) s"
  by (auto simp: safe_char_def list_all_iff)

lemma safe_digits: "list_all (safe_char bs) (dec_of_int n)"
proof -
  have "isdigit c \<Longrightarrow> safe_char bs c" for c by (auto simp: safe_char_def valid_filename_char_def ctype_simps)
  then show ?thesis using dec_of_nat_digits by (auto simp: dec_of_int_def list_all_iff) (simp add: safe_char_def valid_filename_char_def)
qed

lemma safe_addr: "list_all (safe_char bs) (fa_domain a) \<Longrightarrow> list_all (safe_char bs) (ftnaddress_to_str a)"
  using safe_digits by (simp add: xftnaddress_to_str_def) (auto simp: safe_char_def valid_filename_char_def)

lemma safe_join: "\<forall>x\<in>set xs. list_all (safe_char bs) x \<Longrightarrow> list_all (safe_char bs) (join xs)"
  by (induction xs rule: join.induct) (auto simp: safe_char_def)

lemma safe_name: "list_all (safe_char (backslash filename pn)) (shown_name filename)"
  by (auto simp: shown_name_def safe_char_def backslash_def list_all_iff) (simp add: valid_filename_char_def)

lemma safe_peer: "plain_session s \<Longrightarrow>
    list_all (safe_char (backslash filename peer_name)) (shown_peer peer_name (s_ipaddr s))"
  using safe_weak [of "s_ipaddr s"]
  by (auto simp: plain_session_def shown_peer_def Let_def safe_char_def backslash_def list_all_iff)

lemma next_star_pos:
  assumes "next_star w l = Some p"
  shows "l \<le> p" "p < length w" "w ! p = CHR ''*''"
proof -
  let ?t = "takeWhile (\<lambda>x. x \<noteq> CHR ''*'') (drop l w)"
  have m: "CHR ''*'' \<in> set (drop l w)" and p: "p = l + length ?t"
    using assms by (auto simp: next_star_def char_pos_def split: if_splits)
  obtain ys zs where d: "drop l w = ys @ CHR ''*'' # zs" and ys: "CHR ''*'' \<notin> set ys"
    using split_list_first [OF m] by auto
  have "?t = ys" unfolding d using ys by (subst takeWhile_append2) auto
  moreover have "length w - l = length ys + 1 + length zs" using arg_cong [OF d, of length] by simp
  moreover have "drop l w ! length ys = CHR ''*''" using d by simp
  ultimately show "l \<le> p" "p < length w" "w ! p = CHR ''*''" using p by (auto simp: nth_drop)
qed

text \<open>A value that is put in has the special characters of the pattern: the one behind the star, if it is copied.\<close>

definition good_value :: "bool \<Rightarrow> string \<Rightarrow> nat \<Rightarrow> star \<Rightarrow> bool" where
  "good_value bs w p v \<longleftrightarrow> (case v of
     Star a b u \<Rightarrow> hd a = CHR ''*'' \<and> ci_prefix a (drop p w) \<and> CHR ''*'' \<notin> set b \<and> filter (shell_char bs) b = filter (shell_char bs) a
   | _ \<Rightarrow> True)"

lemma ci_prefix_two:
  assumes "w ! p = CHR ''*''" "p < length w" "toupper (char_at w (p + 1)) = c" "c \<noteq> NUL_char"
  shows "ci_prefix [CHR ''*'', c] (drop p w)"
proof -
  have l: "p + 1 < length w" using assms(3,4) by (auto simp: char_at_def toupper_def islower_def split: if_splits)
  then have "take 2 (drop p w) = [CHR ''*'', w ! (p + 1)]"
    using assms(1) by (simp add: numeral_2_eq_2 take_Suc_conv_app_nth)
  moreover have "tolower (w ! (p + 1)) = tolower c"
    using assms(3) l by (metis char_at_def tolower_toupper)
  moreover have "Suc (Suc 0) = 2" "2 \<le> length (drop p w)" using l by simp_all
  ultimately show ?thesis by (simp only: ci_prefix_def strlower_def list.size add_0_right add_Suc_right plus_1_eq_Suc
      list.map simp_thms tolower_def [of "CHR ''*''"])
qed

lemma ci_prefix_three:
  assumes "ci_prefix [x, y] (drop p w)" "char_at w (p + 2) = d" "d \<noteq> NUL_char"
  shows "ci_prefix [x, y, d] (drop p w)"
proof -
  have l: "p + 2 < length w" using assms(2,3) by (auto simp: char_at_def split: if_splits)
  then have "take 3 (drop p w) = take 2 (drop p w) @ [d]"
    using assms(2) by (simp add: numeral_3_eq_3 numeral_2_eq_2 take_Suc_conv_app_nth char_at_def)
  then show ?thesis using assms(1) l by (simp add: ci_prefix_def strlower_def numeral_3_eq_3 numeral_2_eq_2)
qed

lemma star_value_good:
  assumes s: "plain_session s" and fn: "list_all (safe_char bs) fn" and pn: "list_all (safe_char bs) pn"
    and w: "w ! p = CHR ''*''" "p < length w"
  shows "good_value bs w p (star_value s fn pn w p)"
proof -
  define c where "c = toupper (char_at w (p + 1))"
  have pre: "ci_prefix [CHR ''*'', c] (drop p w)" if "c \<noteq> NUL_char"
    by (rule ci_prefix_two [OF w c_def [symmetric] that])
  have safe: "CHR ''*'' \<notin> set b \<and> filter (shell_char bs) b = []" if "list_all (safe_char bs) b" for b
    using that safe_filter [OF that] safe_not_star by (auto simp: list_all_iff)
  have addr: "list_all (safe_char bs) (ftnaddress_to_str a)" if "a \<in> set (take (s_nfa s) (s_fa s))" for a
    using that s safe_weak by (intro safe_addr) (auto simp: plain_session_def)
  have bits: "list_all (safe_char bs) ''1''" "list_all (safe_char bs) ''0''" "list_all (safe_char bs) ''-''"
    by (simp_all add: safe_char_def valid_filename_char_def ctype_simps)
  have letters: "\<not> shell_char bs CHR ''*''" "\<not> shell_char bs CHR ''A''" "\<not> shell_char bs CHR ''F''" "\<not> shell_char bs CHR ''N''"
    "\<not> shell_char bs CHR ''P''" "\<not> shell_char bs CHR ''L''" "\<not> shell_char bs CHR ''H''" "\<not> shell_char bs CHR ''@''"
    by (simp_all add: shell_char_def safe_char_def valid_filename_char_def ctype_simps)
  have digits: "\<not> shell_char bs d" if "isdigit d" for d
    using that by (auto simp: shell_char_def safe_char_def valid_filename_char_def ctype_simps)
  have aka: "good_value bs w p (star_aka s d)" if A: "c = CHR ''A''" and d: "d = char_at w (p + 2)" for d
  proof (cases "d = CHR ''@'' \<or> d = CHR ''*''")
    case True
    then have "ci_prefix [CHR ''*'', CHR ''A'', d] (drop p w)"
      using ci_prefix_three [of "CHR ''*''" "CHR ''A''"] pre A d by auto
    moreover have "list_all (safe_char bs) (join (map ftnaddress_to_str (take (s_nfa s) (s_fa s))))"
      using addr by (intro safe_join) auto
    ultimately show ?thesis using True safe letters by (auto simp: star_aka_def good_value_def)
  next
    case False
    define i where "i = (if isdigit d then digit_val d else 0)"
    define adr where "adr = (if i < s_nfa s then ftnaddress_to_str (s_fa s ! i) else ''-'')"
    define x where "x = (if d = NUL_char then [] else [d])"
    have "s_fa s ! i \<in> set (take (s_nfa s) (s_fa s))" if "i < s_nfa s"
      using that s unfolding plain_session_def by (metis in_set_conv_nth length_take min.absorb2 nth_take)
    then have "list_all (safe_char bs) adr" using addr bits(3) by (simp add: adr_def)
    moreover have "CHR ''*'' \<notin> set x" "isdigit d \<Longrightarrow> filter (shell_char bs) x = []"
      using False digits by (auto simp: x_def)
    moreover have "ci_prefix (''*A'' @ x) (drop p w)"
      using ci_prefix_three [of "CHR ''*''" "CHR ''A''"] pre A d by (auto simp: x_def)
    ultimately show ?thesis using False safe [of adr] letters
      by (auto simp: star_aka_def good_value_def Let_def i_def [symmetric] adr_def [symmetric] x_def [symmetric])
  qed
  show ?thesis
    unfolding star_value_def Let_def c_def [symmetric]
    using pre safe [OF fn] safe [OF pn] safe [OF bits(1)] safe [OF bits(2)] aka [OF _ refl] letters
    by (auto simp: good_value_def)
qed

section \<open>The expansion returns, with the special characters of the command\<close>

definition from_command :: "bool \<Rightarrow> string \<Rightarrow> string \<Rightarrow> bool" where
  "from_command bs t cmd \<longleftrightarrow> filter (shell_char bs) cmd = filter (shell_char bs) t \<and> count_list cmd CHR ''*'' \<le> count_list t CHR ''*''"

lemma from_command_trans: "from_command bs t u \<Longrightarrow> from_command bs u v \<Longrightarrow> from_command bs t v"
  by (simp add: from_command_def)

lemma args_loop_safe:
  assumes s: "plain_session s" "s_nfa s \<noteq> 0" and fn: "list_all (safe_char bs) fn" and pn: "list_all (safe_char bs) pn"
  shows "\<exists>r u. args_loop s fn pn w l use_fn = Some (r, u) \<and> from_command bs w r"
proof (induction "(w, l, use_fn)" arbitrary: w l use_fn
    rule: wf_induct_rule [OF wf_measures [of "[\<lambda>(w, l, u). count_list w CHR ''*'', \<lambda>(w, l, u). length w - l]"]])
  case 1
  note IH = "1.hyps"
  show ?case
  proof (cases "next_star w l")
    case None
    then show ?thesis by (subst args_loop.simps) (simp add: from_command_def)
  next
    case (Some p)
    note p = next_star_pos [OF Some]
    show ?thesis
    proof (cases "star_value s fn pn w p")
      case Star_none
      then have "args_loop s fn pn w l use_fn = args_loop s fn pn w (p + 1) use_fn"
        using Some by (subst args_loop.simps) simp
      then show ?thesis using IH [of w "p + 1" use_fn] p by simp
    next
      case Star_undefined
      then have False using s(2) by (auto simp: star_value_def star_aka_def Let_def split: if_splits)
      then show ?thesis ..
    next
      case (Star a b u)
      have g: "hd a = CHR ''*''" "ci_prefix a (drop p w)" "CHR ''*'' \<notin> set b" "filter (shell_char bs) b = filter (shell_char bs) a"
        using star_value_good [OF s(1) fn pn p(3,2)] Star by (simp_all add: good_value_def)
      have "a \<noteq> []" using Star by (auto simp: star_value_def star_aka_def Let_def split: if_splits)
      then obtain a' where a: "a = CHR ''*'' # a'" using g(1) by (cases a) auto
      have e: "args_loop s fn pn w l use_fn = args_loop s fn pn (ed w a b) (p + 1) (use_fn \<or> u)"
        using Some Star by (subst args_loop.simps) simp
      have less: "count_list (ed w a b) CHR ''*'' < count_list w CHR ''*''"
        using count_replace_less [OF g(3) p(2)] g(2) a by (simp add: ed_replace)
      then obtain r v where r: "args_loop s fn pn (ed w a b) (p + 1) (use_fn \<or> u) = Some (r, v)" "from_command bs (ed w a b) r"
        using IH [of "ed w a b" "p + 1" "use_fn \<or> u"] by (simp del: Suc_eq_plus1) blast
      have "from_command bs w (ed w a b)"
        using less filter_replace_all [OF shell_char_same g(4)] by (simp add: from_command_def ed_replace)
      from from_command_trans [OF this r(2)] show ?thesis unfolding e using r(1) by blast
    qed
  qed
qed

lemma run_args_safe:
  assumes "plain_session s" "s_nfa s \<noteq> 0"
  shows "\<exists>es' w. run_args ext cmd filename peer_name s imm es = Some es' \<and> from_command (backslash filename peer_name) cmd w \<and>
     (es' = es \<or> es' = run ext w es \<or> es' = es\<lparr>ev_queue := evt_queue (ev_queue es) CHR ''e'' w\<rparr>)"
proof -
  obtain r u where "args_loop s (shown_name filename) (shown_peer peer_name (s_ipaddr s)) cmd 0 False = Some (r, u)"
    "from_command (backslash filename peer_name) cmd r"
    using args_loop_safe [OF assms safe_name safe_peer [OF assms(1)]] by blast
  then show ?thesis unfolding run_args_def Let_def by auto
qed

section \<open>Received files\<close>

text \<open>
  A command that may be executed for a file: from the command of a matching event, or for a request from
  that command with the name of the request, a file of the outbound, put in for \<open>*S\<close>.
\<close>

definition from_event :: "session \<Rightarrow> bool \<Rightarrow> string \<Rightarrow> string \<Rightarrow> bool" where
  "from_event s bs t cmd \<longleftrightarrow> (if wants_srif t
     then (\<exists>srf rsp. mksrifpaths (hd (s_fa s)) (x_cfg s) = Some (srf, rsp) \<and> from_command bs (ed t ''*S'' srf) cmd)
     else from_command bs t cmd)"

definition allowed :: "session \<Rightarrow> EVT_FLAG list \<Rightarrow> string option \<Rightarrow> string \<Rightarrow> string \<Rightarrow> bool" where
  "allowed s fs peer_name filename cmd \<longleftrightarrow> (\<exists>f\<in>set fs. \<exists>t. ev_command f = Some t \<and> pmatch_ncase (ev_pattern f) filename \<and>
     from_event s (backslash filename peer_name) t cmd)"

text \<open>What one received file adds to the executed and the delayed commands.\<close>

definition adds :: "(string \<Rightarrow> bool) \<Rightarrow> evt_st \<Rightarrow> evt_st \<Rightarrow> bool" where
  "adds P es es' \<longleftrightarrow> (\<exists>new. ev_runs es' = ev_runs es @ new \<and> (\<forall>cmd\<in>set new. P cmd)) \<and>
     (\<forall>x\<in>set (ev_queue es'). x \<in> set (ev_queue es) \<or> fst x = CHR ''e'' \<and> P (snd x)) \<and>
     (distinct (ev_queue es) \<longrightarrow> distinct (ev_queue es'))"

lemma adds_same: "ev_runs es' = ev_runs es \<Longrightarrow> ev_queue es' = ev_queue es \<Longrightarrow> adds P es es'"
  by (simp add: adds_def)

lemma adds_run: "P cmd \<Longrightarrow> adds P es (run ext cmd es)"
  by (auto simp: adds_def run_def)

lemma adds_queue: "P cmd \<Longrightarrow> adds P es (es\<lparr>ev_queue := evt_queue (ev_queue es) CHR ''e'' cmd\<rparr>)"
  by (auto simp: adds_def evt_queue_def)

lemma adds_trans:
  assumes "adds P e1 e2" "adds P e2 e3"
  shows "adds P e1 e3"
proof -
  obtain n1 n2 where "ev_runs e2 = ev_runs e1 @ n1" "\<forall>c\<in>set n1. P c" "ev_runs e3 = ev_runs e2 @ n2" "\<forall>c\<in>set n2. P c"
    using assms by (auto simp: adds_def)
  then have "ev_runs e3 = ev_runs e1 @ (n1 @ n2) \<and> (\<forall>c\<in>set (n1 @ n2). P c)" by auto
  then show ?thesis using assms unfolding adds_def by blast
qed

lemma adds_mono: "adds P es es' \<Longrightarrow> (\<And>c. P c \<Longrightarrow> R c) \<Longrightarrow> adds R es es'"
  unfolding adds_def by blast

lemma run_args_adds:
  assumes "plain_session s" "s_nfa s \<noteq> 0"
  shows "\<exists>es'. run_args ext cmd filename peer_name s imm es = Some es' \<and> adds (from_command (backslash filename peer_name) cmd) es es'"
  using run_args_safe [OF assms, of ext cmd filename peer_name imm es] adds_same adds_run adds_queue by metis

lemma srif_request_adds:
  assumes s: "plain_session s" "s_nfa s \<noteq> 0" and w: "wants_srif cmd"
  shows "\<exists>es'. srif_request ext cmd filename peer_name s es = Some es' \<and> adds (from_event s (backslash filename peer_name) cmd) es es'"
proof -
  obtain fa fas where fa: "s_fa s = fa # fas" using s by (cases "s_fa s") (auto simp: plain_session_def)
  show ?thesis
  proof (cases "mksrifpaths fa (x_cfg s)")
    case None
    then show ?thesis using fa by (auto simp: srif_request_def intro: adds_same)
  next
    case (Some p)
    obtain srf rsp where p: "p = (srf, rsp)" by (cases p)
    obtain ok w1 where w1: "srif_fill srf filename rsp peer_name s (ev_w es) = (ok, w1)" by fastforce
    let ?P = "from_event s (backslash filename peer_name) cmd"
    have mono: "from_command (backslash filename peer_name) (ed cmd ''*S'' srf) u \<Longrightarrow> ?P u" for u
      using w fa Some p by (simp add: from_event_def)
    obtain e1 where e1: "run_args ext (ed cmd ''*S'' srf) filename peer_name s True (es\<lparr>ev_w := w1\<rparr>) = Some e1"
      "adds (from_command (backslash filename peer_name) (ed cmd ''*S'' srf)) (es\<lparr>ev_w := w1\<rparr>) e1"
      using run_args_adds [OF s] by blast
    have a1: "adds ?P es e1" by (rule adds_trans [OF adds_same adds_mono [OF e1(2) mono]]) simp_all
    show ?thesis
    proof (cases ok)
      case True
      have "srif_request ext cmd filename peer_name s es = Some ((e1\<lparr>ev_w := snd (delete filename (ev_w e1))\<rparr>)
          \<lparr>ev_q := parse_response (ev_q e1) rsp fa (snd (delete filename (ev_w e1))),
           ev_w := snd (delete rsp (snd (delete srf (snd (delete filename (ev_w e1))))))\<rparr>)"
        using True e1(1) by (simp add: srif_request_def fa Some p w1)
      moreover have "adds ?P es ((e1\<lparr>ev_w := snd (delete filename (ev_w e1))\<rparr>)
          \<lparr>ev_q := parse_response (ev_q e1) rsp fa (snd (delete filename (ev_w e1))),
           ev_w := snd (delete rsp (snd (delete srf (snd (delete filename (ev_w e1))))))\<rparr>)"
        by (rule adds_trans [OF a1 adds_same]) simp_all
      ultimately show ?thesis by blast
    next
      case False
      then show ?thesis unfolding srif_request_def fa Some p list.case option.case prod.case w1
        by (simp add: adds_same)
    qed
  qed
qed

lemma evt_run_adds:
  assumes s: "plain_session s" "s_nfa s \<noteq> 0"
  shows "\<exists>es'. evt_run ext fs filename imm peer_name s es = Some es' \<and> adds (allowed s fs peer_name filename) es es'"
proof (induction fs arbitrary: es)
  case Nil
  then show ?case by (simp add: adds_same)
next
  case (Cons f fs)
  let ?P = "allowed s (f # fs) peer_name filename"
  have one: "\<exists>e1. (case ev_command f of None \<Rightarrow> Some es
     | Some cmd \<Rightarrow> if \<not> pmatch_ncase (ev_pattern f) filename then Some es
         else if wants_srif cmd then (if imm then srif_request ext cmd filename peer_name s es
            else Some (es\<lparr>ev_rcvd := add_to_rcvdlist (ev_rcvd es) filename\<rparr>))
         else run_args ext cmd filename peer_name s (ev_imm f) es) = Some e1 \<and> adds ?P es e1"
  proof (cases "ev_command f")
    case None
    then show ?thesis by (simp add: adds_same)
  next
    case (Some cmd)
    note c = Some
    show ?thesis
    proof (cases "pmatch_ncase (ev_pattern f) filename")
      case False
      then show ?thesis using c by (simp add: adds_same)
    next
      case True
      have al: "from_event s (backslash filename peer_name) cmd u \<Longrightarrow> ?P u" for u
        using c True by (auto simp: allowed_def)
      consider "wants_srif cmd" imm | "wants_srif cmd" "\<not> imm" | "\<not> wants_srif cmd" by blast
      then show ?thesis
      proof cases
        case 1
        obtain e1 where e1: "srif_request ext cmd filename peer_name s es = Some e1"
          "adds (from_event s (backslash filename peer_name) cmd) es e1"
          using srif_request_adds [OF s 1(1)] by blast
        show ?thesis using 1 e1(1) adds_mono [OF e1(2) al] c True by simp
      next
        case 2
        then show ?thesis using c True by (simp add: adds_same)
      next
        case 3
        obtain e1 where e1: "run_args ext cmd filename peer_name s (ev_imm f) es = Some e1"
          "adds (from_command (backslash filename peer_name) cmd) es e1" using run_args_adds [OF s] by blast
        have "adds ?P es e1" by (rule adds_mono [OF e1(2) al]) (simp add: from_event_def 3)
        then show ?thesis using c True 3 e1(1) by simp
      qed
    qed
  qed
  then obtain e1 where e1: "evt_run ext (f # fs) filename imm peer_name s es = evt_run ext fs filename imm peer_name s e1"
    "adds ?P es e1" by auto
  obtain e2 where e2: "evt_run ext fs filename imm peer_name s e1 = Some e2" "adds (allowed s fs peer_name filename) e1 e2"
    using Cons.IH by blast
  have "adds ?P e1 e2" by (rule adds_mono [OF e2(2)]) (auto simp: allowed_def)
  then show ?case using e1 e2(1) adds_trans [OF e1(2)] by auto
qed

text \<open>The sessions: the addresses of the remote are plain in every state that is reached.\<close>

lemma reaches_plain:
  assumes "reaches go s" "plain_cfg (x_cfg s)" "list_all (safe_char False) (s_ipaddr s)"
  shows "plain_session s"
proof -
  have i: "s_nfa s \<le> length (s_fa s)" "plain_fas (base_cfg (x_cfg s)) (s_fa s)"
    using reaches_inv [OF assms(1)] by (simp_all add: login_inv_def)
  have "domain_char c \<Longrightarrow> safe_char False c" for c
    by (auto simp: domain_char_def safe_char_def valid_filename_char_def ctype_simps)
  then show ?thesis using i assms(2,3) unfolding plain_session_def plain_fas_def
    by (auto simp: list_all_iff dest!: in_set_takeD)
qed

section \<open>Properties\<close>

text \<open>
  C29: In every state a session reaches with at least one active address, the handler of events returns
  for every received file, and every command it gives to the shell or delays comes from the command of a
  configured event whose pattern matches: it has exactly the special characters of that command (for a
  request, of the command with the name of the request file), in their order, and no star more.  What is
  put in for the names and addresses of the remote are letters, digits, the characters \<^verbatim>\<open>._-:/@\<close> and spaces;
  a backslash, which the shell does interpret, only when the name of the file or of the host has one.
  The domains of the configuration are words of letters, digits, dots, dashes and underscores, and so is
  the address the system reports for the remote, colons included.
\<close>

theorem executed_commands_safe:
  assumes "reaches go s" "s_nfa s \<noteq> 0" "plain_cfg (x_cfg s)" "list_all (safe_char False) (s_ipaddr s)"
  shows "\<exists>es' new. evt_run ext fs filename imm peer_name s es = Some es' \<and> ev_runs es' = ev_runs es @ new \<and>
    (\<forall>cmd. (cmd \<in> set new \<or> (\<exists>t. (t, cmd) \<in> set (ev_queue es') - set (ev_queue es))) \<longrightarrow> allowed s fs peer_name filename cmd)"
  using evt_run_adds [OF reaches_plain [OF assms(1,3,4)] assms(2), of ext fs filename imm peer_name es]
  unfolding adds_def by fastforce

text \<open>The events of a file.\<close>

definition sample_event :: EVT_FLAG where
  "sample_event = \<lparr>ev_path = None, ev_command = Some ''toss *F *H *A'', ev_pattern = ''*.pkt'', ev_imm = True\<rparr>"

definition no_events :: evt_st where
  "no_events = \<lparr>ev_w = empty_world, ev_q = [], ev_queue = [], ev_rcvd = [], ev_runs = []\<rparr>"

lemma sample_plain: "plain_cfg open_cfg" "list_all (safe_char False) ex_ip"
  by (simp_all add: plain_cfg_def open_cfg_def sample_cfg_def fidonet_def domain_char_def safe_char_def valid_filename_char_def ctype_simps)

lemma sample_stars:
  "next_star ''toss *F *H *A'' 0 = Some 5" "next_star ''toss in/1.pkt *H *A'' 6 = Some 14"
  "next_star ''toss in/1.pkt 192.0.2.1 *A'' 15 = Some 24" "next_star ''toss in/1.pkt 192.0.2.1 2:2/3@fidonet'' 25 = None"
  "next_star ''toss *P'' 0 = Some 5" "next_star ''toss 0'' 6 = None"
  "ed ''toss *F *H *A'' ''*F'' ''in/1.pkt'' = ''toss in/1.pkt *H *A''"
  "ed ''toss in/1.pkt *H *A'' ''*H'' ''192.0.2.1'' = ''toss in/1.pkt 192.0.2.1 *A''"
  "ed ''toss in/1.pkt 192.0.2.1 *A'' ''*A'' ''2:2/3@fidonet'' = ''toss in/1.pkt 192.0.2.1 2:2/3@fidonet''"
  "ed ''toss *P'' ''*P'' ''0'' = ''toss 0''" "ftnaddress_to_str ex_link = ''2:2/3@fidonet''"
  "toupper (char_at ''toss *F *H *A'' 6) = CHR ''F''" "toupper (char_at ''toss in/1.pkt *H *A'' 15) = CHR ''H''"
  "toupper (char_at ''toss in/1.pkt 192.0.2.1 *A'' 25) = CHR ''A''" "char_at ''toss in/1.pkt 192.0.2.1 *A'' 26 = NUL_char"
  "toupper (char_at ''toss *P'' 6) = CHR ''P''" "\<not> isdigit NUL_char"
  by code_simp+

lemma sample_names: "shown_name ''in/1.pkt'' = ''in/1.pkt''" "shown_name ''in/2.pkt'' = ''in/2.pkt''"
  "shown_peer (Some ''x;reboot'') ex_ip = ex_ip" "shown_peer None ex_ip = ex_ip"
  "\<not> wants_srif ''toss *F *H *A''" "\<not> wants_srif ''toss *P''"
  "pmatch_ncase ''*.pkt'' ''in/1.pkt''" "pmatch_ncase ''*.pkt'' ''in/2.pkt''"
  by code_simp+

lemma sample_loop:
  assumes "s_fa s = [ex_link]" "s_nfa s = 1"
  shows "args_loop s ''in/1.pkt'' ex_ip ''toss *F *H *A'' 0 False = Some (''toss in/1.pkt 192.0.2.1 2:2/3@fidonet'', True)"
  by (subst args_loop.simps, simp add: sample_stars star_value_def, subst args_loop.simps, simp add: sample_stars star_value_def,
      subst args_loop.simps, simp add: sample_stars star_value_def star_aka_def assms, subst args_loop.simps) (simp add: sample_stars)

lemma sample_runs:
  assumes "s_fa s = [ex_link]" "s_nfa s = 1" "s_ipaddr s = ex_ip"
  shows "map_option ev_runs (evt_run (\<lambda>c w. w) [sample_event] ''in/1.pkt'' False (Some ''x;reboot'') s no_events) =
    Some [''toss in/1.pkt 192.0.2.1 2:2/3@fidonet'']"
  by (simp add: sample_event_def sample_names run_args_def sample_loop [OF assms(1,2)] run_def no_events_def assms(3))

theorem executed_commands_safe_witness:
  "\<exists>s es'. reaches True s \<and> evt_run (\<lambda>c w. w) [sample_event] ''in/1.pkt'' False (Some ''x;reboot'') s no_events = Some es' \<and>
     ev_runs es' = [''toss in/1.pkt 192.0.2.1 2:2/3@fidonet''] \<and>
     allowed s [sample_event] (Some ''x;reboot'') ''in/1.pkt'' ''toss in/1.pkt 192.0.2.1 2:2/3@fidonet''"
proof -
  obtain s where r: "reaches True s" and s: "s_fa s = [ex_link]" "s_nfa s = 1" "x_cfg s = open_cfg" "s_ipaddr s = ex_ip"
    by (rule ex_active)
  have h: "s_nfa s \<noteq> 0" "plain_cfg (x_cfg s)" "list_all (safe_char False) (s_ipaddr s)" using s sample_plain by simp_all
  obtain es' new where e: "evt_run (\<lambda>c w. w) [sample_event] ''in/1.pkt'' False (Some ''x;reboot'') s no_events = Some es'"
    "ev_runs es' = ev_runs no_events @ new" "\<forall>cmd\<in>set new. allowed s [sample_event] (Some ''x;reboot'') ''in/1.pkt'' cmd"
    using executed_commands_safe [OF r h, of "\<lambda>c w. w" "[sample_event]" "''in/1.pkt''" False "Some ''x;reboot''" no_events]
    by blast
  then show ?thesis using sample_runs [OF s(1,2,4)] r by (intro exI [of _ s] exI [of _ es']) (simp add: no_events_def)
qed

section \<open>Delayed events\<close>

text \<open>
  What a received file leaves for the end of the session: the paths of the delayed flags, and the
  expanded lines of the delayed commands that are not requests.  A line that would show a name with
  other characters is not executed.
\<close>

definition delayed_flags :: "EVT_FLAG list \<Rightarrow> string \<Rightarrow> string set" where
  "delayed_flags fs n = {p. \<exists>f\<in>set fs. pmatch_ncase (ev_pattern f) n \<and> ev_path f = Some p \<and> \<not> ev_imm f}"

definition expansion :: "session \<Rightarrow> string option \<Rightarrow> string \<Rightarrow> string \<Rightarrow> string option" where
  "expansion s peer_name n cmd = (case args_loop s (shown_name n) (shown_peer peer_name (s_ipaddr s)) cmd 0 False of
     None \<Rightarrow> None | Some (w, use_fn) \<Rightarrow> if shown_name n \<noteq> n \<and> use_fn then None else Some w)"

definition delayed_commands :: "EVT_FLAG list \<Rightarrow> string option \<Rightarrow> session \<Rightarrow> string \<Rightarrow> string set" where
  "delayed_commands fs peer_name s n = {w. \<exists>f\<in>set fs. \<exists>cmd. pmatch_ncase (ev_pattern f) n \<and> ev_command f = Some cmd \<and>
     \<not> wants_srif cmd \<and> \<not> ev_imm f \<and> expansion s peer_name n cmd = Some w}"

text \<open>Commands are looked at only when some matching event has no flag to set.\<close>

definition has_command :: "EVT_FLAG list \<Rightarrow> string \<Rightarrow> bool" where
  "has_command fs n \<longleftrightarrow> (\<exists>f\<in>set fs. pmatch_ncase (ev_pattern f) n \<and> ev_path f = None \<and> ev_command f \<noteq> None)"

definition delayed :: "EVT_FLAG list \<Rightarrow> string option \<Rightarrow> session \<Rightarrow> string \<Rightarrow> (char \<times> string) set" where
  "delayed fs peer_name s n = Pair CHR ''f'' ` delayed_flags fs n \<union>
     (if has_command fs n then Pair CHR ''e'' ` delayed_commands fs peer_name s n else {})"

fun received :: "evt_step list \<Rightarrow> string set" where
  "received [] = {}"
| "received (Received n imm # xs) = insert n (received xs)"
| "received (Batch_end # xs) = received xs"

text \<open>How the queue grows.\<close>

definition queues :: "(char \<times> string) set \<Rightarrow> evt_st \<Rightarrow> evt_st \<Rightarrow> bool" where
  "queues X es es' \<longleftrightarrow> set (ev_queue es') = set (ev_queue es) \<union> X \<and> (distinct (ev_queue es) \<longrightarrow> distinct (ev_queue es'))"

lemma queues_same: "ev_queue es' = ev_queue es \<Longrightarrow> queues {} es es'"
  by (simp add: queues_def)

lemma queues_one: "queues {(t, p)} es (es\<lparr>ev_queue := evt_queue (ev_queue es) t p\<rparr>)"
  by (auto simp: queues_def evt_queue_def)

lemma queues_trans: "queues X a b \<Longrightarrow> queues Y b c \<Longrightarrow> X \<union> Y = Z \<Longrightarrow> queues Z a c"
  by (auto simp: queues_def)

lemma delayed_flags_simps:
  "delayed_flags [] n = {}"
  "delayed_flags (f # fs) n = (if pmatch_ncase (ev_pattern f) n \<and> \<not> ev_imm f then set_option (ev_path f) else {}) \<union> delayed_flags fs n"
  by (auto simp: delayed_flags_def)

lemma has_command_simps:
  "has_command [] n \<longleftrightarrow> False"
  "has_command (f # fs) n \<longleftrightarrow> pmatch_ncase (ev_pattern f) n \<and> ev_path f = None \<and> ev_command f \<noteq> None \<or> has_command fs n"
  by (simp_all add: has_command_def)

lemma evt_test_queues:
  "evt_test fs n es = (rc, es') \<Longrightarrow>
   queues (Pair CHR ''f'' ` delayed_flags fs n) es es' \<and> ev_rcvd es' = ev_rcvd es \<and> rc = has_command fs n"
proof (induction fs arbitrary: es rc)
  case Nil
  then show ?case by (simp add: delayed_flags_simps has_command_simps queues_same)
next
  case (Cons f fs)
  show ?case
  proof (cases "pmatch_ncase (ev_pattern f) n")
    case False
    then show ?thesis using Cons by (simp add: delayed_flags_simps has_command_simps)
  next
    case m: True
    show ?thesis
    proof (cases "ev_path f")
      case None
      obtain r where r: "evt_test fs n es = (r, es')" and rc: "rc = (r \<or> ev_command f \<noteq> None)"
        using Cons.prems m None by (cases "evt_test fs n es") simp
      moreover note Cons.IH [OF r]
      ultimately show ?thesis using m None by (simp add: delayed_flags_simps has_command_simps) blast
    next
      case (Some p)
      define X where "X = (if ev_imm f then {} else {(CHR ''f'', p)})"
      define e1 where "e1 = (if ev_imm f then es\<lparr>ev_w := set_flag p (ev_w es)\<rparr>
        else es\<lparr>ev_queue := evt_queue (ev_queue es) CHR ''f'' p\<rparr>)"
      have t: "evt_test fs n e1 = (rc, es')" using Cons.prems m Some by (simp add: e1_def)
      note h = Cons.IH [OF t]
      have x: "queues X es e1" unfolding e1_def X_def by (cases "ev_imm f") (simp_all add: queues_one queues_same)
      have "X \<union> Pair CHR ''f'' ` delayed_flags fs n = Pair CHR ''f'' ` delayed_flags (f # fs) n"
        using m Some by (simp add: X_def delayed_flags_simps image_Un)
      from queues_trans [OF x conjunct1 [OF h] this] have "queues (Pair CHR ''f'' ` delayed_flags (f # fs) n) es es'" .
      moreover have "ev_rcvd e1 = ev_rcvd es" by (simp add: e1_def)
      moreover have "has_command (f # fs) n = has_command fs n" using Some by (simp add: has_command_simps)
      ultimately show ?thesis using h by simp
    qed
  qed
qed

lemma run_args_queues:
  "run_args ext cmd n peer_name s imm es = Some es' \<Longrightarrow>
   queues (if imm then {} else Pair CHR ''e'' ` {w. expansion s peer_name n cmd = Some w}) es es' \<and> ev_rcvd es' = ev_rcvd es"
proof -
  assume "run_args ext cmd n peer_name s imm es = Some es'"
  then obtain w u where a: "args_loop s (shown_name n) (shown_peer peer_name (s_ipaddr s)) cmd 0 False = Some (w, u)"
    and e: "es' = (if shown_name n \<noteq> n \<and> u then es else if imm then run ext w es
      else es\<lparr>ev_queue := evt_queue (ev_queue es) CHR ''e'' w\<rparr>)"
    by (auto simp: run_args_def Let_def split: option.splits)
  have x: "expansion s peer_name n cmd = (if shown_name n \<noteq> n \<and> u then None else Some w)" by (simp add: expansion_def a)
  show ?thesis using queues_one [of "CHR ''e''" w es] queues_same unfolding x e
    by (simp add: run_def)
qed

lemma srif_request_queues:
  "srif_request ext cmd n peer_name s es = Some es' \<Longrightarrow> ev_queue es' = ev_queue es \<and> ev_rcvd es' = ev_rcvd es"
proof -
  have r: "run_args ext c n peer_name s True e = Some e' \<Longrightarrow> ev_queue e' = ev_queue e \<and> ev_rcvd e' = ev_rcvd e" for c e e'
    by (auto simp: run_args_def run_def Let_def split: option.splits if_splits)
  show "srif_request ext cmd n peer_name s es = Some es' \<Longrightarrow> ?thesis"
    by (auto simp: srif_request_def split: list.splits option.splits prod.splits if_splits dest!: r)
qed

lemma evt_run_queues:
  "evt_run ext fs n imm peer_name s es = Some es' \<Longrightarrow>
   queues (Pair CHR ''e'' ` delayed_commands fs peer_name s n) es es' \<and>
   set (ev_rcvd es') \<subseteq> set (ev_rcvd es) \<union> {strnzcpy n MAXPATHLEN}"
proof (induction fs arbitrary: es)
  case Nil
  then have "es' = es" by simp
  then show ?case by (auto simp: delayed_commands_def queues_same)
next
  case (Cons f fs)
  define step where "step = (case ev_command f of
       None \<Rightarrow> Some es
     | Some cmd \<Rightarrow>
         if \<not> pmatch_ncase (ev_pattern f) n then Some es
         else if wants_srif cmd then
           (if imm then srif_request ext cmd n peer_name s es
            else Some (es\<lparr>ev_rcvd := add_to_rcvdlist (ev_rcvd es) n\<rparr>))
         else run_args ext cmd n peer_name s (ev_imm f) es)"
  define X where "X = {w. \<exists>cmd. pmatch_ncase (ev_pattern f) n \<and> ev_command f = Some cmd \<and>
     \<not> wants_srif cmd \<and> \<not> ev_imm f \<and> expansion s peer_name n cmd = Some w}"
  obtain e1 where e1: "step = Some e1" "evt_run ext fs n imm peer_name s e1 = Some es'"
    using Cons.prems by (auto simp: step_def split: option.splits)
  have one: "queues (Pair CHR ''e'' ` X) es e1 \<and> set (ev_rcvd e1) \<subseteq> set (ev_rcvd es) \<union> {strnzcpy n MAXPATHLEN}"
  proof (cases "ev_command f")
    case None
    then have "e1 = es" "X = {}" using e1(1) by (simp_all add: step_def X_def)
    then show ?thesis by (auto simp: queues_same)
  next
    case (Some cmd)
    consider "\<not> pmatch_ncase (ev_pattern f) n" | "pmatch_ncase (ev_pattern f) n" "wants_srif cmd"
      | "pmatch_ncase (ev_pattern f) n" "\<not> wants_srif cmd" by blast
    then show ?thesis
    proof cases
      case 1
      then have "e1 = es" "X = {}" using e1(1) Some by (simp_all add: step_def X_def)
      then show ?thesis by (auto simp: queues_same)
    next
      case 2
      then have "X = {}" "step = (if imm then srif_request ext cmd n peer_name s es
            else Some (es\<lparr>ev_rcvd := add_to_rcvdlist (ev_rcvd es) n\<rparr>))" using Some by (simp_all add: X_def step_def)
      then show ?thesis using e1(1) srif_request_queues [of ext cmd n peer_name s es e1]
        by (cases imm) (auto simp: queues_same add_to_rcvdlist_def)
    next
      case 3
      then have "run_args ext cmd n peer_name s (ev_imm f) es = Some e1"
        "X = (if ev_imm f then {} else {w. expansion s peer_name n cmd = Some w})" using e1(1) Some by (simp_all add: step_def X_def)
      then show ?thesis using run_args_queues [of ext cmd n peer_name s "ev_imm f" es e1]
        by (cases "ev_imm f") (simp_all add: subset_insertI)
    qed
  qed
  have "X \<union> delayed_commands fs peer_name s n = delayed_commands (f # fs) peer_name s n"
    unfolding X_def delayed_commands_def by (simp only: list.set) blast
  then have "Pair CHR ''e'' ` X \<union> Pair CHR ''e'' ` delayed_commands fs peer_name s n = Pair CHR ''e'' ` delayed_commands (f # fs) peer_name s n"
    by (simp only: image_Un [symmetric])
  from queues_trans [OF conjunct1 [OF one] conjunct1 [OF Cons.IH [OF e1(2)]] this]
  show ?case using one Cons.IH [OF e1(2)] by blast
qed

lemma process_queues:
  "process_rcvdlist ext fs ns peer_name s es = Some es' \<Longrightarrow>
   queues (Pair CHR ''e'' ` (\<Union>n\<in>set ns. delayed_commands fs peer_name s n)) es es'"
proof (induction ns arbitrary: es)
  case Nil
  then show ?case by (simp add: queues_same)
next
  case (Cons n ns)
  obtain e1 where e1: "evt_run ext fs n True peer_name s es = Some e1" "process_rcvdlist ext fs ns peer_name s e1 = Some es'"
    using Cons.prems by (auto split: option.splits)
  have "queues (Pair CHR ''e'' ` delayed_commands fs peer_name s n) es e1" using evt_run_queues [OF e1(1)] by blast
  from queues_trans [OF this Cons.IH [OF e1(2)]] show ?case by (simp add: image_Un)
qed

text \<open>The requests that are put off had their other commands queued already.\<close>

definition put_off :: "EVT_FLAG list \<Rightarrow> string option \<Rightarrow> session \<Rightarrow> evt_st \<Rightarrow> bool" where
  "put_off fs peer_name s es \<longleftrightarrow>
     (\<forall>n\<in>set (ev_rcvd es). Pair CHR ''e'' ` delayed_commands fs peer_name s n \<subseteq> set (ev_queue es))"

lemma put_off_add:
  assumes "put_off fs peer_name s es" "queues X es es'" "set (ev_rcvd es') \<subseteq> set (ev_rcvd es) \<union> N"
    and "\<And>n. n \<in> N \<Longrightarrow> Pair CHR ''e'' ` delayed_commands fs peer_name s n \<subseteq> X"
  shows "put_off fs peer_name s es'"
  unfolding put_off_def
proof
  fix n
  assume "n \<in> set (ev_rcvd es')"
  then consider "n \<in> set (ev_rcvd es)" | "n \<in> N" using assms(3) by blast
  then have "Pair CHR ''e'' ` delayed_commands fs peer_name s n \<subseteq> set (ev_queue es) \<union> X"
  proof cases
    case 1
    then show ?thesis using assms(1) unfolding put_off_def by (rule_tac le_supI1) blast
  next
    case 2
    then show ?thesis using assms(4) by (rule_tac le_supI2) blast
  qed
  then show "Pair CHR ''e'' ` delayed_commands fs peer_name s n \<subseteq> set (ev_queue es')"
    using assms(2) by (simp add: queues_def)
qed

lemma file_events_queues:
  assumes "file_events ext fs peer_name s n imm es = Some es'" "length n < MAXPATHLEN" "put_off fs peer_name s es"
  shows "queues (delayed fs peer_name s n) es es' \<and> put_off fs peer_name s es'"
proof -
  obtain rc e1 where t: "evt_test fs n es = (rc, e1)" by fastforce
  let ?F = "Pair CHR ''f'' ` delayed_flags fs n" and ?C = "Pair CHR ''e'' ` delayed_commands fs peer_name s n"
  have q1: "queues ?F es e1" "ev_rcvd e1 = ev_rcvd es" "rc = has_command fs n" using evt_test_queues [OF t] by blast+
  have p1: "put_off fs peer_name s e1"
    by (rule put_off_add [OF assms(3) q1(1), of "{}"]) (simp_all add: q1(2))
  have n: "strnzcpy n MAXPATHLEN = n" using assms(2) by (simp add: strnzcpy_def)
  show ?thesis
  proof (cases rc)
    case False
    then have "es' = e1" using assms(1) unfolding file_events_def t by simp
    moreover have "delayed fs peer_name s n = ?F" using False q1(3) by (simp add: delayed_def)
    ultimately show ?thesis using q1(1) p1 by simp
  next
    case True
    then have "evt_run ext fs n imm peer_name s e1 = Some es'" using assms(1) unfolding file_events_def t by simp
    then have q2: "queues ?C e1 es'" "set (ev_rcvd es') \<subseteq> set (ev_rcvd e1) \<union> {n}" using evt_run_queues n by force+
    have "?F \<union> ?C = delayed fs peer_name s n" using True q1(3) by (simp add: delayed_def)
    from queues_trans [OF q1(1) q2(1) this] have "queues (delayed fs peer_name s n) es es'" .
    moreover have "put_off fs peer_name s es'" by (rule put_off_add [OF p1 q2]) simp
    ultimately show ?thesis ..
  qed
qed

lemma batch_events_queues:
  assumes "batch_events ext fs peer_name s es = Some es'" "put_off fs peer_name s es"
  shows "queues {} es es' \<and> put_off fs peer_name s es'"
proof (cases "ev_rcvd es = []")
  case True
  then show ?thesis using assms by (simp add: batch_events_def queues_same)
next
  case False
  then obtain e where e: "process_rcvdlist ext fs (ev_rcvd es) peer_name s es = Some e" "es' = e\<lparr>ev_rcvd := []\<rparr>"
    using assms(1) by (auto simp: batch_events_def)
  show ?thesis using process_queues [OF e(1)] assms(2) e(2) by (auto simp: queues_def put_off_def)
qed

lemma session_events_queues:
  "session_events ext fs peer_name s xs es = Some es' \<Longrightarrow> \<forall>n\<in>received xs. length n < MAXPATHLEN \<Longrightarrow>
   put_off fs peer_name s es \<Longrightarrow> queues (\<Union>n\<in>received xs. delayed fs peer_name s n) es es'"
proof (induction xs arbitrary: es)
  case Nil
  then show ?case by (simp add: queues_same)
next
  case (Cons x xs)
  show ?case
  proof (cases x)
    case (Received n imm)
    then obtain e1 where e1: "file_events ext fs peer_name s n imm es = Some e1" "session_events ext fs peer_name s xs e1 = Some es'"
      using Cons.prems(1) by (auto split: option.splits)
    have n: "length n < MAXPATHLEN" "\<forall>n\<in>received xs. length n < MAXPATHLEN" using Cons.prems(2) Received by simp_all
    note q = file_events_queues [OF e1(1) n(1) Cons.prems(3)]
    show ?thesis using queues_trans [OF conjunct1 [OF q] Cons.IH [OF e1(2) n(2) conjunct2 [OF q]]] Received by simp
  next
    case Batch_end
    then obtain e1 where e1: "batch_events ext fs peer_name s es = Some e1" "session_events ext fs peer_name s xs e1 = Some es'"
      using Cons.prems(1) by (auto split: option.splits)
    have n: "\<forall>n\<in>received xs. length n < MAXPATHLEN" using Cons.prems(2) Batch_end by simp
    note q = batch_events_queues [OF e1(1) Cons.prems(3)]
    show ?thesis using queues_trans [OF conjunct1 [OF q] Cons.IH [OF e1(2) n conjunct2 [OF q]]] Batch_end by simp
  qed
qed

lemma process_returns:
  "plain_session s \<Longrightarrow> s_nfa s \<noteq> 0 \<Longrightarrow> \<exists>es'. process_rcvdlist ext fs ns peer_name s es = Some es'"
proof (induction ns arbitrary: es)
  case (Cons n ns)
  obtain e1 where "evt_run ext fs n True peer_name s es = Some e1" using evt_run_adds [OF Cons.prems] by blast
  then show ?case using Cons.IH [OF Cons.prems, of e1] by simp
qed simp

lemma session_events_returns:
  "plain_session s \<Longrightarrow> s_nfa s \<noteq> 0 \<Longrightarrow> \<exists>es'. session_events ext fs peer_name s xs es = Some es'"
proof (induction xs arbitrary: es)
  case (Cons x xs)
  have "\<exists>e1. file_events ext fs peer_name s n imm es = Some e1" for n imm
    using evt_run_adds [OF Cons.prems] by (auto simp: file_events_def split: prod.split) blast
  moreover have "\<exists>e1. batch_events ext fs peer_name s es = Some e1"
    using process_returns [OF Cons.prems] by (auto simp: batch_events_def)
  ultimately obtain e1 where "(case x of Received n imm \<Rightarrow> file_events ext fs peer_name s n imm es
      | Batch_end \<Rightarrow> batch_events ext fs peer_name s es) = Some e1" by (cases x) auto
  then show ?case using Cons.IH [OF Cons.prems, of e1] by simp
qed simp

lemma evt_set_runs: "ev_runs (evt_set ext q es) = ev_runs es @ map snd (filter (\<lambda>x. fst x = CHR ''e'') q)"
  by (induction ext q es rule: evt_set.induct) (auto simp: run_def)

text \<open>
  C30: However many files a session receives in however many batches, and however often the patterns of
  the events match, the events put off are exactly those of the received files: the queue has each
  delayed flag and each expanded line of a delayed command once, and the end of the session executes
  exactly these lines, each once, and empties the queue.  The names are those of files in the inbound, which
  fit their buffer.
\<close>

theorem delayed_events_once:
  assumes "reaches go s" "s_nfa s \<noteq> 0" "plain_cfg (x_cfg s)" "list_all (safe_char False) (s_ipaddr s)"
    and "ev_queue es = []" "ev_rcvd es = []" "\<forall>n\<in>received xs. length n < MAXPATHLEN"
  shows "\<exists>es' cmds. session_events ext fs peer_name s xs es = Some es' \<and> distinct (ev_queue es') \<and>
    set (ev_queue es') = (\<Union>n\<in>received xs. delayed fs peer_name s n) \<and>
    ev_runs (end_events ext es') = ev_runs es' @ cmds \<and> distinct cmds \<and>
    set cmds = (\<Union>n\<in>{n \<in> received xs. has_command fs n}. delayed_commands fs peer_name s n) \<and> ev_queue (end_events ext es') = []"
proof -
  obtain es' where e: "session_events ext fs peer_name s xs es = Some es'"
    using session_events_returns [OF reaches_plain [OF assms(1,3,4)] assms(2)] by blast
  have q: "set (ev_queue es') = (\<Union>n\<in>received xs. delayed fs peer_name s n)" "distinct (ev_queue es')"
    using session_events_queues [OF e assms(7)] assms(5,6) by (simp_all add: put_off_def queues_def)
  define cmds where "cmds = map snd (filter (\<lambda>x. fst x = CHR ''e'') (ev_queue es'))"
  have "distinct cmds" using q(2) by (auto simp: cmds_def distinct_map inj_on_def prod_eq_iff)
  moreover have "set cmds = {c. (CHR ''e'', c) \<in> set (ev_queue es')}" by (force simp: cmds_def)
  moreover have "{c. (CHR ''e'', c) \<in> set (ev_queue es')} =
      (\<Union>n\<in>{n \<in> received xs. has_command fs n}. delayed_commands fs peer_name s n)"
    unfolding q(1) by (auto simp: delayed_def split: if_splits)
  ultimately show ?thesis using e q evt_set_runs [of ext "ev_queue es'" es'] by (auto simp: end_events_def cmds_def)
qed

text \<open>Two packets and a request in two batches; a flag and a command are put off, and both packets match.\<close>

definition sample_toss :: "EVT_FLAG list" where
  "sample_toss = [\<lparr>ev_path = None, ev_command = Some ''toss *P'', ev_pattern = ''*.pkt'', ev_imm = False\<rparr>,
     \<lparr>ev_path = Some ''/f/mail'', ev_command = None, ev_pattern = ''*.pkt'', ev_imm = False\<rparr>]"

lemma sample_loop2: "s_state s \<noteq> P_SECURE \<Longrightarrow> args_loop s fn pn ''toss *P'' 0 False = Some (''toss 0'', False)"
  by (subst args_loop.simps, simp add: sample_stars star_value_def, subst args_loop.simps) (simp add: sample_stars)

lemma sample_delayed:
  assumes "s_state s \<noteq> P_SECURE"
  shows "received [Received ''in/1.pkt'' False, Batch_end, Received ''in/2.pkt'' False] = {''in/1.pkt'', ''in/2.pkt''}"
    "n \<in> {''in/1.pkt'', ''in/2.pkt''} \<Longrightarrow> has_command sample_toss n \<and> delayed_commands sample_toss None s n = {''toss 0''} \<and>
       delayed sample_toss None s n = {(CHR ''f'', ''/f/mail''), (CHR ''e'', ''toss 0'')}"
proof -
  assume "n \<in> {''in/1.pkt'', ''in/2.pkt''}"
  then have n: "pmatch_ncase ''*.pkt'' n" "shown_name n = n" using sample_names by auto
  have "expansion s None n ''toss *P'' = Some ''toss 0''" by (simp add: expansion_def sample_loop2 [OF assms] n(2))
  then have c: "delayed_commands sample_toss None s n = {''toss 0''}"
    by (auto simp: delayed_commands_def sample_toss_def n sample_names)
  have h: "has_command sample_toss n" "delayed_flags sample_toss n = {''/f/mail''}"
    by (simp_all add: sample_toss_def has_command_simps delayed_flags_simps n)
  show "has_command sample_toss n \<and> delayed_commands sample_toss None s n = {''toss 0''} \<and>
      delayed sample_toss None s n = {(CHR ''f'', ''/f/mail''), (CHR ''e'', ''toss 0'')}"
    using c h by (simp add: delayed_def insert_commute)
qed simp

theorem delayed_events_once_witness:
  "\<exists>s es'. reaches True s \<and> session_events (\<lambda>c w. w) sample_toss None s
        [Received ''in/1.pkt'' False, Batch_end, Received ''in/2.pkt'' False] no_events = Some es' \<and>
     set (ev_queue es') = {(CHR ''f'', ''/f/mail''), (CHR ''e'', ''toss 0'')} \<and> length (ev_queue es') = 2 \<and>
     ev_runs (end_events (\<lambda>c w. w) es') = ev_runs es' @ [''toss 0'']"
proof -
  let ?xs = "[Received ''in/1.pkt'' False, Batch_end, Received ''in/2.pkt'' False]"
  obtain s where r: "reaches True s" and s: "s_nfa s = 1" "x_cfg s = open_cfg" "s_ipaddr s = ex_ip" and p: "s_state s \<noteq> P_SECURE"
    by (rule ex_active)
  have h: "s_nfa s \<noteq> 0" "plain_cfg (x_cfg s)" "list_all (safe_char False) (s_ipaddr s)" "ev_queue no_events = []"
    "ev_rcvd no_events = []" "\<forall>n\<in>received ?xs. length n < MAXPATHLEN" using s sample_plain by (simp_all add: no_events_def)
  obtain es' cmds where e: "session_events (\<lambda>c w. w) sample_toss None s ?xs no_events = Some es'" "distinct (ev_queue es')"
      "set (ev_queue es') = (\<Union>n\<in>received ?xs. delayed sample_toss None s n)"
      "ev_runs (end_events (\<lambda>c w. w) es') = ev_runs es' @ cmds" "distinct cmds"
      "set cmds = (\<Union>n\<in>{n \<in> received ?xs. has_command sample_toss n}. delayed_commands sample_toss None s n)"
    using delayed_events_once [OF r h, of "\<lambda>c w. w" sample_toss None] by blast
  note d = sample_delayed(2) [OF p]
  have q: "set (ev_queue es') = {(CHR ''f'', ''/f/mail''), (CHR ''e'', ''toss 0'')}"
    unfolding e(3) sample_delayed(1) [OF p] using d by simp
  have "length (ev_queue es') = card (set (ev_queue es'))" using distinct_card [OF e(2)] by simp
  then have "length (ev_queue es') = 2" unfolding q by simp
  moreover have c: "set cmds = {''toss 0''}" unfolding e(6) sample_delayed(1) [OF p] using d by auto
  have "length cmds = 1" using distinct_card [OF e(5)] c by simp
  then have "cmds = [''toss 0'']" using c by (cases cmds) auto
  ultimately show ?thesis using r e(1,4) q by (intro exI [of _ s] exI [of _ es']) simp
qed

end
