(* ===== verification/Bsycleanup.thy ===== *)
theory Bsycleanup
  imports Types
begin

text \<open>
  The removal of flag files at the start of the program (\<^verbatim>\<open>bsycleanup.c\<close>), for the BSO layout.  \<open>None\<close> is
  the read in front of an empty base path.
\<close>

section \<open>Definitions\<close>

definition flag_file :: "string \<Rightarrow> bool" where
  "flag_file s \<longleftrightarrow> (let len = length s; e = drop (len - 4) s in
     len > 4 \<and> (o_stricmp e ''.bsy'' = 0 \<or> o_stricmp e ''.csy'' = 0 \<or> o_stricmp e ''.try'' = 0))"

definition below_dir :: "string \<Rightarrow> string \<Rightarrow> string" where
  "below_dir dir s = strnzcat (strnzcat (strnzcpy dir (MAXPATHLEN + 1)) ''/'' (MAXPATHLEN + 1)) s (MAXPATHLEN + 1)"

definition scan_and_delete_bsy_in_dir :: "string \<Rightarrow> world \<Rightarrow> world" where
  "scan_and_delete_bsy_in_dir dir w = (if stat w dir \<noteq> Some Dir then w
     else fold (\<lambda>s w. if flag_file s then snd (delete (below_dir dir s) w) else w) (readdir_names w dir) w)"

text \<open>\<^verbatim>\<open>outbound\<close>, or \<^verbatim>\<open>outbound.xxx\<close> with a hexadecimal digit behind the dot.\<close>

definition outbound_entry :: "string \<Rightarrow> string \<Rightarrow> bool" where
  "outbound_entry dir s \<longleftrightarrow> (let len = length dir; r = drop len s in
     o_strnicmp s dir len = 0 \<and> (r = [] \<or> (hd r = CHR ''.'' \<and> tl r \<noteq> [] \<and> isxdigit (hd (tl r)))))"

definition base_path :: "FTN_DOMAIN \<Rightarrow> string option" where
  "base_path d = (let p = strnzcpy (dom_path d) (MAXPATHLEN + 1) in
     if p = [] then None else Some (if last p = CHR '':'' then p @ ''/'' else p))"

fun cleanup_domains :: "FTN_DOMAIN list \<Rightarrow> world \<Rightarrow> world option" where
  "cleanup_domains [] w = Some w"
| "cleanup_domains (d # ds) w =
    (if alias4 d \<noteq> None then cleanup_domains ds w
     else case base_path d of
       None \<Rightarrow> None
     | Some b \<Rightarrow> cleanup_domains ds
         (if stat w b \<noteq> Some Dir then w
          else fold (\<lambda>s w. if outbound_entry (dom_dir d) s then scan_and_delete_bsy_in_dir (below_dir b s) w else w)
            (readdir_names w b) w))"

definition cleanup_old_bsy :: "BINKD_CONFIG \<Rightarrow> world \<Rightarrow> world option" where
  "cleanup_old_bsy cfg w = cleanup_domains (pDomains cfg) w"

section \<open>Deleting only\<close>

definition removable :: "world \<Rightarrow> string \<Rightarrow> bool" where
  "removable w p \<longleftrightarrow> is_file w p \<and> \<not> denied w p"

text \<open>Only files were removed, and each of them satisfies \<open>P\<close>.\<close>

definition shrinks :: "(string \<Rightarrow> bool) \<Rightarrow> world \<Rightarrow> world \<Rightarrow> bool" where
  "shrinks P w w' \<longleftrightarrow> (\<forall>p. stat w' p = stat w p \<or> (stat w' p = None \<and> is_file w p \<and> P p)) \<and> w_denied w' = w_denied w"

lemma shrinks_refl [simp]: "shrinks P w w"
  by (simp add: shrinks_def)

lemma shrinks_trans: "shrinks P w1 w2 \<Longrightarrow> shrinks P w2 w3 \<Longrightarrow> shrinks P w1 w3"
  unfolding shrinks_def is_file_def by metis

lemma shrinks_mono: "shrinks P w w' \<Longrightarrow> (\<And>p. P p \<Longrightarrow> R p) \<Longrightarrow> shrinks R w w'"
  unfolding shrinks_def by blast

lemma shrinks_delete: "P p \<Longrightarrow> shrinks P w (snd (delete p w))"
  by (auto simp: shrinks_def delete_def unlink_def is_file_def stat_def fs_del_def delete_conv split: option.splits fentry.splits)

lemma shrinksD: "shrinks P w w' \<Longrightarrow> stat w' p = stat w p \<or> (stat w' p = None \<and> is_file w p \<and> P p)"
  by (simp add: shrinks_def)

lemma shrinks_dir: "shrinks P w w' \<Longrightarrow> stat w' d = Some Dir \<longleftrightarrow> stat w d = Some Dir"
  by (drule shrinksD [of _ _ _ d]) (auto simp: is_file_def)

lemma shrinks_removable: "shrinks P w w' \<Longrightarrow> removable w' p \<Longrightarrow> removable w p"
proof -
  assume sh: "shrinks P w w'" and r: "removable w' p"
  have "stat w' p \<noteq> None" using r by (cases "stat w' p") (simp_all add: removable_def is_file_def)
  then have "stat w' p = stat w p" using shrinksD [OF sh, of p] by auto
  then show "removable w p" using sh r by (simp add: removable_def is_file_def shrinks_def)
qed

lemma key_stat: "p \<in> fst ` set (w_files w) \<longleftrightarrow> stat w p \<noteq> None"
  by (simp add: stat_def map_of_eq_None_iff)

lemma shrinks_names:
  assumes "shrinks P w w'"
  shows "set (readdir_names w' d) \<subseteq> set (readdir_names w d)"
proof -
  have "fst ` set (w_files w') \<subseteq> fst ` set (w_files w)"
  proof
    fix p assume "p \<in> fst ` set (w_files w')"
    then show "p \<in> fst ` set (w_files w)" using shrinksD [OF assms, of p] by (auto simp: key_stat)
  qed
  then show ?thesis by (auto simp: readdir_names_def)
qed

lemma shrinks_fold:
  assumes "\<And>s w. s \<in> set xs \<Longrightarrow> shrinks P w (f s w)"
  shows "shrinks P w (fold f xs w)"
  using assms
proof (induction xs arbitrary: w)
  case (Cons x xs)
  show ?case using shrinks_trans [OF Cons.prems [of x w] Cons.IH] Cons.prems by simp
qed simp

lemma delete_removed: "\<not> removable (snd (delete p w)) p"
  by (auto simp: removable_def delete_def unlink_def is_file_def stat_def fs_del_def delete_conv split: option.splits fentry.splits)

section \<open>One directory\<close>

text \<open>No flag file that could be removed is left.\<close>

definition clean :: "string \<Rightarrow> world \<Rightarrow> bool" where
  "clean dir w \<longleftrightarrow> (\<forall>s\<in>set (readdir_names w dir). flag_file s \<longrightarrow> \<not> removable w (below_dir dir s))"

lemma clean_shrinks: "clean dir w \<Longrightarrow> shrinks P w w' \<Longrightarrow> clean dir w'"
  unfolding clean_def using shrinks_names shrinks_removable by blast

definition flag_in :: "string \<Rightarrow> string \<Rightarrow> bool" where
  "flag_in dir p \<longleftrightarrow> (\<exists>s. flag_file s \<and> p = below_dir dir s)"

lemma fold_removed:
  "(\<forall>s\<in>set xs. flag_file s \<longrightarrow> \<not> removable (fold (\<lambda>s w. if flag_file s then snd (delete (below_dir dir s) w) else w) xs w) (below_dir dir s))"
proof (induction xs arbitrary: w)
  case (Cons x xs)
  let ?f = "\<lambda>s w. if flag_file s then snd (delete (below_dir dir s) w) else w"
  have sh: "shrinks (\<lambda>_. True) (?f x w) (fold ?f xs (?f x w))"
    by (rule shrinks_fold) (auto intro: shrinks_delete)
  have "flag_file x \<Longrightarrow> \<not> removable (?f x w) (below_dir dir x)" using delete_removed by simp
  then have "flag_file x \<Longrightarrow> \<not> removable (fold ?f xs (?f x w)) (below_dir dir x)"
    using shrinks_removable [OF sh] by blast
  then show ?case using Cons.IH [of "?f x w"] by simp
qed simp

lemma scan_shrinks: "shrinks (flag_in dir) w (scan_and_delete_bsy_in_dir dir w)"
proof -
  have "flag_file s \<Longrightarrow> flag_in dir (below_dir dir s)" for s by (auto simp: flag_in_def)
  then show ?thesis unfolding scan_and_delete_bsy_in_dir_def by (auto intro!: shrinks_fold shrinks_delete)
qed

lemma scan_clean: "stat w dir = Some Dir \<Longrightarrow> clean dir (scan_and_delete_bsy_in_dir dir w)"
  using shrinks_names [OF scan_shrinks [of dir w], of dir] fold_removed [of "readdir_names w dir" dir w]
  unfolding clean_def by (auto simp: scan_and_delete_bsy_in_dir_def)

section \<open>All domains\<close>

text \<open>The outbound directories of a domain.\<close>

definition outbound_dir :: "FTN_DOMAIN \<Rightarrow> world \<Rightarrow> string \<Rightarrow> bool" where
  "outbound_dir d w p \<longleftrightarrow> alias4 d = None \<and> (\<exists>b s. base_path d = Some b \<and> stat w b = Some Dir \<and>
     s \<in> set (readdir_names w b) \<and> outbound_entry (dom_dir d) s \<and> p = below_dir b s \<and> stat w p = Some Dir)"

definition flag_of :: "FTN_DOMAIN list \<Rightarrow> string \<Rightarrow> bool" where
  "flag_of ds p \<longleftrightarrow> (\<exists>d\<in>set ds. \<exists>b s. alias4 d = None \<and> base_path d = Some b \<and> outbound_entry (dom_dir d) s \<and> flag_in (below_dir b s) p)"

lemma fold_clean:
  assumes "s \<in> set xs" "R s" "stat w (g s) = Some Dir"
  shows "clean (g s) (fold (\<lambda>s w. if R s then scan_and_delete_bsy_in_dir (g s) w else w) xs w)"
  using assms
proof (induction xs arbitrary: w)
  case (Cons x xs)
  let ?f = "\<lambda>s w. if R s then scan_and_delete_bsy_in_dir (g s) w else w"
  have one: "shrinks (\<lambda>_. True) w (?f y w)" for y w using shrinks_mono [OF scan_shrinks [of "g y" w]] by auto
  show ?case
  proof (cases "s \<in> set xs")
    case True
    have "stat (?f x w) (g s) = Some Dir" using shrinks_dir [OF one] Cons.prems(3) by blast
    then show ?thesis using Cons.IH [OF True Cons.prems(2)] by simp
  next
    case False
    then have "clean (g s) (?f x w)" using Cons.prems scan_clean by simp
    moreover have "shrinks (\<lambda>_. True) (?f x w) (fold ?f xs (?f x w))" by (rule shrinks_fold) (rule one)
    ultimately have "clean (g s) (fold ?f xs (?f x w))" by (rule clean_shrinks)
    then show ?thesis by simp
  qed
qed simp

lemma cleanup_domains_shrinks: "cleanup_domains ds w = Some w' \<Longrightarrow> shrinks (flag_of ds) w w'"
proof (induction ds arbitrary: w)
  case Nil
  then show ?case by simp
next
  case (Cons d ds)
  show ?case
  proof (cases "alias4 d")
    case (Some a)
    then have "shrinks (flag_of ds) w w'" using Cons by simp
    then show ?thesis by (rule shrinks_mono) (auto simp: flag_of_def)
  next
    case None
    then obtain b where b: "base_path d = Some b" using Cons.prems by (auto split: option.splits)
    define w1 where "w1 = (if stat w b \<noteq> Some Dir then w
      else fold (\<lambda>s w. if outbound_entry (dom_dir d) s then scan_and_delete_bsy_in_dir (below_dir b s) w else w) (readdir_names w b) w)"
    have "shrinks (flag_of ds) w1 w'" using Cons b None by (simp add: w1_def)
    then have 2: "shrinks (flag_of (d # ds)) w1 w'" by (rule shrinks_mono) (auto simp: flag_of_def)
    have "outbound_entry (dom_dir d) s \<Longrightarrow> flag_in (below_dir b s) p \<Longrightarrow> flag_of (d # ds) p" for s p
      using b None by (auto simp: flag_of_def)
    then have "shrinks (flag_of (d # ds)) w w1" unfolding w1_def
      by (auto intro!: shrinks_fold shrinks_mono [OF scan_shrinks])
    then show ?thesis using 2 by (rule shrinks_trans)
  qed
qed

lemma cleanup_domains_clean:
  "cleanup_domains ds w = Some w' \<Longrightarrow> d \<in> set ds \<Longrightarrow> outbound_dir d w' p \<Longrightarrow> clean p w'"
proof (induction ds arbitrary: w)
  case Nil
  then show ?case by simp
next
  case (Cons e ds)
  define w1 where "w1 = (case base_path e of None \<Rightarrow> w | Some b \<Rightarrow> if alias4 e \<noteq> None \<or> stat w b \<noteq> Some Dir then w
    else fold (\<lambda>s w. if outbound_entry (dom_dir e) s then scan_and_delete_bsy_in_dir (below_dir b s) w else w) (readdir_names w b) w)"
  have r: "cleanup_domains ds w1 = Some w'" using Cons.prems(1) by (auto simp: w1_def split: option.splits if_splits)
  show ?case
  proof (cases "d \<in> set ds")
    case True
    then show ?thesis using Cons.IH [OF r] Cons.prems by blast
  next
    case False
    then have d: "d = e" using Cons.prems(2) by simp
    obtain b s where o: "alias4 e = None" "base_path e = Some b" "stat w' b = Some Dir" "s \<in> set (readdir_names w' b)"
      "outbound_entry (dom_dir e) s" "p = below_dir b s" "stat w' p = Some Dir"
      using Cons.prems(3) unfolding outbound_dir_def d by blast
    have sh: "shrinks (flag_of (e # ds)) w w'" by (rule cleanup_domains_shrinks [OF Cons.prems(1)])
    have w: "stat w b = Some Dir" "stat w p = Some Dir" "s \<in> set (readdir_names w b)"
      using shrinks_dir [OF sh] shrinks_names [OF sh] o by auto
    have "clean (below_dir b s) w1"
      using fold_clean [of s "readdir_names w b" "outbound_entry (dom_dir e)" w "below_dir b"] w o by (simp add: w1_def)
    then show ?thesis using clean_shrinks [OF _ cleanup_domains_shrinks [OF r]] o(6) by blast
  qed
qed

text \<open>
  C31: the cleanup removes only files, and only \<^verbatim>\<open>.bsy\<close>, \<^verbatim>\<open>.csy\<close> and \<^verbatim>\<open>.try\<close> files that lie directly in an
  outbound directory of a domain; when it is done none of those that can be removed is left, whoever
  they belong to.
\<close>

theorem cleanup_exact:
  assumes "cleanup_old_bsy cfg w = Some w'"
  shows "(\<forall>p. stat w' p \<noteq> stat w p \<longrightarrow> stat w' p = None \<and> is_file w p \<and> flag_of (pDomains cfg) p) \<and>
    (\<forall>d\<in>set (pDomains cfg). \<forall>p. outbound_dir d w' p \<longrightarrow> clean p w')"
  using cleanup_domains_shrinks [OF assms [unfolded cleanup_old_bsy_def]]
    cleanup_domains_clean [OF assms [unfolded cleanup_old_bsy_def]]
  unfolding shrinks_def by blast

definition sample_flags :: world where
  "sample_flags = empty_world\<lparr>w_files := [(''/var/spool'', Dir), (''/var/spool/outb'', Dir),
     (''/var/spool/outb/00020003.bsy'', File ''42'' 5), (''/var/spool/outb/00020003.hlo'', File ''x'' 5)]\<rparr>"

lemma sample_cleanup: "map_option (\<lambda>w. map fst (w_files w)) (cleanup_domains [fidonet] sample_flags) =
    Some [''/var/spool'', ''/var/spool/outb'', ''/var/spool/outb/00020003.hlo'']"
  by code_simp

theorem cleanup_exact_witness:
  "\<exists>w'. cleanup_old_bsy sample_cfg sample_flags = Some w' \<and> stat w' ''/var/spool/outb/00020003.bsy'' = None \<and>
     stat w' ''/var/spool/outb/00020003.hlo'' = stat sample_flags ''/var/spool/outb/00020003.hlo''"
proof -
  obtain w' where c: "cleanup_domains [fidonet] sample_flags = Some w'"
    "map fst (w_files w') = [''/var/spool'', ''/var/spool/outb'', ''/var/spool/outb/00020003.hlo'']"
    using sample_cleanup unfolding map_option_eq_Some by (elim exE conjE)
  have d: "pDomains sample_cfg = [fidonet]" by (simp add: sample_cfg_def)
  then have c': "cleanup_old_bsy sample_cfg sample_flags = Some w'" using c(1) by (simp add: cleanup_old_bsy_def)
  have key: "p \<in> set (map fst (w_files w')) \<longleftrightarrow> stat w' p \<noteq> None" for p
    by (simp add: stat_def map_of_eq_None_iff)
  have "stat w' ''/var/spool/outb/00020003.bsy'' = None" "stat w' ''/var/spool/outb/00020003.hlo'' \<noteq> None"
    using key [of "''/var/spool/outb/00020003.bsy''"] key [of "''/var/spool/outb/00020003.hlo''"] unfolding c(2) by simp_all
  moreover from this have "stat w' ''/var/spool/outb/00020003.hlo'' = stat sample_flags ''/var/spool/outb/00020003.hlo''"
    using conjunct1 [OF cleanup_exact [OF c'], rule_format, of "''/var/spool/outb/00020003.hlo''"] by argo
  ultimately show ?thesis using c' by (intro exI conjI)
qed

end
