(* ===== verification/Client.thy ===== *)
theory Client
  imports Session Readcfg
begin

text \<open>
  Outbound calls (\<^verbatim>\<open>client.c\<close>) in the build with \<^verbatim>\<open>fork\<close>: the client manager, which scans the outbound, picks
  a node and starts a process for it, and the call itself: the hosts of the node are tried in order until
  one gives a socket, and a session runs on it under the call flag of the node.  What the network does is
  an argument: the addresses a name resolves to, each with what becomes of the attempt to use it.
\<close>

section \<open>One call\<close>

datatype bind_result = Bind_done | Bind_failed | Src_other_family | Src_unknown

text \<open>
  An address of \<^verbatim>\<open>getaddrinfo\<close>, its numeric name and service, whether a socket can be made for it, what
  comes of binding it, and the error of \<^verbatim>\<open>connect\<close>, if any, with whether it was interrupted.
\<close>

record attempt =
  ai_family :: int
  ai_addr :: "nat list"
  ai_name :: "(string \<times> string) option"
  ai_socket :: bool
  ai_bind :: bind_result
  ai_connect :: "(bool \<times> string) option"

text \<open>
  The network during one call: the addresses by number and name of the host, the commands of pipes that can
  be started, and the events of the session that follows.
\<close>

record call_env =
  ce_getaddrinfo :: "nat \<Rightarrow> string \<Rightarrow> string \<Rightarrow> attempt list option"
  ce_run3 :: "nat \<Rightarrow> string \<Rightarrow> bool"
  ce_pipe :: bool
  ce_sels :: "select_result list"
  ce_in_error :: bool
  ce_ios :: "io_result list"

text \<open>The variables of the call; the session structure holds the file system and the configuration.\<close>

record call_vars =
  cv_host :: string
  cv_port :: string
  cv_dst :: "string option"
  cv_s :: session

datatype link = L_pipe | L_connected | L_unconnected

datatype try_result = T_none | T_exit | T_link link

definition sockaddr_same :: "int \<times> nat list \<Rightarrow> int \<times> nat list \<Rightarrow> bool" where
  "sockaddr_same a b \<longleftrightarrow> fst a = fst b \<and> fst a \<in> {AF_INET, AF_INET6} \<and> snd a = snd b"

definition invalidAddresses :: "(int \<times> nat list) list" where
  "invalidAddresses = [(AF_INET, replicate 4 0), (AF_INET6, replicate 16 0)]"

definition invalid_address :: "attempt \<Rightarrow> bool" where
  "invalid_address a \<longleftrightarrow> list_ex (sockaddr_same (ai_family a, ai_addr a)) invalidAddresses"

definition connect_error :: "WORK \<Rightarrow> bool \<times> string \<Rightarrow> string" where
  "connect_error c e = (if fst e \<and> c_connect_timeout c \<noteq> 0 then ''Connection timed out'' else snd e)"

definition call_failed :: "FTN_NODE \<Rightarrow> string \<Rightarrow> session \<Rightarrow> session" where
  "call_failed node err s = set_fs_cfg (bad_try (x_junk s) (n_fa node) err (fs_cfg s)) s"

text \<open>The address a socket is made for becomes the one the session knows.\<close>

definition named :: "attempt \<Rightarrow> call_vars \<Rightarrow> call_vars" where
  "named a v = (case ai_name a of
     None \<Rightarrow> v\<lparr>cv_dst := Some ''invalid'', cv_port := []\<rparr>
   | Some (addr, serv) \<Rightarrow> v\<lparr>cv_dst := Some addr, cv_port := strnzcpy serv MAXPORTSTRLEN\<rparr>)"

text \<open>
  The addresses of one host.  When the configured source address has another family, the code goes on to the
  next address with the unconnected socket in its hand, which ends both loops.
\<close>

fun try_addrs :: "WORK \<Rightarrow> FTN_NODE \<Rightarrow> attempt list \<Rightarrow> call_vars \<Rightarrow> try_result \<times> call_vars" where
  "try_addrs c node [] v = (T_none, v)"
| "try_addrs c node (a # as) v =
     (if invalid_address a \<or> \<not> ai_socket a then try_addrs c node as v
      else if x_exit (cv_s v) then (T_exit, v)
      else if c_bindaddr c \<noteq> [] \<and> ai_bind a = Src_other_family then (T_link L_unconnected, named a v)
      else (case ai_connect a of
        None \<Rightarrow> (T_link L_connected, named a v)
      | Some e \<Rightarrow> try_addrs c node as ((named a v)\<lparr>cv_s := call_failed node (connect_error c e) (cv_s v)\<rparr>)))"

definition pipe_command :: "string \<Rightarrow> string \<Rightarrow> string \<Rightarrow> string" where
  "pipe_command p h port = ed (ed p ''*H'' h) ''*I'' port"

definition has_pipe :: "FTN_NODE \<Rightarrow> string option" where
  "has_pipe node = (case n_pipe node of Some p \<Rightarrow> (if p = [] then None else Some p) | None \<Rightarrow> None)"

definition try_host :: "call_env \<Rightarrow> WORK \<Rightarrow> FTN_NODE \<Rightarrow> nat \<Rightarrow> call_vars \<Rightarrow> try_result \<times> call_vars" where
  "try_host e c node i v = (case has_pipe node of
     Some p \<Rightarrow> (if ce_run3 e i (pipe_command p (cv_host v) (cv_port v)) then T_link L_pipe else T_none, v)
   | None \<Rightarrow> (case ce_getaddrinfo e i (cv_host v) (cv_port v) of
       None \<Rightarrow> (T_none, v\<lparr>cv_s := call_failed node ''Cannot getaddrinfo'' (cv_s v)\<rparr>)
     | Some as \<Rightarrow> try_addrs c node as v))"

definition next_host :: "WORK \<Rightarrow> FTN_NODE \<Rightarrow> nat \<Rightarrow> session \<Rightarrow> host_result option" where
  "next_host c node i s = (case n_hosts node of
     None \<Rightarrow> Some HOST_END
   | Some hosts \<Rightarrow> get_host_and_port i hosts (n_fa node) (known_port s) (c_oport c) (x_cfg s))"

text \<open>The loop over the hosts; \<open>None\<close> for a read past the end of the list (or a loop without an end).\<close>

partial_function (option) hosts_loop :: "call_env \<Rightarrow> WORK \<Rightarrow> FTN_NODE \<Rightarrow> nat \<Rightarrow> call_vars \<Rightarrow>
    (try_result \<times> call_vars) option" where
  [code]: "hosts_loop e c node i v = (case next_host c node i (cv_s v) of
     None \<Rightarrow> None
   | Some HOST_END \<Rightarrow> Some (T_none, v)
   | Some HOST_BAD \<Rightarrow> hosts_loop e c node (Suc i) v
   | Some (HOST h p) \<Rightarrow> (case try_host e c node i (v\<lparr>cv_host := h, cv_port := p\<rparr>) of
       (r, v1) \<Rightarrow> if r = T_none then hosts_loop e c node (Suc i) v1 else Some (r, v1)))"

definition remote_ip :: "call_vars \<Rightarrow> string" where
  "remote_ip v = strnzcpy (case cv_dst v of Some d \<Rightarrow> d | None \<Rightarrow> cv_host v) BINKD_FQDNLEN"

text \<open>
  \<^verbatim>\<open>call0\<close>: whether there was a session.  On an unconnected socket the output socket of the session is an
  uninitialised variable, so the outcome is not defined.
\<close>

definition call0 :: "call_env \<Rightarrow> WORK \<Rightarrow> FTN_NODE \<Rightarrow> session \<Rightarrow> (bool \<times> session) option" where
  "call0 e c node s = (case hosts_loop e c node 1 \<lparr>cv_host = [], cv_port = [], cv_dst = None, cv_s = s\<rparr> of
     None \<Rightarrow> None
   | Some (T_link l, v) \<Rightarrow>
       if l = L_unconnected then None
       else map_option (\<lambda>r. (True, snd r))
         (protocol (Some node) None (ce_pipe e) (remote_ip v) False (ce_sels e) (ce_in_error e) (ce_ios e) (cv_s v))
   | Some (_, v) \<Rightarrow> Some (False, cv_s v))"

text \<open>\<^verbatim>\<open>call\<close>: whether the call flag of the node was free, and the state afterwards.\<close>

definition call :: "call_env \<Rightarrow> WORK \<Rightarrow> FTN_NODE \<Rightarrow> session \<Rightarrow> (bool \<times> session) option" where
  "call e c node s = (case bsy_add (n_fa node) F_CSY (x_cfg s) (x_w s, x_bsy s) of
     (False, w, b) \<Rightarrow> Some (False, s\<lparr>x_w := w, x_bsy := b\<rparr>)
   | (True, w, b) \<Rightarrow> (case call0 e c node (s\<lparr>x_w := w, x_bsy := b\<rparr>) of
       None \<Rightarrow> None
     | Some (_, s1) \<Rightarrow> (case bsy_remove (n_fa node) F_CSY (x_cfg s1) (x_w s1, x_bsy s1) of
         (w1, b1) \<Rightarrow> Some (True, s1\<lparr>x_w := w1, x_bsy := b1\<rparr>))))"

section \<open>The client manager\<close>

text \<open>
  The process that starts the calls: the outbound, the configuration, \<^verbatim>\<open>n_clients\<close>, and the children that
  have not been waited for.
\<close>

record manager =
  m_w :: world
  m_cfg :: WORK
  m_n :: int
  m_kids :: "int list"

text \<open>
  \<^verbatim>\<open>chld\<close> of \<^verbatim>\<open>binkd.c\<close>: what \<^verbatim>\<open>waitpid\<close> reports, of the children that ended, is counted; \<open>None\<close> when the
  client manager itself was among them, then the program exits.
\<close>

fun chld :: "int \<Rightarrow> int list \<Rightarrow> int \<times> int list \<Rightarrow> (int \<times> int list) option" where
  "chld cmgr [] st = Some st"
| "chld cmgr (p # ps) (n, kids) =
     (if p \<notin> set kids then chld cmgr ps (n, kids)
      else if cmgr \<noteq> 0 \<and> p = cmgr then None
      else chld cmgr ps (n - 1, remove1 p kids))"

definition check_child :: "int list \<Rightarrow> manager \<Rightarrow> manager" where
  "check_child dead m = (case chld 0 dead (m_n m, m_kids m) of
     None \<Rightarrow> m | Some (n, kids) \<Rightarrow> m\<lparr>m_n := n, m_kids := kids\<rparr>)"

definition upd_node_cfg :: "BINKD_CONFIG \<Rightarrow> manager \<Rightarrow> manager" where
  "upd_node_cfg b m = m\<lparr>m_cfg := upd_cfg (\<lambda>_. b) (m_cfg m)\<rparr>"

definition sleep :: "int \<Rightarrow> manager \<Rightarrow> manager" where
  "sleep t m = m\<lparr>m_w := (m_w m)\<lparr>w_time := w_time (m_w m) + t\<rparr>\<rparr>"

definition scan_outbound :: "manager \<Rightarrow> manager" where
  "scan_outbound m = (let b = c_cfg (m_cfg m) in
     if q_present b then m
     else case q_scan (SCAN_LISTED, m_w m, q_free (w_time (m_w m)) b) of
       (_, w, b1) \<Rightarrow> upd_node_cfg (b1\<lparr>q_present := True\<rparr>) (m\<lparr>m_w := w\<rparr>))"

text \<open>
  The wait for the next scan.  A nap is the children that ended before it and the seconds it took; the list
  of naps ends with the signal that asks for a reload.
\<close>

fun rescan_wait :: "bool \<Rightarrow> int \<Rightarrow> (int list \<times> int) list \<Rightarrow> manager \<Rightarrow> bool \<times> manager" where
  "rescan_wait poll left [] m = (False, m)"
| "rescan_wait poll left ((dead, t) # naps) m =
     (if left \<le> 0 then (False, m)
      else let m1 = check_child dead m in
        if poll \<and> m_n m1 \<le> 0 then
          (case q_not_empty (w_time (m_w m1)) (c_cfg (m_cfg m1)) of
             (None, b) \<Rightarrow> (True, upd_node_cfg b m1)
           | (Some _, b) \<Rightarrow> rescan_wait poll (if t > 0 then left - t else left) naps (sleep t (upd_node_cfg b m1)))
        else rescan_wait poll (if t > 0 then left - t else left) naps (sleep t m1))"

text \<open>What one turn meets: the process number \<^verbatim>\<open>fork\<close> gives, the naps, the children that ended, a delay.\<close>

record turn =
  tu_pid :: int
  tu_naps :: "(int list \<times> int) list"
  tu_dead :: "int list"
  tu_dead2 :: "int list"
  tu_delay :: int

datatype turn_result = Turn_quit | Turn_next | Turn_call FTN_NODE

text \<open>Both flags of a node are free.\<close>

definition node_free :: "FTN_NODE \<Rightarrow> manager \<Rightarrow> bool \<times> manager" where
  "node_free r m = (let b = c_cfg (m_cfg m) in
     case bsy_test (n_fa r) F_BSY b (m_w m) of
       (False, w) \<Rightarrow> (False, m\<lparr>m_w := w\<rparr>)
     | (True, w) \<Rightarrow> (case bsy_test (n_fa r) F_CSY b w of (free, w1) \<Rightarrow> (free, m\<lparr>m_w := w1\<rparr>)))"

definition start_call :: "turn \<Rightarrow> FTN_NODE \<Rightarrow> manager \<Rightarrow> turn_result \<times> manager" where
  "start_call t r m = (case node_free r m of
     (False, m1) \<Rightarrow> (Turn_next, m1)
   | (True, m1) \<Rightarrow>
       if tu_pid t < 0 then (Turn_next, sleep 1 m1)
       else (Turn_call r, m1\<lparr>m_n := m_n m1 + 1, m_kids := tu_pid t # m_kids m1\<rparr>))"

definition wait_turn :: "bool \<Rightarrow> turn \<Rightarrow> manager \<Rightarrow> turn_result \<times> manager" where
  "wait_turn poll t m = (case rescan_wait poll (c_rescan_delay (m_cfg m)) (tu_naps t) m of
     (True, m1) \<Rightarrow> (Turn_quit, m1)
   | (False, m1) \<Rightarrow> let m2 = check_child (tu_dead t) m1 in
       (Turn_next, if poll then m2 else upd_node_cfg ((c_cfg (m_cfg m2))\<lparr>q_present := False\<rparr>) m2))"

definition do_client :: "bool \<Rightarrow> turn \<Rightarrow> manager \<Rightarrow> turn_result \<times> manager" where
  "do_client poll t m0 = (let m = scan_outbound m0 in
     if m_n m < c_max_clients (m_cfg m) then
       (case q_next_node (w_time (m_w m)) (c_cfg (m_cfg m)) of
          (Some r, b) \<Rightarrow> start_call t r (upd_node_cfg b m)
        | (None, b) \<Rightarrow> wait_turn poll t (upd_node_cfg b m))
     else (Turn_next, let m1 = check_child (tu_dead t) m in
             check_child (tu_dead2 t) (if c_no_call_delay (m_cfg m1) then m1 else sleep (tu_delay t) m1)))"

text \<open>
  The loop of \<^verbatim>\<open>clientmgr\<close>: a turn, the end when it says so, and the check of the configuration.
\<close>

definition reload :: "bool \<Rightarrow> bool \<Rightarrow> cfg_env \<Rightarrow> manager \<Rightarrow> manager" where
  "reload flag hup e m = m\<lparr>m_cfg := snd (checkcfg flag hup e (m_cfg m))\<rparr>"

definition manager_turn :: "bool \<Rightarrow> turn \<Rightarrow> bool \<Rightarrow> bool \<Rightarrow> cfg_env \<Rightarrow> manager \<Rightarrow> turn_result \<times> manager" where
  "manager_turn poll t flag hup e m = (case do_client poll t m of
     (r, m1) \<Rightarrow> (r, if r = Turn_quit \<or> poll then m1 else reload flag hup e m1))"

text \<open>Each child that ended is counted once; the client manager is not lost silently.\<close>

lemma chld_result:
  "chld cmgr dead (n, kids) = Some (n', kids') \<Longrightarrow> distinct kids \<Longrightarrow> n' = n - int (length kids) + int (length kids') \<and>
    distinct kids' \<and> set kids' \<subseteq> set kids \<and> (cmgr \<noteq> 0 \<and> cmgr \<in> set kids \<longrightarrow> cmgr \<in> set kids') \<and> length kids' \<le> length kids"
proof (induction dead arbitrary: n kids)
  case (Cons p ps)
  show ?case
  proof (cases "p \<in> set kids")
    case False
    then show ?thesis using Cons by simp
  next
    case True
    then have c: "chld cmgr ps (n - 1, remove1 p kids) = Some (n', kids')" "\<not> (cmgr \<noteq> 0 \<and> p = cmgr)"
      using Cons.prems(1) by (auto split: if_splits)
    have l: "int (length (remove1 p kids)) = int (length kids) - 1"
      using True length_pos_if_in_set [OF True] by (simp only: length_remove1 if_True)
    have d: "distinct (remove1 p kids)" using Cons.prems(2) by simp
    have "cmgr \<in> set (remove1 p kids)" if "cmgr \<noteq> 0" "cmgr \<in> set kids" using that c(2) by (simp add: in_set_remove1)
    moreover have "length (remove1 p kids) \<le> length kids" by (simp add: length_remove1)
    ultimately show ?thesis using Cons.IH [OF c(1) d] set_remove1_subset [of p kids] unfolding l by auto
  qed
qed simp

end
