(* ===== verification/Calls.thy ===== *)
theory Calls
  imports Client
begin

text \<open>
  What a call does: it gets the first host and address that can be used and notes every failed attempt before
  it.
\<close>

section \<open>A call is the first usable attempt\<close>

text \<open>The reference: the outcome of every attempt, in order, and the first that ends the search.\<close>

datatype outcome = Passed | Failed string | Ended "link option" string string "string option"

definition attempt_outcome :: "WORK \<Rightarrow> bool \<Rightarrow> string \<Rightarrow> attempt \<Rightarrow> outcome" where
  "attempt_outcome c exiting h a =
    (let v = named a \<lparr>cv_host = h, cv_port = [], cv_dst = None, cv_s = undefined\<rparr>
     in if invalid_address a \<or> \<not> ai_socket a then Passed
        else if exiting then Ended None h [] None
        else if c_bindaddr c \<noteq> [] \<and> ai_bind a = Src_other_family then Ended (Some L_unconnected) h (cv_port v) (cv_dst v)
        else (case ai_connect a of
          None \<Rightarrow> Ended (Some L_connected) h (cv_port v) (cv_dst v)
        | Some e \<Rightarrow> Failed (connect_error c e)))"

definition host_outcomes :: "call_env \<Rightarrow> WORK \<Rightarrow> FTN_NODE \<Rightarrow> bool \<Rightarrow> nat \<Rightarrow> string \<Rightarrow> string \<Rightarrow> outcome list" where
  "host_outcomes e c node exiting i h port = (case has_pipe node of
     Some p \<Rightarrow> [if ce_run3 e i (pipe_command p h port) then Ended (Some L_pipe) h port None else Passed]
   | None \<Rightarrow> (case ce_getaddrinfo e i h port of
       None \<Rightarrow> [Failed ''Cannot getaddrinfo'']
     | Some as \<Rightarrow> map (attempt_outcome c exiting h) as))"

fun outcomes :: "call_env \<Rightarrow> WORK \<Rightarrow> FTN_NODE \<Rightarrow> session \<Rightarrow> nat \<Rightarrow> nat \<Rightarrow> outcome list" where
  "outcomes e c node s 0 i = []"
| "outcomes e c node s (Suc k) i = (case next_host c node i s of
     Some (HOST h p) \<Rightarrow> host_outcomes e c node (x_exit s) i h p @ outcomes e c node s k (Suc i)
   | Some HOST_BAD \<Rightarrow> outcomes e c node s k (Suc i)
   | _ \<Rightarrow> [])"

fun first_end :: "outcome list \<Rightarrow> (link option \<times> string \<times> string \<times> string option) option" where
  "first_end [] = None"
| "first_end (Ended l h p d # os) = Some (l, h, p, d)"
| "first_end (_ # os) = first_end os"

fun failures :: "outcome list \<Rightarrow> string list" where
  "failures [] = []"
| "failures (Ended l h p d # os) = []"
| "failures (Failed err # os) = err # failures os"
| "failures (Passed # os) = failures os"

lemma first_end_append: "first_end (a @ b) = (case first_end a of None \<Rightarrow> first_end b | Some x \<Rightarrow> Some x)"
  by (induction a rule: first_end.induct) auto

lemma failures_append: "failures (a @ b) = failures a @ (if first_end a = None then failures b else [])"
  by (induction a rule: failures.induct) auto

text \<open>The result of a loop is the one the outcomes tell.\<close>

definition follows :: "outcome list \<Rightarrow> FTN_NODE \<Rightarrow> call_vars \<Rightarrow> try_result \<times> call_vars \<Rightarrow> bool" where
  "follows os node v rv \<longleftrightarrow> cv_s (snd rv) = fold (call_failed node) (failures os) (cv_s v) \<and>
    (case first_end os of
       None \<Rightarrow> fst rv = T_none
     | Some (None, _) \<Rightarrow> fst rv = T_exit
     | Some (Some l, h, p, d) \<Rightarrow> fst rv = T_link l \<and> cv_host (snd rv) = h \<and> cv_port (snd rv) = p \<and> cv_dst (snd rv) = d)"

lemma follows_append_end: "follows a node v rv \<Longrightarrow> fst rv \<noteq> T_none \<Longrightarrow> follows (a @ b) node v rv"
  by (auto simp: follows_def first_end_append failures_append split: option.splits prod.splits)

lemma follows_append:
  "follows a node v (T_none, v1) \<Longrightarrow> follows b node v1 rv \<Longrightarrow> follows (a @ b) node v rv"
  by (auto simp: follows_def first_end_append failures_append split: option.splits prod.splits)

text \<open>What the host list depends on does not change when a failure is noted.\<close>

definition same_hosts :: "session \<Rightarrow> session \<Rightarrow> bool" where
  "same_hosts s t \<longleftrightarrow> x_exit t = x_exit s \<and> x_port t = x_port s \<and>
    pDomains (x_cfg t) = pDomains (x_cfg s) \<and> root_domain (x_cfg t) = root_domain (x_cfg s)"

lemma same_hosts_refl [simp]: "same_hosts s s"
  by (simp add: same_hosts_def)

lemma same_hosts_trans: "same_hosts s t \<Longrightarrow> same_hosts t u \<Longrightarrow> same_hosts s u"
  by (simp add: same_hosts_def)

lemma get_node_root: "root_domain (snd (snd (get_node fa st))) = root_domain (snd st)"
  by (auto simp: get_node_def get_node_info_def get_node_index_def get_defnode_info_def sort_nodes_def add_node_def Let_def
      split: prod.splits option.splits if_splits)

lemma hold_node_frame:
  "root_domain (snd (hold_node fa h st)) = root_domain (snd st) \<and> pDomains (snd (hold_node fa h st)) = pDomains (snd st)"
proof -
  obtain ok w where w: "write_file (bso_file fa ''.hld'' (snd st)) (dec_of_nat (nat (h mod 2 ^ 64))) (fst st) = (ok, w)"
    by fastforce
  obtain r st2 where g: "get_node fa (w, snd st) = (r, st2)" by (cases "get_node fa (w, snd st)")
  show ?thesis
    using get_node_frame [OF g] get_node_root [of fa "(w, snd st)"] g w
    by (auto simp: hold_node_def Let_def put_node_def set_node_def split: option.splits bool.splits)
qed

lemma bad_try_frame:
  "root_domain (snd (bad_try j fa err st)) = root_domain (snd st) \<and> pDomains (snd (bad_try j fa err st)) = pDomains (snd st)"
  using hold_node_frame [of fa "w_time (fst st) + hold (snd st)" st]
  by (auto simp: bad_try_def Let_def split: prod.splits)

lemma call_failed_hosts: "same_hosts s (call_failed node err s)"
  using bad_try_frame [of "x_junk s" "n_fa node" err "fs_cfg s"]
  by (simp add: same_hosts_def call_failed_def set_fs_cfg_def fs_cfg_def)

lemma failed_hosts: "same_hosts s (fold (call_failed node) errs s)"
  by (induction errs arbitrary: s) (auto intro: same_hosts_trans call_failed_hosts)

lemma next_host_same:
  assumes "same_hosts s t"
  shows "next_host c node i t = next_host c node i s"
proof -
  have eqs: "known_port t = known_port s" "pDomains (x_cfg t) = pDomains (x_cfg s)"
    "root_domain (x_cfg t) = root_domain (x_cfg s)"
    using assms by (simp_all add: same_hosts_def known_port_def fun_eq_iff)
  show ?thesis unfolding next_host_def get_host_and_port_def eqs by (rule refl)
qed

lemma outcomes_same: "same_hosts s t \<Longrightarrow> outcomes e c node t k i = outcomes e c node s k i"
proof (induction k arbitrary: i)
  case (Suc k)
  have "x_exit t = x_exit s" using Suc.prems by (simp add: same_hosts_def)
  then show ?case using Suc by (simp only: outcomes.simps next_host_same [OF Suc.prems])
qed simp

text \<open>Hosts of a list without escapes.\<close>

definition plain_hosts :: "string \<Rightarrow> bool" where
  "plain_hosts s \<longleftrightarrow> one_line s \<and> CHR 0x5C \<notin> set s"

lemma gw_scan_no_escape: "CHR 0x5C \<notin> set s \<Longrightarrow> gw_scan no_flags seps env q s \<noteq> None"
proof (induction no_flags seps env q s rule: gw_scan.induct)
  case (2 seps env q c r)
  then have "gw_step no_flags seps env q c r \<noteq> GwBad"
    by (auto simp: gw_step_def no_flags_def)
  moreover have "gw_scan no_flags seps env q' r' \<noteq> None"
    if "gw_step no_flags seps env q c r = GwEmit w q' r'" for w q' r'
    using 2 gw_step_subset [OF that] that by auto
  ultimately show ?case by (auto split: gw_step.splits)
qed simp

lemma gw_words_no_escape: "CHR 0x5C \<notin> set s \<Longrightarrow> gw_words no_flags seps {} env q n s \<noteq> GwOob"
proof (induction n arbitrary: q s)
  case (Suc n)
  obtain w q' rest where sc: "gw_scan no_flags seps env q s = Some (w, q', rest)"
    using gw_scan_no_escape [OF Suc.prems, of seps env q] by auto
  define u where "u = (if rest \<noteq> [] \<and> hd rest \<in> seps then tl rest else rest)"
  have "CHR 0x5C \<notin> set u"
    using gw_scan_subset [OF sc] Suc.prems set_tl [of _ rest] by (auto simp: u_def)
  from Suc.IH [OF this] show ?case by (simp add: Let_def sc u_def [symmetric])
qed simp

lemma next_host_ends:
  assumes "n_hosts node = Some hosts" "plain_hosts hosts"
  shows "next_host c node i s \<noteq> None" "length hosts < i \<Longrightarrow> next_host c node i s = Some HOST_END"
proof -
  have "getwordx2 hosts i no_flags {CHR '','', CHR '';''} {} (\<lambda>_. None) \<noteq> GwOob"
    using assms(2) gw_words_no_escape by (simp add: plain_hosts_def getwordx2_def)
  then show n: "next_host c node i s \<noteq> None"
    using assms(1) by (simp add: next_host_def get_host_and_port_def Let_def split: gw_result.splits prod.splits option.splits)
  assume "length hosts < i"
  with host_list_ends [of hosts i "n_fa node" "known_port s" "c_oport c" "x_cfg s"] n assms
  show "next_host c node i s = Some HOST_END" by (auto simp: plain_hosts_def next_host_def)
qed

text \<open>The loops follow their outcomes.\<close>

lemma try_addrs_follows:
  "follows (map (attempt_outcome c (x_exit (cv_s v)) (cv_host v)) as) node v (try_addrs c node as v)"
proof (induction as arbitrary: v)
  case Nil
  then show ?case by (simp add: follows_def)
next
  case (Cons a as)
  define o1 where "o1 = attempt_outcome c (x_exit (cv_s v)) (cv_host v) a"
  define v1 where "v1 err = (named a v)\<lparr>cv_s := call_failed node err (cv_s v)\<rparr>" for err
  have keep: "cv_host (v1 err) = cv_host v" "x_exit (cv_s (v1 err)) = x_exit (cv_s v)" for err
    using call_failed_hosts [of "cv_s v" node err] by (simp_all add: v1_def named_def same_hosts_def split: option.splits)
  consider (pass) "invalid_address a \<or> \<not> ai_socket a"
    | (fail) err where "\<not> (invalid_address a \<or> \<not> ai_socket a)" "\<not> x_exit (cv_s v)"
        "\<not> (c_bindaddr c \<noteq> [] \<and> ai_bind a = Src_other_family)" "ai_connect a = Some err"
    | (stop) "\<not> (invalid_address a \<or> \<not> ai_socket a)"
        "x_exit (cv_s v) \<or> (c_bindaddr c \<noteq> [] \<and> ai_bind a = Src_other_family) \<or> ai_connect a = None"
    by fastforce
  then show ?case
  proof cases
    case pass
    then show ?thesis using Cons.IH [of v] by (simp add: follows_def attempt_outcome_def)
  next
    case fail
    have o: "attempt_outcome c (x_exit (cv_s v)) (cv_host v) a = Failed (connect_error c err)"
      using fail by (auto simp: attempt_outcome_def Let_def)
    have t: "try_addrs c node (a # as) v = try_addrs c node as (v1 (connect_error c err))"
      using fail by (auto simp: v1_def)
    show ?thesis
      using Cons.IH [of "v1 (connect_error c err)"]
      unfolding t by (simp add: o keep follows_def) (simp add: v1_def)
  next
    case stop
    then show ?thesis
      by (auto simp: follows_def attempt_outcome_def named_def Let_def split: option.splits)
  qed
qed

lemma try_host_follows:
  assumes "has_pipe node \<noteq> None \<longrightarrow> cv_dst v = None"
  shows "follows (host_outcomes e c node (x_exit (cv_s v)) i (cv_host v) (cv_port v)) node v (try_host e c node i v)"
proof (cases "has_pipe node")
  case (Some p)
  then show ?thesis using assms by (simp add: try_host_def host_outcomes_def follows_def)
next
  case None
  then show ?thesis
    using try_addrs_follows [of c v _ node]
    by (cases "ce_getaddrinfo e i (cv_host v) (cv_port v)")
      (simp_all add: try_host_def host_outcomes_def, simp add: follows_def)
qed

lemma try_host_frame:
  assumes "try_host e c node i v = (T_none, v1)"
  shows "same_hosts (cv_s v) (cv_s v1)" "has_pipe node \<noteq> None \<Longrightarrow> cv_dst v1 = cv_dst v"
proof -
  show "has_pipe node \<noteq> None \<Longrightarrow> cv_dst v1 = cv_dst v" using assms by (auto simp: try_host_def)
  have "cv_s v1 = cv_s v \<or> (\<exists>errs. cv_s v1 = fold (call_failed node) errs (cv_s v))"
  proof (cases "has_pipe node")
    case Some
    then show ?thesis using assms by (auto simp: try_host_def)
  next
    case None
    then have "follows (host_outcomes e c node (x_exit (cv_s v)) i (cv_host v) (cv_port v)) node v (T_none, v1)"
      using try_host_follows [of node v e c i] assms by simp
    then show ?thesis by (auto simp: follows_def)
  qed
  then show "same_hosts (cv_s v) (cv_s v1)" using failed_hosts by fastforce
qed

lemma hosts_loop_follows:
  assumes h: "n_hosts node = Some hosts" "plain_hosts hosts"
  shows "same_hosts s (cv_s v) \<Longrightarrow> (has_pipe node \<noteq> None \<longrightarrow> cv_dst v = None) \<Longrightarrow> length hosts < i + k \<Longrightarrow>
    \<exists>rv. hosts_loop e c node i v = Some rv \<and> follows (outcomes e c node s k i) node v rv"
proof (induction k arbitrary: i v)
  case 0
  then show ?case
    using next_host_ends(2) [OF h, of i c "cv_s v"]
    by (subst hosts_loop.simps) (simp add: follows_def)
next
  case (Suc k)
  have eq: "next_host c node i (cv_s v) = next_host c node i s" by (rule next_host_same [OF Suc.prems(1)])
  have ex: "x_exit (cv_s v) = x_exit s" using Suc.prems(1) by (simp add: same_hosts_def)
  have len: "length hosts < Suc i + k" using Suc.prems(3) by simp
  obtain hr where hr: "next_host c node i s = Some hr" using next_host_ends(1) [OF h] by fastforce
  show ?case
  proof (cases hr)
    case HOST_END
    then show ?thesis using hr eq by (subst hosts_loop.simps) (simp add: follows_def)
  next
    case HOST_BAD
    then show ?thesis using Suc.IH [OF Suc.prems(1,2) len] hr eq by (subst hosts_loop.simps) simp
  next
    case (HOST n p)
    let ?v = "v\<lparr>cv_host := n, cv_port := p\<rparr>"
    obtain r v1 where t: "try_host e c node i ?v = (r, v1)" by fastforce
    have f: "follows (host_outcomes e c node (x_exit s) i n p) node ?v (r, v1)"
      using try_host_follows [of node ?v e c i] Suc.prems(2) t by (simp add: ex)
    have up: "follows os node ?v rv \<longleftrightarrow> follows os node v rv" for os rv by (simp add: follows_def)
    show ?thesis
    proof (cases "r = T_none")
      case True
      have "same_hosts s (cv_s v1)" "has_pipe node \<noteq> None \<longrightarrow> cv_dst v1 = None"
        using try_host_frame [OF t [unfolded True]] Suc.prems(1,2) by (auto intro: same_hosts_trans)
      from Suc.IH [OF this len] obtain rv where
        rv: "hosts_loop e c node (Suc i) v1 = Some rv" "follows (outcomes e c node s k (Suc i)) node v1 rv" by blast
      have "follows (outcomes e c node s (Suc k) i) node ?v rv"
        using follows_append [OF f [unfolded True] rv(2)] hr HOST by simp
      then show ?thesis
        using rv(1) hr eq HOST t True by (subst hosts_loop.simps) (simp add: up)
    next
      case False
      have "follows (outcomes e c node s (Suc k) i) node ?v (r, v1)"
        using follows_append_end [OF f] False hr HOST by simp
      then show ?thesis using hr eq HOST t False by (subst hosts_loop.simps) (simp add: up)
    qed
  qed
qed

text \<open>
  C10: a call to a node whose host list has no escapes returns, after finitely many attempts, what the first
  attempt that ends the search gives: every failure before it is noted once for the node, in the order of
  the attempts, and the session runs on that link, with the address and the configuration that result; when
  no attempt ends the search, only the failures remain.
\<close>

theorem call_takes_first_link:
  assumes "n_hosts node = Some hosts" "plain_hosts hosts"
  shows "call0 e c node s =
    (let os = outcomes e c node s (length hosts) 1;
         noted = fold (call_failed node) (failures os) s
     in case first_end os of
          Some (Some l, h, p, d) \<Rightarrow>
            if l = L_unconnected then None
            else map_option (\<lambda>r. (True, snd r))
              (protocol (Some node) None (ce_pipe e) (strnzcpy (case d of Some a \<Rightarrow> a | None \<Rightarrow> h) BINKD_FQDNLEN) False
                (ce_sels e) (ce_in_error e) (ce_ios e) noted)
        | _ \<Rightarrow> Some (False, noted))"
proof -
  define v where "v = \<lparr>cv_host = [], cv_port = [], cv_dst = None, cv_s = s\<rparr>"
  have "same_hosts s (cv_s v)" "has_pipe node \<noteq> None \<longrightarrow> cv_dst v = None" "length hosts < 1 + length hosts"
    by (simp_all add: v_def)
  from hosts_loop_follows [OF assms this] obtain r v1 where
    r: "hosts_loop e c node 1 v = Some (r, v1)" "follows (outcomes e c node s (length hosts) 1) node v (r, v1)"
    by fastforce
  have "cv_s v = s" by (simp add: v_def)
  then show ?thesis
    using r by (auto simp: call0_def v_def [symmetric] follows_def Let_def remote_ip_def split: option.splits)
qed

text \<open>Two hosts: the first has no address, the second a wrong one, one that refuses, and a good one.\<close>

definition sample_attempt :: "nat \<Rightarrow> (bool \<times> string) option \<Rightarrow> attempt" where
  "sample_attempt k err = \<lparr>ai_family = AF_INET, ai_addr = [k, 0, 0, 0], ai_name = Some (''10.0.0.1'', ''24554''),
     ai_socket = True, ai_bind = Bind_done, ai_connect = err\<rparr>"

definition sample_net :: call_env where
  "sample_net = \<lparr>ce_getaddrinfo = (\<lambda>i h p. if i = 1 then None
       else Some [sample_attempt 0 None, sample_attempt 10 (Some (False, ''refused'')), sample_attempt 10 None]),
     ce_run3 = (\<lambda>_ _. False), ce_pipe = False, ce_sels = [], ce_in_error = False, ce_ios = []\<rparr>"

definition two_hosts :: FTN_NODE where
  "two_hosts = (new_node ex_link)\<lparr>n_hosts := Some ''a,b''\<rparr>"

lemma two_hosts_next:
  "next_host c two_hosts 1 s = Some (HOST ''a'' (strnzcpy (c_oport c) MAXPORTSTRLEN))"
  "next_host c two_hosts 2 s = Some (HOST ''b'' (strnzcpy (c_oport c) MAXPORTSTRLEN))"
  "next_host c two_hosts 3 s = Some HOST_END"
proof -
  have g: "getwordx2 ''a,b'' 1 no_flags {CHR '','', CHR '';''} {} (\<lambda>_. None) = GwWord ''a''"
    "getwordx2 ''a,b'' 2 no_flags {CHR '','', CHR '';''} {} (\<lambda>_. None) = GwWord ''b''"
    "getwordx2 ''a,b'' 3 no_flags {CHR '','', CHR '';''} {} (\<lambda>_. None) = GwNull"
    by code_simp+
  have h: "n_hosts two_hosts = Some ''a,b''" by (simp add: two_hosts_def)
  show "next_host c two_hosts 1 s = Some (HOST ''a'' (strnzcpy (c_oport c) MAXPORTSTRLEN))"
    "next_host c two_hosts 2 s = Some (HOST ''b'' (strnzcpy (c_oport c) MAXPORTSTRLEN))"
    "next_host c two_hosts 3 s = Some HOST_END"
    using g by (simp_all add: next_host_def get_host_and_port_def h split_host_def index_of_def strnzcpy_def [of "[_]"])
qed

theorem call_takes_first_link_witness:
  "\<forall>c s. call0 sample_net (c\<lparr>c_bindaddr := []\<rparr>) two_hosts (s\<lparr>x_exit := False\<rparr>) =
     map_option (\<lambda>r. (True, snd r)) (protocol (Some two_hosts) None False ''10.0.0.1'' False [] False []
       (call_failed two_hosts ''refused'' (call_failed two_hosts ''Cannot getaddrinfo'' (s\<lparr>x_exit := False\<rparr>))))"
proof (intro allI)
  fix c :: WORK and s :: session
  let ?c = "c\<lparr>c_bindaddr := []\<rparr>" and ?s = "s\<lparr>x_exit := False\<rparr>"
  have n: "n_hosts two_hosts = Some ''a,b''" "plain_hosts ''a,b''" "has_pipe two_hosts = None"
    by (simp_all add: two_hosts_def new_node_def plain_hosts_def one_line_def has_pipe_def)
  have os: "outcomes sample_net ?c two_hosts ?s (length ''a,b'') 1 = [Failed ''Cannot getaddrinfo'', Passed,
      Failed ''refused'', Ended (Some L_connected) ''b'' ''24554'' (Some ''10.0.0.1'')]"
    using n(3) two_hosts_next [of ?c ?s]
    by (simp add: eval_nat_numeral host_outcomes_def sample_net_def attempt_outcome_def sample_attempt_def
        invalid_address_def invalidAddresses_def sockaddr_same_def named_def strnzcpy_def connect_error_def)
  show "call0 sample_net ?c two_hosts ?s =
     map_option (\<lambda>r. (True, snd r)) (protocol (Some two_hosts) None False ''10.0.0.1'' False [] False []
       (call_failed two_hosts ''refused'' (call_failed two_hosts ''Cannot getaddrinfo'' ?s)))"
    unfolding call_takes_first_link [OF n(1,2)] os
    by (simp add: sample_net_def strnzcpy_def)
qed

end
