(* ===== verification/Manager.thy ===== *)
theory Manager
  imports Client
begin

text \<open>
  What the client manager guarantees: the number of calls, the choice of the node, and the end of a poll.
\<close>

section \<open>The children are counted\<close>

definition counted :: "int \<Rightarrow> manager \<Rightarrow> bool" where
  "counted M m \<longleftrightarrow> m_n m = int (length (m_kids m)) \<and> distinct (m_kids m) \<and> m_n m \<le> M"

lemma check_child_counted: "counted M m \<Longrightarrow> counted M (check_child dead m)"
  using chld_result [of 0 dead "m_n m" "m_kids m"]
  by (auto simp: check_child_def counted_def split: option.splits)

lemma check_child_frame [simp]: "m_cfg (check_child dead m) = m_cfg m" "m_w (check_child dead m) = m_w m"
  by (simp_all add: check_child_def split: option.splits prod.splits)

lemma manager_frame [simp]:
  "m_n (sleep t m) = m_n m" "m_kids (sleep t m) = m_kids m" "m_cfg (sleep t m) = m_cfg m"
  "m_n (upd_node_cfg b m) = m_n m" "m_kids (upd_node_cfg b m) = m_kids m" "m_w (upd_node_cfg b m) = m_w m"
  "c_max_clients (m_cfg (upd_node_cfg b m)) = c_max_clients (m_cfg m)" "c_cfg (m_cfg (upd_node_cfg b m)) = b"
  "c_rescan_delay (m_cfg (upd_node_cfg b m)) = c_rescan_delay (m_cfg m)"
  by (simp_all add: sleep_def upd_node_cfg_def upd_cfg_def)

lemma scan_outbound_frame [simp]:
  "m_n (scan_outbound m) = m_n m" "m_kids (scan_outbound m) = m_kids m"
  "c_max_clients (m_cfg (scan_outbound m)) = c_max_clients (m_cfg m)"
  by (simp_all add: scan_outbound_def Let_def split: prod.splits)

lemma counted_simps [simp]: "counted M (sleep t m) = counted M m" "counted M (upd_node_cfg b m) = counted M m"
  "counted M (scan_outbound m) = counted M m"
  by (simp_all add: counted_def)

lemma rescan_wait_counted: "counted M m \<Longrightarrow> counted M (snd (rescan_wait poll left naps m))"
proof (induction naps arbitrary: left m)
  case (Cons z naps)
  obtain dead t where z: "z = (dead, t)" by fastforce
  obtain ro b where q: "q_not_empty (w_time (m_w m)) (c_cfg (m_cfg m)) = (ro, b)" by fastforce
  have "counted M (check_child dead m)" by (rule check_child_counted [OF Cons.prems])
  then show ?case using Cons by (cases ro; cases poll) (simp_all add: z q Let_def)
qed simp

lemma node_free_frame [simp]: "m_n (snd (node_free r m)) = m_n m" "m_kids (snd (node_free r m)) = m_kids m"
  "m_cfg (snd (node_free r m)) = m_cfg m"
  by (simp_all add: node_free_def Let_def split: prod.splits bool.splits)

lemma start_call_counted:
  "counted M m \<Longrightarrow> m_n m < M \<Longrightarrow> tu_pid t \<notin> set (m_kids m) \<Longrightarrow> counted M (snd (start_call t r m))"
  using node_free_frame [of r m]
  by (auto simp: start_call_def counted_def simp del: node_free_frame split: prod.splits bool.splits)

lemma do_client_counted:
  assumes "counted M m" "c_max_clients (m_cfg m) \<le> M" "tu_pid t \<notin> set (m_kids m)"
  shows "counted M (snd (do_client poll t m))"
proof -
  define s where "s = scan_outbound m"
  have s: "counted M s" "c_max_clients (m_cfg s) \<le> M" "tu_pid t \<notin> set (m_kids s)"
    using assms by (simp_all add: s_def)
  show ?thesis
  proof (cases "m_n s < c_max_clients (m_cfg s)")
    case True
    obtain ro b where q: "q_next_node (w_time (m_w s)) (c_cfg (m_cfg s)) = (ro, b)" by fastforce
    have b: "counted M (upd_node_cfg b s)" using s(1) by simp
    show ?thesis
    proof (cases ro)
      case (Some r)
      then show ?thesis
        using start_call_counted [OF b, of t r] s True q by (simp add: do_client_def s_def [symmetric] Let_def)
    next
      case None
      have "counted M (snd (wait_turn poll t (upd_node_cfg b s)))"
        using rescan_wait_counted [OF b, of poll "c_rescan_delay (m_cfg s)" "tu_naps t"]
        by (cases "rescan_wait poll (c_rescan_delay (m_cfg s)) (tu_naps t) (upd_node_cfg b s)")
          (auto simp: wait_turn_def Let_def check_child_counted split: bool.splits)
      then show ?thesis using None True q by (simp add: do_client_def s_def [symmetric] Let_def)
    qed
  next
    case False
    then show ?thesis
      using s(1) by (auto simp: do_client_def s_def [symmetric] Let_def check_child_counted)
  qed
qed

text \<open>
  The states the manager can be in: other processes change the files between its turns, \<^verbatim>\<open>fork\<close> gives the
  number of no other child, and no configuration it reads allows more than \<open>M\<close> calls.
\<close>

inductive managed :: "bool \<Rightarrow> int \<Rightarrow> manager \<Rightarrow> bool" for poll M where
  managed_start: "m_n m = 0 \<Longrightarrow> m_kids m = [] \<Longrightarrow> 0 \<le> M \<Longrightarrow> c_max_clients (m_cfg m) \<le> M \<Longrightarrow> managed poll M m"
| managed_files: "managed poll M m \<Longrightarrow> managed poll M (m\<lparr>m_w := w\<rparr>)"
| managed_turn: "managed poll M m \<Longrightarrow> manager_turn poll t flag hup e m = (r, m') \<Longrightarrow> r \<noteq> Turn_quit \<Longrightarrow>
    tu_pid t \<notin> set (m_kids m) \<Longrightarrow> c_max_clients (m_cfg m') \<le> M \<Longrightarrow> managed poll M m'"

lemma managed_counted: "managed poll M m \<Longrightarrow> counted M m \<and> c_max_clients (m_cfg m) \<le> M"
proof (induction rule: managed.induct)
  case (managed_turn m t flag hup e r m')
  then have "counted M (snd (do_client poll t m))" by (auto intro: do_client_counted)
  then show ?case
    using managed_turn by (auto simp: manager_turn_def reload_def counted_def split: prod.splits if_splits)
qed (simp_all add: counted_def)

text \<open>
  C12: at every moment \<^verbatim>\<open>n_clients\<close> is the number of the calls that are under way (the children that were
  started and not yet waited for), and it never exceeds the number the configurations allow, through
  reloads of the configuration and whatever other processes do.
\<close>

theorem clients_bounded:
  assumes "managed poll M m"
  shows "m_n m = int (length (m_kids m)) \<and> distinct (m_kids m) \<and> m_n m \<le> M"
  using managed_counted [OF assms] by (simp add: counted_def)

section \<open>Which node is called\<close>

definition table_ready :: "BINKD_CONFIG \<Rightarrow> bool" where
  "table_ready b \<longleftrightarrow> nodes_ok b \<and> nNodSorted b \<and> (\<forall>n\<in>set (pNod b). n_hosts n \<noteq> None)"

lemma next_node_table:
  assumes "table_ready b"
  obtains (idle) "q_next_node now b = (None, b)"
      "\<forall>n\<in>set (pNod b). callable now n \<longrightarrow> node_flvr n \<in> {NUL_char, CHR ''H'', CHR ''h''}"
    | (picked) n where "n \<in> set (pNod b)" "callable now n" "node_flvr n \<notin> {NUL_char, CHR ''H'', CHR ''h''}"
      "q_next_node now b = (Some (marked_called n), set_node (marked_called n) b)"
      "\<forall>m\<in>set (pNod b). callable now m \<longrightarrow> flvr_rank (node_flvr n) \<le> flvr_rank (node_flvr m)"
  using assms next_node_picks [of b now] unfolding table_ready_def
  by (cases "q_next_node now b"; cases "fst (q_next_node now b)") auto

lemma bsy_test_grows: "bsy_test fa bt b w = (r, w') \<Longrightarrow> grows w w' \<and> (r \<longrightarrow> \<not> access w' (lock_path fa bt b))"
  using mkpath_grows [of w "lock_path fa bt b"]
  by (auto simp: bsy_test_def Let_def split: if_splits)

lemma node_free_tests:
  assumes "node_free r m = (True, m')"
  shows "\<not> access (m_w m) (lock_path (n_fa r) F_BSY (c_cfg (m_cfg m)))"
    and "\<not> access (m_w m) (lock_path (n_fa r) F_CSY (c_cfg (m_cfg m)))"
proof -
  obtain f1 w1 where b: "bsy_test (n_fa r) F_BSY (c_cfg (m_cfg m)) (m_w m) = (f1, w1)" by fastforce
  obtain f2 w2 where c: "bsy_test (n_fa r) F_CSY (c_cfg (m_cfg m)) w1 = (f2, w2)" by fastforce
  have "f1" "f2" using assms b c by (auto simp: node_free_def Let_def split: bool.splits)
  moreover have "access w' p" if "grows w w'" "access w p" for w w' p
    using that by (auto simp: access_def dest: grows_keeps)
  ultimately show "\<not> access (m_w m) (lock_path (n_fa r) F_BSY (c_cfg (m_cfg m)))"
    "\<not> access (m_w m) (lock_path (n_fa r) F_CSY (c_cfg (m_cfg m)))"
    using bsy_test_grows [OF b] bsy_test_grows [OF c] by (meson grows_trans)+
qed

lemma wait_turn_no_call: "fst (wait_turn poll t m) \<noteq> Turn_call r"
  by (simp add: wait_turn_def Let_def split: prod.splits bool.splits)

text \<open>
  C20: a call is started only while fewer are under way than allowed, for a node that may be called and
  whose mail has the best flavour of all such nodes, at a moment when neither of its flags exists; the node
  is then marked in the table and cannot be picked again before the next scan.
\<close>

theorem called_node_free:
  assumes "do_client poll t m = (Turn_call r, m')" "b = c_cfg (m_cfg (scan_outbound m))" "w = m_w (scan_outbound m)"
    and "table_ready b"
  shows "m_n m < c_max_clients (m_cfg m) \<and> m_n m' = m_n m + 1 \<and> m_kids m' = tu_pid t # m_kids m \<and>
    \<not> access w (lock_path (n_fa r) F_BSY b) \<and> \<not> access w (lock_path (n_fa r) F_CSY b) \<and>
    c_cfg (m_cfg m') = set_node r b \<and> \<not> callable now r \<and>
    (\<exists>n\<in>set (pNod b). callable (w_time w) n \<and> n_fa r = n_fa n \<and> node_flvr n \<notin> {NUL_char, CHR ''H'', CHR ''h''} \<and>
       (\<forall>k\<in>set (pNod b). callable (w_time w) k \<longrightarrow> flvr_rank (node_flvr n) \<le> flvr_rank (node_flvr k)))"
proof -
  define s where "s = scan_outbound m"
  have lt: "m_n m < c_max_clients (m_cfg m)"
    using assms(1) by (auto simp: do_client_def Let_def split: if_splits)
  from assms(4) show ?thesis
  proof (cases rule: next_node_table [where now = "w_time w"])
    case idle
    then have "do_client poll t m = wait_turn poll t (upd_node_cfg b s)"
      using lt assms(2,3) by (simp add: do_client_def s_def Let_def)
    with assms(1) wait_turn_no_call [of poll t "upd_node_cfg b s" r] show ?thesis by simp
  next
    case (picked n)
    let ?r = "marked_called n"
    define u where "u = upd_node_cfg (set_node ?r b) s"
    have d: "do_client poll t m = start_call t ?r u"
      using lt assms(2,3) picked(4) by (simp add: do_client_def s_def u_def Let_def)
    obtain f v where v: "node_free ?r u = (f, v)" by fastforce
    have r: "f" "r = ?r" "m' = v\<lparr>m_n := m_n v + 1, m_kids := tu_pid t # m_kids v\<rparr>"
      using assms(1) d v by (auto simp: start_call_def split: bool.splits if_splits)
    have fr: "m_n v = m_n m" "m_kids v = m_kids m" "m_cfg v = m_cfg u"
      using node_free_frame [of ?r u, unfolded v] by (simp_all add: u_def s_def)
    have "m_w u = w" "c_cfg (m_cfg u) = set_node ?r b" using assms(3) by (simp_all add: u_def s_def)
    moreover have "lock_path fa bt (set_node k b) = lock_path fa bt b" for fa bt k by (simp add: lock_path_def)
    ultimately show ?thesis
      using node_free_tests [of ?r u v] v r fr lt picked by auto
  qed
qed

section \<open>A poll\<close>

lemma next_node_none: "fst (q_next_node now b) = None \<Longrightarrow> q_not_empty now b = q_next_node now b"
  by (cases "q_not_empty now b"; cases "fst (q_not_empty now b)") (simp_all add: q_next_node_def Let_def)

lemma start_call_goes_on: "fst (start_call t r m) \<noteq> Turn_quit"
  by (simp add: start_call_def split: prod.splits bool.splits)

lemma scanned: "q_present (c_cfg (m_cfg m)) \<Longrightarrow> scan_outbound m = m"
  by (simp add: scan_outbound_def)

text \<open>
  C21: when no call of a poll is under way any more, the manager quits in its next turn exactly when no node
  that may be called has more than held mail.
\<close>

theorem poll_ends:
  assumes "table_ready (c_cfg (m_cfg m))" "q_present (c_cfg (m_cfg m))" "m_n m < c_max_clients (m_cfg m)"
    and "0 < c_rescan_delay (m_cfg m)" "tu_naps t = (dead, secs) # naps" "m_n (check_child dead m) \<le> 0"
  shows "fst (do_client True t m) = Turn_quit \<longleftrightarrow>
    (\<forall>n\<in>set (pNod (c_cfg (m_cfg m))). callable (w_time (m_w m)) n \<longrightarrow> node_flvr n \<in> {NUL_char, CHR ''H'', CHR ''h''})"
proof -
  from assms(1) show ?thesis
  proof (cases rule: next_node_table [where now = "w_time (m_w m)"])
    case idle
    have q: "q_not_empty (w_time (m_w m)) (c_cfg (m_cfg m)) = (None, c_cfg (m_cfg m))"
      using idle next_node_none [of "w_time (m_w m)" "c_cfg (m_cfg m)"] by simp
    have "upd_node_cfg (c_cfg (m_cfg m)) m = m" by (simp add: upd_node_cfg_def upd_cfg_def)
    then have "do_client True t m = wait_turn True t m"
      using idle(1) assms(2,3) by (simp add: do_client_def scanned)
    then show ?thesis using idle(2) assms(4-6) q by (simp add: wait_turn_def)
  next
    case (picked n)
    then have "fst (do_client True t m) \<noteq> Turn_quit"
      using assms(2,3) start_call_goes_on by (simp add: do_client_def scanned)
    then show ?thesis using picked(1-3) by blast
  qed
qed

text \<open>The calls of a poll: its turns, between which other processes change the files.\<close>

fun poll_calls :: "(turn \<times> world) list \<Rightarrow> manager \<Rightarrow> FTN_ADDR list" where
  "poll_calls [] m = []"
| "poll_calls ((t, w) # ts) m = (case do_client True t (m\<lparr>m_w := w\<rparr>) of
     (Turn_quit, m') \<Rightarrow> []
   | (Turn_next, m') \<Rightarrow> poll_calls ts m'
   | (Turn_call r, m') \<Rightarrow> n_fa r # poll_calls ts m')"

definition idle_nodes :: "manager \<Rightarrow> FTN_ADDR set" where
  "idle_nodes m = n_fa ` {n \<in> set (pNod (c_cfg (m_cfg m))). n_busy n = NUL_char}"

definition poll_ready :: "manager \<Rightarrow> bool" where
  "poll_ready m \<longleftrightarrow> table_ready (c_cfg (m_cfg m)) \<and> q_present (c_cfg (m_cfg m))"

lemma table_distinct: "table_ready b \<Longrightarrow> distinct (map n_fa (pNod b))"
  by (auto simp: table_ready_def nodes_ok_def distinct_map inj_on_def)

lemma table_mark:
  assumes "table_ready b" "n \<in> set (pNod b)"
  shows "table_ready (set_node (marked_called n) b)"
proof -
  let ?f = "\<lambda>m. if n_fa m = n_fa n then marked_called n else m"
  have fa: "n_fa (?f m) = n_fa m" for m by simp
  have p: "pNod (set_node (marked_called n) b) = map ?f (pNod b)" by (simp add: set_node_def)
  have "map node_key (map ?f (pNod b)) = map node_key (pNod b)" by simp
  moreover have "\<forall>k\<in>set (map ?f (pNod b)). node_pos k \<and> n_hosts k \<noteq> None"
    using assms by (auto simp: table_ready_def nodes_ok_def)
  moreover have "nNodSorted (set_node (marked_called n) b) = nNodSorted b" by (simp add: set_node_def)
  ultimately show ?thesis
    using assms(1) unfolding table_ready_def nodes_ok_def p by metis
qed

lemma idle_mark:
  assumes "table_ready (c_cfg (m_cfg m))" "n \<in> set (pNod (c_cfg (m_cfg m)))" "n_busy n = NUL_char"
    and "c_cfg (m_cfg m') = set_node (marked_called n) (c_cfg (m_cfg m))"
  shows "idle_nodes m' = idle_nodes m - {n_fa n}" "n_fa n \<in> idle_nodes m"
  using assms by (auto simp: idle_nodes_def set_node_def image_iff split: if_splits)

lemma rescan_wait_poll:
  "table_ready (c_cfg (m_cfg m)) \<Longrightarrow> m_cfg (snd (rescan_wait poll left naps m)) = m_cfg m"
proof (induction naps arbitrary: left m)
  case (Cons z naps)
  obtain dead t where z: "z = (dead, t)" by fastforce
  obtain ro b where q: "q_not_empty (w_time (m_w m)) (c_cfg (m_cfg m)) = (ro, b)" by fastforce
  have b: "b = c_cfg (m_cfg m)"
    using q_not_empty_eq [OF table_distinct [OF Cons.prems], of "w_time (m_w m)"] Cons.prems q
    by (auto simp: table_ready_def Let_def)
  have "m_cfg (upd_node_cfg (c_cfg (m_cfg m)) k) = m_cfg m" if "m_cfg k = m_cfg m" for k
    using that by (simp add: upd_node_cfg_def upd_cfg_def)
  then show ?case using Cons b by (cases ro; cases poll) (simp_all add: z q Let_def)
qed simp

lemma poll_step:
  assumes "poll_ready m" "do_client True t m = (r, m')"
  shows "poll_ready m' \<and> (case r of
     Turn_call n \<Rightarrow> n_fa n \<in> idle_nodes m \<and> idle_nodes m' = idle_nodes m - {n_fa n}
   | _ \<Rightarrow> idle_nodes m' \<subseteq> idle_nodes m)"
proof -
  let ?b = "c_cfg (m_cfg m)"
  have b: "table_ready ?b" "q_present ?b" and sc: "scan_outbound m = m"
    using assms(1) by (simp_all add: poll_ready_def scanned)
  have same: ?thesis if "m_cfg m' = m_cfg m" "\<And>n. r \<noteq> Turn_call n"
    using that assms(1) by (cases r) (auto simp: poll_ready_def idle_nodes_def)
  show ?thesis
  proof (cases "m_n m < c_max_clients (m_cfg m)")
    case False
    then have "r = Turn_next" "m_cfg m' = m_cfg m"
      using assms(2) by (auto simp: do_client_def sc Let_def)
    then show ?thesis using same by simp
  next
    case True
    from b(1) show ?thesis
    proof (cases rule: next_node_table [where now = "w_time (m_w m)"])
      case idle
      have u: "upd_node_cfg ?b m = m" by (simp add: upd_node_cfg_def upd_cfg_def)
      have d: "wait_turn True t m = (r, m')"
        using assms(2) True idle(1) u by (simp add: do_client_def sc)
      obtain q v where v: "rescan_wait True (c_rescan_delay (m_cfg m)) (tu_naps t) m = (q, v)" by fastforce
      have "m_cfg v = m_cfg m" using rescan_wait_poll [OF b(1), of True] v by (metis snd_conv)
      then show ?thesis using d v same by (cases q) (auto simp: wait_turn_def Let_def)
    next
      case (picked n)
      let ?r = "marked_called n" and ?u = "upd_node_cfg (set_node (marked_called n) ?b) m"
      have d: "start_call t ?r ?u = (r, m')"
        using assms(2) True picked(4) by (simp add: do_client_def sc)
      obtain f v where v: "node_free ?r ?u = (f, v)" by fastforce
      then have "c_cfg (m_cfg v) = set_node ?r ?b"
        using node_free_frame [of ?r ?u, unfolded v] by simp
      then have c: "c_cfg (m_cfg m') = set_node ?r ?b" "r = Turn_next \<or> r = Turn_call ?r"
        using d v by (auto simp: start_call_def split: bool.splits if_splits)
      have "n_busy n = NUL_char" using picked(2) by (simp add: callable_def)
      note im = idle_mark [OF b(1) picked(1) this c(1)]
      have pr: "poll_ready m'"
        using b c(1) table_mark [OF b(1) picked(1)] by (simp add: poll_ready_def set_node_def)
      from c(2) show ?thesis
      proof
        assume "r = Turn_next"
        then show ?thesis using pr im(1) by (simp add: Diff_subset)
      next
        assume "r = Turn_call ?r"
        then show ?thesis using pr im by simp
      qed
    qed
  qed
qed

text \<open>
  C11: a poll calls every node at most once, and only nodes that were not marked when it began, however many
  turns it takes and whatever other processes do to the files meanwhile.
\<close>

theorem poll_calls_each_once:
  assumes "table_ready (c_cfg (m_cfg m))" "q_present (c_cfg (m_cfg m))"
  shows "distinct (poll_calls ts m) \<and> set (poll_calls ts m) \<subseteq> idle_nodes m"
proof -
  have "poll_ready m" using assms by (simp add: poll_ready_def)
  then show ?thesis
  proof (induction ts arbitrary: m)
    case (Cons tw ts)
    obtain t w where tw: "tw = (t, w)" by fastforce
    obtain r m' where d: "do_client True t (m\<lparr>m_w := w\<rparr>) = (r, m')" by fastforce
    have "poll_ready (m\<lparr>m_w := w\<rparr>)" using Cons.prems by (simp add: poll_ready_def)
    note st = poll_step [OF this d]
    have i: "idle_nodes (m\<lparr>m_w := w\<rparr>) = idle_nodes m" by (simp add: idle_nodes_def)
    show ?case using st Cons.IH [of m'] by (cases r) (auto simp: tw d i)
  qed simp
qed

section \<open>Samples\<close>

text \<open>One node with mail, its outbound directory, and a turn in which \<^verbatim>\<open>fork\<close> works.\<close>

definition sample_mail :: FTN_NODE where
  "sample_mail = (new_node ex_link)\<lparr>n_hosts := Some ''*'', n_mail_flvr := CHR ''f''\<rparr>"

definition one_node :: BINKD_CONFIG where
  "one_node = sample_cfg\<lparr>pNod := [sample_mail], nNodSorted := True, q_present := True\<rparr>"

definition sample_files :: world where
  "sample_files = empty_world\<lparr>w_files := [(''/var/spool/outb'', Dir)], w_time := 5\<rparr>"

definition plain_env :: cfg_env where
  "plain_env = \<lparr>e_w = empty_world, e_getenv = (\<lambda>_. None), e_service = (\<lambda>_. False), e_dev = (\<lambda>_. 0),
     e_facility = (\<lambda>_. None), e_quiet = False, e_verbose = 0\<rparr>"

definition sample_manager :: "BINKD_CONFIG \<Rightarrow> manager" where
  "sample_manager b = \<lparr>m_w = sample_files, m_cfg = upd_cfg (\<lambda>_. b) (lock_config_structure plain_env),
     m_n = 0, m_kids = []\<rparr>"

definition sample_turn :: turn where
  "sample_turn = \<lparr>tu_pid = 17, tu_naps = [([], 5)], tu_dead = [], tu_dead2 = [], tu_delay = 0\<rparr>"

lemma sample_manager_simps [simp]:
  "m_w (sample_manager b) = sample_files" "c_cfg (m_cfg (sample_manager b)) = b" "m_n (sample_manager b) = 0"
  "m_kids (sample_manager b) = []" "c_max_clients (m_cfg (sample_manager b)) = 100"
  "c_rescan_delay (m_cfg (sample_manager b)) = 60"
  by (simp_all add: sample_manager_def upd_cfg_def lock_config_structure_def Let_def)

lemma one_node_ready: "table_ready one_node" "q_present one_node"
  by (simp_all add: table_ready_def one_node_def nodes_ok_def sample_mail_def new_node_def ex_link_def addr_pos_def nul_free_def)

lemma sample_flag_free: "bt \<in> {F_BSY, F_CSY} \<Longrightarrow> bsy_test ex_link bt (set_node n one_node) sample_files = (True, sample_files)"
proof -
  assume bt: "bt \<in> {F_BSY, F_CSY}"
  define p where "p = lock_path ex_link bt (set_node n one_node)"
  have "p = lock_path ex_link bt sample_cfg" by (simp add: p_def lock_path_def set_node_def one_node_def)
  then have p: "p = ''/var/spool/outb/00020003.bsy'' \<or> p = ''/var/spool/outb/00020003.csy''"
    using bt by (auto simp: lock_path_def ex_filename strnzcat_def strnzcpy_def)
  have "mkpath p sample_files = (True, sample_files)" "\<not> access sample_files p"
    using p by (auto simp: mkpath_def strnzcpy_def last_slash_def mkpath0.simps sample_files_def empty_world_def stat_def access_def)
  then show ?thesis using p by (auto simp: bsy_test_def p_def [symmetric])
qed

lemma sample_call:
  "do_client poll sample_turn (sample_manager one_node) = (Turn_call (marked_called sample_mail),
     (sample_manager (set_node (marked_called sample_mail) one_node))\<lparr>m_n := 1, m_kids := [17]\<rparr>)"
proof -
  let ?r = "marked_called sample_mail"
  have q: "q_next_node 5 one_node = (Some ?r, set_node ?r one_node)"
    using one_node_ready(1)
  proof (cases rule: next_node_table [where now = 5])
    case idle
    then show ?thesis by (simp add: one_node_def callable_def sample_mail_def node_flvr_def new_node_def MAXFLVR_def flvr_rank_def prio_def)
  next
    case (picked n)
    then show ?thesis by (simp add: one_node_def)
  qed
  have t: "w_time sample_files = 5" by (simp add: sample_files_def)
  have fa: "n_fa sample_mail = ex_link" by (simp add: sample_mail_def new_node_def)
  have u: "upd_node_cfg b (sample_manager b') = sample_manager b" for b b'
    by (simp add: upd_node_cfg_def sample_manager_def upd_cfg_def)
  have "node_free ?r (sample_manager (set_node ?r one_node)) = (True, sample_manager (set_node ?r one_node))"
    using sample_flag_free [of _ ?r] by (simp add: node_free_def Let_def fa)
  then show ?thesis
    using one_node_ready(2) q by (simp add: do_client_def scanned t u start_call_def sample_turn_def)
qed

theorem clients_bounded_witness:
  "\<exists>m. managed True 100 m \<and> m_n m = 1 \<and> m_n m = int (length (m_kids m)) \<and> distinct (m_kids m) \<and> m_n m \<le> 100"
proof -
  let ?m = "(sample_manager (set_node (marked_called sample_mail) one_node))\<lparr>m_n := 1, m_kids := [17]\<rparr>"
  have "managed True 100 (sample_manager one_node)" by (rule managed_start) simp_all
  then have "managed True 100 ?m"
    by (rule managed_turn [where t = sample_turn and e = plain_env and flag = False and hup = False])
      (simp_all add: manager_turn_def sample_call, simp add: sample_turn_def)
  then show ?thesis using clients_bounded [of True 100 ?m] by (intro exI [of _ ?m]) simp
qed

theorem called_node_free_witness:
  "\<exists>n\<in>set (pNod one_node). callable 5 n \<and> n_fa n = ex_link \<and> \<not> access sample_files (lock_path ex_link F_BSY one_node)"
proof -
  have sc: "scan_outbound (sample_manager one_node) = sample_manager one_node"
    by (rule scanned) (simp add: one_node_ready(2))
  have fa: "n_fa (marked_called sample_mail) = ex_link" by (simp add: sample_mail_def new_node_def)
  have "w_time sample_files = 5" by (simp add: sample_files_def)
  then show ?thesis
    using called_node_free [OF sample_call [of True] refl refl] one_node_ready(1) unfolding sc fa by auto
qed

theorem poll_ends_witness:
  "fst (do_client True sample_turn (sample_manager (one_node\<lparr>pNod := []\<rparr>))) = Turn_quit"
proof -
  let ?m = "sample_manager (one_node\<lparr>pNod := []\<rparr>)"
  have "table_ready (c_cfg (m_cfg ?m))" "q_present (c_cfg (m_cfg ?m))"
    by (simp_all add: table_ready_def nodes_ok_def one_node_def)
  from poll_ends [OF this, of sample_turn "[]" 5 "[]"] show ?thesis
    by (simp add: sample_turn_def check_child_def)
qed

theorem poll_calls_each_once_witness:
  "poll_calls [(sample_turn, sample_files), (sample_turn, sample_files)] (sample_manager one_node) = [ex_link]"
proof -
  let ?cs = "poll_calls [(sample_turn, sample_files), (sample_turn, sample_files)] (sample_manager one_node)"
  have "distinct ?cs \<and> set ?cs \<subseteq> idle_nodes (sample_manager one_node)"
    by (rule poll_calls_each_once) (simp_all add: one_node_ready)
  moreover have "idle_nodes (sample_manager one_node) \<subseteq> {ex_link}"
    by (auto simp: idle_nodes_def one_node_def sample_mail_def new_node_def)
  moreover have "(sample_manager one_node)\<lparr>m_w := sample_files\<rparr> = sample_manager one_node"
    by (simp add: sample_manager_def)
  then obtain rest where "?cs = ex_link # rest"
    by (simp add: sample_call) (simp add: sample_mail_def new_node_def)
  ultimately show ?thesis by (cases rest) (auto simp del: poll_calls.simps)
qed

end
