(* ===== verification/Release.thy ===== *)
theory Release
  imports Access Framing Calls
begin

text \<open>
  The flags at the end: a session removes the busy flags of all addresses it worked for, whatever happened in
  it, and a call removes its call flag.
\<close>

section \<open>To the end of a session\<close>

lemma run_loop_inv: "run_loop sels s = Some s' \<Longrightarrow> login_inv lk s \<Longrightarrow> input_ok s \<Longrightarrow> login_inv lk s'"
proof (induction sels arbitrary: s)
  case (Cons sel sels)
  then obtain go s1 where s1: "loop_step sel s = Some (go, s1)" by (auto split: option.splits)
  note i = loop_step_inv [OF s1 Cons.prems(2,3)]
  show ?case
  proof (cases go)
    case True
    then show ?thesis using Cons i s1 by simp
  next
    case False
    then show ?thesis using Cons.prems(1) i s1 by simp
  qed
qed simp

lemma core_drain: "drain ios s = Some s' \<Longrightarrow> core s' = core s"
proof (induction ios arbitrary: s)
  case Nil
  then show ?case by (simp add: drain.simps split: if_splits)
next
  case (Cons io ios)
  show ?case
  proof (cases "s_io_error s \<or> (s_msgs s = [] \<and> s_obuf s = [])")
    case True
    then show ?thesis using Cons.prems by (simp add: drain.simps)
  next
    case False
    then obtain r s1 where s1: "send_block io s = Some (r, s1)"
      using Cons.prems by (auto simp: drain.simps split: option.splits)
    then have "s' = s1 \<or> drain ios s1 = Some s'"
      using Cons.prems False by (cases r) (auto simp: drain.simps [of "io # ios"])
    then show ?thesis using Cons.IH core_send_block [OF s1] by auto
  qed
qed

lemma core_good_end: "good_end s = Some s' \<Longrightarrow> core s' = core s"
  by (auto simp: good_end_def split: option.splits dest!: core_inb_remove_partial)

lemma core_bad_end [simp]: "core (bad_end s) = core s"
  by (simp add: bad_end_def Let_def split: option.split)

lemma core_hold [simp]: "core (hold_if_skipped s) = core s"
  by (simp add: hold_if_skipped_def split: option.split)

lemma after_loop_drops:
  assumes "after_loop in_error ios s0 = Some (ok, s)"
  obtains t where "core t = core s0" "s = fold drop_busy (take (s_nfa t) (s_fa t)) t"
proof -
  obtain s1 where d: "drain ios (s0\<lparr>s_io_error := s_io_error s0 \<or> in_error\<rparr>) = Some s1"
    using assms by (auto simp: after_loop_def split: option.splits)
  obtain s2 where e: "(if session_ok s1 then good_end s1 else Some (bad_end s1)) = Some s2"
    using assms d by (auto simp: after_loop_def split: option.splits)
  obtain t where t: "close_partial (hold_if_skipped s2) = Some t" "s = fold drop_busy (take (s_nfa t) (s_fa t)) t"
    using assms d e by (auto simp: after_loop_def deinit_protocol_def)
  have "core s2 = core s1" using e core_good_end by (auto split: if_splits)
  then have "core t = core s0" using core_drain [OF d] core_close_partial [OF t(1)] by simp
  then show thesis using that t(2) by blast
qed

lemma protocol_drops:
  assumes "protocol to fa is_pipe ip full sels in_error ios e = Some (ok, s)" "kept lk (x_bsy e)"
  obtains t where "login_inv lk t" "s = fold drop_busy (take (s_nfa t) (s_fa t)) t"
proof -
  let ?e = "init_protocol to fa is_pipe ip e"
  have i: "login_inv lk ?e" "input_ok ?e" "\<not> s_YES_CRYPT ?e" using init_inv [OF assms(2)] by simp_all
  obtain go b where b: "banner ?e = Some (go, b)" using assms(1) by (auto simp: protocol_def split: option.splits)
  note bi = banner_inv [OF b i]
  obtain u where u: "login_inv lk u" "after_loop in_error ios u = Some (ok, s)"
  proof (cases "go \<and> \<not> (full \<and> to = None)")
    case True
    then obtain s1 where "run_loop sels b = Some s1" "after_loop in_error ios s1 = Some (ok, s)"
      using assms(1) b by (auto simp: protocol_def split: option.splits)
    then show ?thesis using that run_loop_inv bi by blast
  next
    case False
    then have "after_loop in_error ios b = Some (ok, s) \<or>
        after_loop in_error ios (msg_send2 M_BSY ''Too many servers'' [] b) = Some (ok, s)"
      using assms(1) b by (cases go) (auto simp: protocol_def)
    then show ?thesis using that [of b] that [of "msg_send2 M_BSY ''Too many servers'' [] b"] bi by auto
  qed
  obtain t where t: "core t = core u" "s = fold drop_busy (take (s_nfa t) (s_fa t)) t" by (rule after_loop_drops [OF u(2)])
  show thesis using that login_inv_coreI [OF u(1) t(1)] t(2) by blast
qed

section \<open>Dropping the flags\<close>

text \<open>A flag is dropped by removing things only.\<close>

definition loses :: "world \<Rightarrow> world \<Rightarrow> bool" where
  "loses w w' \<longleftrightarrow> (\<forall>p. stat w' p = stat w p \<or> stat w' p = None) \<and> w_denied w' = w_denied w"

lemma loses_refl [simp]: "loses w w"
  by (simp add: loses_def)

lemma loses_trans: "loses w w1 \<Longrightarrow> loses w1 w2 \<Longrightarrow> loses w w2"
  unfolding loses_def by metis

lemma loses_delete: "loses w (snd (delete p w))"
  by (auto simp: loses_def delete_def unlink_def stat_def fs_del_def delete_conv split: option.splits fentry.splits)

lemma loses_cut: "loses (snd bw) (snd (cut_rmdir c bw))"
  by (auto simp: loses_def cut_rmdir_def rmdir_def stat_def fs_del_def delete_conv split: option.splits fentry.splits)

lemma loses_drop: "loses w (drop_lock cfg fb w)"
proof -
  define b where "b = lock_path (fst fb) (snd fb) cfg"
  define w1 where "w1 = snd (delete b w)"
  have 1: "loses w w1" unfolding w1_def by (rule loses_delete)
  moreover have "loses w1 (snd (cut_rmdir c (b, w1)))" for c using loses_cut [of "(b, w1)" c] by simp
  moreover have "loses (snd (cut_rmdir c (b, w1))) (snd (cut_rmdir d (cut_rmdir c (b, w1))))" for c d by (rule loses_cut)
  ultimately have "loses w (snd (cut_rmdir d (cut_rmdir c (b, w1))))" for c d by (blast intro: loses_trans)
  with 1 show ?thesis unfolding drop_lock_def Let_def b_def [symmetric] w1_def [symmetric] by (simp split: if_splits)
qed

lemma loses_file: "loses w w' \<Longrightarrow> is_file w' p \<Longrightarrow> is_file w p"
proof -
  assume l: "loses w w'" and f: "is_file w' p"
  have "stat w' p \<noteq> None" using f by (auto simp: is_file_def split: option.splits)
  then have "stat w' p = stat w p" using l by (auto simp: loses_def)
  then show "is_file w p" using f is_file_stat by blast
qed

lemma loses_denied: "loses w w' \<Longrightarrow> denied w' p = denied w p"
  by (simp add: loses_def)

lemma drop_lock_removed: "\<not> denied w (lock_key cfg a) \<Longrightarrow> \<not> is_file (drop_lock cfg a w) (lock_key cfg a)"
  using drop_lock_gone [of w a cfg] loses_file [OF loses_drop, of cfg a w "lock_key cfg a"]
  by (auto simp: is_file_def)

text \<open>What is taken out of the table.\<close>

lemma free_cell_drops:
  "free_cell fa bt l = Some l' \<Longrightarrow> c \<in> set l \<Longrightarrow> c \<in> set l' \<or> (ftnaddress_cmp (b_fa c) fa = 0 \<and> b_bt c = bt)"
  by (induction l arbitrary: l') (auto split: if_splits)

lemma drop_busy_frame [simp]: "x_cfg (drop_busy a s) = x_cfg s" "s_fa (drop_busy a s) = s_fa s" "s_nfa (drop_busy a s) = s_nfa s"
  by (simp_all add: drop_busy_def split: prod.split)

lemma drops_frame [simp]: "x_cfg (fold drop_busy as s) = x_cfg s" "s_fa (fold drop_busy as s) = s_fa s"
  "s_nfa (fold drop_busy as s) = s_nfa s"
  by (induction as arbitrary: s) simp_all

lemma bsy_remove_loses: "loses w (fst (bsy_remove fa bt cfg (w, l)))"
  by (auto simp: bsy_remove_def loses_drop split: option.split)

lemma drop_busy_loses: "loses (x_w s) (x_w (drop_busy a s))"
  using bsy_remove_loses [of "x_w s" a F_BSY "x_cfg s" "x_bsy s"]
  by (cases "bsy_remove a F_BSY (x_cfg s) (x_w s, x_bsy s)") (simp add: drop_busy_def)

lemma drops_lose: "loses (x_w s) (x_w (fold drop_busy as s))"
  by (induction as arbitrary: s) (auto intro: loses_trans drop_busy_loses)

text \<open>A flag in the table is removed from the files when its cell leaves the table.\<close>

definition flag_held :: "FTN_ADDR \<Rightarrow> session \<Rightarrow> bool" where
  "flag_held a s \<longleftrightarrow> \<lparr>b_fa = a, b_bt = F_BSY\<rparr> \<in> set (x_bsy s) \<or> \<not> is_file (x_w s) (lock_path a F_BSY (x_cfg s))"

lemma drop_busy_self:
  assumes "flag_held a s" "lock_path a F_BSY (x_cfg s) \<noteq> []" "\<not> denied (x_w s) (lock_path a F_BSY (x_cfg s))"
  shows "\<not> is_file (x_w (drop_busy a s)) (lock_path a F_BSY (x_cfg s))"
proof (cases "free_cell a F_BSY (x_bsy s)")
  case None
  then have "\<not> is_file (x_w s) (lock_path a F_BSY (x_cfg s))"
    using assms(1) free_cell_finds [of a F_BSY "x_bsy s"] by (auto simp: flag_held_def)
  then show ?thesis using loses_file [OF drop_busy_loses] by blast
next
  case (Some l)
  then show ?thesis
    using assms(2,3) drop_lock_removed [of "(a, F_BSY)" "x_cfg s" "x_w s"]
    by (simp add: drop_busy_def bsy_remove_def)
qed

lemma drop_busy_other:
  assumes "flag_held a s" "addr_int32 a" "addr_int32 b" "\<not> denied (x_w s) (lock_path a F_BSY (x_cfg s))"
  shows "flag_held a (drop_busy b s)"
proof (cases "is_file (x_w s) (lock_path a F_BSY (x_cfg s))")
  case False
  then show ?thesis using loses_file [OF drop_busy_loses] by (auto simp: flag_held_def)
next
  case True
  let ?c = "\<lparr>b_fa = a, b_bt = F_BSY\<rparr>"
  have c: "?c \<in> set (x_bsy s)" using assms(1) True by (simp add: flag_held_def)
  show ?thesis
  proof (cases "lock_path b F_BSY (x_cfg s) = [] \<or> free_cell b F_BSY (x_bsy s) = None")
    case True
    then show ?thesis using c by (auto simp: flag_held_def drop_busy_def bsy_remove_def)
  next
    case False
    then obtain l where l: "free_cell b F_BSY (x_bsy s) = Some l" by auto
    have d: "x_bsy (drop_busy b s) = l" "x_w (drop_busy b s) = drop_lock (x_cfg s) (b, F_BSY) (x_w s)"
      using False l by (simp_all add: drop_busy_def bsy_remove_def)
    show ?thesis
    proof (cases "?c \<in> set l")
      case True
      then show ?thesis using d by (simp add: flag_held_def)
    next
      case False
      then have "ftnaddress_cmp a b = 0" using free_cell_drops [OF l c] by simp
      from same_lock_path [OF assms(2,3) this, of F_BSY "x_cfg s"] show ?thesis
        using assms(4) drop_lock_removed [of "(b, F_BSY)" "x_cfg s" "x_w s"] by (simp add: flag_held_def d)
    qed
  qed
qed

lemma drops_release:
  "a \<in> set as \<Longrightarrow> flag_held a s \<Longrightarrow> list_all addr_int32 as \<Longrightarrow> lock_path a F_BSY (x_cfg s) \<noteq> [] \<Longrightarrow>
   \<not> denied (x_w s) (lock_path a F_BSY (x_cfg s)) \<Longrightarrow> \<not> is_file (x_w (fold drop_busy as s)) (lock_path a F_BSY (x_cfg s))"
proof (induction as arbitrary: s)
  case (Cons b as)
  let ?p = "lock_path a F_BSY (x_cfg s)" and ?t = "drop_busy b s"
  have nd: "\<not> denied (x_w ?t) ?p" using Cons.prems(5) loses_denied [OF drop_busy_loses] by blast
  show ?case
  proof (cases "a = b")
    case True
    then have "\<not> is_file (x_w ?t) ?p" using drop_busy_self Cons.prems(2,4,5) by simp
    then show ?thesis using loses_file [OF drops_lose [of ?t as]] by auto
  next
    case False
    then have "a \<in> set as" using Cons.prems(1) by simp
    moreover have "addr_int32 a" "addr_int32 b" using Cons.prems(1,3) by (auto simp: list_all_iff)
    moreover note drop_busy_other [OF Cons.prems(2) this Cons.prems(5)]
    ultimately show ?thesis using Cons.IH [of ?t] Cons.prems(3,4) nd by simp
  qed
qed simp

text \<open>
  C9: when a session is over, no busy flag of an address it worked for is left, whether it ended well or
  not and whatever the remote and the network did.
\<close>

theorem session_releases_flags:
  assumes "protocol to fa is_pipe ip full sels in_error ios e = Some (ok, s)"
    and "a \<in> set (take (s_nfa s) (s_fa s))" "list_all addr_int32 (take (s_nfa s) (s_fa s))"
    and "lock_path a F_BSY (x_cfg s) \<noteq> []" "\<not> denied (x_w s) (lock_path a F_BSY (x_cfg s))"
  shows "\<not> is_file (x_w s) (lock_path a F_BSY (x_cfg s))"
proof -
  obtain t where t: "login_inv {} t" "s = fold drop_busy (take (s_nfa t) (s_fa t)) t"
    using protocol_drops [OF assms(1), of "{}"] by (auto simp: kept_def)
  have eq: "x_cfg s = x_cfg t" "s_fa s = s_fa t" "s_nfa s = s_nfa t" using t(2) by simp_all
  have "\<lparr>b_fa = a, b_bt = F_BSY\<rparr> \<in> set (x_bsy t)" using t(1) assms(2) by (simp add: login_inv_def eq)
  then have "flag_held a t" by (simp add: flag_held_def)
  moreover have "\<not> denied (x_w t) (lock_path a F_BSY (x_cfg t))"
    using assms(5) loses_denied [OF drops_lose [of t]] t(2) by (simp add: eq)
  ultimately show ?thesis using drops_release [of a "take (s_nfa t) (s_fa t)" t] assms(2-4) t(2) by (simp add: eq)
qed

section \<open>A session for the example\<close>

text \<open>A session that heard one address loses the connection.\<close>

lemma early_end:
  assumes "early w b fas s" "s_io_error s"
  shows "\<exists>s'. after_loop False [] s = Some (False, fold drop_busy fas s') \<and> early w b fas s'"
proof -
  have "drain [] (s\<lparr>s_io_error := s_io_error s \<or> False\<rparr>) = Some s" using assms(2) by (simp add: drain.simps)
  moreover have "\<not> session_ok s" "bad_end s = s" "hold_if_skipped s = s" "close_partial s = Some s"
    using assms(1) by (simp_all add: session_ok_def early_def bad_end_def process_killlist_def hold_if_skipped_def close_partial_def TF_ZERO_def Let_def)
  ultimately have "after_loop False [] s = Some (False, fold drop_busy fas s)"
    using assms(1) by (simp add: after_loop_def deinit_protocol_def early_def)
  then show ?thesis using assms(1) by blast
qed

theorem session_releases_flags_witness:
  "\<exists>ip ok s. protocol None None False ip False [Sel_ready (Some (Got (mkhdr (14 OR 0x8000)))) None,
       Sel_ready (Some (Got (1 # bytes_of ''2:2/3@fidonet''))) None, Sel_error ''broken''] False []
       (sample_session\<lparr>x_cfg := open_cfg\<rparr>) = Some (ok, s) \<and>
     set (s_fa s) = {ex_link} \<and> \<not> is_file (x_w s) ''/var/spool/outb/00020003.bsy''"
proof -
  let ?h = "mkhdr (14 OR 0x8000)"
  let ?b = "[\<lparr>b_fa = ex_link, b_bt = F_BSY\<rparr>]"
  let ?m = "1 # bytes_of ''2:2/3@fidonet''"
  obtain s0 s1 s2 w where b: "banner (init_protocol None None False ex_ip (sample_session\<lparr>x_cfg := open_cfg\<rparr>)) = Some (True, s0)"
    and r1: "loop_step (Sel_ready (Some (Got ?h)) None) s0 = Some (True, s1)"
    and r2: "loop_step (Sel_ready (Some (Got ?m)) None) s1 = Some (True, s2)"
    and s2: "early w ?b [ex_link] s2" and w: "\<not> denied w ''/var/spool/outb/00020003.bsy''" by (rule early_rounds)
  obtain w2 where t2: "early w2 ?b [ex_link] (touch_busy s2)" "w_denied w2 = w_denied w" using early_touch(1) [OF s2] by blast
  let ?u = "io_failed ''broken'' (touch_busy s2)"
  have u: "early w2 ?b [ex_link] ?u" "s_io_error ?u"
    using t2(1) by (simp_all add: io_failed_def Let_def note_bad_try_def early_def)
  obtain s4 where s4: "after_loop False [] ?u = Some (False, fold drop_busy [ex_link] s4)" "early w2 ?b [ex_link] s4"
    using early_end [OF u] by blast
  let ?s = "fold drop_busy [ex_link] s4"
  have p: "protocol None None False ex_ip False [Sel_ready (Some (Got ?h)) None, Sel_ready (Some (Got ?m)) None, Sel_error ''broken'']
      False [] (sample_session\<lparr>x_cfg := open_cfg\<rparr>) = Some (False, ?s)"
    using b r1 r2 early_round(2) [OF s2, of "''broken''"] s4(1) by (simp add: protocol_def)
  have f: "x_cfg s4 = open_cfg" "s_fa s4 = [ex_link]" "s_nfa s4 = 1" "x_w s4 = w2" using s4(2) by (simp_all add: early_def)
  have fs: "x_cfg ?s = open_cfg" "s_fa ?s = [ex_link]" "s_nfa ?s = 1" using f by (simp_all only: drops_frame)
  have d: "\<not> denied (x_w ?s) (lock_path ex_link F_BSY open_cfg)"
    using loses_denied [OF drops_lose [of s4 "[ex_link]"]] w t2(2) f(4) by (simp add: ex_link_path)
  have a: "addr_int32 ex_link" "lock_path ex_link F_BSY open_cfg \<noteq> []" by (simp_all add: ex_link_path ex_int32)
  have "\<not> is_file (x_w ?s) (lock_path ex_link F_BSY (x_cfg ?s))"
    by (rule session_releases_flags [OF p]) (use fs d a in \<open>simp_all\<close>)
  then show ?thesis using p fs ex_link_path by (intro exI [of _ ex_ip] exI [of _ False] exI [of _ ?s]) simp
qed

section \<open>The call flag\<close>

lemma drop_busy_keeps: "c \<in> set (x_bsy s) \<Longrightarrow> b_bt c \<noteq> F_BSY \<Longrightarrow> c \<in> set (x_bsy (drop_busy a s))"
  using free_cell_drops by (fastforce simp: drop_busy_def bsy_remove_def split: option.split)

lemma drops_keep: "c \<in> set (x_bsy s) \<Longrightarrow> b_bt c \<noteq> F_BSY \<Longrightarrow> c \<in> set (x_bsy (fold drop_busy as s))"
  by (induction as arbitrary: s) (simp_all add: drop_busy_keeps)

lemma call_failed_bsy [simp]: "x_bsy (fold (call_failed node) errs s) = x_bsy s"
  by (induction errs arbitrary: s) (simp_all add: call_failed_def)

lemma try_addrs_bsy: "x_bsy (cv_s (snd (try_addrs c node as v))) = x_bsy (cv_s v)"
  using try_addrs_follows [of c v as node] by (simp add: follows_def)

lemma try_host_bsy: "x_bsy (cv_s (snd (try_host e c node i v))) = x_bsy (cv_s v)"
  using try_addrs_bsy call_failed_bsy [of node "[_]"]
  by (auto simp: try_host_def split: option.split)

lemma hosts_loop_bsy:
  assumes "hosts_loop e c node i v = Some rv"
  shows "x_bsy (cv_s (snd rv)) = x_bsy (cv_s v)"
proof (rule hosts_loop.raw_induct [where P = "\<lambda>e c node i v rv. x_bsy (cv_s (snd rv)) = x_bsy (cv_s v)", OF _ assms], goal_cases)
  case (1 loop e c node i v rv)
  note IH = 1(1)
  show ?case
  proof (cases "next_host c node i (cv_s v)")
    case None
    then show ?thesis using 1(2) by simp
  next
    case (Some hr)
    show ?thesis
    proof (cases hr)
      case HOST_END
      then show ?thesis using 1(2) Some by auto
    next
      case HOST_BAD
      then show ?thesis using 1(2) Some IH by simp
    next
      case (HOST h p)
      obtain r v1 where t: "try_host e c node i (v\<lparr>cv_host := h, cv_port := p\<rparr>) = (r, v1)" by fastforce
      have b: "x_bsy (cv_s v1) = x_bsy (cv_s v)"
        using try_host_bsy [of e c node i "v\<lparr>cv_host := h, cv_port := p\<rparr>"] t by simp
      have "(if r = T_none then loop e c node (Suc i) v1 else Some (r, v1)) = Some rv"
        using 1(2) Some HOST t by simp
      then show ?thesis using IH b by (cases "r = T_none") auto
    qed
  qed
qed

lemma call0_keeps:
  assumes "call0 e c node s = Some (r, s')" "f \<in> set (x_bsy s)" "\<not> FA_ISNULL (b_fa f)" "b_bt f \<noteq> F_BSY"
  shows "f \<in> set (x_bsy s')"
proof -
  let ?v = "\<lparr>cv_host = [], cv_port = [], cv_dst = None, cv_s = s\<rparr>"
  obtain t v where h: "hosts_loop e c node 1 ?v = Some (t, v)"
    using assms(1) by (auto simp: call0_def split: option.splits)
  have f: "f \<in> set (x_bsy (cv_s v))" using hosts_loop_bsy [OF h] assms(2) by simp
  show ?thesis
  proof (cases "\<exists>l. t = T_link l")
    case True
    then obtain ok where p: "protocol (Some node) None (ce_pipe e) (remote_ip v) False (ce_sels e) (ce_in_error e) (ce_ios e) (cv_s v) = Some (ok, s')"
      using assms(1) h by (auto simp: call0_def split: if_splits)
    have "kept {f} (x_bsy (cv_s v))" using f by (simp add: kept_def)
    from protocol_drops [OF p this] obtain u where
      u: "login_inv {f} u" "s' = fold drop_busy (take (s_nfa u) (s_fa u)) u" by blast
    then show ?thesis using assms(3,4) drops_keep [of f u] by (simp add: login_inv_def kept_def)
  next
    case False
    then have "s' = cv_s v" using assms(1) h by (cases t) (auto simp: call0_def)
    then show ?thesis using f by simp
  qed
qed

text \<open>
  C22: a call that got the call flag of its node runs its session with the flag in the table, and when it
  returns the flag is gone: however the attempts and the session went, the node can be called again.
\<close>

theorem call_releases_flag:
  assumes "call e c node s = Some (True, s')" "\<not> FA_ISNULL (n_fa node)"
    and "lock_path (n_fa node) F_CSY (x_cfg s') \<noteq> []" "\<not> denied (x_w s') (lock_path (n_fa node) F_CSY (x_cfg s'))"
  shows "\<not> is_file (x_w s') (lock_path (n_fa node) F_CSY (x_cfg s'))"
proof -
  let ?f = "\<lparr>b_fa = n_fa node, b_bt = F_CSY\<rparr>"
  obtain ok w b where a: "bsy_add (n_fa node) F_CSY (x_cfg s) (x_w s, x_bsy s) = (ok, w, b)" by (metis prod_cases3)
  have ok: "ok" using assms(1) a by (cases ok) (auto simp: call_def)
  then have f: "?f \<in> set b" using a get_free_cell_mem by (auto simp: bsy_add_def split: prod.splits)
  obtain r s1 where c: "call0 e c node (s\<lparr>x_w := w, x_bsy := b\<rparr>) = Some (r, s1)"
    and s': "s' = (case bsy_remove (n_fa node) F_CSY (x_cfg s1) (x_w s1, x_bsy s1) of (w1, b1) \<Rightarrow> s1\<lparr>x_w := w1, x_bsy := b1\<rparr>)"
    using assms(1) a ok by (auto simp: call_def split: option.splits prod.splits)
  have "?f \<in> set (x_bsy s1)" using call0_keeps [OF c, of ?f] f assms(2) by simp
  then obtain l where l: "free_cell (n_fa node) F_CSY (x_bsy s1) = Some l" using free_cell_finds by blast
  have cfg: "x_cfg s' = x_cfg s1" by (simp add: s' split: prod.split)
  have w: "x_w s' = drop_lock (x_cfg s1) (n_fa node, F_CSY) (x_w s1)"
    using l assms(3) [unfolded cfg] by (simp add: s' bsy_remove_def)
  show ?thesis
    using drop_lock_removed [of "(n_fa node, F_CSY)" "x_cfg s1" "x_w s1"] assms(4) loses_denied [OF loses_drop]
    by (simp add: w cfg)
qed

text \<open>A network in which no name resolves, for the example.\<close>

definition dead_net :: call_env where
  "dead_net = \<lparr>ce_getaddrinfo = (\<lambda>_ _ _. None), ce_run3 = (\<lambda>_ _. False), ce_pipe = False, ce_sels = [],
     ce_in_error = False, ce_ios = []\<rparr>"

lemma bad_try_off: "x_cfg s = open_cfg \<Longrightarrow> call_failed node err s = s"
  by (simp add: call_failed_def bad_try_def set_fs_cfg_def fs_cfg_def open_cfg_def sample_cfg_def)

lemma dead_call:
  assumes "x_cfg s = open_cfg"
  shows "call0 dead_net c two_hosts s = Some (False, s)"
proof -
  have p: "has_pipe two_hosts = None" by (simp add: two_hosts_def new_node_def has_pipe_def)
  have t: "try_host dead_net c two_hosts i v = (T_none, v)" if "cv_s v = s" for i v
    using bad_try_off [OF assms] that by (simp add: try_host_def p dead_net_def)
  let ?T = "\<lambda>v. \<exists>u. v = Some (T_none, u) \<and> cv_s u = s"
  have e: "?T (hosts_loop dead_net c two_hosts 3 v)" if "cv_s v = s" for v
    by (subst hosts_loop.simps) (simp add: two_hosts_next that)
  have go: "?T (hosts_loop dead_net c two_hosts i v)"
    if "next_host c two_hosts i s = Some (HOST h q)" "\<And>u. cv_s u = s \<Longrightarrow> ?T (hosts_loop dead_net c two_hosts (Suc i) u)" "cv_s v = s"
    for i h q v
    by (subst hosts_loop.simps) (simp add: that t)
  have "?T (hosts_loop dead_net c two_hosts (Suc 1) v)" if "cv_s v = s" for v
    by (rule go) (use two_hosts_next(2) [of c s] e that in \<open>simp_all add: eval_nat_numeral\<close>)
  then have "?T (hosts_loop dead_net c two_hosts 1 \<lparr>cv_host = [], cv_port = [], cv_dst = None, cv_s = s\<rparr>)"
    by (intro go [OF two_hosts_next(1)]) simp_all
  then show ?thesis by (auto simp: call0_def)
qed

theorem call_releases_flag_witness:
  "\<forall>c. \<exists>s'. call dead_net c two_hosts (sample_session\<lparr>x_cfg := open_cfg\<rparr>) = Some (True, s') \<and>
     \<not> is_file (x_w s') ''/var/spool/outb/00020003.csy''"
proof
  fix c :: WORK
  let ?s = "sample_session\<lparr>x_cfg := open_cfg\<rparr>"
  have n: "n_fa two_hosts = ex_link" by (simp add: two_hosts_def new_node_def)
  have x: "x_w ?s = empty_world" "x_bsy ?s = []" by (simp_all add: sample_session_def)
  let ?b = "[\<lparr>b_fa = ex_link, b_bt = F_CSY\<rparr>]"
  obtain w where a: "bsy_add ex_link F_CSY open_cfg (empty_world, []) = (True, w, ?b)"
    "\<not> denied w ''/var/spool/outb/00020003.csy''" by (rule ex_link_add [of F_CSY, unfolded ex_link_path])
  let ?s1 = "?s\<lparr>x_w := w, x_bsy := ?b\<rparr>"
  obtain w1 b1 where r: "bsy_remove ex_link F_CSY open_cfg (w, ?b) = (w1, b1)" by fastforce
  have "call0 dead_net c two_hosts ?s1 = Some (False, ?s1)" by (rule dead_call) simp
  then have r': "call dead_net c two_hosts ?s = Some (True, ?s1\<lparr>x_w := w1, x_bsy := b1\<rparr>)"
    using a(1) r by (simp add: call_def n x)
  have d: "denied w1 p = denied w p" for p
    using loses_denied [OF bsy_remove_loses [of w ex_link F_CSY open_cfg ?b]] r by simp
  have nn: "\<not> FA_ISNULL ex_link" by (simp add: ex_link_def FA_ISNULL_def)
  let ?s2 = "?s1\<lparr>x_w := w1, x_bsy := b1\<rparr>"
  have "\<not> is_file (x_w ?s2) ''/var/spool/outb/00020003.csy''"
    using call_releases_flag [OF r'] d a(2) nn by (simp add: n ex_link_path(2))
  with r' show "\<exists>s'. call dead_net c two_hosts ?s = Some (True, s') \<and> \<not> is_file (x_w s') ''/var/spool/outb/00020003.csy''"
    by blast
qed

end
