(* ===== verification/Server.thy ===== *)
theory Server
  imports Client
begin

text \<open>
  The server manager (\<^verbatim>\<open>server.c\<close>): the listening sockets, the connections that are accepted, the children that
  serve them, and the restart after a new configuration.  What the socket calls, \<^verbatim>\<open>fork\<close> and \<^verbatim>\<open>waitpid\<close>
  report is given.
\<close>

section \<open>Listening\<close>

definition MAX_LISTENSOCK :: nat where
  "MAX_LISTENSOCK = 16"

text \<open>
  What becomes of one address of \<^verbatim>\<open>getaddrinfo\<close>: a listening socket, or the call that failed.  The options set on
  the socket only make a line of the log when they fail.
\<close>

datatype listen_try = No_socket | No_bind | No_listen | Listening int

text \<open>A child: its process number, and whether it tells the remote that too many servers run.\<close>

record server =
  sv_socks :: "int list"
  sv_n :: int
  sv_kids :: "(int \<times> bool) list"
  sv_cmgr :: int
  sv_cfg :: WORK

fun open_addrs :: "listen_try list \<Rightarrow> int list \<Rightarrow> bool \<times> int list" where
  "open_addrs [] fds = (True, fds)"
| "open_addrs (a # as) fds =
     (if length fds \<ge> MAX_LISTENSOCK then (True, fds)
      else case a of Listening fd \<Rightarrow> open_addrs as (fds @ [fd]) | _ \<Rightarrow> (False, fds))"

fun open_listen :: "(listenchain \<Rightarrow> listen_try list option) \<Rightarrow> listenchain list \<Rightarrow> int list \<Rightarrow> bool \<times> int list" where
  "open_listen gai [] fds = (True, fds)"
| "open_listen gai (l # ls) fds = (case gai l of
     None \<Rightarrow> (False, fds)
   | Some as \<Rightarrow> (case open_addrs as fds of
       (False, fds1) \<Rightarrow> (False, fds1)
     | (True, fds1) \<Rightarrow> open_listen gai ls fds1))"

section \<open>One pass of the loop\<close>

text \<open>
  \<^verbatim>\<open>accept\<close> on a ready socket: an error that is passed over, one that ends the server, or a connection, with the
  result of \<^verbatim>\<open>fork\<close>.
\<close>

datatype accept_result = Acc_again | Acc_error | Acc_conn int

text \<open>\<^verbatim>\<open>select\<close>: the time is over, an error (an interrupting signal or another), or the sockets that are ready.\<close>

datatype listen_event = Ev_timeout | Ev_error bool | Ev_ready "accept_result option list"

text \<open>
  What a pass meets: the children that ended before \<^verbatim>\<open>select\<close> and after it, the exit flag, and the two flags and
  the files for the check of the configuration.
\<close>

record pass =
  pa_dead :: "int list"
  pa_event :: listen_event
  pa_dead2 :: "int list"
  pa_exit :: bool
  pa_flag :: bool
  pa_hup :: bool
  pa_env :: cfg_env

datatype pass_result = Pass_on | Pass_restart | Pass_quit | Pass_exit

text \<open>The client manager is a child as well; when it has ended the program exits (\<open>None\<close>).\<close>

definition check_servers :: "int list \<Rightarrow> server \<Rightarrow> server option" where
  "check_servers dead s =
    (case chld (sv_cmgr s) dead (sv_n s, (if sv_cmgr s \<noteq> 0 then [sv_cmgr s] else []) @ map fst (sv_kids s)) of
       None \<Rightarrow> None
     | Some (n, ps) \<Rightarrow> Some (s\<lparr>sv_n := n, sv_kids := filter (\<lambda>k. fst k \<in> set ps) (sv_kids s)\<rparr>))"

text \<open>The child gets the count with itself in it, and compares it with the limit of the configuration.\<close>

definition incoming :: "int \<Rightarrow> server \<Rightarrow> server" where
  "incoming pid s = (if pid < 0 then s
     else s\<lparr>sv_n := sv_n s + 1, sv_kids := (pid, sv_n s + 1 > c_max_servers (sv_cfg s)) # sv_kids s\<rparr>)"

text \<open>The ready sockets in order; \<open>False\<close> when the server ends.\<close>

fun accept_all :: "bool \<Rightarrow> accept_result option list \<Rightarrow> server \<Rightarrow> bool \<times> server" where
  "accept_all ex [] s = (True, s)"
| "accept_all ex (None # rs) s = accept_all ex rs s"
| "accept_all ex (Some Acc_again # rs) s = accept_all ex rs s"
| "accept_all ex (Some Acc_error # rs) s = (False, s)"
| "accept_all ex (Some (Acc_conn pid) # rs) s = accept_all ex rs (if ex then s else incoming pid s)"

definition recheck :: "pass \<Rightarrow> server \<Rightarrow> bool \<times> server" where
  "recheck p s = (case checkcfg (pa_flag p) (pa_hup p) (pa_env p) (sv_cfg s) of
     (new, c) \<Rightarrow> (new, s\<lparr>sv_cfg := c, sv_socks := (if new then [] else sv_socks s)\<rparr>))"

definition after_timeout :: "pass \<Rightarrow> server \<Rightarrow> pass_result \<times> server" where
  "after_timeout p s = (case recheck p s of
     (True, s1) \<Rightarrow> (Pass_restart, s1)
   | (False, s1) \<Rightarrow> (case check_servers (pa_dead2 p) s1 of None \<Rightarrow> (Pass_exit, s1) | Some s2 \<Rightarrow> (Pass_on, s2)))"

definition after_signal :: "pass \<Rightarrow> server \<Rightarrow> pass_result \<times> server" where
  "after_signal p s = (case check_servers (pa_dead2 p) s of
     None \<Rightarrow> (Pass_exit, s)
   | Some s1 \<Rightarrow> (case recheck p s1 of (new, s2) \<Rightarrow> (if new then Pass_restart else Pass_on, s2)))"

definition server_pass :: "pass \<Rightarrow> server \<Rightarrow> pass_result \<times> server" where
  "server_pass p s0 = (case check_servers (pa_dead p) s0 of
     None \<Rightarrow> (Pass_exit, s0)
   | Some s \<Rightarrow> (case pa_event p of
       Ev_timeout \<Rightarrow> after_timeout p s
     | Ev_error intr \<Rightarrow> if pa_exit p \<or> \<not> intr then (Pass_quit, s) else after_signal p s
     | Ev_ready rs \<Rightarrow> (case accept_all (pa_exit p) (take (length (sv_socks s)) rs) s of
         (ok, s1) \<Rightarrow> (if ok then Pass_on else Pass_quit, s1))))"

section \<open>The manager\<close>

text \<open>
  \<^verbatim>\<open>do_server\<close>: the sockets are opened, then the passes follow each other; \<open>None\<close> when the given passes are used up
  and the server still runs.
\<close>

fun passes :: "pass list \<Rightarrow> server \<Rightarrow> (pass_result \<times> pass list \<times> server) option" where
  "passes [] s = None"
| "passes (p # ps) s = (case server_pass p s of
     (Pass_on, s1) \<Rightarrow> passes ps s1
   | (r, s1) \<Rightarrow> Some (r, ps, s1))"

definition do_server :: "(listenchain \<Rightarrow> listen_try list option) \<Rightarrow> pass list \<Rightarrow> server \<Rightarrow>
    (pass_result \<times> pass list \<times> server) option" where
  "do_server gai ps s = (case open_listen gai (c_listen (sv_cfg s)) (sv_socks s) of
     (ok, fds) \<Rightarrow> if \<not> ok \<or> fds = [] then Some (Pass_quit, ps, s\<lparr>sv_socks := fds\<rparr>)
       else passes ps (s\<lparr>sv_socks := fds\<rparr>))"

text \<open>\<^verbatim>\<open>servmgr\<close>: it starts again with the new configuration until a run ends otherwise.\<close>

fun servmgr :: "(listenchain \<Rightarrow> listen_try list option) list \<Rightarrow> pass list \<Rightarrow> bool \<Rightarrow> server \<Rightarrow> (pass_result \<times> server) option" where
  "servmgr [] ps ex s = None"
| "servmgr (gai # gais) ps ex s = (case do_server gai ps s of
     None \<Rightarrow> None
   | Some (r, ps1, s1) \<Rightarrow> if r = Pass_restart \<and> \<not> ex then servmgr gais ps1 ex s1 else Some (r, s1))"

text \<open>\<^verbatim>\<open>serv\<close>: the session of a child, which answers with the configuration the server had.\<close>

definition serv :: "bool \<Rightarrow> string \<Rightarrow> select_result list \<Rightarrow> bool \<Rightarrow> io_result list \<Rightarrow> server \<Rightarrow> session \<Rightarrow> (bool \<times> session) option" where
  "serv full ip sels in_error ios s e =
    protocol None None False ip full sels in_error ios (e\<lparr>x_cfg := c_cfg (sv_cfg s)\<rparr>)"

end
