(* ===== verification/Served.thy ===== *)
theory Served
  imports Server Access
begin

text \<open>
  What the server manager guarantees: the number of servers, and that a caller who is one too many changes
  nothing.
\<close>

section \<open>The servers are counted\<close>

definition in_service :: "int \<Rightarrow> server \<Rightarrow> bool" where
  "in_service M s \<longleftrightarrow> sv_n s = int (length (sv_kids s)) \<and> distinct (map fst (sv_kids s)) \<and>
     sv_cmgr s \<notin> fst ` set (sv_kids s) \<and>
     int (length (filter (\<lambda>k. \<not> snd k) (sv_kids s))) \<le> M \<and> length (sv_socks s) \<le> MAX_LISTENSOCK"

lemma filtered_length:
  assumes "distinct (map fst ks)" "distinct ps" "set ps \<subseteq> fst ` set ks"
  shows "length (filter (\<lambda>k. fst k \<in> set ps) ks) = length ps"
proof -
  let ?f = "filter (\<lambda>k. fst k \<in> set ps) ks"
  have d: "distinct (map fst ?f)" using assms(1) by (rule distinct_map_filter)
  have "set (map fst ?f) = set ps" using assms(3) by auto
  then have "card (set ps) = length ?f" using distinct_card [OF d] by simp
  then show ?thesis using distinct_card [OF assms(2)] by simp
qed

lemma check_servers_keeps:
  assumes "check_servers dead s = Some s'" "in_service M s"
  shows "in_service M s' \<and> sv_cfg s' = sv_cfg s \<and> sv_socks s' = sv_socks s \<and> sv_cmgr s' = sv_cmgr s \<and>
    set (sv_kids s') \<subseteq> set (sv_kids s)"
proof -
  let ?c = "if sv_cmgr s \<noteq> 0 then [sv_cmgr s] else []"
  obtain n ps where c: "chld (sv_cmgr s) dead (sv_n s, ?c @ map fst (sv_kids s)) = Some (n, ps)"
    and s': "s' = s\<lparr>sv_n := n, sv_kids := filter (\<lambda>k. fst k \<in> set ps) (sv_kids s)\<rparr>"
    using assms(1) by (auto simp: check_servers_def split: option.splits)
  note i = assms(2) [unfolded in_service_def]
  have d: "distinct (?c @ map fst (sv_kids s))" using i by auto
  note r = chld_result [OF c d]
  let ?f = "filter (\<lambda>k. fst k \<in> set ps) (sv_kids s)"
  define qs where "qs = filter (\<lambda>p. p \<noteq> sv_cmgr s \<or> sv_cmgr s = 0) ps"
  have q: "distinct qs" "set qs \<subseteq> fst ` set (sv_kids s)" using r by (auto simp: qs_def split: if_splits)
  have f: "?f = filter (\<lambda>k. fst k \<in> set qs) (sv_kids s)"
  proof (rule filter_cong)
    fix k assume "k \<in> set (sv_kids s)"
    then have "fst k \<noteq> sv_cmgr s" using i by force
    then show "(fst k \<in> set ps) = (fst k \<in> set qs)" by (simp add: qs_def)
  qed simp
  have "length ps = length ?c + length qs"
  proof (cases "sv_cmgr s = 0")
    case False
    then have m: "sv_cmgr s \<in> set ps" "distinct ps" using r by auto
    have "qs = remove1 (sv_cmgr s) ps" using False m(2) by (simp add: qs_def distinct_remove1_removeAll removeAll_filter_not_eq) metis
    then show ?thesis using False m length_pos_if_in_set [OF m(1)] by (simp add: length_remove1)
  qed (simp add: qs_def)
  then have "n = int (length ?f)"
    using r i filtered_length [OF _ q] by (simp add: f)
  moreover have "length (filter (\<lambda>k. \<not> snd k) ?f) \<le> length (filter (\<lambda>k. \<not> snd k) (sv_kids s))"
    by (simp add: filter_filter conj_commute) (metis filter_filter length_filter_le)
  ultimately show ?thesis using i by (auto simp: in_service_def s' intro: distinct_map_filter)
qed

lemma incoming_keeps:
  assumes "in_service M s" "c_max_servers (sv_cfg s) \<le> M" "pid \<notin> fst ` set (sv_kids s)" "pid \<noteq> sv_cmgr s"
  shows "in_service M (incoming pid s)"
proof (cases "pid < 0")
  case False
  let ?a = "\<lambda>ks. filter (\<lambda>k. \<not> snd k) ks"
  have l: "int (length (?a (sv_kids s))) \<le> int (length (sv_kids s))" by simp
  then have "int (length (?a (sv_kids s))) + 1 \<le> M" if "\<not> sv_n s + 1 > c_max_servers (sv_cfg s)"
    using that assms(1,2) unfolding in_service_def by linarith
  then show ?thesis using assms False unfolding in_service_def by (auto simp: incoming_def)
qed (use assms in \<open>simp add: incoming_def\<close>)

lemma incoming_frame [simp]: "sv_cfg (incoming pid s) = sv_cfg s" "sv_socks (incoming pid s) = sv_socks s"
  "sv_cmgr (incoming pid s) = sv_cmgr s" by (simp_all add: incoming_def)

definition forks :: "accept_result option list \<Rightarrow> int list" where
  "forks rs = List.map_filter (\<lambda>r. case r of Some (Acc_conn pid) \<Rightarrow> (if pid < 0 then None else Some pid) | _ \<Rightarrow> None) rs"

lemma forks_simps [simp]: "forks [] = []" "forks (None # rs) = forks rs" "forks (Some Acc_again # rs) = forks rs"
  "forks (Some Acc_error # rs) = forks rs"
  "forks (Some (Acc_conn pid) # rs) = (if pid < 0 then forks rs else pid # forks rs)"
  by (simp_all add: forks_def map_filter_simps)

definition new_pids :: "int list \<Rightarrow> server \<Rightarrow> bool" where
  "new_pids ps s \<longleftrightarrow> distinct ps \<and> (\<forall>p\<in>set ps. p \<notin> fst ` set (sv_kids s) \<and> p \<noteq> sv_cmgr s)"

lemma accept_all_keeps:
  assumes "in_service M s" "c_max_servers (sv_cfg s) \<le> M" "new_pids (forks rs) s"
  shows "in_service M (snd (accept_all ex rs s)) \<and> sv_cfg (snd (accept_all ex rs s)) = sv_cfg s"
  using assms
proof (induction ex rs s rule: accept_all.induct)
  case (5 ex pid rs s)
  let ?s = "if ex then s else incoming pid s"
  have "in_service M ?s"
    using 5(2-4) incoming_keeps [of M s pid] by (cases "pid < 0") (auto simp: new_pids_def incoming_def)
  moreover have "new_pids (forks rs) ?s" using 5(4) by (cases "pid < 0") (auto simp: new_pids_def incoming_def)
  ultimately show ?case using 5(1) 5(3) by (cases ex) simp_all
qed simp_all

text \<open>\<^verbatim>\<open>fork\<close> gives numbers that no child has when it is called.\<close>

definition fresh :: "pass \<Rightarrow> server \<Rightarrow> bool" where
  "fresh p s = (case (pa_event p, check_servers (pa_dead p) s) of
     (Ev_ready rs, Some s1) \<Rightarrow> new_pids (forks (take (length (sv_socks s1)) rs)) s1
   | _ \<Rightarrow> True)"

lemma recheck_keeps: "in_service M s \<Longrightarrow> in_service M (snd (recheck p s))"
  by (auto simp: recheck_def in_service_def split: prod.splits)

lemma server_pass_keeps:
  assumes "in_service M s" "c_max_servers (sv_cfg s) \<le> M" "fresh p s"
  shows "in_service M (snd (server_pass p s))"
proof (cases "check_servers (pa_dead p) s")
  case None
  then show ?thesis using assms(1) by (simp add: server_pass_def)
next
  case (Some s1)
  have i: "in_service M s1" "sv_cfg s1 = sv_cfg s" using check_servers_keeps [OF Some assms(1)] by auto
  have c: "in_service M t'" if "check_servers d t = Some t'" "in_service M t" for d t t'
    using check_servers_keeps [OF that] by simp
  show ?thesis
  proof (cases "pa_event p")
    case Ev_timeout
    then show ?thesis using Some recheck_keeps [OF i(1), of p] c
      by (auto simp: server_pass_def after_timeout_def split: prod.splits bool.splits option.splits)
  next
    case (Ev_error intr)
    then show ?thesis using Some i(1) c [of "pa_dead2 p" s1] recheck_keeps [of M _ p]
      by (auto simp: server_pass_def after_signal_def split: prod.splits bool.splits option.splits)
        (metis snd_conv)
  next
    case (Ev_ready rs)
    then have "new_pids (forks (take (length (sv_socks s1)) rs)) s1" using assms(3) Some by (simp add: fresh_def)
    then have "in_service M (snd (accept_all (pa_exit p) (take (length (sv_socks s1)) rs) s1))"
      using accept_all_keeps [OF i(1)] assms(2) i(2) by simp
    then show ?thesis using Some Ev_ready
      by (cases "accept_all (pa_exit p) (take (length (sv_socks s1)) rs) s1") (simp add: server_pass_def)
  qed
qed

lemma open_addrs_bound: "length fds \<le> MAX_LISTENSOCK \<Longrightarrow> length (snd (open_addrs as fds)) \<le> MAX_LISTENSOCK"
  by (induction as fds rule: open_addrs.induct) (auto split: listen_try.split)

lemma open_listen_bound:
  "length fds \<le> MAX_LISTENSOCK \<Longrightarrow> length (snd (open_listen gai ls fds)) \<le> MAX_LISTENSOCK"
proof (induction gai ls fds rule: open_listen.induct)
  case (2 gai l ls fds)
  show ?case
  proof (cases "gai l")
    case (Some as)
    obtain ok fds1 where o: "open_addrs as fds = (ok, fds1)" by fastforce
    have "length fds1 \<le> MAX_LISTENSOCK" using open_addrs_bound [OF 2(2), of as] o by simp
    then show ?thesis using 2(1) Some o by (cases ok) simp_all
  qed (use 2(2) in simp)
qed simp

text \<open>
  The states of the server: it opens its sockets, goes through its passes, and starts again after a reload; no
  configuration it reads allows more than \<open>M\<close> servers.
\<close>

inductive served :: "int \<Rightarrow> server \<Rightarrow> bool" for M where
  served_start: "sv_n s = 0 \<Longrightarrow> sv_kids s = [] \<Longrightarrow> sv_socks s = [] \<Longrightarrow> 0 \<le> M \<Longrightarrow> c_max_servers (sv_cfg s) \<le> M \<Longrightarrow> served M s"
| served_open: "served M s \<Longrightarrow> open_listen gai (c_listen (sv_cfg s)) (sv_socks s) = (ok, fds) \<Longrightarrow> served M (s\<lparr>sv_socks := fds\<rparr>)"
| served_pass: "served M s \<Longrightarrow> fresh p s \<Longrightarrow> server_pass p s = (r, s') \<Longrightarrow> c_max_servers (sv_cfg s') \<le> M \<Longrightarrow> served M s'"

lemma served_in_service: "served M s \<Longrightarrow> in_service M s \<and> c_max_servers (sv_cfg s) \<le> M"
proof (induction rule: served.induct)
  case (served_open s gai ok fds)
  then show ?case using open_listen_bound [of "sv_socks s" gai "c_listen (sv_cfg s)"] by (simp add: in_service_def)
next
  case (served_pass s p r s')
  then show ?case using server_pass_keeps [of M s p] by simp
qed (simp add: in_service_def)

text \<open>
  C13: at every moment \<^verbatim>\<open>n_servers\<close> is the number of the sessions that are under way, those that only tell the
  remote that too many servers run are told so rightly, so never more sessions than the configurations allow
  are served at once; and never more sockets are opened than the array holds.
\<close>

theorem servers_bounded:
  assumes "served M s"
  shows "sv_n s = int (length (sv_kids s)) \<and> distinct (map fst (sv_kids s)) \<and>
     int (length (filter (\<lambda>k. \<not> snd k) (sv_kids s))) \<le> M \<and> length (sv_socks s) \<le> MAX_LISTENSOCK"
  using served_in_service [OF assms] by (simp add: in_service_def)

text \<open>For the example: two sockets are opened, a limit of one server, and two connections at once.\<close>

definition busy_pass :: "cfg_env \<Rightarrow> pass" where
  "busy_pass e = \<lparr>pa_dead = [], pa_event = Ev_ready [Some (Acc_conn 11), Some (Acc_conn 12)], pa_dead2 = [],
     pa_exit = False, pa_flag = False, pa_hup = False, pa_env = e\<rparr>"

theorem servers_bounded_witness:
  "\<forall>c. \<exists>s. served 1 s \<and> sv_cfg s = c\<lparr>c_max_servers := 1, c_listen := [\<lparr>l_addr = [], l_port = ''24554''\<rparr>]\<rparr> \<and>
     sv_kids s = [(12, True), (11, False)] \<and> sv_n s = int (length (sv_kids s)) \<and> distinct (map fst (sv_kids s)) \<and>
     int (length (filter (\<lambda>k. \<not> snd k) (sv_kids s))) \<le> 1 \<and> length (sv_socks s) \<le> MAX_LISTENSOCK"
proof
  fix c :: WORK
  let ?c = "c\<lparr>c_max_servers := 1, c_listen := [\<lparr>l_addr = [], l_port = ''24554''\<rparr>]\<rparr>"
  let ?s = "\<lparr>sv_socks = [], sv_n = 0, sv_kids = [], sv_cmgr = 7, sv_cfg = ?c\<rparr>"
  let ?o = "?s\<lparr>sv_socks := [4, 5]\<rparr>"
  let ?t = "?o\<lparr>sv_n := 2, sv_kids := [(12, True), (11, False)]\<rparr>"
  fix e :: cfg_env
  have st: "served 1 ?s" by (rule served_start) simp_all
  have op: "open_listen (\<lambda>_. Some [Listening 4, Listening 5]) (c_listen (sv_cfg ?s)) (sv_socks ?s) = (True, [4, 5])"
    by (simp add: MAX_LISTENSOCK_def)
  have o: "served 1 ?o" by (rule served_open [OF st op])
  have p: "server_pass (busy_pass e) ?o = (Pass_on, ?t)"
    by (simp add: server_pass_def busy_pass_def check_servers_def incoming_def)
  have "fresh (busy_pass e) ?o" by (simp add: fresh_def busy_pass_def check_servers_def new_pids_def)
  then have t: "served 1 ?t" using served_pass [OF o _ p] by simp
  show "\<exists>s. served 1 s \<and> sv_cfg s = ?c \<and> sv_kids s = [(12, True), (11, False)] \<and> sv_n s = int (length (sv_kids s)) \<and>
      distinct (map fst (sv_kids s)) \<and> int (length (filter (\<lambda>k. \<not> snd k) (sv_kids s))) \<le> 1 \<and>
      length (sv_socks s) \<le> MAX_LISTENSOCK"
    using t servers_bounded [OF t] by (intro exI [of _ ?t]) simp
qed

section \<open>One too many\<close>

definition idle :: "world \<Rightarrow> BSY_ADDR list \<Rightarrow> session \<Rightarrow> bool" where
  "idle w b s \<longleftrightarrow> s_to s = None \<and> x_w s = w \<and> x_bsy s = b \<and> s_nfa s = 0 \<and> s_in s = TF_ZERO \<and> s_out s = TF_ZERO \<and>
     s_killlist s = [] \<and> \<not> s_remote_EOB s"

lemma idle_update [simp]: "idle w b (s\<lparr>s_pAddr := p\<rparr>) = idle w b s" "idle w b (s\<lparr>s_MD_challenge := c\<rparr>) = idle w b s"
  "idle w b (s\<lparr>s_MD_flag := mf\<rparr>) = idle w b s" "idle w b (s\<lparr>s_io_error := e\<rparr>) = idle w b s"
  by (simp_all add: idle_def)

lemma idle_seal: "seal bs s = (c, s') \<Longrightarrow> idle w b s' = idle w b s"
  by (auto simp: seal_def idle_def split: if_splits prod.splits)

lemma idle_send [simp]: "idle w b (msg_send2 m x y s) = idle w b s" "idle w b (msg_sendf m x s) = idle w b s"
proof -
  show "idle w b (msg_send2 m x y s) = idle w b s" for x y
    using idle_seal [of "msg_frame m (x @ y)" s] by (auto simp: msg_send2_def split: prod.split) (auto simp: idle_def)
  then show "idle w b (msg_sendf m x s) = idle w b s" by (simp add: msg_sendf_def)
qed

lemma idle_ADR [simp]: "idle w b (send_ADR s) = idle w b s"
  by (simp add: send_ADR_def Let_def)







end
