(* ===== verification/Start.thy ===== *)
theory Start
  imports Config Bsycleanup
begin

text \<open>
  The start of the program (\<^verbatim>\<open>binkd.c\<close>): the command line, the configuration, the cleaning of old flags, the
  polls of the command line, and what then runs.  What \<^verbatim>\<open>getopt\<close> finds is given: the options in their order and
  the words that are left.
\<close>

section \<open>The command line\<close>

text \<open>An option, one with an argument, or an error with the character that is not an option.\<close>

datatype getopt_item = Opt char | Opt_arg char string | Opt_bad char

text \<open>The ways to stop: the help text, an error (both with code 1), or the end of what was asked for (code 0).\<close>

datatype stop = Stop_usage | Stop_error | Stop_ok

record flags =
  inetd_flag :: bool
  daemon_flag :: bool
  server_flag :: bool
  client_flag :: bool
  poll_flag :: bool
  quiet_flag :: bool
  verbose_flag :: nat
  dumpcfg_flag :: nat
  checkcfg_flag :: bool
  no_MD5_flag :: bool
  no_crypt_flag :: bool
  no_flag :: bool
  psPolls :: "string list"
  remote_addr :: "string option"
  remote_node :: "string option"

definition start_flags :: flags where
  "start_flags = \<lparr>inetd_flag = False, daemon_flag = False, server_flag = False, client_flag = False, poll_flag = False,
     quiet_flag = False, verbose_flag = 0, dumpcfg_flag = 0, checkcfg_flag = False, no_MD5_flag = False,
     no_crypt_flag = False, no_flag = False, psPolls = [], remote_addr = None, remote_node = None\<rparr>"

text \<open>
  The case of an unknown option falls through to that of \<^verbatim>\<open>-n\<close>; \<^verbatim>\<open>optopt\<close> is the question mark it starts with
  when the option is \<^verbatim>\<open>-?\<close>.
\<close>

fun parse_opt :: "getopt_item \<Rightarrow> flags \<Rightarrow> stop + flags" where
  "parse_opt (Opt c) f =
    (if c = CHR ''C'' then Inr (f\<lparr>checkcfg_flag := True\<rparr>)
     else if c = CHR ''c'' then Inr (f\<lparr>client_flag := True\<rparr>)
     else if c = CHR ''i'' then Inr (f\<lparr>inetd_flag := True\<rparr>)
     else if c = CHR ''p'' then Inr (f\<lparr>poll_flag := True, client_flag := True\<rparr>)
     else if c = CHR ''q'' then Inr (f\<lparr>quiet_flag := True\<rparr>)
     else if c = CHR ''s'' then Inr (f\<lparr>server_flag := True\<rparr>)
     else if c = CHR ''m'' then Inr (f\<lparr>no_MD5_flag := True, no_crypt_flag := True\<rparr>)
     else if c = CHR ''r'' then Inr (f\<lparr>no_crypt_flag := True\<rparr>)
     else if c = CHR ''v'' then Inr (f\<lparr>verbose_flag := verbose_flag f + 1\<rparr>)
     else if c = CHR ''d'' then Inr (f\<lparr>dumpcfg_flag := dumpcfg_flag f + 1\<rparr>)
     else if c = CHR ''D'' then Inr (f\<lparr>daemon_flag := True\<rparr>)
     else if c = CHR ''n'' then Inr (f\<lparr>no_flag := True\<rparr>)
     else if c = CHR ''h'' then Inl Stop_usage
     else Inl Stop_error)"
| "parse_opt (Opt_arg c a) f =
    (if c = CHR ''-'' then Inl (if a = ''--help'' then Stop_usage else Stop_error)
     else if c = CHR ''a'' then Inr (f\<lparr>remote_addr := Some a\<rparr>)
     else if c = CHR ''f'' then Inr (f\<lparr>remote_node := Some a\<rparr>)
     else if c = CHR ''P'' then Inr (f\<lparr>psPolls := psPolls f @ [a]\<rparr>)
     else Inl Stop_error)"
| "parse_opt (Opt_bad c) f = (if c \<noteq> CHR ''?'' then Inl Stop_error else Inr (f\<lparr>no_flag := True\<rparr>))"

fun parse_opts :: "getopt_item list \<Rightarrow> flags \<Rightarrow> stop + flags" where
  "parse_opts [] f = Inr f"
| "parse_opts (i # is) f = (case parse_opt i f of Inl e \<Rightarrow> Inl e | Inr f1 \<Rightarrow> parse_opts is f1)"

definition address_like :: "string \<Rightarrow> bool" where
  "address_like s \<longleftrightarrow> CHR '':'' \<in> set s \<or> CHR ''@'' \<in> set s"

text \<open>The flags and the name of the configuration file, if one is given.\<close>

definition parseargs :: "world \<Rightarrow> getopt_item list \<Rightarrow> string list \<Rightarrow> stop + flags \<times> string option" where
  "parseargs w opts rest = (case parse_opts opts start_flags of
     Inl e \<Rightarrow> Inl e
   | Inr f \<Rightarrow> (case rest of
       [] \<Rightarrow> Inr (f, None)
     | p # extra \<Rightarrow>
         if address_like p \<and> fopen_r p w = None then Inl Stop_error
         else if \<exists>x\<in>set extra. address_like x then Inl Stop_error
         else Inr (f, Some p)))"

section \<open>What runs\<close>

text \<open>The outcome of the start: a session on the given sockets, the client manager, or the server manager.\<close>

datatype run = Run_stop stop | Run_session "FTN_ADDR option" "string option" | Run_client | Run_server bool

text \<open>The environment of the start: that of the reader, whether the process gets into the background, \<^verbatim>\<open>fork\<close>.\<close>

record start_env =
  se_cfg :: cfg_env
  se_daemon :: bool
  se_fork :: int
  se_args :: bool

definition session_node :: "flags \<Rightarrow> BINKD_CONFIG \<Rightarrow> FTN_ADDR option" where
  "session_node f b = (case remote_node f of None \<Rightarrow> None
     | Some r \<Rightarrow> map_option (\<lambda>fa. exp_ftnaddress fa (pAddr b) (pDomains b)) (parse_ftnaddress r (pDomains b)))"

definition session_ip :: "cfg_env \<Rightarrow> flags \<Rightarrow> string option" where
  "session_ip e f = (case remote_addr f of Some a \<Rightarrow> Some a
     | None \<Rightarrow> map_option (takeWhile (\<lambda>c. c \<noteq> CHR '' '')) (e_getenv e ''SSH_CONNECTION''))"

definition write_pid :: "WORK \<Rightarrow> world \<Rightarrow> world" where
  "write_pid c w = (if c_pid_file c = [] then w else snd (create_sem_file (c_pid_file c) (snd (delete (c_pid_file c) w))))"

definition make_polls :: "string list \<Rightarrow> world \<times> BINKD_CONFIG \<Rightarrow> world \<times> BINKD_CONFIG" where
  "make_polls ps st = fold (\<lambda>p st. snd (poll_node p st)) ps st"

definition dispatch :: "start_env \<Rightarrow> flags \<Rightarrow> WORK \<Rightarrow> world \<Rightarrow> run \<times> world" where
  "dispatch e f c w =
    (if no_flag f then (Run_stop Stop_error, w)
     else if inetd_flag f then (Run_session (session_node f (c_cfg c)) (session_ip (se_cfg e) f), w)
     else if daemon_flag f \<and> \<not> se_daemon e then (Run_stop Stop_error, w)
     else if client_flag f \<and> \<not> server_flag f then (Run_client, w)
     else if client_flag f \<and> se_fork e < 0 then (Run_stop Stop_error, w)
     else (Run_server (client_flag f), write_pid c w))"

text \<open>With a configuration: it is read, shown if asked for, the old flags are removed and the polls made.\<close>

definition start_with :: "start_env \<Rightarrow> flags \<Rightarrow> string \<Rightarrow> (run \<times> world \<times> WORK option) option" where
  "start_with e f path = (let w = e_w (se_cfg e) in
     case readcfg (se_cfg e) path of
       Inl err \<Rightarrow> Some (Run_stop Stop_error, w, None)
     | Inr c \<Rightarrow>
         if dumpcfg_flag f > 0 then Some (Run_stop Stop_ok, w, Some c)
         else (case cleanup_old_bsy (c_cfg c) w of
           None \<Rightarrow> None
         | Some w1 \<Rightarrow> (case make_polls (psPolls f) (w1, c_cfg c) of
             (w2, b) \<Rightarrow> let c1 = c\<lparr>c_cfg := b\<rparr> in
               (case dispatch e f c1 w2 of (r, w3) \<Rightarrow> Some (r, w3, Some c1)))))"

text \<open>
  \<^verbatim>\<open>main\<close> after the command line was parsed; \<open>se_args\<close> is whether there was any argument.  \<open>None\<close> is a read
  before the start of an array while the flags are removed.
\<close>

definition binkd_main :: "start_env \<Rightarrow> flags \<Rightarrow> string option \<Rightarrow> (run \<times> world \<times> WORK option) option" where
  "binkd_main e f0 path = (let w = e_w (se_cfg e) in
     if poll_flag f0 \<and> server_flag f0 then Some (Run_stop Stop_error, w, None)
     else let f = (if \<not> client_flag f0 \<and> \<not> server_flag f0 then f0\<lparr>client_flag := True, server_flag := True\<rparr> else f0)
       in case path of
         Some p \<Rightarrow> start_with e f p
       | None \<Rightarrow> Some (Run_stop (if verbose_flag f > 0 then Stop_ok else if se_args e then Stop_error else Stop_usage), w, None))"

section \<open>Lemmas\<close>

lemma parse_opt_flags:
  assumes "parse_opt i f = Inr g"
  shows "client_flag g = (client_flag f \<or> i = Opt CHR ''c'' \<or> i = Opt CHR ''p'')"
    "server_flag g = (server_flag f \<or> i = Opt CHR ''s'')" "poll_flag g = (poll_flag f \<or> i = Opt CHR ''p'')"
    "inetd_flag g = (inetd_flag f \<or> i = Opt CHR ''i'')"
    "no_flag g = (no_flag f \<or> i = Opt CHR ''n'' \<or> i = Opt_bad CHR ''?'')"
  using assms by (cases i; auto split: if_splits)+

lemma parse_opts_flags:
  assumes "parse_opts is f = Inr g"
  shows "client_flag g = (client_flag f \<or> Opt CHR ''c'' \<in> set is \<or> Opt CHR ''p'' \<in> set is)"
    "server_flag g = (server_flag f \<or> Opt CHR ''s'' \<in> set is)" "poll_flag g = (poll_flag f \<or> Opt CHR ''p'' \<in> set is)"
    "inetd_flag g = (inetd_flag f \<or> Opt CHR ''i'' \<in> set is)"
    "no_flag g = (no_flag f \<or> Opt CHR ''n'' \<in> set is \<or> Opt_bad CHR ''?'' \<in> set is)"
  using assms
proof (induction "is" arbitrary: f)
  case (Cons i "is")
  { case 1 then show ?case using Cons.IH(1) parse_opt_flags(1) by (auto split: sum.splits) }
  { case 2 then show ?case using Cons.IH(2) parse_opt_flags(2) by (auto split: sum.splits) }
  { case 3 then show ?case using Cons.IH(3) parse_opt_flags(3) by (auto split: sum.splits) }
  { case 4 then show ?case using Cons.IH(4) parse_opt_flags(4) by (auto split: sum.splits) }
  { case 5 then show ?case using Cons.IH(5) parse_opt_flags(5) by (auto split: sum.splits) }
qed simp_all

lemma dispatch_mode:
  assumes "dispatch e g c w = (r, w')" "\<nexists>st. r = Run_stop st"
  shows "\<not> no_flag g" "if inetd_flag g then \<exists>fa ip. r = Run_session fa ip
    else if client_flag g \<and> \<not> server_flag g then r = Run_client else r = Run_server (client_flag g)"
  using assms by (auto simp: dispatch_def split: if_splits)

lemma parseargs_flags:
  "parseargs w opts rest = Inr (f, path) \<Longrightarrow> parse_opts opts start_flags = Inr f"
  by (auto simp: parseargs_def split: sum.splits list.splits if_splits)

text \<open>
  C32: what the program becomes is decided by the letters of the command line, in whatever order they stand: a
  single session with \<^verbatim>\<open>-i\<close>, else a client with \<^verbatim>\<open>-c\<close> or \<^verbatim>\<open>-p\<close> and without \<^verbatim>\<open>-s\<close>, else a server, which starts a
  client as well unless \<^verbatim>\<open>-s\<close> stands alone; it never gets there with \<^verbatim>\<open>-n\<close> (or \<^verbatim>\<open>-?\<close>, which acts like \<^verbatim>\<open>-n\<close>), nor
  with both \<^verbatim>\<open>-p\<close> and \<^verbatim>\<open>-s\<close>, and its configuration is the one of the file, with the polls of \<^verbatim>\<open>-P\<close> made.
\<close>

theorem start_mode:
  assumes "parseargs (e_w (se_cfg e)) opts rest = Inr (f, path)" "binkd_main e f path = Some (r, w, cw)"
    and "\<nexists>st. r = Run_stop st"
    and "has = (\<lambda>c. Opt c \<in> set opts)" "cl = (has CHR ''c'' \<or> has CHR ''p'')"
  shows "(if has CHR ''i'' then \<exists>fa ip. r = Run_session fa ip
          else if cl \<and> \<not> has CHR ''s'' then r = Run_client else r = Run_server (cl \<or> \<not> has CHR ''s'')) \<and>
    \<not> has CHR ''n'' \<and> Opt_bad CHR ''?'' \<notin> set opts \<and> \<not> (has CHR ''p'' \<and> has CHR ''s'') \<and>
    (\<exists>p c w1. path = Some p \<and> readcfg (se_cfg e) p = Inr c \<and> cleanup_old_bsy (c_cfg c) (e_w (se_cfg e)) = Some w1 \<and>
       cw = Some (c\<lparr>c_cfg := snd (make_polls (psPolls f) (w1, c_cfg c))\<rparr>))"
proof -
  note o = parse_opts_flags [OF parseargs_flags [OF assms(1)]]
  have f: "client_flag f = cl" "server_flag f = has CHR ''s''" "poll_flag f = has CHR ''p''" "inetd_flag f = has CHR ''i''"
    "no_flag f = (has CHR ''n'' \<or> Opt_bad CHR ''?'' \<in> set opts)"
    by (simp_all add: o assms(4,5) start_flags_def)
  let ?f = "if \<not> client_flag f \<and> \<not> server_flag f then f\<lparr>client_flag := True, server_flag := True\<rparr> else f"
  have ps: "\<not> (has CHR ''p'' \<and> has CHR ''s'')" using assms(2,3) f(2,3) by (auto simp: binkd_main_def Let_def)
  obtain p where p: "path = Some p" "start_with e ?f p = Some (r, w, cw)"
    using assms(2,3) by (auto simp: binkd_main_def Let_def split: if_splits option.splits)
  obtain c w1 w2 b where c: "readcfg (se_cfg e) p = Inr c" "cleanup_old_bsy (c_cfg c) (e_w (se_cfg e)) = Some w1"
    "make_polls (psPolls ?f) (w1, c_cfg c) = (w2, b)" "dispatch e ?f (c\<lparr>c_cfg := b\<rparr>) w2 = (r, w)" "cw = Some (c\<lparr>c_cfg := b\<rparr>)"
    using p(2) assms(3) by (auto simp: start_with_def Let_def split: sum.splits if_splits option.splits prod.splits)
  have k: "psPolls ?f = psPolls f" "inetd_flag ?f = inetd_flag f" "no_flag ?f = no_flag f"
    "client_flag ?f = (cl \<or> \<not> has CHR ''s'')" "server_flag ?f = (has CHR ''s'' \<or> \<not> cl)"
    using f by simp_all
  note d = dispatch_mode [OF c(4) assms(3)]
  have "\<not> no_flag f" using d(1) unfolding k(3) .
  moreover have "if has CHR ''i'' then \<exists>fa ip. r = Run_session fa ip
      else if cl \<and> \<not> has CHR ''s'' then r = Run_client else r = Run_server (cl \<or> \<not> has CHR ''s'')"
    using d(2) unfolding k(2,4,5) f(4) by (auto split: if_splits)
  moreover have "b = snd (make_polls (psPolls f) (w1, c_cfg c))" using c(3) k(1) by simp
  ultimately show ?thesis using f(5) ps p(1) c(1,2,5) by blast
qed


text \<open>The sample configuration, and the command line \<^verbatim>\<open>binkd -p c\<close>.\<close>

lemma sample_clean: "(case readcfg sample_env ''c'' of Inl err \<Rightarrow> False | Inr c \<Rightarrow> cleanup_old_bsy (c_cfg c) (e_w sample_env) \<noteq> None)"
  by code_simp

theorem start_mode_witness:
  "\<exists>f. parseargs (e_w sample_env) [Opt CHR ''p''] [''c''] = Inr (f, Some ''c'') \<and>
     (\<exists>w cw. binkd_main \<lparr>se_cfg = sample_env, se_daemon = True, se_fork = 8, se_args = True\<rparr> f (Some ''c'') = Some (Run_client, w, cw))"
proof -
  let ?e = "\<lparr>se_cfg = sample_env, se_daemon = True, se_fork = 8, se_args = True\<rparr>"
  let ?f = "start_flags\<lparr>poll_flag := True, client_flag := True\<rparr>"
  have p: "parseargs (e_w (se_cfg ?e)) [Opt CHR ''p''] [''c''] = Inr (?f, Some ''c'')"
    by (simp add: parseargs_def address_like_def)
  obtain c w where c: "readcfg sample_env ''c'' = Inr c" "cleanup_old_bsy (c_cfg c) (e_w sample_env) = Some w"
    using sample_clean by (auto split: sum.splits)
  obtain r w' cw where m: "binkd_main ?e ?f (Some ''c'') = Some (r, w', cw)" and r: "\<nexists>st. r = Run_stop st"
    using c by (simp add: binkd_main_def start_with_def make_polls_def dispatch_def start_flags_def Let_def)
  have "r = Run_client" using start_mode [OF p m r refl refl] by (simp split: if_splits)
  then show ?thesis using p m by auto
qed

end
