(* ===== verification/Binlog.thy ===== *)
theory Binlog
  imports State Readcfg
begin

text \<open>
  The statistics of a session (\<^verbatim>\<open>binlog.c\<close>): a record in the style of T-Mail and one in the style of FrontDoor
  are appended to the files the configuration names.
\<close>

section \<open>Numbers\<close>

definition as_u16 :: "int \<Rightarrow> nat" where
  "as_u16 x = nat (x mod 2 ^ 16)"

definition as_u32 :: "int \<Rightarrow> nat" where
  "as_u32 x = nat (x mod 2 ^ 32)"

definition fput16 :: "nat \<Rightarrow> string" where
  "fput16 n = [char_of (n mod 256), char_of (n div 256)]"

definition fput32 :: "nat \<Rightarrow> string" where
  "fput32 n = fput16 (n mod 2 ^ 16) @ fput16 (n div 2 ^ 16)"

text \<open>The offset of the local time in minutes; \<open>auto\<close> is what the time zone of the system gives.\<close>

definition tz_off :: "(int \<Rightarrow> int) \<Rightarrow> int \<Rightarrow> int \<Rightarrow> int" where
  "tz_off auto t tzoff = (if tzoff \<noteq> -1 then sgn tzoff * (\<bar>tzoff\<bar> div 60) else auto t)"

section \<open>The records\<close>

record t_stat =
  fZone :: nat
  fNet :: nat
  fNode :: nat
  fPoint :: nat
  fSTime :: nat
  fLTime :: nat
  fBReceive :: nat
  fBSent :: nat
  fFReceive :: nat
  fFSent :: nat
  fStatus :: nat

record fd_stat =
  fd_Zone :: nat
  fd_Net :: nat
  fd_Node :: nat
  fd_Point :: nat
  fd_Domain :: string
  fd_TimeStart :: nat
  fd_TimeEnd :: nat
  fd_Name :: string
  fd_Loc :: string
  fd_Received :: nat
  fd_Sent :: nat
  fd_Cost :: nat

definition put_t :: "t_stat \<Rightarrow> string" where
  "put_t r = fput16 (fZone r) @ fput16 (fNet r) @ fput16 (fNode r) @ fput16 (fPoint r) @ fput32 (fSTime r) @
     fput32 (fLTime r) @ fput32 (fBReceive r) @ fput32 (fBSent r) @ [char_of (fFReceive r), char_of (fFSent r)] @
     fput16 (fStatus r)"

text \<open>An array of characters is written with the zeros \<^verbatim>\<open>strncpy\<close> fills it with.\<close>

definition fill :: "nat \<Rightarrow> string \<Rightarrow> string" where
  "fill n s = s @ replicate (n - length s) NUL_char"

definition put_fd :: "fd_stat \<Rightarrow> string" where
  "put_fd r = fput16 (fd_Zone r) @ fput16 (fd_Net r) @ fput16 (fd_Node r) @ fput16 (fd_Point r) @ fill 16 (fd_Domain r) @
     fput32 (fd_TimeStart r) @ fput32 (fd_TimeEnd r) @ fill 32 (fd_Name r) @ fill 40 (fd_Loc r) @
     fput32 (fd_Received r) @ fput32 (fd_Sent r) @ fput32 (fd_Cost r)"

section \<open>Writing them\<close>

text \<open>\<^verbatim>\<open>fopen\<close> for appending.\<close>

definition fopen_ab :: "string \<Rightarrow> world \<Rightarrow> bool \<times> world" where
  "fopen_ab p w = (case stat w p of
     Some Dir \<Rightarrow> (False, w)
   | Some (File d t) \<Rightarrow> (\<not> denied w p, w)
   | None \<Rightarrow> (case create_check w p of Some e \<Rightarrow> (False, w) | None \<Rightarrow> (True, fs_put p (File [] (w_time w)) w)))"

definition append_record :: "string \<Rightarrow> string \<Rightarrow> world \<Rightarrow> world" where
  "append_record p r w = (case fopen_ab p w of (ok, w1) \<Rightarrow> if ok then fs_append p r w1 else w1)"

text \<open>The result of the session is 0 when it succeeded; \<open>start\<close> is when it began.\<close>

definition t_record :: "(int \<Rightarrow> int) \<Rightarrow> int \<Rightarrow> bool \<Rightarrow> int \<Rightarrow> session \<Rightarrow> t_stat" where
  "t_record auto tzoff failed start s =
    (let (fa, st) = (case s_to s of Some n \<Rightarrow> (n_fa n, 1)
                     | None \<Rightarrow> (case s_fa s of a # _ \<Rightarrow> (a, 2) | [] \<Rightarrow> (FA_ZERO, 0)))
     in \<lparr>fZone = as_u16 (fa_z fa), fNet = as_u16 (fa_net fa), fNode = as_u16 (fa_node fa), fPoint = as_u16 (fa_p fa),
         fSTime = as_u32 (start + tz_off auto start tzoff * 60), fLTime = as_u32 (w_time (x_w s) - start),
         fBReceive = as_u32 (s_bytes_rcvd s), fBSent = as_u32 (s_bytes_sent s), fFReceive = as_u32 (s_files_rcvd s) mod 256,
         fFSent = as_u32 (s_files_sent s) mod 256, fStatus = (if failed then 3 else st)\<rparr>)"

definition TLogStat :: "(int \<Rightarrow> int) \<Rightarrow> bool \<Rightarrow> string \<Rightarrow> int \<Rightarrow> int \<Rightarrow> session \<Rightarrow> world \<Rightarrow> world" where
  "TLogStat auto failed path tzoff start s w =
    (if path = [] then w else append_record path (put_t (t_record auto tzoff failed start s)) w)"

definition fd_record :: "(int \<Rightarrow> int) \<Rightarrow> int \<Rightarrow> int \<Rightarrow> FTN_ADDR \<Rightarrow> session \<Rightarrow> fd_stat" where
  "fd_record auto tzoff start fa s = (let t = w_time (x_w s) in
     \<lparr>fd_Zone = as_u16 (fa_z fa), fd_Net = as_u16 (fa_net fa), fd_Node = as_u16 (fa_node fa), fd_Point = as_u16 (fa_p fa),
      fd_Domain = strnzcpy (fa_domain fa) 16, fd_TimeStart = as_u32 (start + tz_off auto start tzoff * 60),
      fd_TimeEnd = as_u32 (t + tz_off auto t tzoff * 60), fd_Name = strnzcpy (s_sysname s) 32,
      fd_Loc = strnzcpy (s_location s) 40, fd_Received = as_u32 (s_bytes_rcvd s), fd_Sent = as_u32 (s_bytes_sent s), fd_Cost = 0\<rparr>)"

definition FDLogStat :: "(int \<Rightarrow> int) \<Rightarrow> string \<Rightarrow> string \<Rightarrow> int \<Rightarrow> int \<Rightarrow> session \<Rightarrow> world \<Rightarrow> world" where
  "FDLogStat auto inhist outhist tzoff start s w =
    (let path = (if s_to s \<noteq> None then outhist else inhist) in
     case s_fa s of [] \<Rightarrow> w
     | fa # _ \<Rightarrow> if path = [] then w else append_record path (put_fd (fd_record auto tzoff start fa s)) w)"

definition BinLogStat :: "(int \<Rightarrow> int) \<Rightarrow> bool \<Rightarrow> int \<Rightarrow> session \<Rightarrow> WORK \<Rightarrow> world \<Rightarrow> world" where
  "BinLogStat auto failed start s c w = FDLogStat auto (c_fdinhist c) (c_fdouthist c) (c_tzoff c) start s
     (TLogStat auto failed (c_binlogpath c) (c_tzoff c) start s w)"

section \<open>Reading them again\<close>

definition get16 :: "string \<Rightarrow> nat \<Rightarrow> nat" where
  "get16 d i = of_char (d ! i) + 256 * of_char (d ! (i + 1))"

definition get32 :: "string \<Rightarrow> nat \<Rightarrow> nat" where
  "get32 d i = get16 d i + 2 ^ 16 * get16 d (i + 2)"

definition get_t :: "string \<Rightarrow> t_stat" where
  "get_t d = \<lparr>fZone = get16 d 0, fNet = get16 d 2, fNode = get16 d 4, fPoint = get16 d 6, fSTime = get32 d 8,
     fLTime = get32 d 12, fBReceive = get32 d 16, fBSent = get32 d 20, fFReceive = of_char (d ! 24),
     fFSent = of_char (d ! 25), fStatus = get16 d 26\<rparr>"

lemma u_bounds [simp]: "as_u16 x < 65536" "as_u32 x < 4294967296"
  using pos_mod_bound [of "2 ^ 16" x] pos_mod_bound [of "2 ^ 32" x] by (simp_all add: as_u16_def as_u32_def)

lemma get16_put: "n < 65536 \<Longrightarrow> get16 (xs @ fput16 n @ ys) (length xs) = n"
  by (simp add: get16_def fput16_def nth_append)

lemma get32_put: "n < 4294967296 \<Longrightarrow> get32 (xs @ fput32 n @ ys) (length xs) = n"
proof -
  assume n: "n < 4294967296"
  have a: "get16 (xs @ fput32 n @ ys) (length xs) = n mod 65536"
    using get16_put [of "n mod 65536" xs "fput16 (n div 65536) @ ys"] by (simp add: fput32_def)
  have "length (xs @ fput16 (n mod 65536)) = length xs + 2" by (simp add: fput16_def)
  then have b: "get16 (xs @ fput32 n @ ys) (length xs + 2) = n div 65536"
    using get16_put [of "n div 65536" "xs @ fput16 (n mod 65536)" ys] n by (simp add: fput32_def)
  show ?thesis unfolding get32_def a b by simp
qed

lemma length_put [simp]: "length (fput16 n) = 2" "length (fput32 n) = 4"
  by (simp_all add: fput32_def fput16_def)

definition t_stat_ok :: "t_stat \<Rightarrow> bool" where
  "t_stat_ok r \<longleftrightarrow> fZone r < 65536 \<and> fNet r < 65536 \<and> fNode r < 65536 \<and> fPoint r < 65536 \<and> fSTime r < 4294967296 \<and>
     fLTime r < 4294967296 \<and> fBReceive r < 4294967296 \<and> fBSent r < 4294967296 \<and> fFReceive r < 256 \<and> fFSent r < 256 \<and>
     fStatus r < 65536"

lemma t_record_ok: "t_stat_ok (t_record auto tzoff failed start s)"
  by (auto simp: t_stat_ok_def t_record_def Let_def split: option.split list.split)

lemma get_put_t:
  assumes "t_stat_ok r"
  shows "get_t (put_t r) = r"
proof -
  note b = assms [unfolded t_stat_ok_def]
  let ?a = "fput16 (fZone r)" and ?b = "fput16 (fNet r)" and ?c = "fput16 (fNode r)" and ?d = "fput16 (fPoint r)"
  let ?e = "fput32 (fSTime r)" and ?f = "fput32 (fLTime r)" and ?g = "fput32 (fBReceive r)" and ?h = "fput32 (fBSent r)"
  let ?i = "[char_of (fFReceive r), char_of (fFSent r)]" and ?j = "fput16 (fStatus r)"
  have p: "put_t r = ?a @ ?b @ ?c @ ?d @ ?e @ ?f @ ?g @ ?h @ ?i @ ?j" by (simp add: put_t_def)
  have "get16 (put_t r) 0 = fZone r" using get16_put [of "fZone r" "[]"] b p by simp
  moreover have "get16 (put_t r) 2 = fNet r" using get16_put [of "fNet r" "?a"] b p by simp
  moreover have "get16 (put_t r) 4 = fNode r" using get16_put [of "fNode r" "?a @ ?b"] b p by simp
  moreover have "get16 (put_t r) 6 = fPoint r" using get16_put [of "fPoint r" "?a @ ?b @ ?c"] b p by simp
  moreover have "get32 (put_t r) 8 = fSTime r" using get32_put [of "fSTime r" "?a @ ?b @ ?c @ ?d"] b p by simp
  moreover have "get32 (put_t r) 12 = fLTime r" using get32_put [of "fLTime r" "?a @ ?b @ ?c @ ?d @ ?e"] b p by simp
  moreover have "get32 (put_t r) 16 = fBReceive r"
    using get32_put [of "fBReceive r" "?a @ ?b @ ?c @ ?d @ ?e @ ?f"] b p by simp
  moreover have "get32 (put_t r) 20 = fBSent r"
    using get32_put [of "fBSent r" "?a @ ?b @ ?c @ ?d @ ?e @ ?f @ ?g"] b p by simp
  moreover have "get16 (put_t r) 26 = fStatus r"
    using get16_put [of "fStatus r" "?a @ ?b @ ?c @ ?d @ ?e @ ?f @ ?g @ ?h @ ?i" "[]"] b p by simp
  moreover have "of_char (put_t r ! 24) = fFReceive r" "of_char (put_t r ! 25) = fFSent r"
    using b by (simp_all add: p nth_append)
  ultimately show ?thesis by (simp add: get_t_def)
qed

text \<open>Appending changes only that file, and only behind its end.\<close>

lemma append_record_stat:
  "stat (append_record p r w) q = stat w q \<or>
    (q = p \<and> (\<exists>t. stat (append_record p r w) q = Some (File ((case fopen_r p w of Some d \<Rightarrow> d | None \<Rightarrow> []) @ r) t) \<or>
      stat w q = None \<and> stat (append_record p r w) q = Some (File [] t)))"
  by (cases "q = p")
    (auto simp: append_record_def fopen_ab_def fopen_r_def stat_fs_append split: option.splits fentry.splits)

definition only_appended :: "string set \<Rightarrow> world \<Rightarrow> world \<Rightarrow> bool" where
  "only_appended P w w' \<longleftrightarrow> (\<forall>p. (p \<notin> P \<longrightarrow> stat w' p = stat w p) \<and>
     (\<forall>d. fopen_r p w = Some d \<longrightarrow> (\<exists>e. fopen_r p w' = Some (d @ e))))"

lemma only_appended_refl [simp]: "only_appended P w w"
  by (simp add: only_appended_def)

lemma only_appended_record: "p \<in> P \<Longrightarrow> only_appended P w (append_record p r w)"
  unfolding only_appended_def
proof (intro allI conjI impI)
  fix q assume "p \<in> P" "q \<notin> P"
  then show "stat (append_record p r w) q = stat w q" using append_record_stat [of p r w q] by auto
next
  fix q d assume "fopen_r q w = Some d"
  then show "\<exists>e. fopen_r q (append_record p r w) = Some (d @ e)"
    using append_record_stat [of p r w q] by (auto simp: fopen_r_def split: option.splits fentry.splits)
qed

lemma only_appended_trans: "only_appended P w w1 \<Longrightarrow> only_appended P w1 w2 \<Longrightarrow> only_appended P w w2"
  unfolding only_appended_def by (metis append.assoc)

text \<open>
  The statistics only ever grow: no other file is touched, nothing that was in them is changed, and a record
  that was written reads back as what it was made of.
\<close>

theorem statistics_append_only:
  "only_appended {c_binlogpath c, c_fdinhist c, c_fdouthist c} w (BinLogStat auto failed start s c w) \<and>
   get_t (put_t (t_record auto tz failed start s)) = t_record auto tz failed start s"
proof
  let ?P = "{c_binlogpath c, c_fdinhist c, c_fdouthist c}"
  have "only_appended ?P w (TLogStat auto failed (c_binlogpath c) (c_tzoff c) start s w)"
    by (simp add: TLogStat_def only_appended_record)
  moreover have "only_appended ?P v (FDLogStat auto (c_fdinhist c) (c_fdouthist c) (c_tzoff c) start s v)" for v
    by (simp add: FDLogStat_def only_appended_record Let_def split: list.split)
  ultimately show "only_appended ?P w (BinLogStat auto failed start s c w)"
    unfolding BinLogStat_def using only_appended_trans by blast
  show "get_t (put_t (t_record auto tz failed start s)) = t_record auto tz failed start s"
    by (rule get_put_t [OF t_record_ok])
qed

end
