(* ===== verification/Exitproc.thy ===== *)
theory Exitproc
  imports Server
begin

text \<open>
  The end of a process (\<^verbatim>\<open>exitproc.c\<close>), which runs at every \<^verbatim>\<open>exit\<close> once the configuration was read: of a
  session in the middle of which something fatal happened, of the managers, and after a signal.
\<close>

section \<open>The exit\<close>

text \<open>
  A process: its number, the client manager it started (0 for none), the number of the server manager it
  inherited, its sockets, its flags, the files, and the signals it sent.
\<close>

record process =
  pr_pid :: int
  pr_cmgr :: int
  pr_smgr :: int
  pr_socks :: "int list"
  pr_bsy :: "BSY_ADDR list"
  pr_w :: world
  pr_cfg :: "WORK option"
  pr_killed :: "int list"

definition close_srvmgr_socket :: "process \<Rightarrow> process" where
  "close_srvmgr_socket p = p\<lparr>pr_socks := []\<rparr>"

definition kill_cmgr :: "process \<Rightarrow> process" where
  "kill_cmgr p = (if pr_cmgr p \<noteq> 0 then p\<lparr>pr_cmgr := 0, pr_killed := pr_killed p @ [pr_cmgr p]\<rparr> else p)"

definition exitfunc :: "process \<Rightarrow> process" where
  "exitfunc p0 = (let p = close_srvmgr_socket (kill_cmgr p0) in
     case pr_cfg p of
       None \<Rightarrow> p
     | Some c \<Rightarrow> (case bsy_remove_all (c_cfg c) (pr_w p) (pr_bsy p) of
         (w, b) \<Rightarrow> p\<lparr>pr_bsy := b,
           pr_w := (if c_pid_file c \<noteq> [] \<and> pr_smgr p = pr_pid p then snd (delete (c_pid_file c) w) else w)\<rparr>))"

section \<open>What is left behind\<close>

lemma exitfunc_with:
  "pr_cfg p = Some c \<Longrightarrow> bsy_remove_all (c_cfg c) (pr_w p) (pr_bsy p) = (w, b) \<Longrightarrow>
    pr_bsy (exitfunc p) = b \<and>
    pr_w (exitfunc p) = (if c_pid_file c \<noteq> [] \<and> pr_smgr p = pr_pid p then snd (delete (c_pid_file c) w) else w)"
  by (simp add: exitfunc_def Let_def close_srvmgr_socket_def kill_cmgr_def)

text \<open>
  C16: after \<^verbatim>\<open>exitfunc\<close>, which runs at every \<^verbatim>\<open>exit\<close> and after the signals that are caught, the flags of
  this process are gone, when they could be deleted, and those of all other processes are still there, and
  only the server manager removes the file with the process number.  A process that is killed or crashes
  does not run it and leaves its flags behind; for them there is \<^verbatim>\<open>kill-old-bsy\<close>.
\<close>

theorem exit_releases_flags:
  assumes "bsy_reach (c_cfg c) (pr_w p, ls)" "ls q = pr_bsy p" "pr_cfg p = Some c" "stat (pr_w p) [] = None"
    and "\<forall>k\<in>set (cell_keys (c_cfg c) (ls q)). \<not> denied (pr_w p) k"
    and "\<forall>r. c_pid_file c \<notin> set (cell_keys (c_cfg c) (ls r))"
  shows "cell_keys (c_cfg c) (pr_bsy (exitfunc p)) = [] \<and>
    (\<forall>k\<in>set (cell_keys (c_cfg c) (ls q)). stat (pr_w (exitfunc p)) k = None) \<and>
    (\<forall>r k. r \<noteq> q \<longrightarrow> k \<in> set (cell_keys (c_cfg c) (ls r)) \<longrightarrow> is_file (pr_w (exitfunc p)) k) \<and>
    (pr_smgr p \<noteq> pr_pid p \<longrightarrow> pr_w (exitfunc p) = fst (bsy_remove_all (c_cfg c) (pr_w p) (pr_bsy p)))"
proof -
  obtain w b where r: "bsy_remove_all (c_cfg c) (pr_w p) (pr_bsy p) = (w, b)" by fastforce
  note e = exitfunc_with [OF assms(3) r]
  have f: "cell_keys (c_cfg c) b = []" "\<forall>k\<in>set (cell_keys (c_cfg c) (ls q)). stat w k = None"
    "\<forall>r k. r \<noteq> q \<longrightarrow> k \<in> set (cell_keys (c_cfg c) (ls r)) \<longrightarrow> is_file w k"
    using bsy_remove_all_frees [OF assms(1) _ assms(4,5)] r assms(2) by auto
  have d: "stat (snd (delete (c_pid_file c) w)) k = stat w k" if "k \<in> set (cell_keys (c_cfg c) (ls r))" for r k
    by (rule delete_frame) (use that assms(6) in auto)
  have s: "stat (pr_w (exitfunc p)) k = stat w k" if "k \<in> set (cell_keys (c_cfg c) (ls r))" for r k
    using e d [OF that] by simp
  have i: "is_file (pr_w (exitfunc p)) k" if "r \<noteq> q" "k \<in> set (cell_keys (c_cfg c) (ls r))" for r k
    using is_file_stat [OF s [OF that(2)]] f(3) that by blast
  have "pr_smgr p \<noteq> pr_pid p \<longrightarrow> pr_w (exitfunc p) = fst (bsy_remove_all (c_cfg c) (pr_w p) (pr_bsy p))"
    using e r by simp
  moreover have "cell_keys (c_cfg c) (pr_bsy (exitfunc p)) = []" using e f(1) by simp
  moreover have "\<forall>k\<in>set (cell_keys (c_cfg c) (ls q)). stat (pr_w (exitfunc p)) k = None" using s f(2) by simp
  ultimately show ?thesis using i by blast
qed

theorem exit_releases_flags_witness:
  "\<forall>c. \<exists>p. is_file (pr_w p) ''/var/spool/outb/00020003.bsy'' \<and> pr_cfg p = Some (c\<lparr>c_cfg := sample_cfg, c_pid_file := ''/run/pid''\<rparr>) \<and>
     stat (pr_w (exitfunc p)) ''/var/spool/outb/00020003.bsy'' = None"
proof
  fix c :: WORK
  let ?c = "c\<lparr>c_cfg := sample_cfg, c_pid_file := ''/run/pid''\<rparr>"
  obtain w where a: "bsy_add ex_link F_BSY sample_cfg (empty_world\<lparr>w_pid := 1\<rparr>, []) = (True, w, ex_cells 1)"
    and r: "bsy_reach sample_cfg (w, ex_cells)"
    by (rule ex_added) simp
  then have m: "make_lock sample_cfg (ex_link, F_BSY) (empty_world\<lparr>w_pid := 1\<rparr>) = (True, w)"
    by (auto simp: bsy_add_def split: prod.splits)
  have k: "cell_keys sample_cfg (ex_cells 1) = [''/var/spool/outb/00020003.bsy'']"
    using ex_wf by (simp add: cell_keys_def wf_lock_def ex_lock_path)
  have n: "stat w [] = None" using make_lock_nil [OF m] by (simp add: empty_world_def stat_def)
  have d: "\<forall>k\<in>set (cell_keys sample_cfg (ex_cells 1)). \<not> denied w k"
    using make_lock_denied [OF m] k by (simp add: ex_lock_path)
  have f: "is_file w ''/var/spool/outb/00020003.bsy''" using make_lock_cases [OF m] by (simp add: ex_lock_path)
  let ?p = "\<lparr>pr_pid = 9, pr_cmgr = 0, pr_smgr = 8, pr_socks = [4], pr_bsy = ex_cells 1, pr_w = w, pr_cfg = Some ?c, pr_killed = []\<rparr>"
  have o: "\<forall>r. c_pid_file ?c \<notin> set (cell_keys (c_cfg ?c) (ex_cells r))"
    using k by (auto simp: cell_keys_def)
  have x: "bsy_reach (c_cfg ?c) (pr_w ?p, ex_cells)" "ex_cells 1 = pr_bsy ?p" "pr_cfg ?p = Some ?c" "stat (pr_w ?p) [] = None"
    "\<forall>k\<in>set (cell_keys (c_cfg ?c) (ex_cells 1)). \<not> denied (pr_w ?p) k" using r n d by simp_all
  have "\<forall>k\<in>set (cell_keys (c_cfg ?c) (ex_cells 1)). stat (pr_w (exitfunc ?p)) k = None"
    using exit_releases_flags [OF x o] by (elim conjE)
  then have "stat (pr_w (exitfunc ?p)) ''/var/spool/outb/00020003.bsy'' = None" using k by simp
  then show "\<exists>p. is_file (pr_w p) ''/var/spool/outb/00020003.bsy'' \<and> pr_cfg p = Some ?c \<and>
     stat (pr_w (exitfunc p)) ''/var/spool/outb/00020003.bsy'' = None"
    using f by (intro exI [of _ ?p]) simp
qed

end
