(* ===== verification/Cfgref.thy ===== *)
theory Cfgref
  imports Prelude "HOL-Library.Multiset"
begin

text \<open>
  The life of the configurations of a process (\<^verbatim>\<open>readcfg.c\<close>): each counts its users; a reload replaces the current
  one, and the old one is freed when its last user lets it go.
\<close>

section \<open>The counts\<close>

text \<open>Configurations are known by their addresses; \<open>cr_live\<close> are those that are allocated.\<close>

record cfg_refs =
  cr_usage :: "nat \<Rightarrow> int"
  cr_live :: "nat set"
  cr_cur :: "nat option"

definition lock_config :: "nat \<Rightarrow> cfg_refs \<Rightarrow> cfg_refs" where
  "lock_config c r = r\<lparr>cr_usage := (cr_usage r)(c := cr_usage r c + 1)\<rparr>"

definition unlock_config :: "nat \<Rightarrow> cfg_refs \<Rightarrow> cfg_refs" where
  "unlock_config c r = (let usage = cr_usage r c - 1; r1 = r\<lparr>cr_usage := (cr_usage r)(c := usage)\<rparr>
     in if usage = 0 then r1\<lparr>cr_live := cr_live r1 - {c}\<rparr> else r1)"

definition lock_current_config :: "cfg_refs \<Rightarrow> nat option \<times> cfg_refs" where
  "lock_current_config r = (cr_cur r, case cr_cur r of None \<Rightarrow> r | Some c \<Rightarrow> lock_config c r)"

text \<open>The end of \<^verbatim>\<open>readcfg\<close>: a new configuration, which counts itself as used, at the address \<open>new\<close>.\<close>

definition new_config :: "nat \<Rightarrow> cfg_refs \<Rightarrow> cfg_refs" where
  "new_config new r = r\<lparr>cr_usage := (cr_usage r)(new := 1), cr_live := insert new (cr_live r)\<rparr>"

text \<open>The end of \<^verbatim>\<open>checkcfg\<close>: it becomes the current one.\<close>

definition replace_current :: "nat \<Rightarrow> cfg_refs \<Rightarrow> cfg_refs" where
  "replace_current new r = (let r1 = (new_config new r)\<lparr>cr_cur := Some new\<rparr> in
     case cr_cur r of None \<Rightarrow> r1 | Some old \<Rightarrow> unlock_config old r1)"

text \<open>The client manager at the beginning of a turn holds the current configuration.\<close>

definition client_config :: "nat \<Rightarrow> cfg_refs \<Rightarrow> nat option \<times> cfg_refs" where
  "client_config c r = (if Some c = cr_cur r then (Some c, r) else lock_current_config (unlock_config c r))"

section \<open>Who uses them\<close>

text \<open>
  The users of a process are a multiset of addresses: the variables of the managers and the arguments of calls.
  A manager or a call lets go only what it holds, and memory that is in use is not given out again.
\<close>

inductive cfg_step :: "cfg_refs \<times> nat multiset \<Rightarrow> cfg_refs \<times> nat multiset \<Rightarrow> bool" where
  cfg_lock: "lock_current_config r = (Some c, r') \<Longrightarrow> cfg_step (r, h) (r', add_mset c h)"
| cfg_again: "c \<in># h \<Longrightarrow> cfg_step (r, h) (lock_config c r, add_mset c h)"
| cfg_unlock: "c \<in># h \<Longrightarrow> cfg_step (r, h) (unlock_config c r, h - {#c#})"
| cfg_turn: "c \<in># h \<Longrightarrow> client_config c r = (Some d, r') \<Longrightarrow> cfg_step (r, h) (r', add_mset d (h - {#c#}))"
| cfg_reload: "new \<notin> cr_live r \<Longrightarrow> cfg_step (r, h) (replace_current new r, h)"

inductive cfg_reach :: "cfg_refs \<times> nat multiset \<Rightarrow> bool" where
  cfg_init: "cr_live r = {} \<Longrightarrow> cr_cur r = None \<Longrightarrow> cfg_reach (replace_current c r, {#})"
| cfg_next: "cfg_reach s \<Longrightarrow> cfg_step s s' \<Longrightarrow> cfg_reach s'"

definition users :: "cfg_refs \<Rightarrow> nat multiset \<Rightarrow> nat multiset" where
  "users r h = h + (case cr_cur r of None \<Rightarrow> {#} | Some c \<Rightarrow> {#c#})"

definition refs_ok :: "cfg_refs \<Rightarrow> nat multiset \<Rightarrow> bool" where
  "refs_ok r h \<longleftrightarrow> cr_live r = set_mset (users r h) \<and> (\<forall>c\<in>#users r h. cr_usage r c = int (count (users r h) c)) \<and>
     cr_cur r \<noteq> None"

lemma lock_ok:
  assumes "refs_ok r h" "c \<in># users r h"
  shows "refs_ok (lock_config c r) (add_mset c h)"
proof -
  have cur: "cr_cur (lock_config c r) = cr_cur r" by (simp add: lock_config_def)
  have u: "users (lock_config c r) (add_mset c h) = add_mset c (users r h)" by (simp add: users_def cur)
  have "cr_usage (lock_config c r) d = int (count (add_mset c (users r h)) d)" if "d \<in># users r h" for d
    using assms(1) that by (cases "d = c") (simp_all add: refs_ok_def lock_config_def)
  moreover have "set_mset (add_mset c (users r h)) = set_mset (users r h)" using assms(2) by auto
  moreover have "cr_live (lock_config c r) = cr_live r" by (simp add: lock_config_def)
  ultimately show ?thesis using assms unfolding refs_ok_def u cur by simp
qed

text \<open>One user less, whoever it was.\<close>

lemma unlock_counts:
  assumes "cr_live r = set_mset u" "\<And>d. d \<in># u \<Longrightarrow> cr_usage r d = int (count u d)" "c \<in># u"
  shows "cr_live (unlock_config c r) = set_mset (u - {#c#}) \<and>
    (\<forall>d\<in>#u - {#c#}. cr_usage (unlock_config c r) d = int (count (u - {#c#}) d))"
proof -
  obtain v where v: "u = add_mset c v" using assms(3) by (rule mset_add)
  have c: "cr_usage r c - 1 = int (count v c)" using assms(2) [of c] by (simp add: v)
  have use: "cr_usage (unlock_config c r) d = (if d = c then int (count v c) else cr_usage r d)" for d
    by (simp add: unlock_config_def Let_def c)
  have "cr_usage (unlock_config c r) d = int (count v d)" if "d \<in># v" for d
    using assms(2) [of d] that by (cases "d = c") (simp_all add: use v)
  moreover have "cr_live (unlock_config c r) = set_mset v"
  proof (cases "c \<in># v")
    case True
    then have "cr_usage r c - 1 \<noteq> 0" by (simp add: c)
    then show ?thesis using assms(1) True by (simp add: unlock_config_def Let_def v insert_absorb)
  next
    case False
    then have "cr_usage r c - 1 = 0" by (simp add: c not_in_iff)
    then show ?thesis using assms(1) False by (simp add: unlock_config_def Let_def v)
  qed
  ultimately show ?thesis by (simp add: v)
qed

lemma unlock_ok:
  assumes "refs_ok r h" "c \<in># h"
  shows "refs_ok (unlock_config c r) (h - {#c#})"
proof -
  have u: "c \<in># users r h" using assms(2) by (simp add: users_def)
  have cur: "cr_cur (unlock_config c r) = cr_cur r" by (simp add: unlock_config_def Let_def)
  have "users (unlock_config c r) (h - {#c#}) = users r h - {#c#}"
    using assms(2) by (simp add: users_def cur)
  then show ?thesis
    using assms(1) unlock_counts [OF _ _ u, of r] by (simp add: refs_ok_def cur)
qed

lemma lock_current_ok:
  assumes "refs_ok r h" "lock_current_config r = (Some c, r')"
  shows "refs_ok r' (add_mset c h)"
proof -
  have "cr_cur r = Some c" "r' = lock_config c r" using assms(2) by (auto simp: lock_current_config_def)
  then show ?thesis using lock_ok [OF assms(1), of c] by (simp add: users_def)
qed

lemma reload_ok:
  assumes "refs_ok r h" "new \<notin> cr_live r"
  shows "refs_ok (replace_current new r) h"
proof -
  obtain old where o: "cr_cur r = Some old" using assms(1) by (auto simp: refs_ok_def)
  let ?r = "(new_config new r)\<lparr>cr_cur := Some new\<rparr>" and ?u = "add_mset new (users r h)"
  have n: "new \<notin># users r h" using assms by (simp add: refs_ok_def)
  then have "cr_live ?r = set_mset ?u" "\<And>d. d \<in># ?u \<Longrightarrow> cr_usage ?r d = int (count ?u d)"
    using assms(1) by (auto simp: refs_ok_def new_config_def not_in_iff)
  moreover have "old \<in># ?u" using o by (simp add: users_def)
  moreover have "users (unlock_config old ?r) h = ?u - {#old#}"
    using o by (simp add: users_def unlock_config_def Let_def)
  ultimately show ?thesis
    using unlock_counts [of ?r ?u old] o by (simp add: replace_current_def refs_ok_def) (simp add: unlock_config_def Let_def)
qed

lemma cfg_step_ok:
  assumes "cfg_step (r, h) (r', h')" "refs_ok r h"
  shows "refs_ok r' h'"
  using assms
proof cases
  case (cfg_turn c d)
  show ?thesis
  proof (cases "Some c = cr_cur r")
    case True
    then show ?thesis using cfg_turn assms(2) by (auto simp: client_config_def)
  next
    case False
    then have "lock_current_config (unlock_config c r) = (Some d, r')" using cfg_turn by (simp add: client_config_def)
    then show ?thesis using lock_current_ok unlock_ok [OF assms(2)] cfg_turn by blast
  qed
next
  case (cfg_lock c)
  then show ?thesis using lock_current_ok [OF assms(2)] by simp
next
  case (cfg_again c)
  then show ?thesis using lock_ok [OF assms(2), of c] by (simp add: users_def)
next
  case (cfg_unlock c)
  then show ?thesis using unlock_ok [OF assms(2)] by simp
next
  case (cfg_reload new)
  then show ?thesis using reload_ok [OF assms(2)] by simp
qed

lemma cfg_reach_ok: "cfg_reach s \<Longrightarrow> refs_ok (fst s) (snd s)"
proof (induction rule: cfg_reach.induct)
  case (cfg_init r c)
  then show ?case by (simp add: refs_ok_def replace_current_def new_config_def users_def Let_def)
next
  case (cfg_next s s')
  then show ?case using cfg_step_ok by (metis prod.collapse)
qed

text \<open>
  The server manager: \<^verbatim>\<open>servmgr\<close> locks the configuration for the time of \<^verbatim>\<open>do_server\<close>, and a reload by
  \<^verbatim>\<open>checkcfg\<close> in that time does not free it.
\<close>

lemma held_survives_reload:
  assumes "cfg_reach (r, h)" "c \<in># h" "new \<notin> cr_live r"
  shows "c \<in> cr_live (replace_current new r)"
proof -
  have "refs_ok (replace_current new r) h" using reload_ok [OF _ assms(3)] cfg_reach_ok [OF assms(1)] by simp
  then show ?thesis using assms(2) by (simp add: refs_ok_def users_def split: option.splits)
qed

text \<open>
  C15: through any sequence of reloads, of locks and of their ends, a configuration that is in use is never
  freed, and one that is not used any more has been: exactly the current one and those that are held are
  allocated, and each counts its users.  So a manager that holds the configuration it started with may read
  it after a reload, which the comments in \<^verbatim>\<open>do_server\<close> deny (\<open>held_survives_reload\<close>).
\<close>

theorem configuration_not_freed_in_use:
  assumes "cfg_reach (r, h)"
  shows "cr_live r = set_mset h \<union> set_option (cr_cur r) \<and> cr_cur r \<noteq> None \<and>
    (\<forall>c\<in>cr_live r. cr_usage r c = int (count h c) + (if cr_cur r = Some c then 1 else 0))"
proof -
  have o: "refs_ok r h" using cfg_reach_ok [OF assms] by simp
  then obtain cur where c: "cr_cur r = Some cur" by (auto simp: refs_ok_def)
  then have u: "users r h = add_mset cur h" by (simp add: users_def)
  have "cr_live r = insert cur (set_mset h)" "\<forall>c\<in>#add_mset cur h. cr_usage r c = int (count (add_mset cur h) c)"
    using o unfolding refs_ok_def u by simp_all
  then show ?thesis using c by simp
qed

theorem configuration_not_freed_in_use_witness:
  "\<exists>r. cfg_reach (r, {#5#}) \<and> cr_cur r = Some 6 \<and> cr_live r = {5, 6}"
proof -
  let ?e = "\<lparr>cr_usage = \<lambda>_. 0, cr_live = {}, cr_cur = None\<rparr>"
  let ?a = "replace_current 5 ?e"
  have a: "cfg_reach (?a, {#})" by (rule cfg_init) simp_all
  have l: "lock_current_config ?a = (Some 5, lock_config 5 ?a)"
    by (simp add: lock_current_config_def replace_current_def Let_def)
  have b: "cfg_reach (lock_config 5 ?a, {#5#})" using cfg_next [OF a cfg_lock [OF l]] by simp
  have n: "6 \<notin> cr_live (lock_config 5 ?a)" by (simp add: lock_config_def replace_current_def new_config_def Let_def)
  let ?r = "replace_current 6 (lock_config 5 ?a)"
  have r: "cfg_reach (?r, {#5#})" by (rule cfg_next [OF b cfg_reload [OF n]])
  have c: "cr_cur ?r = Some 6" by (simp add: lock_config_def replace_current_def new_config_def unlock_config_def Let_def)
  show ?thesis using configuration_not_freed_in_use [OF r] r c by (intro exI [of _ ?r]) (simp add: insert_commute)
qed

end
