(* ===== verification/Spec2Isabelle.thy ===== *)
theory Spec2Isabelle
  imports Prelude Crypt Strings Pmatch Ftnaddr Getw Hosts Files Types Bsy Ftnnode Ftnq Readflo Prothlp Md5b State Send Spool Inbound Login Filemsg Recv Session Framing Frame Access Delivery Readcfg Config Showcfg Srif Events Bsycleanup Client Calls Manager Release Server Served Start Binlog Exitproc Cfgref
begin

text \<open>
  A verification of binkd, a FidoNet mailer: a program that calls other systems over TCP/IP, or answers
  their calls, speaks the binkp protocol with them, and exchanges the files of a BSO outbound.

  \<^bold>\<open>The program.\<close>  \<^verbatim>\<open>main\<close> (\<^verbatim>\<open>src/binkd.c\<close>) reads the command line and the configuration (\<^verbatim>\<open>readcfg.c\<close>, with the
  words of \<^verbatim>\<open>getw.c\<close>), removes old flags (\<^verbatim>\<open>bsycleanup.c\<close>), and becomes one session, a client manager
  (\<^verbatim>\<open>client.c\<close>), or a server manager (\<^verbatim>\<open>server.c\<close>) with a client manager as its child.  The client manager scans
  the outbound (\<^verbatim>\<open>ftnq.c\<close>), picks the best node of the node table (\<^verbatim>\<open>ftnnode.c\<close>) whose flags (\<^verbatim>\<open>bsy.c\<close>) are free
  and starts a child that calls it; the server manager starts a child for every connection.  Both kinds of
  children run \<^verbatim>\<open>protocol\<close> (\<^verbatim>\<open>protocol.c\<close>): a banner, the exchange of addresses and the password (with the
  challenge of \<^verbatim>\<open>md5b.c\<close>), then both sides send files (from the queue of \<^verbatim>\<open>ftnq.c\<close> and the flow files of
  \<^verbatim>\<open>readflo.c\<close>) and receive files (into the inbound of \<^verbatim>\<open>inbound.c\<close>), perhaps encrypted (\<^verbatim>\<open>crypt.c\<close>).  Received
  files may start commands or be answered requests (\<^verbatim>\<open>srif.c\<close>).  Processes share nothing but the file system;
  they keep out of each other's way by the flags.

  \<^bold>\<open>The build.\<close>  The Unix build with \<^verbatim>\<open>fork\<close> and without the options Perl, compression, proxies, bandwidth limits
  and the Amiga outbound: the default one.  Where a function has branches for other builds, they are left out.

  \<^bold>\<open>Conventions.\<close>  A C string is a list of characters without NUL.  An \<^verbatim>\<open>int\<close> is an \<open>int\<close> with the conversion
  written out (\<open>to_int32\<close>) where it can matter; bytes, keys and digests are words.  A function that can fail in
  C returns an \<open>option\<close> or a sum.  \<open>None\<close> as the result of a whole operation marks what C leaves undefined (a
  read outside an array, a NULL pointer) or a loop that does not end; the branch is kept where the code has it.
  Three places differ, and say so: the counter of \<^verbatim>\<open>next_inb_filename\<close> takes the byte in front of its array
  for a separator (\<open>bump\<close>); the extension of zones above 4095, which overruns \<^verbatim>\<open>ext[]\<close>, is simply appended
  (\<open>zone_ext\<close>; \<open>outbound_name_injective\<close> leaves such zones out); and \<open>pack_msgs\<close> gives \<open>None\<close> for a message
  that is too long, where C goes on with a pointer that is off.
  Results of the system that are not in the file system (sockets, resolver, random numbers, \<^verbatim>\<open>fork\<close>,
  \<^verbatim>\<open>waitpid\<close>) are arguments: lists of events, or fields of the state whose names begin with \<open>x\<close>, and the
  theorems hold for all of them.  Log lines are not modelled.

  \<^bold>\<open>Theories, from the bottom up.\<close>
  \<^item> \<^theory_text>\<open>Prelude\<close>: C widths, character classes, number conversions, lists.
  \<^item> \<^theory_text>\<open>Crypt\<close> (\<^verbatim>\<open>crypt.c\<close>, \<^verbatim>\<open>crypt.h\<close>), \<^theory_text>\<open>Strings\<close> (\<^verbatim>\<open>tools.c\<close>), \<^theory_text>\<open>Pmatch\<close> (\<^verbatim>\<open>pmatch.c\<close>), \<^theory_text>\<open>Md5b\<close> (\<^verbatim>\<open>md5b.c\<close>),
    \<^theory_text>\<open>Ftnaddr\<close> (\<^verbatim>\<open>ftnaddr.c\<close>, \<^verbatim>\<open>ftndom.c\<close>), \<^theory_text>\<open>Getw\<close> (\<^verbatim>\<open>getw.c\<close>): the pure parts.  Shown: decryption undoes
    encryption however the stream is cut; digests do not depend on how the text is fed; addresses are printed and
    parsed back; a wildcard matches what its reference relation says; different addresses with numbers of 16 bits
    have different outbound names.
  \<^item> \<^theory_text>\<open>Files\<close>: a store of paths with the system calls the program makes, and the wrappers of \<^verbatim>\<open>tools.c\<close> and
    \<^verbatim>\<open>unix/rename.c\<close>.  A path is the string the program passes, compared literally (no links, no \<^verbatim>\<open>..\<close>).
    \<open>w_denied\<close>, \<open>w_full\<close> and \<open>w_nolink\<close> let calls fail.  \<open>o_rename_with\<close> has a place for what other processes do
    between the two calls of the renaming without hard links, which its theorem bounds.
  \<^item> \<^theory_text>\<open>Types\<close> (\<^verbatim>\<open>btypes.h\<close>, \<^verbatim>\<open>readcfg.h\<close>, \<^verbatim>\<open>readflo.h\<close>): nodes, files in transfer, queue entries, configuration.
  \<^item> \<^theory_text>\<open>Bsy\<close> (\<^verbatim>\<open>bsy.c\<close>): the flags.  The operations are an instance of the locale \<open>exclusive_lock\<close>, twice, for the
    removal in a session and at exit; from it follows that two processes never hold the same flag.
  \<^item> \<^theory_text>\<open>Ftnnode\<close> (\<^verbatim>\<open>ftnnode.c\<close>): the sorted table (locale \<open>keyed_cmp\<close>); it refines a map from addresses to nodes.
  \<^item> \<^theory_text>\<open>Ftnq\<close> (\<^verbatim>\<open>ftnq.c\<close>): the scan of outbound directories and boxes, the queue, holds and tries, the next node.
  \<^item> \<^theory_text>\<open>Readflo\<close> (\<^verbatim>\<open>readflo.c\<close>), \<^theory_text>\<open>Prothlp\<close> (\<^verbatim>\<open>prothlp.c\<close>), \<^theory_text>\<open>Hosts\<close> (the host lists of nodes).
  \<^item> \<^theory_text>\<open>State\<close>, \<^theory_text>\<open>Send\<close>, \<^theory_text>\<open>Spool\<close>, \<^theory_text>\<open>Inbound\<close>, \<^theory_text>\<open>Login\<close>, \<^theory_text>\<open>Filemsg\<close>, \<^theory_text>\<open>Recv\<close>, \<^theory_text>\<open>Session\<close> (\<^verbatim>\<open>protocol.c\<close>,
    \<^verbatim>\<open>protoco2.h\<close>, \<^verbatim>\<open>inbound.c\<close>): the structure \<^verbatim>\<open>STATE\<close> as the record \<open>session\<close>, one definition for each function or
    message handler, and \<open>protocol\<close>, which runs a whole session on a list of \<^verbatim>\<open>select\<close> results.
  \<^item> \<^theory_text>\<open>Framing\<close>: what is sent arrives, in order, however the network cuts it; \<^theory_text>\<open>Frame\<close>: which operations leave
    the login alone; \<^theory_text>\<open>Access\<close>: the invariants of all reachable states (\<open>reaches\<close>), who gets a protected session
    (and who gets one he should not, \<open>conflicting_passwords_open\<close>), authentication and key agreement; \<^theory_text>\<open>Delivery\<close>: what becomes of a received file; \<^theory_text>\<open>Release\<close>: the flags at the
    end of sessions and calls.
  \<^item> \<^theory_text>\<open>Readcfg\<close>, \<^theory_text>\<open>Config\<close>, \<^theory_text>\<open>Showcfg\<close> (\<^verbatim>\<open>readcfg.c\<close>): the reader, its table of keywords, passwords and reload,
    the listing; every configuration that is returned is well-formed (locale \<open>reader_invariant\<close>), and a failed
    reload keeps the old one.
  \<^item> \<^theory_text>\<open>Srif\<close>, \<^theory_text>\<open>Events\<close> (\<^verbatim>\<open>srif.c\<close>): flag files, commands and requests for received files.  Shown, for
    the sessions that are reached in \<^theory_text>\<open>Access\<close>: what reaches the shell, and that delayed events happen once.
  \<^item> \<^theory_text>\<open>Bsycleanup\<close> (\<^verbatim>\<open>bsycleanup.c\<close>): exactly which files the cleaning at the start removes.
  \<^item> \<^theory_text>\<open>Client\<close>, \<^theory_text>\<open>Calls\<close>, \<^theory_text>\<open>Manager\<close> (\<^verbatim>\<open>client.c\<close>): one call, compared with a reference that looks at the outcomes of
    all attempts; the client manager, its count of children, its choices, and the end of a poll.
  \<^item> \<^theory_text>\<open>Server\<close>, \<^theory_text>\<open>Served\<close> (\<^verbatim>\<open>server.c\<close>): the listening sockets, the passes of the server manager, its children;
    the limit on servers and what a refused caller can do.
  \<^item> \<^theory_text>\<open>Start\<close> (\<^verbatim>\<open>binkd.c\<close>): the command line after \<^verbatim>\<open>getopt\<close> and \<^verbatim>\<open>main\<close>.
  \<^item> \<^theory_text>\<open>Binlog\<close> (\<^verbatim>\<open>binlog.c\<close>): the records of the statistics, which are only ever appended to and can be read back;
    \<^theory_text>\<open>Exitproc\<close> (\<^verbatim>\<open>exitproc.c\<close>): what every process does at its end, and which flags remain; \<^theory_text>\<open>Cfgref\<close>
    (\<^verbatim>\<open>readcfg.c\<close>): the counts of the users of configurations, across reloads.

  \<^bold>\<open>Bounds and loops.\<close>  Loops over a counted or shrinking thing are ordinary recursion.  Loops that C does not bound
  are partial functions over \<open>option\<close> (the hosts of a node, the words of shared addresses, the lines of a flow
  file, the search for a free name), so that not returning is a value; \<open>move_file_returns\<close> and
  \<open>fopen_again_enough\<close> show when they return, \<open>negative_size_never_opens\<close> when not.  Fixed depths: include files 8
  levels deep (\<^verbatim>\<open>MAXINCLUDELEVEL\<close>), share groups that contain each other 8 levels (\<open>SHARE_DEPTH\<close>; the C recursion
  has no end when they form a circle), point directories 400 (\<open>PNT_DEPTH\<close>, more than a path can hold), 64 words
  for one line of the configuration (more than any keyword takes), two rounds of \<open>fopen_again\<close> (shown to be enough).

  \<^bold>\<open>Composition.\<close>  A session in \<^theory_text>\<open>Session\<close> moves received files to the inbound without running events; those of a
  whole session are modelled by themselves in \<^theory_text>\<open>Srif\<close> (\<open>session_events\<close>, \<open>end_events\<close>); nor does it write the statistics of \<^theory_text>\<open>Binlog\<close>.  \<^theory_text>\<open>Calls\<close> ends in \<open>protocol\<close>, so that its theorems and those of \<^theory_text>\<open>Access\<close> and
  \<^theory_text>\<open>Release\<close> speak of the same session; \<^theory_text>\<open>Manager\<close> uses the theorem of \<^theory_text>\<open>Ftnq\<close> on the next node, \<^theory_text>\<open>Server\<close> the
  reload of \<^theory_text>\<open>Readcfg\<close> and the children of \<^theory_text>\<open>Client\<close>, \<^theory_text>\<open>Start\<close> the reader, the cleaning and the polls.

  \<^bold>\<open>Not modelled.\<close>  Log lines and process titles (output only); the calls of the system under sockets,
  pipes and processes (\<^verbatim>\<open>iptools.c\<close>, \<^verbatim>\<open>run.c\<close>, \<^verbatim>\<open>branch.c\<close>, \<^verbatim>\<open>rfc2553.c\<close>, \<^verbatim>\<open>srv_gai.c\<close>), whose results are
  arguments; code that is off in this build (\<^verbatim>\<open>perlhooks.c\<close>, \<^verbatim>\<open>compress.c\<close>, \<^verbatim>\<open>https.c\<close>, \<^verbatim>\<open>ntlm/\<close>, the directories
  of other systems); \<^verbatim>\<open>snprintf.c\<close> and \<^verbatim>\<open>getopt.c\<close>, which stand in for the C library; and the separate programs
  under \<^verbatim>\<open>misc/\<close>.
\<close>

end
